(* ===== verification/Spy_Prelude.thy ===== *)
theory Spy_Prelude
  imports Main "HOL-Library.Word"
begin

text \<open>
  Shared ground of the development: the C integer types as words, the errno values the
  hypervisor and the kernel module return, checked accesses to C arrays, and the generic facts
  on words and lists that the component theories use.

  A C function that returns "0 or a negative errno" has the type \<open>unit res\<close>, one that
  returns "an index or a negative errno" the type \<open>nat res\<close>. An access outside an array is
  undefined behaviour in C; the models return \<open>None\<close> there, so that "the result is
  \<open>Some\<close>" is a memory-safety statement.
\<close>

unbundle bit_operations_syntax

subsection \<open>C integer types\<close>

type_synonym u8 = "8 word"
type_synonym u16 = "16 word"
type_synonym u32 = "32 word"
type_synonym u64 = "64 word"

subsection \<open>Error codes\<close>

datatype errno =
  EPERM | ENOENT | EIO | E2BIG | ENOMEM | EFAULT | EBUSY | ENODEV | EINVAL | ERANGE | ENOSYS

text \<open>The numeric values of the standard \<open>errno.h\<close>.\<close>

fun errno_code :: "errno \<Rightarrow> int" where
  "errno_code EPERM = 1"
| "errno_code ENOENT = 2"
| "errno_code EIO = 5"
| "errno_code E2BIG = 7"
| "errno_code ENOMEM = 12"
| "errno_code EFAULT = 14"
| "errno_code EBUSY = 16"
| "errno_code ENODEV = 19"
| "errno_code EINVAL = 22"
| "errno_code ERANGE = 34"
| "errno_code ENOSYS = 38"

type_synonym 'a res = "errno + 'a"

abbreviation OK :: "unit res" where
  "OK \<equiv> Inr ()"

lemma errno_code_pos [simp]: "0 < errno_code e"
  by (cases e) simp_all

lemma errno_code_inj: "errno_code a = errno_code b \<Longrightarrow> a = b"
  by (cases a; cases b) simp_all

text \<open>Error codes are ordered by their value, as the tests \<open>result < 0\<close> of the code see them.\<close>

instantiation errno :: linorder
begin

definition less_eq_errno :: "errno \<Rightarrow> errno \<Rightarrow> bool" where
  "less_eq_errno a b \<longleftrightarrow> errno_code a \<le> errno_code b"

definition less_errno :: "errno \<Rightarrow> errno \<Rightarrow> bool" where
  "less_errno a b \<longleftrightarrow> errno_code a < errno_code b"

instance
  by standard (auto simp: less_eq_errno_def less_errno_def dest: errno_code_inj)

end

subsection \<open>Checked array accesses\<close>

definition array_get :: "'a list \<Rightarrow> nat \<Rightarrow> 'a option" where
  "array_get xs i = (if i < length xs then Some (xs ! i) else None)"

definition array_set :: "'a list \<Rightarrow> nat \<Rightarrow> 'a \<Rightarrow> 'a list option" where
  "array_set xs i v = (if i < length xs then Some (xs[i := v]) else None)"

lemma array_get_Some [simp]: "i < length xs \<Longrightarrow> array_get xs i = Some (xs ! i)"
  by (simp add: array_get_def)

lemma array_set_Some [simp]: "i < length xs \<Longrightarrow> array_set xs i v = Some (xs[i := v])"
  by (simp add: array_set_def)

lemma array_get_None [simp]: "length xs \<le> i \<Longrightarrow> array_get xs i = None"
  by (simp add: array_get_def)

lemma array_set_None [simp]: "length xs \<le> i \<Longrightarrow> array_set xs i v = None"
  by (simp add: array_set_def)

subsection \<open>Words\<close>

text \<open>\<open>masks\<close> collects the characteristic bits of the code's masks and flag constants.\<close>

named_theorems masks "the bits of mask constants"

lemma all_ones64 [simp]: "(0xffffffffffffffff :: u64) = - 1"
  by simp

lemma unat_word_plus_small:
  fixes a b :: "'a::len word"
  assumes "unat a + unat b < 2 ^ LENGTH('a)"
  shows "unat (a + b) = unat a + unat b"
  using assms by (simp add: unat_word_ariths)

lemma ucast_u32_u64: "(ucast (ucast (x :: u32) :: u64) :: u32) = x"
  by (rule bit_word_eqI) (auto simp: bit_simps)

lemma word_and_or_not:
  fixes v m :: "'a::len word"
  shows "(v AND m) OR (v AND NOT m) = v"
  by (rule bit_word_eqI) (auto simp: bit_simps)

lemma word_and_not_disjoint:
  fixes v x :: "'a::len word"
  assumes "v AND x = 0"
  shows "v AND NOT x = v" "(v OR x) AND NOT x = v"
proof -
  have "\<not> (bit v n \<and> bit x n)" for n
    using assms by (metis bit_and_iff bit_0_eq bot_apply bot_bool_def)
  then show "v AND NOT x = v" "(v OR x) AND NOT x = v"
    by - (rule bit_word_eqI; auto simp: bit_simps)+
qed

lemma unat_push_or:
  fixes a b :: "'a::len word"
  assumes "unat b < 2 ^ k" "2 ^ k * unat a + unat b < 2 ^ LENGTH('a)"
  shows "unat (push_bit k a OR b) = 2 ^ k * unat a + unat b"
proof -
  have "take_bit k (unat b) = unat b"
    using assms(1) by (simp add: take_bit_nat_eq_self)
  then have "take_bit k b = b"
    by (metis unsigned_take_bit_eq word_unat_eq_iff)
  then have low: "n < k" if "bit b n" for n
    using that by (metis bit_take_bit_iff)
  have "push_bit k a AND b = 0"
    by (rule bit_word_eqI) (auto simp: bit_simps dest: low)
  then have "push_bit k a OR b = push_bit k a + b"
    by (simp add: disjunctive_add_eq_or)
  moreover have "unat (push_bit k a) = 2 ^ k * unat a"
  proof -
    have "2 ^ k * unat a < 2 ^ LENGTH('a)"
      using assms(2) by linarith
    then show ?thesis
      unfolding unsigned_push_bit_eq by (simp add: take_bit_nat_eq_self push_bit_eq_mult mult.commute)
  qed
  ultimately show ?thesis
    using assms(2) by (simp add: unat_word_plus_small)
qed

lemma unat_and_mask_less:
  fixes v m :: "'a::len word"
  assumes "unat m < n"
  shows "unat (v AND m) < n"
  using assms word_and_le1 [of v m] by (simp add: word_le_nat_alt)

lemma single_bit_and_zero_iff:
  fixes v :: "'a::len word"
  assumes "n < LENGTH('a)"
  shows "v AND push_bit n 1 = 0 \<longleftrightarrow> \<not> bit v n"
  using assms by (simp add: and_exp_eq_0_iff_not_bit push_bit_eq_mult)

lemma word_and_eq_right_iff:
  fixes a b :: "'a::len word"
  shows "a AND b = b \<longleftrightarrow> (\<forall>n. bit b n \<longrightarrow> bit a n)"
proof
  assume "a AND b = b"
  then show "\<forall>n. bit b n \<longrightarrow> bit a n"
    by (metis bit_and_iff)
next
  assume "\<forall>n. bit b n \<longrightarrow> bit a n"
  then show "a AND b = b"
    by (intro bit_word_eqI) (auto simp: bit_and_iff)
qed

subsection \<open>Transition systems and their invariants\<close>

text \<open>
  An interface for every step relation of the model: an initial condition, the steps, and an
  invariant that starts true and that every step keeps. What holds of all states reached is
  proved once, here.
\<close>

locale transition_system =
  fixes start :: "'s \<Rightarrow> bool" and step :: "'s \<Rightarrow> 's \<Rightarrow> bool" and inv :: "'s \<Rightarrow> bool"
  assumes start_inv: "start s \<Longrightarrow> inv s"
    and step_inv: "inv s \<Longrightarrow> step s s' \<Longrightarrow> inv s'"
begin

lemma steps_inv: "step\<^sup>*\<^sup>* s s' \<Longrightarrow> inv s \<Longrightarrow> inv s'"
  by (induction rule: rtranclp_induct) (auto intro: step_inv)

lemma reachable_inv: "start s \<Longrightarrow> step\<^sup>*\<^sup>* s s' \<Longrightarrow> inv s'"
  by (blast intro: start_inv steps_inv)

end

subsection \<open>Refinement of an abstract operation\<close>

text \<open>
  A component whose operations may fail against an abstract state: a step that reports success does
  what the specification says, one that reports failure leaves the abstract state alone.
\<close>

fun run_ops :: "('op \<Rightarrow> 's \<Rightarrow> (bool \<times> 's) option) \<Rightarrow> 'op list \<Rightarrow> 's \<Rightarrow> (bool list \<times> 's) option" where
  "run_ops step [] s = Some ([], s)"
| "run_ops step (op # ops) s =
     (case step op s of
        None \<Rightarrow> None
      | Some (r, s) \<Rightarrow> map_option (\<lambda>(rs, s). (r # rs, s)) (run_ops step ops s))"

fun ops_ok :: "('op \<Rightarrow> 's \<Rightarrow> (bool \<times> 's) option) \<Rightarrow> ('s \<Rightarrow> 'op \<Rightarrow> bool) \<Rightarrow> 'op list \<Rightarrow> 's \<Rightarrow> bool" where
  "ops_ok step ok [] s \<longleftrightarrow> True"
| "ops_ok step ok (op # ops) s \<longleftrightarrow>
     ok s op \<and> (case step op s of None \<Rightarrow> True | Some (r, s) \<Rightarrow> ops_ok step ok ops s)"

fun spec_ops :: "('op \<Rightarrow> 'm \<Rightarrow> 'm) \<Rightarrow> 'op list \<Rightarrow> bool list \<Rightarrow> 'm \<Rightarrow> 'm" where
  "spec_ops spec (op # ops) (r # rs) m = spec_ops spec ops rs (if r then spec op m else m)"
| "spec_ops spec ops rs m = m"

locale operation_refinement =
  fixes inv :: "'s \<Rightarrow> bool" and ok :: "'s \<Rightarrow> 'op \<Rightarrow> bool" and step :: "'op \<Rightarrow> 's \<Rightarrow> (bool \<times> 's) option"
    and abs :: "'s \<Rightarrow> 'm" and spec :: "'op \<Rightarrow> 'm \<Rightarrow> 'm"
  assumes step_refines: "inv s \<Longrightarrow> ok s op \<Longrightarrow>
    \<exists>r s'. step op s = Some (r, s') \<and> inv s' \<and> abs s' = (if r then spec op (abs s) else abs s)"
begin

lemma run_refines:
  "inv s \<Longrightarrow> ops_ok step ok ops s \<Longrightarrow>
    \<exists>rs s'. run_ops step ops s = Some (rs, s') \<and> length rs = length ops \<and> inv s' \<and>
      abs s' = spec_ops spec ops rs (abs s)"
proof (induction ops arbitrary: s)
  case Nil
  then show ?case by simp
next
  case (Cons op ops)
  obtain r s1 where s1: "step op s = Some (r, s1)" "inv s1" "abs s1 = (if r then spec op (abs s) else abs s)"
    using step_refines [of s op] Cons.prems by auto
  then have "ops_ok step ok ops s1"
    using Cons.prems(2) by simp
  from Cons.IH [OF s1(2) this] obtain rs s' where
    "run_ops step ops s1 = Some (rs, s')" "length rs = length ops" "inv s'" "abs s' = spec_ops spec ops rs (abs s1)"
    by blast
  then show ?case
    using s1 by (intro exI [of _ "r # rs"] exI [of _ s']) simp
qed

end

end
