(* ===== verification/Spy_Bitops.thy ===== *)
theory Spy_Bitops
  imports Spy_Prelude
begin

text \<open>
  Bit operations and size macros: \<open>spy/bitops.h\<close>, \<open>asm/bitops.h\<close>, \<open>spy/utils.h\<close> and the
  size macros of \<open>spy/paging.h\<close>. \<open>set_bit_c\<close> and \<open>clear_bit_c\<close> work as the code does, on
  the 64-bit longs that overlay a byte array; the locale \<open>bit_array\<close> states what they promise
  bit by bit, and clients (the I/O permission bitmap) use only that.
\<close>

subsection \<open>Mask and field macros\<close>

abbreviation (input) BITS_PER_LONG :: nat where
  "BITS_PER_LONG \<equiv> 64"

definition BYTE_MASK :: "nat \<Rightarrow> u64" where
  "BYTE_MASK sz = drop_bit ((8 - sz) * 8) 0xffffffffffffffff"

definition BIT_MASK :: "nat \<Rightarrow> nat \<Rightarrow> u64" where
  "BIT_MASK l f = push_bit f (drop_bit (64 - (l + 1 - f)) 0xffffffffffffffff)"

definition GET_FIELD :: "u64 \<Rightarrow> nat \<Rightarrow> nat \<Rightarrow> u64" where
  "GET_FIELD v l f = drop_bit f (v AND BIT_MASK l f)"

definition SET_FIELD :: "u64 \<Rightarrow> nat \<Rightarrow> nat \<Rightarrow> u64" where
  "SET_FIELD v l f = push_bit f v AND BIT_MASK l f"

lemma bit_BIT_MASK [masks]:
  "f \<le> l \<Longrightarrow> l < 64 \<Longrightarrow> bit (BIT_MASK l f) n \<longleftrightarrow> f \<le> n \<and> n \<le> l"
  unfolding BIT_MASK_def all_ones64 by (auto simp: bit_simps)

lemma bit_BYTE_MASK [masks]:
  "sz \<le> 8 \<Longrightarrow> bit (BYTE_MASK sz) n \<longleftrightarrow> n < 8 * sz"
  unfolding BYTE_MASK_def all_ones64 by (auto simp: bit_simps)

lemma bit_GET_FIELD:
  "f \<le> l \<Longrightarrow> l < 64 \<Longrightarrow> bit (GET_FIELD v l f) n \<longleftrightarrow> f + n \<le> l \<and> bit v (f + n)"
  by (auto simp: GET_FIELD_def bit_simps masks add.commute)

lemma bit_SET_FIELD:
  "f \<le> l \<Longrightarrow> l < 64 \<Longrightarrow> bit (SET_FIELD v l f) n \<longleftrightarrow> f \<le> n \<and> n \<le> l \<and> bit v (n - f)"
  by (auto simp: SET_FIELD_def bit_simps masks)

lemma BIT_MASK_low: "l < 64 \<Longrightarrow> v AND BIT_MASK l 0 = take_bit (l + 1) v"
  by (rule bit_word_eqI) (auto simp: bit_simps masks)

lemma unat_and_BIT_MASK_low:
  assumes "l < 64"
  shows "unat (v AND BIT_MASK l 0) < 2 ^ (l + 1)"
proof -
  have "unat (take_bit (l + 1) v) = take_bit (l + 1) (unat v)"
    by (simp add: unsigned_take_bit_eq)
  then show ?thesis
    using assms take_bit_nat_less_exp [of "l + 1" "unat v"] by (simp add: BIT_MASK_low)
qed

subsection \<open>Minimum and maximum\<close>

definition MAX_u32 :: "u32 \<Rightarrow> u32 \<Rightarrow> u32" where
  "MAX_u32 a b = (if a \<ge> b then a else b)"

definition MIN_u32 :: "u32 \<Rightarrow> u32 \<Rightarrow> u32" where
  "MIN_u32 a b = (if a \<le> b then a else b)"

lemma unat_MAX_u32: "unat (MAX_u32 a b) = max (unat a) (unat b)"
  by (auto simp: MAX_u32_def word_le_nat_alt max_def)

lemma unat_MIN_u32: "unat (MIN_u32 a b) = min (unat a) (unat b)"
  by (auto simp: MIN_u32_def word_le_nat_alt min_def)

subsection \<open>Page size macros\<close>

abbreviation (input) PAGE_SHIFT :: nat where
  "PAGE_SHIFT \<equiv> 12"

abbreviation (input) PAGE_SIZE :: u64 where
  "PAGE_SIZE \<equiv> 4096"

definition PAGE_MASK :: u64 where
  "PAGE_MASK = NOT (PAGE_SIZE - 1)"

definition PAGE_OFFS_MASK :: u64 where
  "PAGE_OFFS_MASK = PAGE_SIZE - 1"

definition PAGE_ALIGN :: "u64 \<Rightarrow> u64" where
  "PAGE_ALIGN s = (s + PAGE_SIZE - 1) AND PAGE_MASK"

definition PAGES :: "u64 \<Rightarrow> u64" where
  "PAGES s = (s + PAGE_SIZE - 1) div PAGE_SIZE"

lemma PAGE_OFFS_MASK_eq: "PAGE_OFFS_MASK = mask 12"
  by (simp add: PAGE_OFFS_MASK_def mask_eq_exp_minus_1)

lemma bit_PAGE_OFFS_MASK [masks]: "bit PAGE_OFFS_MASK n \<longleftrightarrow> n < 12"
  by (auto simp: PAGE_OFFS_MASK_eq bit_simps)

lemma bit_PAGE_MASK [masks]: "bit PAGE_MASK n \<longleftrightarrow> 12 \<le> n \<and> n < 64"
  using bit_PAGE_OFFS_MASK [of n]
  by (auto simp: PAGE_MASK_def PAGE_OFFS_MASK_def bit_simps)

lemma and_PAGE_OFFS_MASK: "v AND PAGE_OFFS_MASK = take_bit 12 v"
  by (simp add: PAGE_OFFS_MASK_eq take_bit_eq_mask and.commute)

lemma and_PAGE_MASK: "v AND PAGE_MASK = push_bit 12 (drop_bit 12 v)"
  by (rule bit_word_eqI) (auto simp: bit_simps masks)

lemma PAGES_drop_bit: "PAGES s = drop_bit 12 (s + PAGE_SIZE - 1)"
  by (simp add: PAGES_def drop_bit_eq_div)

lemma PAGE_ALIGN_PAGES: "PAGE_ALIGN s = PAGES s * PAGE_SIZE"
  by (simp add: PAGE_ALIGN_def PAGES_drop_bit and_PAGE_MASK push_bit_eq_mult)

lemma PAGE_ALIGN_aligned: "PAGE_ALIGN s AND PAGE_OFFS_MASK = 0"
  by (rule bit_word_eqI) (auto simp: PAGE_ALIGN_def bit_simps masks)

subsection \<open>Bits of a byte array, accessed through 64-bit longs\<close>

text \<open>
  The code casts a byte buffer to \<open>unsigned long *\<close>. \<open>load_long\<close> and \<open>store_long\<close> read and
  write long number \<open>i\<close> of a byte buffer in little-endian order; an access beyond the buffer is
  \<open>None\<close>.
\<close>

primrec long_of_bytes :: "u8 list \<Rightarrow> u64" where
  "long_of_bytes [] = 0"
| "long_of_bytes (b # bs) = ucast b OR push_bit 8 (long_of_bytes bs)"

definition bytes_of_long :: "u64 \<Rightarrow> u8 list" where
  "bytes_of_long w = map (\<lambda>k. ucast (drop_bit (8 * k) w)) [0..<8]"

definition load_long :: "u8 list \<Rightarrow> nat \<Rightarrow> u64 option" where
  "load_long bm i =
     (if 8 * i + 8 \<le> length bm then Some (long_of_bytes (take 8 (drop (8 * i) bm))) else None)"

definition store_long :: "u8 list \<Rightarrow> nat \<Rightarrow> u64 \<Rightarrow> u8 list option" where
  "store_long bm i w =
     (if 8 * i + 8 \<le> length bm
      then Some (take (8 * i) bm @ bytes_of_long w @ drop (8 * i + 8) bm) else None)"

definition clear_bit_c :: "nat \<Rightarrow> u8 list \<Rightarrow> u8 list option" where
  "clear_bit_c nr bm =
     (case load_long bm (nr div BITS_PER_LONG) of
        None \<Rightarrow> None
      | Some w \<Rightarrow> store_long bm (nr div BITS_PER_LONG)
                   (w AND NOT (push_bit (nr mod BITS_PER_LONG) 1)))"

definition set_bit_c :: "nat \<Rightarrow> u8 list \<Rightarrow> u8 list option" where
  "set_bit_c nr bm =
     (case load_long bm (nr div BITS_PER_LONG) of
        None \<Rightarrow> None
      | Some w \<Rightarrow> store_long bm (nr div BITS_PER_LONG)
                   (w OR push_bit (nr mod BITS_PER_LONG) 1))"

definition constant_test_bit :: "nat \<Rightarrow> u8 list \<Rightarrow> bool option" where
  "constant_test_bit nr bm =
     (case load_long bm (nr div BITS_PER_LONG) of
        None \<Rightarrow> None
      | Some w \<Rightarrow> Some (push_bit (nr mod BITS_PER_LONG) 1 AND w \<noteq> 0))"

text \<open>\<open>lock btsq\<close>: set the bit and return its old value.\<close>

definition atomic_test_and_set_bit :: "nat \<Rightarrow> u8 list \<Rightarrow> (bool \<times> u8 list) option" where
  "atomic_test_and_set_bit nr bm =
     (case constant_test_bit nr bm of
        None \<Rightarrow> None
      | Some old \<Rightarrow> map_option (Pair old) (set_bit_c nr bm))"

text \<open>The bit as the hardware sees it: bit \<open>n mod 8\<close> of byte \<open>n div 8\<close>.\<close>

definition byte_bit :: "u8 list \<Rightarrow> nat \<Rightarrow> bool" where
  "byte_bit bm n \<longleftrightarrow> n div 8 < length bm \<and> bit (bm ! (n div 8)) (n mod 8)"

text \<open>Bit \<open>n\<close> is bit \<open>n mod 64\<close> of long \<open>n div 64\<close> and bit \<open>n mod 8\<close> of byte \<open>n div 8\<close>.\<close>

lemma div_64: "(n::nat) div 64 = n div 8 div 8"
  by (simp add: div_mult2_eq [of n 8 8, simplified])

lemma mod_64_div: "(n::nat) mod 64 div 8 = n div 8 mod 8"
  using mod_mult2_eq [of n 8 8] by simp

lemma mod_64_mod: "(n::nat) mod 64 mod 8 = n mod 8"
  by (simp add: mod_mod_cancel)

lemma length_bytes_of_long [simp]: "length (bytes_of_long w) = 8"
  by (simp add: bytes_of_long_def)

lemma bit_bytes_of_long:
  assumes "k < 64"
  shows "bit (bytes_of_long w ! (k div 8)) (k mod 8) \<longleftrightarrow> bit w k"
proof -
  have "k div 8 < 8" "8 * (k div 8) + k mod 8 = k"
    using assms by auto
  then show ?thesis
    by (auto simp: bytes_of_long_def bit_simps)
qed

lemma bit_long_of_bytes:
  "length bs \<le> 8 \<Longrightarrow> bit (long_of_bytes bs) n \<longleftrightarrow> n div 8 < length bs \<and> bit (bs ! (n div 8)) (n mod 8)"
proof (induction bs arbitrary: n)
  case Nil
  then show ?case by simp
next
  case (Cons b bs)
  show ?case
  proof (cases "n < 8")
    case True
    then show ?thesis by (auto simp: bit_simps)
  next
    case False
    define m where "m = n - 8"
    have n: "n = m + 8" "n div 8 = Suc (m div 8)" "n mod 8 = m mod 8"
      using False by (simp_all add: m_def le_div_geq le_mod_geq)
    have hi: "\<not> bit (ucast b :: u64) n"
      using False bit_imp_le_length [of b n] by (auto simp: bit_simps)
    have "bit (long_of_bytes (b # bs)) n \<longleftrightarrow> n < 64 \<and> bit (long_of_bytes bs) m"
      using hi False by (auto simp: bit_simps m_def)
    moreover have "m div 8 < length bs \<Longrightarrow> n < 64"
      using Cons.prems n by simp
    ultimately show ?thesis
      using Cons n by auto
  qed
qed

lemma load_long_Some:
  "8 * i + 8 \<le> length bm \<Longrightarrow>
   \<exists>w. load_long bm i = Some w \<and> (\<forall>k < 64. bit w k \<longleftrightarrow> byte_bit bm (64 * i + k))"
proof -
  assume len: "8 * i + 8 \<le> length bm"
  define w where "w = long_of_bytes (take 8 (drop (8 * i) bm))"
  have "bit w k \<longleftrightarrow> byte_bit bm (64 * i + k)" if "k < 64" for k
  proof -
    have k8: "k div 8 < 8"
      using that by simp
    have d: "(64 * i + k) div 8 = 8 * i + k div 8"
      using div_mult_self4 [of 8 "8 * i" k] by (simp add: ac_simps)
    have m: "(64 * i + k) mod 8 = k mod 8"
      using mod_mult_self4 [of 8 "8 * i" k] by (simp add: ac_simps)
    have "bit w k \<longleftrightarrow> bit (take 8 (drop (8 * i) bm) ! (k div 8)) (k mod 8)"
      unfolding w_def using len k8 by (subst bit_long_of_bytes) auto
    then show ?thesis
      using len k8 by (auto simp: byte_bit_def d m)
  qed
  moreover have "load_long bm i = Some w"
    using len by (simp add: load_long_def w_def)
  ultimately show ?thesis by blast
qed

lemma store_long_Some:
  "8 * i + 8 \<le> length bm \<Longrightarrow>
   \<exists>bm'. store_long bm i w = Some bm' \<and> length bm' = length bm \<and>
     (\<forall>n. byte_bit bm' n \<longleftrightarrow> (if n div 64 = i then bit w (n mod 64) else byte_bit bm n))"
proof -
  assume len: "8 * i + 8 \<le> length bm"
  define bm' where "bm' = take (8 * i) bm @ bytes_of_long w @ drop (8 * i + 8) bm"
  have l: "length bm' = length bm"
    using len by (simp add: bm'_def)
  have "byte_bit bm' n \<longleftrightarrow> (if n div 64 = i then bit w (n mod 64) else byte_bit bm n)" for n
  proof (cases "n div 8 div 8 = i")
    case True
    obtain r where q: "n div 8 = 8 * i + r" and r: "r < 8" "n div 8 mod 8 = r"
      using True by (metis mod_less_divisor mult_div_mod_eq zero_less_numeral)
    then have "bm' ! (n div 8) = bytes_of_long w ! r"
      unfolding bm'_def q using len by (simp add: nth_append)
    moreover have "n div 8 < length bm"
      using q r len by linarith
    ultimately show ?thesis
      using True l r bit_bytes_of_long [of "n mod 64" w]
      by (simp add: byte_bit_def div_64 mod_64_div mod_64_mod)
  next
    case False
    have "bm' ! (n div 8) = bm ! (n div 8)" if "n div 8 < length bm"
    proof (cases "n div 8 < 8 * i")
      case True
      then show ?thesis using len by (simp add: bm'_def nth_append)
    next
      case ge: False
      with False have "8 * i + 8 \<le> n div 8" "\<not> n div 8 - 8 * i < 8" by linarith+
      then show ?thesis using len that by (simp add: bm'_def nth_append)
    qed
    then show ?thesis
      using False l by (auto simp: byte_bit_def div_64)
  qed
  then show ?thesis
    using len l by (auto simp: store_long_def bm'_def)
qed

text \<open>
  \<open>variable_test_bit\<close>: \<open>bt\<close> with the 32-bit \<open>nr\<close> in a register reads the double word that \<open>nr div 32\<close> selects, and
  \<open>sbb\<close> turns the carry flag into 0 or -1. Bit numbers are not negative.
\<close>

definition load_dword :: "u8 list \<Rightarrow> nat \<Rightarrow> u64 option" where
  "load_dword bm i =
     (if 4 * i + 4 \<le> length bm then Some (long_of_bytes (take 4 (drop (4 * i) bm))) else None)"

definition variable_test_bit :: "nat \<Rightarrow> u8 list \<Rightarrow> int option" where
  "variable_test_bit nr bm =
     map_option (\<lambda>w. if bit w (nr mod 32) then - 1 else 0) (load_dword bm (nr div 32))"

text \<open>\<open>bsf\<close> finds the lowest bit that is set; for 0 its result is not defined.\<close>

definition bsf :: "u64 \<Rightarrow> nat option" where
  "bsf w = find (\<lambda>n. bit w n) [0..<64]"

definition ffsl :: "u64 \<Rightarrow> nat option" where
  "ffsl w = bsf w"

definition ffzl :: "u64 \<Rightarrow> nat option" where
  "ffzl w = bsf (NOT w)"

lemma load_dword_bit:
  assumes "4 * (n div 32) + 4 \<le> length bm"
  shows "\<exists>w. load_dword bm (n div 32) = Some w \<and> (bit w (n mod 32) \<longleftrightarrow> byte_bit bm n)"
proof -
  have d: "n div 8 = 4 * (n div 32) + n mod 32 div 8" "n mod 32 mod 8 = n mod 8" "n mod 32 div 8 < 4"
    using div_mult2_eq [of n 8 4] mod_mult2_eq [of n 8 4] by (simp_all add: mod_mod_cancel)
  let ?bs = "take 4 (drop (4 * (n div 32)) bm)"
  have "bit (long_of_bytes ?bs) (n mod 32) \<longleftrightarrow> bit (?bs ! (n mod 32 div 8)) (n mod 32 mod 8)"
    using assms d(3) by (subst bit_long_of_bytes) auto
  also have "\<dots> \<longleftrightarrow> byte_bit bm n"
    using assms d by (simp add: byte_bit_def)
  finally show ?thesis
    using assms by (simp add: load_dword_def)
qed

text \<open>The two variants of \<open>test_bit\<close> agree on which bits are set, though one answers 1 and the other -1.\<close>

lemma variable_test_bit_agrees:
  assumes "8 * (n div 64) + 8 \<le> length bm"
  shows "constant_test_bit n bm = Some (byte_bit bm n)"
    "variable_test_bit n bm = Some (if byte_bit bm n then - 1 else 0)"
proof -
  obtain w where w: "load_long bm (n div 64) = Some w" "\<forall>k < 64. bit w k \<longleftrightarrow> byte_bit bm (64 * (n div 64) + k)"
    using load_long_Some [OF assms] by blast
  then show "constant_test_bit n bm = Some (byte_bit bm n)"
    using w(2) [rule_format, of "n mod 64"] and_exp_eq_0_iff_not_bit [of w "n mod 64"]
    by (simp add: constant_test_bit_def and.commute)
  have "n div 64 = n div 32 div 2"
    using div_mult2_eq [of n 32 2] by simp
  then have "4 * (n div 32) + 4 \<le> length bm"
    using assms by linarith
  then show "variable_test_bit n bm = Some (if byte_bit bm n then - 1 else 0)"
    using load_dword_bit [of n bm] by (auto simp: variable_test_bit_def)
qed

lemma bsf_Some: "bsf w = Some n \<longleftrightarrow> bit w n \<and> (\<forall>m < n. \<not> bit w m)"
proof -
  have "bit w n \<Longrightarrow> n < 64"
    using bit_imp_le_length [of w n] by simp
  then show ?thesis
    by (auto simp: bsf_def find_Some_iff)
qed

lemma bsf_None: "bsf w = None \<longleftrightarrow> w = 0"
proof -
  have "w = 0" if "\<forall>n < 64. \<not> bit w n"
    using that by (intro bit_word_eqI) auto
  then show ?thesis
    by (auto simp: bsf_def find_None_iff)
qed

text \<open>\<open>ffsl\<close> and \<open>ffzl\<close> give the lowest set and the lowest clear bit of a word, and are undefined
  exactly for the word without such a bit.\<close>

lemma ffsl_ffzl_lowest:
  "(ffsl w = Some n \<longleftrightarrow> bit w n \<and> (\<forall>m < n. \<not> bit w m)) \<and> (ffsl w = None \<longleftrightarrow> w = 0) \<and>
   (ffzl w = Some n \<longleftrightarrow> n < 64 \<and> \<not> bit w n \<and> (\<forall>m < n. bit w m)) \<and> (ffzl w = None \<longleftrightarrow> w = - 1)"
proof -
  have "bit (NOT w) n \<and> (\<forall>m < n. \<not> bit (NOT w) m) \<longleftrightarrow> n < 64 \<and> \<not> bit w n \<and> (\<forall>m < n. bit w m)"
    by (auto simp: bit_simps)
  moreover have "NOT w = 0 \<longleftrightarrow> w = - 1"
    by (metis bit.compl_zero bit.double_compl)
  ultimately show ?thesis
    by (simp add: ffsl_def ffzl_def bsf_Some bsf_None)
qed

text \<open>
  What set, clear and test promise, bit by bit; and that an index beyond the array is caught.
\<close>

locale bit_array =
  fixes bits_of :: "'m \<Rightarrow> nat"
    and test_op :: "'m \<Rightarrow> nat \<Rightarrow> bool"
    and set_op :: "nat \<Rightarrow> 'm \<Rightarrow> 'm option"
    and clear_op :: "nat \<Rightarrow> 'm \<Rightarrow> 'm option"
  assumes set_op_Some: "n < bits_of m \<Longrightarrow>
      \<exists>m'. set_op n m = Some m' \<and> bits_of m' = bits_of m \<and>
        (\<forall>k. test_op m' k \<longleftrightarrow> k = n \<or> test_op m k)"
    and clear_op_Some: "n < bits_of m \<Longrightarrow>
      \<exists>m'. clear_op n m = Some m' \<and> bits_of m' = bits_of m \<and>
        (\<forall>k. test_op m' k \<longleftrightarrow> k \<noteq> n \<and> test_op m k)"
    and set_op_None: "bits_of m \<le> n \<Longrightarrow> set_op n m = None"
    and clear_op_None: "bits_of m \<le> n \<Longrightarrow> clear_op n m = None"

text \<open>
  The loop of \<open>pio_allow_access\<close> over a region: \<open>for (; length > 0; length--, start_bit++)\<close>
  with \<open>access_method\<close> a function pointer and \<open>start_bit\<close> an \<open>unsigned int\<close>.
\<close>

fun access_loop :: "(nat \<Rightarrow> 'm \<Rightarrow> 'm option) \<Rightarrow> nat \<Rightarrow> u32 \<Rightarrow> 'm \<Rightarrow> 'm option" where
  "access_loop method 0 start_bit bm = Some bm"
| "access_loop method (Suc len) start_bit bm =
     (case method (unat start_bit) bm of
        None \<Rightarrow> None
      | Some bm' \<Rightarrow> access_loop method len (start_bit + 1) bm')"

lemma unat_plus_one:
  "unat (x :: u32) + 1 < 2 ^ 32 \<Longrightarrow> unat (x + 1) = unat x + 1"
  using unat_word_plus_small [of x 1] by simp

context bit_array
begin

lemma access_loop_set:
  "unat start + l \<le> bits_of m \<Longrightarrow> bits_of m < 2 ^ 32 \<Longrightarrow>
   \<exists>m'. access_loop set_op l start m = Some m' \<and> bits_of m' = bits_of m \<and>
     (\<forall>k. test_op m' k \<longleftrightarrow> (unat start \<le> k \<and> k < unat start + l) \<or> test_op m k)"
proof (induction l arbitrary: start m)
  case 0
  then show ?case by auto
next
  case (Suc l)
  from Suc.prems obtain m1 where m1: "set_op (unat start) m = Some m1" "bits_of m1 = bits_of m"
    "\<forall>k. test_op m1 k \<longleftrightarrow> k = unat start \<or> test_op m k"
    using set_op_Some [of "unat start" m] by auto
  have st: "unat (start + 1) = unat start + 1"
    using Suc.prems by (intro unat_plus_one) simp
  from Suc.IH [of "start + 1" m1] Suc.prems m1 obtain m2 where
    m2: "access_loop set_op l (start + 1) m1 = Some m2" "bits_of m2 = bits_of m"
    "\<forall>k. test_op m2 k \<longleftrightarrow> (unat start + 1 \<le> k \<and> k < unat start + 1 + l) \<or> test_op m1 k"
    unfolding st by auto
  have "access_loop set_op (Suc l) start m = Some m2"
    using m1(1) m2(1) by simp
  moreover have "test_op m2 k \<longleftrightarrow> (unat start \<le> k \<and> k < unat start + Suc l) \<or> test_op m k" for k
    unfolding m2(3) [rule_format] m1(3) [rule_format] by auto
  ultimately show ?case
    using m2(2) by blast
qed

lemma access_loop_clear:
  "unat start + l \<le> bits_of m \<Longrightarrow> bits_of m < 2 ^ 32 \<Longrightarrow>
   \<exists>m'. access_loop clear_op l start m = Some m' \<and> bits_of m' = bits_of m \<and>
     (\<forall>k. test_op m' k \<longleftrightarrow> \<not> (unat start \<le> k \<and> k < unat start + l) \<and> test_op m k)"
proof (induction l arbitrary: start m)
  case 0
  then show ?case by auto
next
  case (Suc l)
  from Suc.prems obtain m1 where m1: "clear_op (unat start) m = Some m1" "bits_of m1 = bits_of m"
    "\<forall>k. test_op m1 k \<longleftrightarrow> k \<noteq> unat start \<and> test_op m k"
    using clear_op_Some [of "unat start" m] by auto
  have st: "unat (start + 1) = unat start + 1"
    using Suc.prems by (intro unat_plus_one) simp
  from Suc.IH [of "start + 1" m1] Suc.prems m1 obtain m2 where
    m2: "access_loop clear_op l (start + 1) m1 = Some m2" "bits_of m2 = bits_of m"
    "\<forall>k. test_op m2 k \<longleftrightarrow> \<not> (unat start + 1 \<le> k \<and> k < unat start + 1 + l) \<and> test_op m1 k"
    unfolding st by auto
  have "access_loop clear_op (Suc l) start m = Some m2"
    using m1(1) m2(1) by simp
  moreover have "test_op m2 k \<longleftrightarrow> \<not> (unat start \<le> k \<and> k < unat start + Suc l) \<and> test_op m k" for k
    unfolding m2(3) [rule_format] m1(3) [rule_format] by auto
  ultimately show ?case
    using m2(2) by blast
qed

end

subsection \<open>The long accessors implement the bit array\<close>

text \<open>
  A bitmap handed to these accessors is a whole number of longs (the I/O bitmap is two pages).
  The number of addressable bits is that of the whole longs.
\<close>

definition long_bits :: "u8 list \<Rightarrow> nat" where
  "long_bits bm = 64 * (length bm div 8)"

lemma long_bits_index: "n < long_bits bm \<longleftrightarrow> 8 * (n div 64) + 8 \<le> length bm"
proof -
  have "n < long_bits bm \<longleftrightarrow> n div 64 < length bm div 8"
    by (simp add: long_bits_def less_mult_imp_div_less div_less_iff_less_mult mult.commute)
  also have "\<dots> \<longleftrightarrow> 8 * (n div 64) + 8 \<le> length bm"
    by (auto simp: less_eq_div_iff_mult_less_eq Suc_le_eq [symmetric])
  finally show ?thesis .
qed

lemma rmw_long:
  assumes "n < long_bits bm"
    and f: "\<And>w k. k < 64 \<Longrightarrow> bit (f w) k \<longleftrightarrow> g k (bit w k)"
  shows "\<exists>bm'. (case load_long bm (n div 64) of None \<Rightarrow> None
            | Some w \<Rightarrow> store_long bm (n div 64) (f w)) = Some bm' \<and>
          length bm' = length bm \<and>
          (\<forall>k. byte_bit bm' k \<longleftrightarrow>
            (if k div 64 = n div 64 then g (k mod 64) (byte_bit bm k) else byte_bit bm k))"
proof -
  have len: "8 * (n div 64) + 8 \<le> length bm"
    using assms(1) by (simp add: long_bits_index)
  from load_long_Some [OF len] obtain w where w: "load_long bm (n div 64) = Some w"
    "\<forall>k < 64. bit w k \<longleftrightarrow> byte_bit bm (64 * (n div 64) + k)" by blast
  from store_long_Some [OF len, of "f w"] obtain bm' where
    bm': "store_long bm (n div 64) (f w) = Some bm'" "length bm' = length bm"
    "\<forall>k. byte_bit bm' k \<longleftrightarrow> (if k div 64 = n div 64 then bit (f w) (k mod 64) else byte_bit bm k)"
    by blast
  have "bit (f w) (k mod 64) \<longleftrightarrow> g (k mod 64) (byte_bit bm k)" if "k div 64 = n div 64" for k
  proof -
    have "64 * (n div 64) + k mod 64 = k"
      unfolding that [symmetric] by (rule mult_div_mod_eq)
    then have "bit w (k mod 64) \<longleftrightarrow> byte_bit bm k"
      using w(2) [rule_format, of "k mod 64"] by simp
    then show ?thesis
      using f [of "k mod 64" w] by simp
  qed
  with w(1) bm' show ?thesis by auto
qed

interpretation long_bitmap: bit_array long_bits byte_bit set_bit_c clear_bit_c
proof unfold_locales
  fix n :: nat and m :: "u8 list"
  assume n: "n < long_bits m"
  have same: "k div 64 = n div 64 \<and> k mod 64 = n mod 64 \<longleftrightarrow> k = n" for k :: nat
    by (metis mult_div_mod_eq)
  have f_or: "bit (w OR push_bit (n mod 64) 1) k \<longleftrightarrow> k = n mod 64 \<or> bit w k" if "k < 64"
    for w :: u64 and k
    using that by (auto simp: bit_simps)
  have f_andn: "bit (w AND NOT (push_bit (n mod 64) 1)) k \<longleftrightarrow> k \<noteq> n mod 64 \<and> bit w k" if "k < 64"
    for w :: u64 and k
    using that by (auto simp: bit_simps)
  obtain m1 where m1: "set_bit_c n m = Some m1" "length m1 = length m"
    "\<forall>k. byte_bit m1 k \<longleftrightarrow>
       (if k div 64 = n div 64 then k mod 64 = n mod 64 \<or> byte_bit m k else byte_bit m k)"
    using rmw_long [OF n, of "\<lambda>w. w OR push_bit (n mod 64) 1" "\<lambda>k b. k = n mod 64 \<or> b", OF f_or]
    unfolding set_bit_c_def by blast
  then have "\<forall>k. byte_bit m1 k \<longleftrightarrow> k = n \<or> byte_bit m k"
    using same by metis
  with m1 show "\<exists>m'. set_bit_c n m = Some m' \<and> long_bits m' = long_bits m \<and>
      (\<forall>k. byte_bit m' k \<longleftrightarrow> k = n \<or> byte_bit m k)"
    by (simp add: long_bits_def)
  obtain m2 where m2: "clear_bit_c n m = Some m2" "length m2 = length m"
    "\<forall>k. byte_bit m2 k \<longleftrightarrow>
       (if k div 64 = n div 64 then k mod 64 \<noteq> n mod 64 \<and> byte_bit m k else byte_bit m k)"
    using rmw_long [OF n, of "\<lambda>w. w AND NOT (push_bit (n mod 64) 1)" "\<lambda>k b. k \<noteq> n mod 64 \<and> b",
        OF f_andn]
    unfolding clear_bit_c_def by blast
  then have "\<forall>k. byte_bit m2 k \<longleftrightarrow> k \<noteq> n \<and> byte_bit m k"
    using same by metis
  with m2 show "\<exists>m'. clear_bit_c n m = Some m' \<and> long_bits m' = long_bits m \<and>
      (\<forall>k. byte_bit m' k \<longleftrightarrow> k \<noteq> n \<and> byte_bit m k)"
    by (simp add: long_bits_def)
next
  fix n :: nat and m :: "u8 list"
  assume "long_bits m \<le> n"
  then have "\<not> 8 * (n div 64) + 8 \<le> length m"
    using long_bits_index [of n m] by simp
  then show "set_bit_c n m = None" "clear_bit_c n m = None"
    by (auto simp: set_bit_c_def clear_bit_c_def load_long_def)
qed

lemma constant_test_bit_eq:
  assumes "n < long_bits bm"
  shows "constant_test_bit n bm = Some (byte_bit bm n)"
proof -
  from assms load_long_Some [of "n div 64" bm] obtain w where w: "load_long bm (n div 64) = Some w"
    "\<forall>k < 64. bit w k \<longleftrightarrow> byte_bit bm (64 * (n div 64) + k)"
    by (auto simp: long_bits_index)
  have "push_bit (n mod 64) 1 AND w \<noteq> 0 \<longleftrightarrow> bit w (n mod 64)"
    by (subst and.commute) (simp add: and_exp_eq_0_iff_not_bit)
  with w show ?thesis
    by (simp add: constant_test_bit_def)
qed

end
