(* ===== verification/Spy_Paging.thy ===== *)
theory Spy_Paging
  imports Spy_Bitops
begin

text \<open>
  Page-table entry formats: \<open>hypervisor/arch/x86/paging.c\<close>, \<open>asm/paging.h\<close> and the inline
  functions of \<open>spy/paging.h\<close>. An entry is a \<open>u64\<close> (32-bit entries of i386 paging are
  read through the low half), a table is the list of its 512 entries, and \<open>get_entry\<close>
  returns the index of the entry it points at. The function pointers of \<open>struct paging\<close> that
  the code leaves unset are \<open>None\<close>. The generic walker that uses these tables
  (\<open>paging_create\<close> and its kin) and \<open>paging_get_phys_invalid\<close> are not part of the
  repository: the former do not appear here, the latter is a parameter of the tables.
\<close>

subsection \<open>Flags and constants\<close>

abbreviation (input) PAGE_FLAG_PRESENT :: u64 where "PAGE_FLAG_PRESENT \<equiv> 0x01"
abbreviation (input) PAGE_FLAG_RW :: u64 where "PAGE_FLAG_RW \<equiv> 0x02"
abbreviation (input) PAGE_FLAG_US :: u64 where "PAGE_FLAG_US \<equiv> 0x04"
abbreviation (input) PAGE_FLAG_DEVICE :: u64 where "PAGE_FLAG_DEVICE \<equiv> 0x10"
abbreviation (input) X86_FLAG_HUGEPAGE :: u64 where "X86_FLAG_HUGEPAGE \<equiv> 0x80"

definition INVALID_PHYS_ADDR :: u64 where
  "INVALID_PHYS_ADDR = NOT 0"

definition PAGE_DEFAULT_FLAGS :: u64 where
  "PAGE_DEFAULT_FLAGS = PAGE_FLAG_PRESENT OR PAGE_FLAG_RW"

definition PAGE_READONLY_FLAGS :: u64 where
  "PAGE_READONLY_FLAGS = PAGE_FLAG_PRESENT"

definition PAGE_NONPRESENT_FLAGS :: u64 where
  "PAGE_NONPRESENT_FLAGS = INVALID_PHYS_ADDR AND BIT_MASK 51 30"

text \<open>Numeral masks, bit by bit.\<close>

lemma bit_flag_0 [masks]: "bit (0x01 :: u64) n \<longleftrightarrow> n = 0"
  by (simp add: bit_1_iff)

lemma bit_flag_1 [masks]: "bit (0x02 :: u64) n \<longleftrightarrow> n = 1"
  using bit_push_bit_iff [of 1 "1::u64" n] by (auto simp: bit_1_iff)

lemma bit_flag_7 [masks]: "bit (0x80 :: u64) n \<longleftrightarrow> n = 7"
  using bit_push_bit_iff [of 7 "1::u64" n] by (auto simp: bit_1_iff)

lemma bit_flag_2 [masks]: "bit (0x04 :: u64) n \<longleftrightarrow> n = 2"
  using bit_push_bit_iff [of 2 "1::u64" n] by (auto simp: bit_1_iff)

text \<open>The simplifier turns a bit of a numeral word into a bit of an integer.\<close>

lemma bit_flag_int [masks]:
  "bit (0x02 :: int) n \<longleftrightarrow> n = 1"
  "bit (0x04 :: int) n \<longleftrightarrow> n = 2"
  "bit (0x80 :: int) n \<longleftrightarrow> n = 7"
  using bit_exp_iff [where 'a = int, of 1 n] bit_exp_iff [where 'a = int, of 2 n]
    bit_exp_iff [where 'a = int, of 7 n]
  by simp_all

lemma and_flag_eq_0:
  "v AND (0x01 :: u64) = 0 \<longleftrightarrow> \<not> bit v 0"
  "v AND (0x80 :: u64) = 0 \<longleftrightarrow> \<not> bit v 7"
  using and_exp_eq_0_iff_not_bit [of v 0] and_exp_eq_0_iff_not_bit [of v 7] by simp_all

subsection \<open>Hypervisor virtual and physical addresses\<close>

definition paging_hvirt2phys :: "u64 \<Rightarrow> u64 \<Rightarrow> u64" where
  "paging_hvirt2phys page_offset hvirt = hvirt - page_offset"

definition paging_phys2hvirt :: "u64 \<Rightarrow> u64 \<Rightarrow> u64" where
  "paging_phys2hvirt page_offset phys = phys + page_offset"

lemma hvirt2phys_phys2hvirt [simp]:
  "paging_hvirt2phys off (paging_phys2hvirt off p) = p"
  "paging_phys2hvirt off (paging_hvirt2phys off v) = v"
  by (simp_all add: paging_hvirt2phys_def paging_phys2hvirt_def)

subsection \<open>x86-64 entries\<close>

definition x86_64_entry_valid :: "u64 \<Rightarrow> u64 \<Rightarrow> bool" where
  "x86_64_entry_valid pte flags \<longleftrightarrow> pte AND flags = flags"

definition x86_64_get_flags :: "u64 \<Rightarrow> u64" where
  "x86_64_get_flags pte = pte AND (BIT_MASK 63 52 OR BIT_MASK 11 8 OR BIT_MASK 6 0)"

definition x86_64_set_next_pt :: "u64 \<Rightarrow> u64" where
  "x86_64_set_next_pt next_pt = (next_pt AND BIT_MASK 51 12) OR PAGE_DEFAULT_FLAGS"

definition x86_64_clear_entry :: u64 where
  "x86_64_clear_entry = PAGE_NONPRESENT_FLAGS"

text \<open>The loop over the entries, returning at the first valid one.\<close>

fun x86_64_page_table_empty :: "u64 list \<Rightarrow> bool" where
  "x86_64_page_table_empty [] = True"
| "x86_64_page_table_empty (pte # rest) =
     (if x86_64_entry_valid pte PAGE_FLAG_PRESENT then False
      else x86_64_page_table_empty rest)"

definition x86_64_get_entry_l4 :: "u64 \<Rightarrow> nat" where
  "x86_64_get_entry_l4 virt = unat (drop_bit 39 virt AND 0x1ff)"

definition x86_64_get_entry_l3 :: "u64 \<Rightarrow> nat" where
  "x86_64_get_entry_l3 virt = unat (drop_bit 30 virt AND 0x1ff)"

definition x86_64_get_entry_l2 :: "u64 \<Rightarrow> nat" where
  "x86_64_get_entry_l2 virt = unat (drop_bit 21 virt AND 0x1ff)"

definition x86_64_get_entry_l1 :: "u64 \<Rightarrow> nat" where
  "x86_64_get_entry_l1 virt = unat (drop_bit 12 virt AND 0x1ff)"

definition x86_64_set_terminal_l3 :: "u64 \<Rightarrow> u64 \<Rightarrow> u64" where
  "x86_64_set_terminal_l3 phys flags = (phys AND BIT_MASK 51 30) OR X86_FLAG_HUGEPAGE OR flags"

definition x86_64_set_terminal_l2 :: "u64 \<Rightarrow> u64 \<Rightarrow> u64" where
  "x86_64_set_terminal_l2 phys flags = (phys AND BIT_MASK 51 21) OR X86_FLAG_HUGEPAGE OR flags"

definition x86_64_set_terminal_l1 :: "u64 \<Rightarrow> u64 \<Rightarrow> u64" where
  "x86_64_set_terminal_l1 phys flags = (phys AND BIT_MASK 51 12) OR flags"

definition x86_64_get_phys_l3 :: "u64 \<Rightarrow> u64 \<Rightarrow> u64" where
  "x86_64_get_phys_l3 pte virt =
     (if pte AND X86_FLAG_HUGEPAGE = 0 then INVALID_PHYS_ADDR
      else (pte AND BIT_MASK 51 30) OR (virt AND BIT_MASK 29 0))"

definition x86_64_get_phys_l2 :: "u64 \<Rightarrow> u64 \<Rightarrow> u64" where
  "x86_64_get_phys_l2 pte virt =
     (if pte AND X86_FLAG_HUGEPAGE = 0 then INVALID_PHYS_ADDR
      else (pte AND BIT_MASK 51 21) OR (virt AND BIT_MASK 20 0))"

definition x86_64_get_phys_l1 :: "u64 \<Rightarrow> u64 \<Rightarrow> u64" where
  "x86_64_get_phys_l1 pte virt = (pte AND BIT_MASK 51 12) OR (virt AND BIT_MASK 11 0)"

definition x86_64_get_next_pt :: "u64 \<Rightarrow> u64" where
  "x86_64_get_next_pt pte = pte AND BIT_MASK 51 12"

subsection \<open>The paging tables\<close>

record paging =
  page_size :: u32
  get_entry :: "u64 \<Rightarrow> nat"
  entry_valid :: "u64 \<Rightarrow> u64 \<Rightarrow> bool"
  set_terminal :: "(u64 \<Rightarrow> u64 \<Rightarrow> u64) option"
  get_phys :: "u64 \<Rightarrow> u64 \<Rightarrow> u64"
  get_flags :: "(u64 \<Rightarrow> u64) option"
  set_next_pt :: "(u64 \<Rightarrow> u64) option"
  get_next_pt :: "(u64 \<Rightarrow> u64) option"
  clear_entry :: "u64 option"
  page_table_empty :: "(u64 list \<Rightarrow> bool) option"

definition X86_64_PAGING_COMMON :: "u32 \<Rightarrow> (u64 \<Rightarrow> nat) \<Rightarrow> (u64 \<Rightarrow> u64 \<Rightarrow> u64) option \<Rightarrow>
    (u64 \<Rightarrow> u64 \<Rightarrow> u64) \<Rightarrow> (u64 \<Rightarrow> u64) option \<Rightarrow> paging" where
  "X86_64_PAGING_COMMON sz entry term phys nxt =
     \<lparr>page_size = sz, get_entry = entry, entry_valid = x86_64_entry_valid,
      set_terminal = term, get_phys = phys, get_flags = Some x86_64_get_flags,
      set_next_pt = Some x86_64_set_next_pt, get_next_pt = nxt,
      clear_entry = Some x86_64_clear_entry,
      page_table_empty = Some x86_64_page_table_empty\<rparr>"

definition x86_64_paging :: "(u64 \<Rightarrow> u64 \<Rightarrow> u64) \<Rightarrow> paging list" where
  "x86_64_paging get_phys_invalid =
     [X86_64_PAGING_COMMON 0 x86_64_get_entry_l4 None get_phys_invalid (Some x86_64_get_next_pt),
      X86_64_PAGING_COMMON (1024 * 1024 * 1024) x86_64_get_entry_l3
        (Some x86_64_set_terminal_l3) x86_64_get_phys_l3 (Some x86_64_get_next_pt),
      X86_64_PAGING_COMMON (2 * 1024 * 1024) x86_64_get_entry_l2
        (Some x86_64_set_terminal_l2) x86_64_get_phys_l2 (Some x86_64_get_next_pt),
      X86_64_PAGING_COMMON 4096 x86_64_get_entry_l1
        (Some x86_64_set_terminal_l1) x86_64_get_phys_l1 None]"

abbreviation (input) X86_FEATURE_GBPAGES :: u32 where "X86_FEATURE_GBPAGES \<equiv> 0x4000000"

text \<open>\<open>cpuid_edx leaf subleaf\<close> is the processor's answer.\<close>

definition arch_paging_init :: "(u64 \<Rightarrow> u64 \<Rightarrow> u64) \<Rightarrow> (u32 \<Rightarrow> u32 \<Rightarrow> u32) \<Rightarrow> paging list" where
  "arch_paging_init get_phys_invalid cpuid_edx =
     (let hv_paging = x86_64_paging get_phys_invalid
      in if cpuid_edx 0x80000001 0 AND X86_FEATURE_GBPAGES = 0
         then hv_paging[1 := (hv_paging ! 1)\<lparr>page_size := 0\<rparr>] else hv_paging)"

subsection \<open>i386 and PAE entries (read only)\<close>

definition pte32 :: "u64 \<Rightarrow> u32" where
  "pte32 pte = ucast pte"

definition i386_entry_valid :: "u64 \<Rightarrow> u64 \<Rightarrow> bool" where
  "i386_entry_valid pte flags \<longleftrightarrow> ucast (pte32 pte) AND flags = flags"

definition i386_get_entry_l2 :: "u64 \<Rightarrow> nat" where
  "i386_get_entry_l2 virt = unat (drop_bit 22 virt AND 0x3ff)"

definition i386_get_entry_l1 :: "u64 \<Rightarrow> nat" where
  "i386_get_entry_l1 virt = unat (drop_bit 12 virt AND 0x3ff)"

definition i386_get_phys_l2 :: "u64 \<Rightarrow> u64 \<Rightarrow> u64" where
  "i386_get_phys_l2 pte virt =
     (let p = ucast (pte32 pte) :: u64
      in if p AND X86_FLAG_HUGEPAGE = 0 then INVALID_PHYS_ADDR
         else push_bit (32 - 13) (p AND BIT_MASK 16 13) OR
              (p AND BIT_MASK 31 22) OR (virt AND BIT_MASK 21 0))"

definition i386_get_phys_l1 :: "u64 \<Rightarrow> u64 \<Rightarrow> u64" where
  "i386_get_phys_l1 pte virt =
     (ucast (pte32 pte) AND BIT_MASK 31 12) OR (virt AND BIT_MASK 11 0)"

definition i386_get_next_pt :: "u64 \<Rightarrow> u64" where
  "i386_get_next_pt pte = ucast (pte32 pte) AND BIT_MASK 31 12"

definition i386_paging :: "paging list" where
  "i386_paging =
     [\<lparr>page_size = 4 * 1024 * 1024, get_entry = i386_get_entry_l2,
       entry_valid = i386_entry_valid, set_terminal = None, get_phys = i386_get_phys_l2,
       get_flags = None, set_next_pt = None, get_next_pt = Some i386_get_next_pt,
       clear_entry = None, page_table_empty = None\<rparr>,
      \<lparr>page_size = 4096, get_entry = i386_get_entry_l1,
       entry_valid = i386_entry_valid, set_terminal = None, get_phys = i386_get_phys_l1,
       get_flags = None, set_next_pt = None, get_next_pt = None,
       clear_entry = None, page_table_empty = None\<rparr>]"

definition vcpu_pae_get_pdpte_weak :: "u64 \<Rightarrow> nat" where
  "vcpu_pae_get_pdpte_weak virt = unat (drop_bit 30 virt AND 0x3)"

definition pae_paging :: "(u64 \<Rightarrow> nat) \<Rightarrow> (u64 \<Rightarrow> u64 \<Rightarrow> u64) \<Rightarrow> paging list" where
  "pae_paging get_pdpte get_phys_invalid =
     [\<lparr>page_size = 0, get_entry = get_pdpte,
       entry_valid = x86_64_entry_valid, set_terminal = None, get_phys = get_phys_invalid,
       get_flags = None, set_next_pt = None, get_next_pt = Some x86_64_get_next_pt,
       clear_entry = None, page_table_empty = None\<rparr>,
      \<lparr>page_size = 2 * 1024 * 1024, get_entry = x86_64_get_entry_l2,
       entry_valid = x86_64_entry_valid, set_terminal = None, get_phys = x86_64_get_phys_l2,
       get_flags = None, set_next_pt = None, get_next_pt = Some x86_64_get_next_pt,
       clear_entry = None, page_table_empty = None\<rparr>,
      \<lparr>page_size = 4096, get_entry = x86_64_get_entry_l1,
       entry_valid = x86_64_entry_valid, set_terminal = None, get_phys = x86_64_get_phys_l1,
       get_flags = None, set_next_pt = None, get_next_pt = None,
       clear_entry = None, page_table_empty = None\<rparr>]"

subsection \<open>What a level of terminal entries promises\<close>

text \<open>
  \<open>sh\<close> is the page shift of the level. \<open>flag_mask\<close> holds the bits \<open>get_flags\<close> returns. The
  laws say which bits of the entry carry the address, the flags and the huge-page marker.
\<close>

definition flag_mask :: u64 where
  "flag_mask = BIT_MASK 63 52 OR BIT_MASK 11 8 OR BIT_MASK 6 0"

lemma bit_flag_mask [masks]:
  "bit flag_mask n \<longleftrightarrow> n \<le> 6 \<or> (8 \<le> n \<and> n \<le> 11) \<or> (52 \<le> n \<and> n < 64)"
  by (auto simp: flag_mask_def bit_or_iff masks)

lemma bit_INVALID_PHYS_ADDR [masks]: "bit INVALID_PHYS_ADDR n \<longleftrightarrow> n < 64"
  by (simp add: INVALID_PHYS_ADDR_def)

lemma bit_PAGE_NONPRESENT_FLAGS [masks]: "bit PAGE_NONPRESENT_FLAGS n \<longleftrightarrow> 30 \<le> n \<and> n \<le> 51"
  by (auto simp: PAGE_NONPRESENT_FLAGS_def bit_simps masks)

lemma bit_PAGE_DEFAULT_FLAGS [masks]: "bit PAGE_DEFAULT_FLAGS n \<longleftrightarrow> n = 0 \<or> n = 1"
  unfolding PAGE_DEFAULT_FLAGS_def bit_or_iff bit_flag_0 bit_flag_1 ..

lemma entry_valid_iff:
  "x86_64_entry_valid pte flags \<longleftrightarrow> (\<forall>n. bit flags n \<longrightarrow> bit pte n)"
  by (simp add: x86_64_entry_valid_def word_and_eq_right_iff)

lemma entry_valid_present: "x86_64_entry_valid pte PAGE_FLAG_PRESENT \<longleftrightarrow> bit pte 0"
  by (simp add: entry_valid_iff masks)

locale terminal_level =
  fixes sh :: nat
    and term_of :: "u64 \<Rightarrow> u64 \<Rightarrow> u64"
    and phys_of :: "u64 \<Rightarrow> u64 \<Rightarrow> u64"
  assumes sh_range: "12 \<le> sh" "sh \<le> 51"
    and bit_term_of: "flags AND flag_mask = flags \<Longrightarrow>
      bit (term_of phys flags) n \<longleftrightarrow>
        (sh \<le> n \<and> n \<le> 51 \<and> bit phys n) \<or> bit flags n \<or> (sh \<noteq> 12 \<and> n = 7)"
    and bit_phys_of: "sh = 12 \<or> bit pte 7 \<Longrightarrow>
      bit (phys_of pte virt) n \<longleftrightarrow> (if n < sh then bit virt n else n \<le> 51 \<and> bit pte n)"
begin

lemma flags_low: "flags AND flag_mask = flags \<Longrightarrow> sh \<le> n \<Longrightarrow> n \<le> 51 \<Longrightarrow> \<not> bit flags n"
  using sh_range bit_and_iff [of flags flag_mask n] by (auto simp: masks)

text \<open>Translating through an entry that was just set gives the frame, and the offset of the address.\<close>

lemma phys_of_term_of:
  assumes "flags AND flag_mask = flags"
  shows "phys_of (term_of phys flags) virt = (phys AND BIT_MASK 51 sh) OR take_bit sh virt"
proof (rule bit_word_eqI)
  fix n
  have "sh = 12 \<or> bit (term_of phys flags) 7"
    using assms by (auto simp: bit_term_of)
  then show "bit (phys_of (term_of phys flags) virt) n \<longleftrightarrow>
      bit ((phys AND BIT_MASK 51 sh) OR take_bit sh virt) n"
    using assms sh_range flags_low [OF assms, of n]
    by (auto simp: bit_phys_of bit_term_of bit_simps masks)
qed

text \<open>The access flags survive, and the entry is valid for exactly the flags it was given.\<close>

lemma get_flags_term_of:
  assumes "flags AND flag_mask = flags"
  shows "x86_64_get_flags (term_of phys flags) = flags"
proof (rule bit_word_eqI)
  fix n
  have "bit flags n \<Longrightarrow> bit flag_mask n"
    using assms by (metis bit_and_iff)
  then show "bit (x86_64_get_flags (term_of phys flags)) n \<longleftrightarrow> bit flags n"
    using assms sh_range
    by (auto simp: x86_64_get_flags_def flag_mask_def [symmetric] bit_and_iff bit_term_of masks)
qed

lemma entry_valid_term_of:
  assumes "flags AND flag_mask = flags" "need AND flag_mask = need"
  shows "x86_64_entry_valid (term_of phys flags) need \<longleftrightarrow> flags AND need = need"
proof -
  have "bit need n \<Longrightarrow> bit (term_of phys flags) n \<longleftrightarrow> bit flags n" for n
    using assms sh_range bit_and_iff [of need flag_mask n]
    by (auto simp: bit_term_of masks)
  then show ?thesis
    by (simp add: entry_valid_iff word_and_eq_right_iff)
qed

end

lemma bit_flags_or_huge:
  assumes "flags AND flag_mask = flags" "bit flags n"
  shows "n \<noteq> 7 \<and> (n < 12 \<or> 51 < n)"
  using assms bit_and_iff [of flags flag_mask n] by (auto simp: masks)

interpretation level1: terminal_level 12 x86_64_set_terminal_l1 x86_64_get_phys_l1
  by unfold_locales
    (auto simp: x86_64_set_terminal_l1_def x86_64_get_phys_l1_def bit_simps masks)

interpretation level2: terminal_level 21 x86_64_set_terminal_l2 x86_64_get_phys_l2
  by unfold_locales
    (auto simp: x86_64_set_terminal_l2_def x86_64_get_phys_l2_def and_flag_eq_0 bit_or_iff
      bit_and_iff masks)

interpretation level3: terminal_level 30 x86_64_set_terminal_l3 x86_64_get_phys_l3
  by unfold_locales
    (auto simp: x86_64_set_terminal_l3_def x86_64_get_phys_l3_def and_flag_eq_0 bit_or_iff
      bit_and_iff masks)

subsection \<open>What a link to the next level promises\<close>

text \<open>
  A link entry keeps the frame of the next table and fixes low flag bits \<open>low\<close>. The x86, EPT
  and VT-d formats differ in \<open>low\<close> only; all of them are walked with \<open>x86_64_get_next_pt\<close> and
  tested with \<open>x86_64_entry_valid\<close>.
\<close>

locale table_link =
  fixes low :: u64
    and link_of :: "u64 \<Rightarrow> u64"
  assumes link_of_eq: "link_of next_pt = (next_pt AND BIT_MASK 51 12) OR low"
    and low_bits: "bit low n \<Longrightarrow> n < 7"
    and low_present: "bit low 0"
begin

lemma bit_link_of: "bit (link_of p) n \<longleftrightarrow> (12 \<le> n \<and> n \<le> 51 \<and> bit p n) \<or> bit low n"
  by (auto simp: link_of_eq bit_or_iff bit_and_iff masks)

lemma get_next_link_of: "x86_64_get_next_pt (link_of p) = p AND BIT_MASK 51 12"
  by (rule bit_word_eqI)
    (auto simp: x86_64_get_next_pt_def bit_link_of bit_and_iff masks dest: low_bits)

lemma link_of_present: "x86_64_entry_valid (link_of p) PAGE_FLAG_PRESENT"
  using low_present by (simp add: entry_valid_present bit_link_of)

text \<open>A link is never taken for a terminal entry by the levels that support both.\<close>

lemma link_of_not_terminal:
  "x86_64_get_phys_l2 (link_of p) virt = INVALID_PHYS_ADDR"
  "x86_64_get_phys_l3 (link_of p) virt = INVALID_PHYS_ADDR"
proof -
  have "\<not> bit (link_of p) 7"
    using low_bits [of 7] by (auto simp: bit_link_of)
  then show "x86_64_get_phys_l2 (link_of p) virt = INVALID_PHYS_ADDR"
    "x86_64_get_phys_l3 (link_of p) virt = INVALID_PHYS_ADDR"
    by (simp_all add: x86_64_get_phys_l2_def x86_64_get_phys_l3_def and_flag_eq_0)
qed

end

interpretation x86_link: table_link PAGE_DEFAULT_FLAGS x86_64_set_next_pt
  by unfold_locales (auto simp: x86_64_set_next_pt_def masks)

subsection \<open>Empty tables and cleared entries\<close>

lemma page_table_empty_iff:
  "x86_64_page_table_empty pt \<longleftrightarrow> (\<forall>pte \<in> set pt. \<not> bit pte 0)"
  by (induction pt) (auto simp: entry_valid_present)

lemma clear_entry_not_present: "\<not> bit x86_64_clear_entry 0"
  by (simp add: x86_64_clear_entry_def masks)

lemma page_table_empty_update:
  assumes "i < length pt"
  shows "x86_64_page_table_empty (pt[i := x86_64_clear_entry]) \<longleftrightarrow>
    (\<forall>j < length pt. j \<noteq> i \<longrightarrow> \<not> bit (pt ! j) 0)"
  unfolding page_table_empty_iff
  using assms by (auto simp: all_set_conv_all_nth nth_list_update clear_entry_not_present)

subsection \<open>Table indices\<close>

lemma index_bits:
  "drop_bit k (v :: u64) AND 0x1ff = take_bit 9 (drop_bit k v)"
proof -
  have "(0x1ff :: u64) = mask 9"
    by (simp add: mask_eq_exp_minus_1)
  then show ?thesis
    by (simp add: take_bit_eq_mask)
qed

lemmas get_entry_defs =
  x86_64_get_entry_l4_def x86_64_get_entry_l3_def x86_64_get_entry_l2_def x86_64_get_entry_l1_def

lemma get_entry_bound:
  "x86_64_get_entry_l4 v < 512" "x86_64_get_entry_l3 v < 512"
  "x86_64_get_entry_l2 v < 512" "x86_64_get_entry_l1 v < 512"
  unfolding get_entry_defs by (rule unat_and_mask_less; simp)+

lemma same_index_bits:
  fixes v w :: u64
  assumes "unat (drop_bit k v AND 0x1ff) = unat (drop_bit k w AND 0x1ff)"
    and "k \<le> n" "n < k + 9" "n < 64"
  shows "bit v n \<longleftrightarrow> bit w n"
proof -
  have "take_bit 9 (drop_bit k v) = take_bit 9 (drop_bit k w)"
    using assms(1) by (simp add: index_bits word_unat_eq_iff)
  then have "bit (take_bit 9 (drop_bit k v)) (n - k) \<longleftrightarrow> bit (take_bit 9 (drop_bit k w)) (n - k)"
    by simp
  with assms(2-) show ?thesis
    by (auto simp: bit_simps)
qed

subsection \<open>Cache flushing\<close>

text \<open>
  The addresses \<open>arch_paging_flush_cpu_caches\<close> flushes. \<open>size\<close> is a signed long; the loop does
  not end when the cache line size is zero, so the result is an option.
\<close>

partial_function (option) flush_lines :: "u64 \<Rightarrow> u64 \<Rightarrow> int \<Rightarrow> u64 list option" where
  "flush_lines line addr sz =
     (if sz > 0
      then Option.bind (flush_lines line (addr + line) (sz - uint line))
             (\<lambda>rest. Some (addr # rest))
      else Some [])"

definition arch_paging_flush_cpu_caches :: "u64 \<Rightarrow> u64 \<Rightarrow> int \<Rightarrow> u64 list option" where
  "arch_paging_flush_cpu_caches cache_line_size addr sz = flush_lines cache_line_size addr sz"

lemma flush_lines_covers:
  assumes "0 < line"
  shows "\<exists>as. flush_lines line addr sz = Some as \<and>
    (\<forall>k. 0 \<le> k \<and> k < sz \<longrightarrow> (\<exists>a \<in> set as. \<exists>d < uint line. addr + of_int k = a + of_int d))"
proof (induction "nat sz" arbitrary: addr sz rule: less_induct)
  case less
  have line: "0 < uint line"
    using assms by (simp add: word_less_def)
  show ?case
  proof (cases "sz > 0")
    case False
    then show ?thesis by (subst flush_lines.simps) auto
  next
    case True
    then have "nat (sz - uint line) < nat sz"
      using line by simp
    from less.hyps [OF this, of "addr + line"] obtain as where
      as: "flush_lines line (addr + line) (sz - uint line) = Some as"
      "\<forall>k. 0 \<le> k \<and> k < sz - uint line \<longrightarrow>
        (\<exists>a \<in> set as. \<exists>d < uint line. addr + line + of_int k = a + of_int d)"
      by blast
    have "\<exists>a \<in> set (addr # as). \<exists>d < uint line. addr + of_int k = a + of_int d"
      if k: "0 \<le> k" "k < sz" for k
    proof (cases "k < uint line")
      case True
      then show ?thesis by auto
    next
      case False
      then have "0 \<le> k - uint line \<and> k - uint line < sz - uint line"
        using k by simp
      with as(2) obtain a d where "a \<in> set as" "d < uint line"
        "addr + line + of_int (k - uint line) = a + of_int d"
        by blast
      then show ?thesis by (auto simp: algebra_simps)
    qed
    with as(1) True show ?thesis
      by (subst flush_lines.simps) auto
  qed
qed

lemma flush_lines_zero_line:
  assumes "flush_lines line addr sz = Some as" "line = 0"
  shows "sz \<le> 0"
proof -
  have "line = 0 \<longrightarrow> sz \<le> 0"
  proof (rule flush_lines.raw_induct [where P = "\<lambda>line addr sz as. line = 0 \<longrightarrow> sz \<le> 0",
        OF _ assms(1)])
    fix f :: "u64 \<Rightarrow> u64 \<Rightarrow> int \<Rightarrow> u64 list option" and line addr :: u64 and sz as
    assume IH: "\<And>line addr sz as. f line addr sz = Some as \<Longrightarrow> line = 0 \<longrightarrow> sz \<le> 0"
      and eq: "(if sz > 0
        then Option.bind (f line (addr + line) (sz - uint line)) (\<lambda>rest. Some (addr # rest))
        else Some []) = Some as"
    show "line = 0 \<longrightarrow> sz \<le> 0"
      using eq IH [of line "addr + line" "sz - uint line"]
      by (auto simp: bind_eq_Some_conv split: if_splits)
  qed
  with assms(2) show ?thesis by simp
qed

subsection \<open>Properties\<close>

text \<open>At every level of the x86-64 tables that has terminal entries, translating an address
  through an entry set for a frame gives that frame (aligned down to the level's page size)
  with the address's offset in the page, the entry reports exactly the access flags it was set
  with, and it is valid for exactly the accesses those flags grant.\<close>

theorem x86_64_terminal_roundtrip:
  assumes "i < 4" and "set_terminal (x86_64_paging g ! i) = Some st"
    and "flags AND flag_mask = flags" and "need AND flag_mask = need"
  shows "get_phys (x86_64_paging g ! i) (st phys flags) virt =
           (phys AND BIT_MASK 51 12 AND NOT (ucast (page_size (x86_64_paging g ! i)) - 1)) OR
           (virt AND (ucast (page_size (x86_64_paging g ! i)) - 1)) \<and>
         map_option (\<lambda>f. f (st phys flags)) (get_flags (x86_64_paging g ! i)) = Some flags \<and>
         (entry_valid (x86_64_paging g ! i) (st phys flags) need \<longleftrightarrow> flags AND need = need)"
proof -
  have offs: "0xfff = (mask 12 :: u64)" "0x1fffff = (mask 21 :: u64)" "0x3fffffff = (mask 30 :: u64)"
    by (simp_all add: mask_eq_exp_minus_1)
  have cast: "(ucast (0x1000 :: u32) :: u64) = 0x1000" "(ucast (0x200000 :: u32) :: u64) = 0x200000"
    "(ucast (0x40000000 :: u32) :: u64) = 0x40000000"
    by simp_all
  have frame: "phys AND BIT_MASK 51 12 AND NOT (mask k) = phys AND BIT_MASK 51 k"
    if "12 \<le> k" "k \<le> 51" for k
    using that by (intro bit_word_eqI) (auto simp: bit_simps masks)
  have "i = 0 \<or> i = 1 \<or> i = 2 \<or> i = 3"
    using assms(1) by linarith
  then show ?thesis
    using assms(2)
      level1.phys_of_term_of [OF assms(3), of phys virt, unfolded take_bit_eq_mask] level1.get_flags_term_of [OF assms(3)]
      level1.entry_valid_term_of [OF assms(3,4)]
      level2.phys_of_term_of [OF assms(3), of phys virt, unfolded take_bit_eq_mask] level2.get_flags_term_of [OF assms(3)]
      level2.entry_valid_term_of [OF assms(3,4)]
      level3.phys_of_term_of [OF assms(3), of phys virt, unfolded take_bit_eq_mask] level3.get_flags_term_of [OF assms(3)]
      level3.entry_valid_term_of [OF assms(3,4)]
    by (auto simp: x86_64_paging_def X86_64_PAGING_COMMON_def offs cast frame)
qed

theorem x86_64_terminal_roundtrip_witness:
  "get_phys (x86_64_paging (\<lambda>_ _. 0) ! 2) (x86_64_set_terminal_l2 0x40212345 3) 0x7fe01abc =
    (0x40212345 AND BIT_MASK 51 12 AND NOT 0x1fffff) OR (0x7fe01abc AND 0x1fffff)"
  using x86_64_terminal_roundtrip [where i = 2 and g = "\<lambda>_ _. 0" and st = x86_64_set_terminal_l2
      and flags = 3 and need = 1 and phys = "0x40212345" and virt = "0x7fe01abc"]
  by (simp add: x86_64_paging_def X86_64_PAGING_COMMON_def flag_mask_def BIT_MASK_def
      mask_eq_exp_minus_1)

text \<open>Two 48-bit virtual addresses with the same four table indices and the same offset in
  the page are the same address, and every index stays inside the 512-entry table: the four
  index functions lose no bit and reach no entry outside a table.\<close>

theorem x86_64_indices_determine_address:
  "(x86_64_get_entry_l4 v < 512 \<and> x86_64_get_entry_l3 v < 512 \<and>
    x86_64_get_entry_l2 v < 512 \<and> x86_64_get_entry_l1 v < 512) \<and>
   ((x86_64_get_entry_l4 v, x86_64_get_entry_l3 v, x86_64_get_entry_l2 v,
      x86_64_get_entry_l1 v, v AND PAGE_OFFS_MASK) =
    (x86_64_get_entry_l4 w, x86_64_get_entry_l3 w, x86_64_get_entry_l2 w,
      x86_64_get_entry_l1 w, w AND PAGE_OFFS_MASK) \<longleftrightarrow>
    take_bit 48 v = take_bit 48 w)"
  (is "_ \<and> (?idx \<longleftrightarrow> _)")
proof -
  have "take_bit 48 v = take_bit 48 w" if ?idx
  proof (rule bit_word_eqI)
    fix n
    have "bit v n \<longleftrightarrow> bit w n" if "n < 48"
    proof -
      from that consider "n < 12" | "12 \<le> n" "n < 21" | "21 \<le> n" "n < 30" | "30 \<le> n" "n < 39"
        | "39 \<le> n" "n < 48" by linarith
      then show ?thesis
      proof cases
        case 1
        have "v AND PAGE_OFFS_MASK = w AND PAGE_OFFS_MASK"
          using \<open>?idx\<close> by simp
        then have "bit (v AND PAGE_OFFS_MASK) n \<longleftrightarrow> bit (w AND PAGE_OFFS_MASK) n"
          by simp
        with 1 show ?thesis by (simp add: bit_and_iff masks)
      next
        case 2
        then show ?thesis
          using \<open>?idx\<close> by (intro same_index_bits [of 12]) (simp_all add: get_entry_defs)
      next
        case 3
        then show ?thesis
          using \<open>?idx\<close> by (intro same_index_bits [of 21]) (simp_all add: get_entry_defs)
      next
        case 4
        then show ?thesis
          using \<open>?idx\<close> by (intro same_index_bits [of 30]) (simp_all add: get_entry_defs)
      next
        case 5
        then show ?thesis
          using \<open>?idx\<close> by (intro same_index_bits [of 39]) (simp_all add: get_entry_defs)
      qed
    qed
    then show "bit (take_bit 48 v) n \<longleftrightarrow> bit (take_bit 48 w) n"
      by (auto simp: bit_simps)
  qed
  moreover have ?idx if "take_bit 48 v = take_bit 48 w"
  proof -
    have low: "bit v n \<longleftrightarrow> bit w n" if "n < 48" for n
      using \<open>take_bit 48 v = take_bit 48 w\<close> that by (metis bit_take_bit_iff)
    then have "take_bit 9 (drop_bit k v) = take_bit 9 (drop_bit k w)" if "k \<le> 39" for k
      using that by (auto intro!: bit_word_eqI simp: bit_simps)
    moreover have "take_bit 12 v = take_bit 12 w"
      using low by (auto intro!: bit_word_eqI simp: bit_simps)
    ultimately show ?thesis
      by (simp add: get_entry_defs index_bits and_PAGE_OFFS_MASK)
  qed
  ultimately show ?thesis
    using get_entry_bound [of v] by blast
qed

text \<open>Reading a 4-MB i386 entry gives a 36-bit address: the offset of the address in bits 0 to
  21, the frame of the entry in bits 22 to 31 and the PSE-36 extension (entry bits 13 to 16) in
  bits 32 to 35; an entry without the page-size flag gives the invalid address.\<close>

theorem i386_get_phys_l2_pse36:
  "bit (i386_get_phys_l2 pte virt) n \<longleftrightarrow>
     (if \<not> bit pte 7 then n < 64
      else if n < 22 then bit virt n
      else if n < 32 then bit pte n
      else n < 36 \<and> bit pte (n - 19))"
proof -
  have huge: "(ucast (pte32 pte) :: u64) AND 0x80 = 0 \<longleftrightarrow> \<not> bit pte 7"
    by (simp add: and_flag_eq_0 pte32_def bit_simps)
  have "bit (push_bit (32 - 13) ((ucast (pte32 pte) :: u64) AND BIT_MASK 16 13) OR
           ((ucast (pte32 pte) :: u64) AND BIT_MASK 31 22) OR (virt AND BIT_MASK 21 0)) n \<longleftrightarrow>
        (if n < 22 then bit virt n else if n < 32 then bit pte n
         else n < 36 \<and> bit pte (n - 19))"
    by (auto simp: pte32_def bit_simps masks)
  then show ?thesis
    by (simp add: i386_get_phys_l2_def Let_def huge masks)
qed

text \<open>Clearing entry \<open>i\<close> of a table makes the table empty exactly when no other entry was
  present. A cleared entry grants no access that needs presence, and its address bits 30 to 51
  are all set, so that it names no existing memory.\<close>

theorem clear_entry_page_table_empty:
  assumes "i < length pt"
  shows "(x86_64_page_table_empty (pt[i := x86_64_clear_entry]) \<longleftrightarrow>
      (\<forall>j < length pt. j \<noteq> i \<longrightarrow> \<not> x86_64_entry_valid (pt ! j) PAGE_FLAG_PRESENT)) \<and>
    \<not> x86_64_entry_valid x86_64_clear_entry (flags OR PAGE_FLAG_PRESENT) \<and>
    x86_64_get_next_pt x86_64_clear_entry = BIT_MASK 51 30"
proof -
  have "x86_64_get_next_pt x86_64_clear_entry = BIT_MASK 51 30"
    by (rule bit_word_eqI)
      (auto simp: x86_64_get_next_pt_def x86_64_clear_entry_def bit_and_iff masks)
  moreover have "\<not> x86_64_entry_valid x86_64_clear_entry (flags OR PAGE_FLAG_PRESENT)"
    using clear_entry_not_present by (auto simp: entry_valid_iff bit_or_iff masks)
  ultimately show ?thesis
    using page_table_empty_update [OF assms] by (simp add: entry_valid_present)
qed

theorem clear_entry_page_table_empty_witness:
  "x86_64_page_table_empty ([0x1003, 0x2002][0 := x86_64_clear_entry])"
  using clear_entry_page_table_empty [of 0 "[0x1003, 0x2002]" 0]
  by (simp add: less_Suc_eq entry_valid_present)

text \<open>With a non-zero cache line size the flush loop returns, and every byte of the region
  lies in a line that starts at one of the flushed addresses. With a zero line size (before
  \<open>arch_init_early\<close> has read CPUID) a non-empty flush does not return.\<close>

theorem flush_cpu_caches_covers:
  "(if cache_line_size \<noteq> 0
    then \<exists>as. arch_paging_flush_cpu_caches cache_line_size addr sz = Some as \<and>
      (\<forall>k. 0 \<le> k \<and> k < sz \<longrightarrow>
        (\<exists>a \<in> set as. \<exists>d < uint cache_line_size. addr + of_int k = a + of_int d))
    else arch_paging_flush_cpu_caches cache_line_size addr sz = (if sz > 0 then None else Some []))"
proof (cases "cache_line_size = 0")
  case True
  have "flush_lines 0 addr sz = None" if "sz > 0"
    using flush_lines_zero_line [of 0 addr sz] that by (cases "flush_lines 0 addr sz") auto
  moreover have "flush_lines 0 addr sz = Some []" if "\<not> sz > 0"
    using that by (subst flush_lines.simps) simp
  ultimately show ?thesis
    using True by (simp add: arch_paging_flush_cpu_caches_def)
next
  case False
  then show ?thesis
    using flush_lines_covers [of cache_line_size addr sz]
    by (simp add: arch_paging_flush_cpu_caches_def word_neq_0_conv)
qed

theorem flush_cpu_caches_covers_witness:
  "\<exists>as. arch_paging_flush_cpu_caches 64 0x1000 16 = Some as \<and>
     (\<exists>a \<in> set as. \<exists>d < 64. 0x1000 + of_int 15 = a + of_int d)"
proof -
  obtain as where as: "arch_paging_flush_cpu_caches 64 0x1000 16 = Some as"
    "\<forall>k. 0 \<le> k \<and> k < (16::int) \<longrightarrow> (\<exists>a \<in> set as. \<exists>d < uint (64 :: u64). 0x1000 + of_int k = a + of_int d)"
    using flush_cpu_caches_covers [of 64 "0x1000" 16] by auto
  from as(2) [rule_format, of 15] have
    "\<exists>a \<in> set as. \<exists>d < 64. 0x1000 + of_int 15 = a + of_int d" by simp
  with as(1) show ?thesis by blast
qed

end
