(* ===== verification/Spy_Strhash.thy ===== *)
theory Spy_Strhash
  imports Spy_Prelude
begin

text \<open>
  The string hash the tool and the kernel module dispatch on: \<open>lib/string.c\<close> and
  \<open>lib/string.h\<close>. A C string is a list of characters; the loop stops at the first NUL or at the
  end of the list, which stands for the terminator.
\<close>

abbreviation (input) STR_ENABLE :: u64 where "STR_ENABLE \<equiv> 6953475863468"
abbreviation (input) STR_DISABLE :: u64 where "STR_DISABLE \<equiv> 229463237649593"
abbreviation (input) STR_TARGET :: u64 where "STR_TARGET \<equiv> 6954048093548"
abbreviation (input) STR_VERSION :: u64 where "STR_VERSION \<equiv> 249805560270004805"
abbreviation (input) STR_V :: u64 where "STR_V \<equiv> 5861512"
abbreviation (input) STR_HELP :: u64 where "STR_HELP \<equiv> 6951207451432"
abbreviation (input) STR_H :: u64 where "STR_H \<equiv> 5861498"
abbreviation (input) STR_HARDWARE :: u64 where "STR_HARDWARE \<equiv> 7572446949630323"
abbreviation (input) STR_CREATE :: u64 where "STR_CREATE \<equiv> 6953402479289"
abbreviation (input) STR_LIST :: u64 where "STR_LIST \<equiv> 6385440353"
abbreviation (input) STR_LOAD :: u64 where "STR_LOAD \<equiv> 6385446277"
abbreviation (input) STR_START :: u64 where "STR_START \<equiv> 210728208851"
abbreviation (input) STR_SHUTDOWN :: u64 where "STR_SHUTDOWN \<equiv> 7572924928492385"
abbreviation (input) STR_ELIMINATE :: u64 where "STR_ELIMINATE \<equiv> 249886987627671869"
abbreviation (input) STR_STATS :: u64 where "STR_STATS \<equiv> 210728208916"

fun strhash_loop :: "u64 \<Rightarrow> string \<Rightarrow> u64" where
  "strhash_loop hash [] = hash"
| "strhash_loop hash (c # str) =
     (if of_char c = (0 :: u64) then hash
      else strhash_loop ((push_bit 5 hash + hash) + of_char c) str)"

definition strhash :: "string \<Rightarrow> u64" where
  "strhash str = strhash_loop 5381 str"

text \<open>The characters before the terminator.\<close>

definition c_string :: "string \<Rightarrow> string" where
  "c_string = takeWhile (\<lambda>c. of_char c \<noteq> (0 :: u64))"

lemma strhash_loop_c_string: "strhash_loop h (c_string s) = strhash_loop h s"
  by (induction h s rule: strhash_loop.induct) (simp_all add: c_string_def)

text \<open>One round multiplies by 33 and adds the character: Horner's rule.\<close>

lemma strhash_round: "(push_bit 5 h + h) + c = 33 * h + (c :: u64)"
  by (simp add: push_bit_eq_mult algebra_simps)

lemma strhash_loop_horner:
  "(\<forall>c \<in> set s. of_char c \<noteq> (0 :: u64)) \<Longrightarrow>
   strhash_loop h s = h * 33 ^ length s + (\<Sum>i<length s. of_char (s ! i) * 33 ^ (length s - 1 - i))"
proof (induction s arbitrary: h)
  case Nil
  then show ?case by simp
next
  case (Cons c s)
  have shift: "(\<Sum>i<length (c # s). of_char ((c # s) ! i) * 33 ^ (length (c # s) - 1 - i) :: u64) =
      of_char c * 33 ^ length s + (\<Sum>i<length s. of_char (s ! i) * 33 ^ (length s - 1 - i))"
    by (simp add: sum.lessThan_Suc_shift del: sum.lessThan_Suc)
  have "strhash_loop h (c # s) = strhash_loop (33 * h + of_char c) s"
    using Cons.prems by (simp add: strhash_round)
  also have "\<dots> = (33 * h + of_char c) * 33 ^ length s +
      (\<Sum>i<length s. of_char (s ! i) * 33 ^ (length s - 1 - i))"
    using Cons by simp
  finally show ?case
    unfolding shift by (simp add: algebra_simps)
qed

lemma c_string_no_nul: "\<forall>c \<in> set (c_string s). of_char c \<noteq> (0 :: u64)"
  by (auto simp: c_string_def dest: set_takeWhileD)

lemma strhash_commands:
  "strhash ''enable'' = STR_ENABLE" "strhash ''disable'' = STR_DISABLE"
  "strhash ''target'' = STR_TARGET" "strhash ''--version'' = STR_VERSION"
  "strhash ''-v'' = STR_V" "strhash ''--help'' = STR_HELP" "strhash ''-h'' = STR_H"
  "strhash ''hardware'' = STR_HARDWARE"
  "strhash ''create'' = STR_CREATE" "strhash ''list'' = STR_LIST" "strhash ''load'' = STR_LOAD"
  "strhash ''start'' = STR_START" "strhash ''shutdown'' = STR_SHUTDOWN"
  "strhash ''eliminate'' = STR_ELIMINATE" "strhash ''stats'' = STR_STATS"
  by (simp_all add: strhash_def)

subsection \<open>Properties\<close>

text \<open>\<open>strhash\<close> reads a C string up to its terminator and computes, modulo \<open>2 ^ 64\<close>, the
  polynomial with coefficients the characters at the point 33, on top of \<open>5381 * 33 ^ n\<close>: the
  shift-and-add loop never loses more than the wrap-around of \<open>unsigned long\<close>.\<close>

theorem strhash_polynomial:
  "strhash s = 5381 * 33 ^ length (c_string s) +
     (\<Sum>i<length (c_string s). of_char (c_string s ! i) * 33 ^ (length (c_string s) - 1 - i))"
  unfolding strhash_def strhash_loop_c_string [of _ s, symmetric]
  by (rule strhash_loop_horner [OF c_string_no_nul])

end
