(* ===== verification/Spy_Tools.thy ===== *)
theory Spy_Tools
  imports Spy_Strhash
begin

text \<open>
  The management tool: \<open>tools/spy.c\<close>, \<open>tools/device.c\<close> and \<open>tools/functions/\<close>.

  A run of the tool is the list of its observable events and an outcome: the value returned, an
  exit status, or undefined behaviour (use of an indeterminate value, a NULL string, a store
  through a pointer that was never set). What the operating system answers is the record
  \<open>tool_env\<close>: the files, the device, the result of an ioctl, the directory of the targets. An
  indeterminate \<open>int\<close> is \<open>None\<close>.
\<close>

subsection \<open>Runs\<close>

datatype 'a outcome = Returns 'a | Exits nat | Undefined

record spy_target_id =
  ti_id :: "32 word"
  ti_name :: string

record spy_target_create =
  tc_config :: string
  tc_config_size :: u32

record spy_preload_image =
  pi_source :: string
  pi_size :: u64
  pi_target_address :: u64

datatype ioctl_arg =
    No_arg
  | Arg_config string
  | Arg_create spy_target_create
  | Arg_load spy_target_id
  | Arg_id spy_target_id

record spy_target_info =
  inf_id :: "32 word"
  inf_name :: string
  inf_state :: string
  inf_cpus_assigned :: string
  inf_cpus_failed :: string

datatype event =
    Open_dev
  | Ioctl u64 ioctl_arg
  | Close_dev
  | Message string
  | Usage
  | List_header
  | List_row spy_target_info

type_synonym 'a prog = "event list \<times> 'a outcome"

definition ret :: "'a \<Rightarrow> 'a prog" where
  "ret a = ([], Returns a)"

definition emit :: "event \<Rightarrow> unit prog" where
  "emit e = ([e], Returns ())"

definition quit :: "nat \<Rightarrow> 'a prog" where
  "quit n = ([], Exits n)"

definition undefined_behaviour :: "'a prog" where
  "undefined_behaviour = ([], Undefined)"

definition tbind :: "'a prog \<Rightarrow> ('a \<Rightarrow> 'b prog) \<Rightarrow> 'b prog" where
  "tbind m f =
     (case m of
        (t, Returns a) \<Rightarrow> (case f a of (t', r) \<Rightarrow> (t @ t', r))
      | (t, Exits n) \<Rightarrow> (t, Exits n)
      | (t, Undefined) \<Rightarrow> (t, Undefined))"

lemmas prog_defs = ret_def emit_def quit_def undefined_behaviour_def tbind_def

datatype file_result = Open_fails | Stat_fails | Read_fails | Contents string

record tool_env =
  env_file :: "string \<Rightarrow> file_result"
  env_dev_opens :: bool
  env_ioctl :: "u64 \<Rightarrow> ioctl_arg \<Rightarrow> int"
  env_targets_dir :: "errno + string list"
  env_malloc_ok :: bool

subsection \<open>C strings and numbers\<close>

definition strcmp_eq :: "string \<Rightarrow> string \<Rightarrow> bool" where
  "strcmp_eq a b \<longleftrightarrow> c_string a = c_string b"

text \<open>\<open>strncpy\<close> of \<open>n\<close> characters into a zeroed buffer of \<open>len\<close> bytes.\<close>

definition strncpy_zeroed :: "nat \<Rightarrow> nat \<Rightarrow> string \<Rightarrow> string" where
  "strncpy_zeroed len n src =
     (let s = take n (c_string src) in s @ replicate (len - length s) CHR 0x00)"

definition isspace :: "char \<Rightarrow> bool" where
  "isspace c \<longleftrightarrow> of_char c = (32 :: nat) \<or> (9 \<le> (of_char c :: nat) \<and> of_char c \<le> (13 :: nat))"

definition digit_value :: "char \<Rightarrow> nat" where
  "digit_value c =
     (let n = of_char c in
      if 48 \<le> n \<and> n \<le> 57 then n - 48
      else if 97 \<le> n \<and> n \<le> 122 then n - 87
      else if 65 \<le> n \<and> n \<le> 90 then n - 55
      else 36)"

fun digits :: "nat \<Rightarrow> nat \<Rightarrow> string \<Rightarrow> nat \<times> string" where
  "digits base acc [] = (acc, [])"
| "digits base acc (c # s) =
     (if digit_value c < base then digits base (acc * base + digit_value c) s else (acc, c # s))"

definition sign_of :: "string \<Rightarrow> bool \<times> string" where
  "sign_of s =
     (case s of
        [] \<Rightarrow> (False, [])
      | c # r \<Rightarrow> if c = CHR ''-'' then (True, r) else if c = CHR ''+'' then (False, r) else (False, s))"

text \<open>Base 0: a leading \<open>0x\<close> before a hexadecimal digit selects 16, another leading 0 selects 8.\<close>

definition auto_base :: "string \<Rightarrow> nat \<times> string" where
  "auto_base s =
     (case s of
        c # x # d # r \<Rightarrow>
          if c = CHR ''0'' \<and> (x = CHR ''x'' \<or> x = CHR ''X'') \<and> digit_value d < 16 then (16, d # r)
          else if c = CHR ''0'' then (8, s) else (10, s)
      | c # r \<Rightarrow> if c = CHR ''0'' then (8, s) else (10, s)
      | [] \<Rightarrow> (10, s))"

text \<open>\<open>strtoll (s, &endptr, 0)\<close>: the value, what \<open>endptr\<close> points at, and whether \<open>errno\<close> is
  set. Without a digit, the value is 0 and \<open>endptr\<close> is \<open>s\<close>.\<close>

definition strtoll0 :: "string \<Rightarrow> int \<times> string \<times> bool" where
  "strtoll0 str =
     (let s = c_string str;
          (neg, s2) = sign_of (dropWhile isspace s);
          (base, s3) = auto_base s2
      in case s3 of
           [] \<Rightarrow> (0, s, False)
         | c # r \<Rightarrow>
             if \<not> digit_value c < base then (0, s, False)
             else (let (n, rest) = digits base 0 s3; v = (if neg then - int n else int n) in
                   if v < - (2 ^ 63) then (- (2 ^ 63), rest, True)
                   else if v \<ge> 2 ^ 63 then (2 ^ 63 - 1, rest, True)
                   else (v, rest, False)))"

text \<open>\<open>strtoul (s, NULL, 10)\<close>.\<close>

definition strtoul10 :: "string \<Rightarrow> u64" where
  "strtoul10 str =
     (let (neg, s) = sign_of (dropWhile isspace (c_string str));
          (n, rest) = digits 10 0 s
      in if n \<ge> 2 ^ 64 then - 1 else if neg then - of_nat n else of_nat n)"

text \<open>\<open>printf "%u"\<close>.\<close>

fun dec :: "nat \<Rightarrow> string" where
  "dec n = (if n < 10 then [char_of (48 + n)] else dec (n div 10) @ [char_of (48 + n mod 10)])"

declare dec.simps [simp del]

subsection \<open>Device and file access\<close>

abbreviation (input) SPY_TARGETS :: string where
  "SPY_TARGETS \<equiv> ''/sys/devices/spy/targets/''"

definition usage_exit :: "nat \<Rightarrow> 'a prog" where
  "usage_exit exit_status = tbind (emit Usage) (\<lambda>_. quit exit_status)"

definition open_dev :: "tool_env \<Rightarrow> unit prog" where
  "open_dev env =
     (if env_dev_opens env then emit Open_dev
      else tbind (emit (Message ''opening /dev/spy'')) (\<lambda>_. quit 1))"

definition read_string :: "tool_env \<Rightarrow> string \<Rightarrow> (string \<times> nat) prog" where
  "read_string env str =
     (if \<not> env_malloc_ok env then tbind (emit (Message ''insufficient memory'')) (\<lambda>_. quit 1)
      else ret (c_string str, length (c_string str) + 1))"

definition read_file :: "tool_env \<Rightarrow> string \<Rightarrow> (string \<times> nat) prog" where
  "read_file env name =
     (case env_file env name of
        Open_fails \<Rightarrow> tbind (emit (Message (''opening '' @ name))) (\<lambda>_. quit 1)
      | Stat_fails \<Rightarrow> tbind (emit (Message ''fstat'')) (\<lambda>_. quit 1)
      | Read_fails \<Rightarrow>
          if \<not> env_malloc_ok env then tbind (emit (Message ''insufficient memory'')) (\<lambda>_. quit 1)
          else tbind (emit (Message (''reading '' @ name))) (\<lambda>_. quit 1)
      | Contents bs \<Rightarrow>
          if \<not> env_malloc_ok env then tbind (emit (Message ''insufficient memory'')) (\<lambda>_. quit 1)
          else ret (bs, length bs))"

text \<open>Open the device, issue one ioctl, report a failure, close the device.\<close>

definition dev_ioctl :: "tool_env \<Rightarrow> u64 \<Rightarrow> ioctl_arg \<Rightarrow> string \<Rightarrow> int prog" where
  "dev_ioctl env cmd arg what =
     tbind (open_dev env) (\<lambda>_.
     tbind (emit (Ioctl cmd arg)) (\<lambda>_.
     let err = env_ioctl env cmd arg in
     tbind (if err \<noteq> 0 then emit (Message what) else ret ()) (\<lambda>_.
     tbind (emit Close_dev) (\<lambda>_. ret err))))"

definition enable :: "tool_env \<Rightarrow> string list \<Rightarrow> int option prog" where
  "enable env argv =
     (if length argv \<noteq> 3 then usage_exit 1
      else tbind (read_file env (argv ! 2)) (\<lambda>(config, size).
           tbind (dev_ioctl env STR_ENABLE (Arg_config config) ''SPY_ENABLE'') (\<lambda>err.
           ret (Some err))))"

subsection \<open>Targets\<close>

definition target_create :: "tool_env \<Rightarrow> string list \<Rightarrow> int option prog" where
  "target_create env argv =
     (if length argv \<noteq> 4 then usage_exit 1
      else tbind (read_file env (argv ! 3)) (\<lambda>(config, size).
           tbind (dev_ioctl env STR_CREATE
                   (Arg_create \<lparr>tc_config = config, tc_config_size = of_nat size\<rparr>)
                   ''SPY_TARGET_CREATE'') (\<lambda>err.
           ret (Some err))))"

text \<open>
  \<open>parse_target_id (&target_id, argc - 3, &argv[3])\<close>: the number of arguments consumed, 0 for
  none, and the id. The second \<open>strcmp\<close> of the condition is not compared with 0.
\<close>

definition SPY_TARGET_ID_UNUSED :: "32 word" where
  "SPY_TARGET_ID_UNUSED = - 1"

definition parse_target_id :: "string list \<Rightarrow> nat \<times> spy_target_id" where
  "parse_target_id args =
     (let zeroed = \<lparr>ti_id = 0, ti_name = replicate 32 CHR 0x00\<rparr> in
      if length args < 1 then (0, zeroed)
      else if strcmp_eq (args ! 0) ''--name'' \<or> \<not> strcmp_eq (args ! 0) ''-n'' then
        (if length args < 2 then (0, zeroed)
         else (2, \<lparr>ti_id = SPY_TARGET_ID_UNUSED, ti_name = strncpy_zeroed 32 31 (args ! 1)\<rparr>))
      else
        (let (v, rest, failed) = strtoll0 (args ! 0); id = word_of_int v in
         if failed \<or> rest \<noteq> [] \<or> sint id < 0 then
           (1, \<lparr>ti_id = SPY_TARGET_ID_UNUSED, ti_name = strncpy_zeroed 32 31 (args ! 0)\<rparr>)
         else (1, zeroed\<lparr>ti_id := id\<rparr>)))"

definition match_opt :: "string \<Rightarrow> string \<Rightarrow> string \<Rightarrow> bool" where
  "match_opt arg short_opt long_opt \<longleftrightarrow> strcmp_eq arg short_opt \<or> strcmp_eq arg long_opt"

definition target_path :: "u32 \<Rightarrow> string \<Rightarrow> string" where
  "target_path tid entry = take 127 (SPY_TARGETS @ dec (unat tid) @ ''/'' @ entry)"

definition read_target_string :: "tool_env \<Rightarrow> u32 \<Rightarrow> string \<Rightarrow> string prog" where
  "read_target_string env tid entry =
     tbind (read_file env (target_path tid entry)) (\<lambda>(bs, size).
       if size = 0 then
         tbind (emit (Message (take 127 (''reading '' @ SPY_TARGETS @ dec (unat tid) @ ''/'' @ entry))))
           (\<lambda>_. quit 1)
       else if bs ! (size - 1) \<noteq> CHR 0x0A then
         (if \<not> env_malloc_ok env then tbind (emit (Message ''insufficient memory'')) (\<lambda>_. quit 1)
          else ret (c_string bs))
       else ret (c_string (take (size - 1) bs)))"

definition get_target_info :: "tool_env \<Rightarrow> u32 \<Rightarrow> spy_target_info prog" where
  "get_target_info env tid =
     (if \<not> env_malloc_ok env then tbind (emit (Message ''insufficient memory'')) (\<lambda>_. quit 1)
      else tbind (read_target_string env tid ''name'') (\<lambda>tmp.
           tbind (read_target_string env tid ''state'') (\<lambda>state.
           tbind (read_target_string env tid ''cpus_assigned_list'') (\<lambda>assigned.
           tbind (read_target_string env tid ''cpus_failed_list'') (\<lambda>failed.
           ret \<lparr>inf_id = tid, inf_name = take 31 tmp, inf_state = state,
                inf_cpus_assigned = assigned, inf_cpus_failed = failed\<rparr>)))))"

text \<open>\<open>d_name[0] != '.'\<close>; the first character of an empty name is the terminator.\<close>

definition target_match :: "string \<Rightarrow> bool" where
  "target_match d_name \<longleftrightarrow> (case d_name of [] \<Rightarrow> True | c # _ \<Rightarrow> c \<noteq> CHR ''.'')"

fun list_targets :: "tool_env \<Rightarrow> string list \<Rightarrow> int option prog" where
  "list_targets env [] = ret (Some 0)"
| "list_targets env (d_name # names) =
     tbind (get_target_info env (ucast (strtoul10 d_name))) (\<lambda>info.
     tbind (emit (List_row info)) (\<lambda>_. list_targets env names))"

definition target_list :: "tool_env \<Rightarrow> string list \<Rightarrow> int option prog" where
  "target_list env argv =
     (if length argv \<noteq> 3 then usage_exit 1
      else case env_targets_dir env of
             Inl e \<Rightarrow> if e = ENOENT then ret (Some 0)
                      else tbind (emit (Message ''scandir'')) (\<lambda>_. ret (Some (- 1)))
           | Inr entries \<Rightarrow>
               (let namelist = List.filter target_match entries in
                tbind (if namelist \<noteq> [] then emit List_header else ret ()) (\<lambda>_.
                list_targets env namelist)))"

text \<open>
  \<open>target_shutdown_load\<close>: the local \<open>image\<close> is declared and never set; it is the argument
  \<open>img\<close> of the body, \<open>None\<close> for an indeterminate pointer. \<open>argv[argc]\<close> is NULL.
\<close>

definition argv_at :: "string list \<Rightarrow> nat \<Rightarrow> string prog" where
  "argv_at argv i = (if i < length argv then ret (argv ! i) else undefined_behaviour)"

definition store_image :: "spy_preload_image option \<Rightarrow> string \<Rightarrow> nat \<Rightarrow> spy_preload_image prog" where
  "store_image img source sz =
     (case img of
        None \<Rightarrow> undefined_behaviour
      | Some i \<Rightarrow> ret (i\<lparr>pi_source := source, pi_size := of_nat sz, pi_target_address := 0\<rparr>))"

definition target_shutdown_load_body ::
  "tool_env \<Rightarrow> string list \<Rightarrow> u64 \<Rightarrow> spy_preload_image option \<Rightarrow> int option prog" where
  "target_shutdown_load_body env argv mode img =
     (let (id_args, target_id) = parse_target_id (drop 3 argv); arg_num = 3 + id_args in
      if id_args = 0 \<or> (mode = STR_SHUTDOWN \<and> arg_num \<noteq> length argv) \<or>
         (mode = STR_LOAD \<and> arg_num = length argv) then usage_exit 1
      else if \<not> env_malloc_ok env then tbind (emit (Message ''insufficient memory'')) (\<lambda>_. quit 1)
      else tbind (argv_at argv arg_num) (\<lambda>arg.
           tbind (if match_opt arg ''-t'' ''--target''
                  then tbind (argv_at argv (arg_num + 1)) (\<lambda>s.
                       tbind (read_string env s) (\<lambda>(buf, size). ret (buf, size, arg_num + 2)))
                  else tbind (read_file env arg) (\<lambda>(buf, size). ret (buf, size, arg_num + 1)))
             (\<lambda>(buf, size, arg_num).
           tbind (store_image img buf size) (\<lambda>img.
           tbind (if arg_num < length argv \<and> match_opt (argv ! arg_num) ''-a'' ''--address''
                  then tbind (argv_at argv (arg_num + 1)) (\<lambda>s.
                       let (v, rest, failed) = strtoll0 s in
                       if failed \<or> rest \<noteq> [] then usage_exit 1
                       else ret (img\<lparr>pi_target_address := word_of_int v\<rparr>))
                  else ret img) (\<lambda>img.
           tbind (dev_ioctl env STR_LOAD (Arg_load target_id) ''SPY_TARGET_LOAD'') (\<lambda>err.
           ret (Some err)))))))"

definition target_shutdown_load :: "tool_env \<Rightarrow> string list \<Rightarrow> u64 \<Rightarrow> int option prog" where
  "target_shutdown_load env argv mode = target_shutdown_load_body env argv mode None"

definition target_simple_cmd :: "tool_env \<Rightarrow> string list \<Rightarrow> u64 \<Rightarrow> int option prog" where
  "target_simple_cmd env argv command =
     (let (id_args, target_id) = parse_target_id (drop 3 argv) in
      if id_args = 0 \<or> 3 + id_args \<noteq> length argv then usage_exit 1
      else tbind (dev_ioctl env command (Arg_id target_id)
                   (if command = STR_START then ''SPY_TARGET_START''
                    else if command = STR_ELIMINATE then ''SPY_TARGET_ELIMINATE''
                    else ''<unknown command>'')) (\<lambda>err. ret (Some err)))"

text \<open>\<open>target_stats\<close> ends without a \<open>return\<close>: its value is indeterminate.\<close>

definition target_stats :: "tool_env \<Rightarrow> string list \<Rightarrow> int option prog" where
  "target_stats env argv =
     (let (id_args, target_id) = parse_target_id (drop 3 argv) in
      if id_args = 0 \<or> 3 + id_args \<noteq> length argv then usage_exit 1
      else ret None)"

subsection \<open>The command line\<close>

definition target_management :: "tool_env \<Rightarrow> string list \<Rightarrow> int option prog" where
  "target_management env argv =
     (if length argv < 3 then usage_exit 1
      else (let h = strhash (argv ! 2) in
        if h = STR_CREATE then target_create env argv
        else if h = STR_LIST then target_list env argv
        else if h = STR_LOAD then target_shutdown_load env argv STR_LOAD
        else if h = STR_START then target_simple_cmd env argv STR_START
        else if h = STR_SHUTDOWN then target_shutdown_load env argv STR_SHUTDOWN
        else if h = STR_ELIMINATE then target_simple_cmd env argv STR_ELIMINATE
        else if h = STR_STATS then target_stats env argv
        else usage_exit 1))"

definition hardware_check :: "unit prog" where
  "hardware_check = ret ()"

text \<open>\<open>return err ? 1 : 0\<close>; \<open>err\<close> has no value after \<open>hardware\<close>.\<close>

definition main_tail :: "int option \<Rightarrow> nat prog" where
  "main_tail err =
     (case err of None \<Rightarrow> undefined_behaviour | Some e \<Rightarrow> ret (if e \<noteq> 0 then 1 else 0))"

definition spy_main :: "tool_env \<Rightarrow> string list \<Rightarrow> nat prog" where
  "spy_main env argv =
     (if length argv < 2 then usage_exit 1
      else (let h = strhash (argv ! 1) in
        if h = STR_ENABLE then tbind (enable env argv) main_tail
        else if h = STR_DISABLE then
          tbind (dev_ioctl env STR_DISABLE No_arg ''SPY_DISABLE'') (\<lambda>err. main_tail (Some err))
        else if h = STR_TARGET then tbind (target_management env argv) main_tail
        else if h = STR_VERSION \<or> h = STR_V then
          tbind (emit (Message ''Spy management tool 0.0.1'')) (\<lambda>_. ret 0)
        else if h = STR_HELP \<or> h = STR_H then usage_exit 0
        else if h = STR_HARDWARE then tbind hardware_check (\<lambda>_. main_tail None)
        else usage_exit 1))"

subsection \<open>Lemmas on runs\<close>

text \<open>What a run does with the device: its device events, in their order.\<close>

fun is_dev_event :: "event \<Rightarrow> bool" where
  "is_dev_event Open_dev = True"
| "is_dev_event (Ioctl cmd arg) = True"
| "is_dev_event Close_dev = True"
| "is_dev_event e = False"

definition device_use :: "'a prog \<Rightarrow> event list" where
  "device_use m = filter is_dev_event (fst m)"

lemma device_use_tbind:
  "device_use (tbind m f) = device_use m @ (case snd m of Returns a \<Rightarrow> device_use (f a) | _ \<Rightarrow> [])"
  by (auto simp: device_use_def tbind_def split: prod.splits outcome.splits)

lemma device_use_basic [simp]:
  "device_use (ret a) = []" "device_use (emit e) = (if is_dev_event e then [e] else [])" "device_use (quit n) = []"
  "device_use undefined_behaviour = []" "device_use (usage_exit n) = []"
  by (simp_all add: device_use_def usage_exit_def prog_defs)

lemma store_image_None: "tbind (store_image None buf sz) f = undefined_behaviour"
  by (simp add: store_image_def prog_defs)

text \<open>
  What holds of the events of every run: a property that holds of output, of an ioctl between opening and
  closing the device, and of one run after another, holds of every run of the tool.
\<close>

abbreviation (input) tool_commands :: "u64 set" where
  "tool_commands \<equiv> {STR_ENABLE, STR_DISABLE, STR_CREATE, STR_START, STR_ELIMINATE}"

named_theorems events "programs whose events have a property"

locale run_property =
  fixes P :: "event list \<Rightarrow> bool"
  assumes empty: "P []"
    and out_ok: "P [Message m]" "P [Usage]" "P [List_header]" "P [List_row info]"
    and ioctl: "cmd \<in> tool_commands \<Longrightarrow> P [Open_dev, Ioctl cmd arg, Close_dev]"
      "cmd \<in> tool_commands \<Longrightarrow> P [Open_dev, Ioctl cmd arg, Message m, Close_dev]"
    and append: "P s \<Longrightarrow> P t \<Longrightarrow> P (s @ t)"
begin

lemma tbind_events [events]: "P (fst m) \<Longrightarrow> (\<And>a. P (fst (f a))) \<Longrightarrow> P (fst (tbind m f))"
  by (auto simp: tbind_def split: prod.splits outcome.splits) (metis append fst_conv)

lemma basic_events [events]:
  "P (fst (ret a))" "P (fst (emit (Message msg)))" "P (fst (emit Usage))" "P (fst (emit List_header))"
  "P (fst (emit (List_row info)))" "P (fst (quit n))" "P (fst undefined_behaviour)"
  by (simp_all add: prog_defs empty out_ok)

lemma if_events [events]: "P (fst a) \<Longrightarrow> P (fst b) \<Longrightarrow> P (fst (if c then a else b))"
  by simp

lemma dev_ioctl_events [events]: "cmd \<in> tool_commands \<Longrightarrow> P (fst (dev_ioctl env cmd arg what))"
  using ioctl [of cmd] out_ok(1) by (auto simp: dev_ioctl_def open_dev_def prog_defs Let_def)

lemma input_events [events]:
  "P (fst (usage_exit n))" "P (fst (read_file env name))" "P (fst (read_string env str))" "P (fst (argv_at argv i))"
  unfolding usage_exit_def read_file_def read_string_def argv_at_def
  by (auto intro!: events split: file_result.splits)

lemma target_info_events [events]: "P (fst (get_target_info env tid))"
proof -
  have "P (fst (read_target_string env tid entry))" for entry
    unfolding read_target_string_def by (auto intro!: events split: prod.splits)
  then show ?thesis
    unfolding get_target_info_def by (intro events) auto
qed

lemma list_targets_events [events]: "P (fst (list_targets env names))"
  by (induction names) (auto intro!: events)

lemma target_events [events]:
  "P (fst (target_list env argv))" "P (fst (target_create env argv))" "P (fst (target_shutdown_load env argv mode))"
  "cmd \<in> tool_commands \<Longrightarrow> P (fst (target_simple_cmd env argv cmd))" "P (fst (target_stats env argv))"
  unfolding target_list_def target_create_def target_shutdown_load_def target_shutdown_load_body_def
    target_simple_cmd_def target_stats_def store_image_None Let_def
  by (auto intro!: events split: prod.splits sum.splits)

lemma target_management_events [events]: "P (fst (target_management env argv))"
  unfolding target_management_def Let_def by (intro events) auto

lemma main_events: "P (fst (spy_main env argv))"
proof -
  have "P (fst (main_tail err))" for err
    unfolding main_tail_def by (auto intro!: events split: option.splits)
  then show ?thesis
    unfolding spy_main_def enable_def hardware_check_def Let_def by (auto intro!: events split: prod.splits)
qed

end

interpretation commands: run_property "\<lambda>es. \<forall>cmd arg. Ioctl cmd arg \<in> set es \<longrightarrow> cmd \<in> tool_commands"
  by unfold_locales auto

text \<open>Each of these commands is issued by some run.\<close>

lemma tool_issues:
  assumes "cmd \<in> tool_commands"
  shows "\<exists>env argv arg. Ioctl cmd arg \<in> set (fst (spy_main env argv))"
proof -
  let ?e = "\<lparr>env_file = \<lambda>_. Contents ''c'', env_dev_opens = True, env_ioctl = \<lambda>_ _. 0, env_targets_dir = Inr [], env_malloc_ok = True\<rparr>"
  let ?argv = "if cmd = STR_ENABLE then [''spy'', ''enable'', ''f''] else if cmd = STR_DISABLE then [''spy'', ''disable'']
    else if cmd = STR_CREATE then [''spy'', ''target'', ''create'', ''f'']
    else [''spy'', ''target'', if cmd = STR_START then ''start'' else ''eliminate'', ''-n'']"
  note defs = spy_main_def enable_def target_management_def target_create_def target_simple_cmd_def strhash_commands
    read_file_def parse_target_id_def strcmp_eq_def c_string_def strtoll0_def sign_of_def auto_base_def isspace_def digit_value_def
    dev_ioctl_def open_dev_def main_tail_def prog_defs Let_def
  have "\<exists>arg. Ioctl cmd arg \<in> set (fst (spy_main ?e ?argv))"
    using assms by (auto simp: defs)
  then show ?thesis
    by blast
qed

text \<open>Programs that leave the device alone.\<close>

definition device_free :: "'a prog \<Rightarrow> bool" where
  "device_free m \<longleftrightarrow> device_use m = []"

lemma device_free_no_ioctl: "device_free m \<Longrightarrow> Ioctl cmd arg \<notin> set (fst m)"
  by (auto simp: device_free_def device_use_def filter_empty_conv)

lemma device_free_tbind [intro]: "device_free m \<Longrightarrow> (\<And>a. device_free (f a)) \<Longrightarrow> device_free (tbind m f)"
  by (simp add: device_free_def device_use_tbind split: outcome.split)

lemma device_free_basic [intro, simp]:
  "device_free (ret a)" "device_free (emit (Message m))" "device_free (emit List_header)" "device_free (emit (List_row info))"
  "device_free (quit n)" "device_free undefined_behaviour" "device_free (usage_exit n)"
  by (simp_all add: device_free_def)

lemma device_free_input [intro, simp]:
  "device_free (argv_at argv i)" "device_free (read_file env name)" "device_free (read_string env name)"
  unfolding argv_at_def read_file_def read_string_def by (auto split: file_result.split)

lemma device_free_list [intro, simp]:
  "device_free (target_list env argv)" "device_free (target_stats env argv)"
proof -
  have str: "device_free (read_target_string env tid entry)" for tid entry
    unfolding read_target_string_def by (auto intro!: device_free_tbind split: prod.splits)
  then have "device_free (get_target_info env tid)" for tid
    unfolding get_target_info_def by (auto intro!: device_free_tbind)
  then have "device_free (list_targets env names)" for names
    by (induction names) (auto intro!: device_free_tbind)
  then show "device_free (target_list env argv)"
    unfolding target_list_def Let_def by (auto intro!: device_free_tbind split: sum.split)
  show "device_free (target_stats env argv)"
    unfolding target_stats_def by (auto split: prod.split)
qed

text \<open>Runs that neither reach an ioctl nor return.\<close>

definition fruitless :: "'a prog \<Rightarrow> bool" where
  "fruitless m \<longleftrightarrow> device_free m \<and> (\<forall>a. snd m \<noteq> Returns a)"

lemma fruitless_tbind1: "fruitless m \<Longrightarrow> fruitless (tbind m f)"
  by (cases m; cases "snd m") (auto simp: fruitless_def device_free_def device_use_def tbind_def)

lemma fruitless_tbind2:
  assumes "device_free m" "\<And>a. fruitless (f a)"
  shows "fruitless (tbind m f)"
proof (cases m)
  case (Pair t r)
  show ?thesis
  proof (cases r)
    case (Returns a)
    then show ?thesis
      using assms(1) assms(2) [of a] Pair
      by (cases "f a") (auto simp: fruitless_def device_free_def device_use_def tbind_def)
  qed (use assms(1) Pair in \<open>simp_all add: fruitless_def device_free_def device_use_def tbind_def\<close>)
qed

lemma fruitless_ends: "fruitless (usage_exit n)" "fruitless undefined_behaviour"
  "fruitless (tbind (emit (Message m)) (\<lambda>_. quit n))"
  by (auto simp: fruitless_def device_free_def device_use_def usage_exit_def prog_defs)

text \<open>Programs that leave the device alone, or open it, issue one request, close it and return the answer.\<close>

definition one_request :: "tool_env \<Rightarrow> int option prog \<Rightarrow> bool" where
  "one_request env m \<longleftrightarrow> device_free m \<or> env_dev_opens env \<and>
     (\<exists>cmd arg. device_use m = [Open_dev, Ioctl cmd arg, Close_dev] \<and> snd m = Returns (Some (env_ioctl env cmd arg)))"

lemma device_free_one_request [intro]: "device_free m \<Longrightarrow> one_request env m"
  by (simp add: one_request_def)

lemma one_request_tbind [intro]:
  assumes "device_free m" "\<And>a. one_request env (f a)"
  shows "one_request env (tbind m f)"
proof (cases m)
  case (Pair t r)
  show ?thesis
  proof (cases r)
    case (Returns a)
    then show ?thesis
      using assms(1) assms(2) [of a] Pair
      by (cases "f a") (auto simp: one_request_def device_free_def device_use_def tbind_def)
  qed (use assms(1) Pair in \<open>simp_all add: one_request_def device_free_def device_use_def tbind_def\<close>)
qed

lemma dev_ioctl_one_request [intro]: "one_request env (tbind (dev_ioctl env cmd arg what) (\<lambda>err. ret (Some err)))"
  by (auto simp: one_request_def device_free_def device_use_def dev_ioctl_def open_dev_def prog_defs Let_def)

lemma main_one_request:
  "device_free (spy_main env argv) \<or> env_dev_opens env \<and>
   (\<exists>cmd arg. device_use (spy_main env argv) = [Open_dev, Ioctl cmd arg, Close_dev] \<and>
     snd (spy_main env argv) = Returns (if env_ioctl env cmd arg = 0 then 0 else 1))"
proof -
  let ?ok = "\<lambda>m. device_free m \<or> env_dev_opens env \<and>
    (\<exists>cmd arg. device_use m = [Open_dev, Ioctl cmd arg, Close_dev] \<and> snd m = Returns (if env_ioctl env cmd arg = 0 then 0 else 1))"
  have load: "device_free (target_shutdown_load env argv mode)" for mode
    unfolding target_shutdown_load_def target_shutdown_load_body_def Let_def store_image_None
    by (auto intro!: device_free_tbind split: prod.splits)
  have enable: "one_request env (enable env argv)"
    unfolding enable_def by (auto intro!: one_request_tbind dev_ioctl_one_request split: prod.splits)
  have "one_request env (target_create env argv)" "one_request env (target_simple_cmd env argv cmd)" for cmd
    unfolding target_create_def target_simple_cmd_def Let_def
    by (auto intro!: one_request_tbind dev_ioctl_one_request split: prod.splits)
  then have manage: "one_request env (target_management env argv)"
    using load unfolding target_management_def Let_def by (simp add: device_free_one_request)
  have tail: "?ok (tbind m main_tail)" if "one_request env m" for m
    using that unfolding one_request_def
  proof
    assume "device_free m"
    then have "device_free (tbind m main_tail)"
      by (rule device_free_tbind) (simp add: main_tail_def split: option.split)
    then show ?thesis by blast
  next
    assume "env_dev_opens env \<and>
      (\<exists>cmd arg. device_use m = [Open_dev, Ioctl cmd arg, Close_dev] \<and> snd m = Returns (Some (env_ioctl env cmd arg)))"
    then obtain cmd arg where use: "env_dev_opens env" "device_use m = [Open_dev, Ioctl cmd arg, Close_dev]"
      "snd m = Returns (Some (env_ioctl env cmd arg))" by blast
    have "device_use (tbind m main_tail) = [Open_dev, Ioctl cmd arg, Close_dev]"
      "snd (tbind m main_tail) = Returns (if env_ioctl env cmd arg = 0 then 0 else 1)"
      using use(2,3) by (cases m; simp add: device_use_def tbind_def main_tail_def prog_defs)+
    then show ?thesis
      using use(1) by blast
  qed
  have "?ok (tbind (dev_ioctl env STR_DISABLE No_arg what) (\<lambda>err. main_tail (Some err)))" for what
    by (auto simp: device_free_def device_use_def dev_ioctl_def open_dev_def main_tail_def prog_defs Let_def)
  then show ?thesis
    unfolding spy_main_def Let_def using tail [OF enable] tail [OF manage]
    by (auto simp: hardware_check_def main_tail_def)
qed

lemma main_refused:
  assumes "\<forall>cmd arg. env_ioctl env cmd arg \<noteq> 0"
  shows "device_free (spy_main env argv) \<or> snd (spy_main env argv) = Returns 1"
  using main_one_request [of env argv] assms by auto

text \<open>Decimal numbers read back.\<close>

lemma digit_value_dec: "d < 10 \<Longrightarrow> digit_value (char_of (48 + d)) = d"
  by (simp add: digit_value_def)

lemma dec_nonempty: "dec n \<noteq> []"
  by (subst dec.simps) simp

lemma dec_rec: "\<not> n < 10 \<Longrightarrow> dec n = dec (n div 10) @ [char_of (48 + n mod 10)]"
  by (subst dec.simps) simp

lemma digits_append_dec:
  "digits 10 acc (dec n @ s) = digits 10 (acc * 10 ^ length (dec n) + n) s"
proof (induction n arbitrary: acc s rule: dec.induct)
  case (1 n)
  show ?case
  proof (cases "n < 10")
    case True
    then show ?thesis
      by (subst (1 2) dec.simps) (simp add: digit_value_dec)
  next
    case False
    have dv: "digit_value (char_of (48 + n mod 10)) = n mod 10"
      by (rule digit_value_dec) simp
    note d = dec_rec [OF False]
    have "digits 10 acc (dec n @ s) =
        digits 10 (acc * 10 ^ length (dec (n div 10)) + n div 10) (char_of (48 + n mod 10) # s)"
      using 1 [OF False] by (simp add: d)
    also have "\<dots> = digits 10 (acc * 10 ^ length (dec n) + n) s"
      using dv mult_div_mod_eq [of 10 n] by (simp add: d algebra_simps)
    finally show ?thesis .
  qed
qed

lemma dec_digit_chars: "c \<in> set (dec n) \<Longrightarrow> 48 \<le> (of_char c :: nat) \<and> of_char c \<le> (57 :: nat)"
proof (induction n rule: dec.induct)
  case (1 n)
  have d: "48 \<le> (of_char (char_of (48 + d) :: char) :: nat) \<and> of_char (char_of (48 + d) :: char) \<le> (57 :: nat)"
    if "d < 10" for d :: nat
    using that by simp
  show ?case
  proof (cases "n < 10")
    case True
    then show ?thesis
      using 1(2) d [of n] by (subst (asm) dec.simps) simp
  next
    case False
    then have "c \<in> set (dec (n div 10)) \<or> c = char_of (48 + n mod 10)"
      using 1(2) dec_rec [OF False] by auto
    then show ?thesis
      using 1(1) [OF False] d [of "n mod 10"] by auto
  qed
qed

lemma dec_first: "\<exists>c r. dec n = c # r \<and> 48 \<le> (of_char c :: nat) \<and> of_char c \<le> (57 :: nat)"
  using dec_nonempty [of n] dec_digit_chars [of _ n] by (cases "dec n") auto

lemma c_string_dec: "c_string (dec n @ s) = dec n @ c_string s"
proof -
  have "(of_char c :: u64) \<noteq> 0" if "c \<in> set (dec n)" for c
  proof -
    have "\<not> 2 ^ 64 dvd (of_char c :: nat)"
      using dec_digit_chars [OF that] nat_dvd_not_less [of "of_char c" "2 ^ 64"] by simp
    then have "(of_nat (of_char c) :: u64) \<noteq> 0"
      by (simp add: word_of_nat_eq_0_iff)
    then show ?thesis
      by (simp only: of_nat_of_char not_False_eq_True)
  qed
  then show ?thesis
    by (simp add: c_string_def takeWhile_append)
qed

lemma strtoul10_dec:
  assumes "n < 2 ^ 64"
  shows "strtoul10 (dec n) = of_nat n"
proof -
  obtain c r where c: "dec n = c # r" "48 \<le> (of_char c :: nat)" "of_char c \<le> (57 :: nat)"
    using dec_first by blast
  have ns: "\<not> isspace c" "c \<noteq> CHR ''-''" "c \<noteq> CHR ''+''"
    using c(2,3) by (auto simp: isspace_def)
  have "c_string (dec n) = dec n"
    using c_string_dec [of n "[]"] by (simp add: c_string_def)
  moreover have "digits 10 0 (dec n) = (n, [])"
    using digits_append_dec [of 0 n "[]"] by simp
  ultimately show ?thesis
    using assms ns c(1) by (simp add: strtoul10_def sign_of_def)
qed

text \<open>Reading a decimal numeral stops at the first character that is not a digit.\<close>

lemma digits_dec_slash: "digits 10 0 (dec n @ CHR ''/'' # s) = (n, CHR ''/'' # s)"
  by (simp add: digits_append_dec digit_value_def)

lemma length_dec: "n < 10 ^ Suc k \<Longrightarrow> length (dec n) \<le> Suc k"
proof (induction k arbitrary: n)
  case 0
  then show ?case by (simp add: dec.simps)
next
  case (Suc k)
  show ?case
  proof (cases "n < 10")
    case True
    then show ?thesis by (simp add: dec.simps)
  next
    case False
    have "n div 10 < 10 ^ Suc k"
      using Suc.prems by (simp add: div_less_iff_less_mult)
    from Suc.IH [OF this] show ?thesis
      using False by (simp add: dec_rec)
  qed
qed

lemma target_path_full:
  assumes "length entry \<le> 90"
  shows "target_path i entry = SPY_TARGETS @ dec (unat i) @ ''/'' @ entry"
proof -
  have "unat i < 2 ^ LENGTH(32)"
    by (rule unsigned_less)
  then have "length (dec (unat i)) \<le> 10"
    using length_dec [of "unat i" 9] by simp
  then show ?thesis
    using assms by (simp add: target_path_def)
qed

subsection \<open>Properties\<close>

text \<open>C40. A run of the tool, whatever the command line and whatever the system answers, either leaves the device
  alone, or opens \<open>/dev/spy\<close> once, issues one request and closes it again, and then returns 0 if the
  request was answered with 0, and 1 otherwise. No exit, error or undefined value leaves the device open, and no
  request is repeated.\<close>

theorem spy_main_device_discipline:
  "device_use (spy_main env argv) = [] \<or> env_dev_opens env \<and>
   (\<exists>cmd arg. device_use (spy_main env argv) = [Open_dev, Ioctl cmd arg, Close_dev] \<and>
     snd (spy_main env argv) = Returns (if env_ioctl env cmd arg = 0 then 0 else 1))"
  using main_one_request [of env argv] by (simp add: device_free_def)

text \<open>What \<open>parse_target_id\<close> accepts, on every argument list: a first argument \<open>-n\<close> is
  itself taken as the name; any other first argument needs a second one, which becomes the name. The
  id is always \<open>SPY_TARGET_ID_UNUSED\<close>: since \<open>strcmp (argv[0], "-n")\<close> is not compared with
  0, no command line selects a target by number.\<close>

theorem parse_target_id_names_only:
  "parse_target_id args =
     (case args of
        [] \<Rightarrow> (0, \<lparr>ti_id = 0, ti_name = strncpy_zeroed 32 31 []\<rparr>)
      | a # rest \<Rightarrow>
          if strcmp_eq a ''-n''
          then (1, \<lparr>ti_id = SPY_TARGET_ID_UNUSED, ti_name = strncpy_zeroed 32 31 a\<rparr>)
          else (case rest of
                  [] \<Rightarrow> (0, \<lparr>ti_id = 0, ti_name = strncpy_zeroed 32 31 []\<rparr>)
                | b # _ \<Rightarrow> (2, \<lparr>ti_id = SPY_TARGET_ID_UNUSED, ti_name = strncpy_zeroed 32 31 b\<rparr>)))"
proof -
  have "strtoll0 a = (0, ''-n'', False)" if "strcmp_eq a ''-n''" for a
    using that by (simp add: strtoll0_def strcmp_eq_def c_string_def sign_of_def auto_base_def
        isspace_def digit_value_def)
  moreover have "strcmp_eq a ''-n'' \<Longrightarrow> \<not> strcmp_eq a ''--name''" for a
    by (simp add: strcmp_eq_def c_string_def)
  moreover have "replicate 32 CHR 0x00 = strncpy_zeroed 32 31 []"
    by (simp add: strncpy_zeroed_def c_string_def)
  ultimately show ?thesis
    by (auto simp: parse_target_id_def Let_def split: list.splits)
qed

text \<open>\<open>spy target load\<close> and \<open>spy target shutdown\<close> never reach the device and never return:
  the pointer \<open>image\<close> is stored through without having been set, so every run that gets past the
  argument checks is undefined behaviour.\<close>

theorem target_shutdown_load_fruitless:
  "(\<forall>cmd arg. Ioctl cmd arg \<notin> set (fst (target_shutdown_load env argv mode))) \<and>
   (\<forall>err. snd (target_shutdown_load env argv mode) \<noteq> Returns err)"
proof -
  have "fruitless (target_shutdown_load env argv mode)"
    unfolding target_shutdown_load_def target_shutdown_load_body_def Let_def store_image_None
    by (auto split: prod.splits intro!: fruitless_ends fruitless_tbind2 device_free_tbind)
  then show ?thesis
    by (simp add: fruitless_def device_free_no_ioctl)
qed

text \<open>\<open>spy target start -n-like NAME\<close> and its siblings end to end: with the device available,
  a command line of the accepted shape issues exactly one ioctl, with the hash of the command and the
  name truncated to 31 characters, and the exit status is 0 exactly when the ioctl returned 0.\<close>

theorem spy_target_simple_cmd_run:
  assumes "env_dev_opens env" "\<not> strcmp_eq opt ''-n''"
    and "cmd = ''start'' \<or> cmd = ''eliminate''"
    and "tid = \<lparr>ti_id = SPY_TARGET_ID_UNUSED, ti_name = strncpy_zeroed 32 31 name\<rparr>"
    and "r = env_ioctl env (strhash cmd) (Arg_id tid)"
  shows "spy_main env [prog, ''target'', cmd, opt, name] =
    (Open_dev # Ioctl (strhash cmd) (Arg_id tid) #
       (if r = 0 then [] else [Message (if cmd = ''start'' then ''SPY_TARGET_START'' else ''SPY_TARGET_ELIMINATE'')])
       @ [Close_dev],
     Returns (if r = 0 then 0 else 1))"
proof -
  have parse: "parse_target_id [opt, name] = (2, tid)"
    using assms(2,4) by (auto simp: parse_target_id_def Let_def)
  show ?thesis
    using assms(1,3,5) parse
    by (elim disjE) (simp_all add: spy_main_def target_management_def target_simple_cmd_def
        strhash_commands Let_def dev_ioctl_def open_dev_def main_tail_def prog_defs)
qed

theorem spy_target_simple_cmd_run_witness:
  "spy_main \<lparr>env_file = \<lambda>_. Open_fails, env_dev_opens = True, env_ioctl = \<lambda>_ _. - 1,
             env_targets_dir = Inr [], env_malloc_ok = True\<rparr>
     [''spy'', ''target'', ''start'', ''--name'', ''vm''] =
   ([Open_dev,
     Ioctl STR_START (Arg_id \<lparr>ti_id = - 1, ti_name = ''vm'' @ replicate 30 CHR 0x00\<rparr>),
     Message ''SPY_TARGET_START'', Close_dev], Returns 1)"
  by (subst spy_target_simple_cmd_run [OF _ _ _ refl refl])
    (simp_all add: strcmp_eq_def c_string_def strhash_commands SPY_TARGET_ID_UNUSED_def
      strncpy_zeroed_def Let_def)

text \<open>\<open>target_list\<close> turns a directory name into an id with \<open>strtoul\<close> and the id back into the
  path of the target's files with \<open>%u\<close>: for the directory of any target id, the files that are
  read are the ones of that very directory, for each of the entries the tool reads.\<close>

theorem target_list_path_roundtrip:
  fixes i :: u32
  shows "target_path (ucast (strtoul10 (dec (unat i)))) ''name'' = SPY_TARGETS @ dec (unat i) @ ''/name'' \<and>
   target_path (ucast (strtoul10 (dec (unat i)))) ''state'' = SPY_TARGETS @ dec (unat i) @ ''/state'' \<and>
   target_path (ucast (strtoul10 (dec (unat i)))) ''cpus_assigned_list'' =
     SPY_TARGETS @ dec (unat i) @ ''/cpus_assigned_list'' \<and>
   target_path (ucast (strtoul10 (dec (unat i)))) ''cpus_failed_list'' =
     SPY_TARGETS @ dec (unat i) @ ''/cpus_failed_list''"
proof -
  have "unat i < 2 ^ LENGTH(32)"
    by (rule unsigned_less)
  then have "unat i < 2 ^ 64"
    by simp
  then have "(ucast (strtoul10 (dec (unat i))) :: u32) = i"
    by (simp add: strtoul10_dec ucast_u32_u64)
  then show ?thesis
    by (simp add: target_path_full)
qed

end
