(* ===== verification/Spy_Module.thy ===== *)
theory Spy_Module
  imports Spy_Strhash
begin

text \<open>
  The kernel module: \<open>module/device.c\<close> (character device), \<open>module/ioctl.c\<close> (the requests) and
  \<open>module/patch.c\<close> (the kprobe the module is loaded with). What the kernel answers to a
  registration is the record \<open>kernel_env\<close>; what the module holds registered is \<open>mod_state\<close>. A
  second release of the class is undefined behaviour, \<open>None\<close>.
\<close>

subsection \<open>Requests\<close>

definition hv_enable :: "u64 \<Rightarrow> int" where "hv_enable arg = 0"
definition hv_disable :: int where "hv_disable = 0"
definition hv_target_create :: "u64 \<Rightarrow> int" where "hv_target_create arg = 0"
definition hv_target_load :: "u64 \<Rightarrow> int" where "hv_target_load arg = 0"
definition hv_target_start :: "u64 \<Rightarrow> int" where "hv_target_start arg = 0"
definition hv_target_eliminate :: "u64 \<Rightarrow> int" where "hv_target_eliminate arg = 0"

lemmas hv_defs = hv_enable_def hv_disable_def hv_target_create_def hv_target_load_def
  hv_target_start_def hv_target_eliminate_def

definition spy_ioctl :: "u64 \<Rightarrow> u64 \<Rightarrow> int" where
  "spy_ioctl request arg =
     (if request = STR_ENABLE then hv_enable arg
      else if request = STR_DISABLE then hv_disable
      else if request = STR_CREATE then hv_target_create arg
      else if request = STR_LOAD then hv_target_load arg
      else if request = STR_START then hv_target_start arg
      else if request = STR_ELIMINATE then hv_target_eliminate arg
      else - errno_code EINVAL)"

subsection \<open>Reading and writing the device\<close>

text \<open>
  \<open>copy_to_user\<close> and \<open>copy_from_user\<close> return the number of bytes they could not copy: the
  argument \<open>copied n\<close> is how many of \<open>n\<close> bytes are accessible.
\<close>

definition device_greeting :: "u8 list" where
  "device_greeting =
     (let s = map of_char ''you are reading successfully!'' in s @ replicate (100 - length s) 0)"

definition spy_read :: "(nat \<Rightarrow> nat) \<Rightarrow> nat \<Rightarrow> int \<times> u8 list" where
  "spy_read copied count =
     (let len = min count 100 in
      if len - copied len \<noteq> 0 then (- errno_code EFAULT, take (copied len) device_greeting)
      else (int len, take len device_greeting))"

text \<open>The bytes \<open>printk ("%s")\<close> prints of a buffer: \<open>None\<close> when no terminator is in it.\<close>

definition printk_string :: "u8 list \<Rightarrow> u8 list option" where
  "printk_string buf = (if 0 \<in> set buf then Some (takeWhile (\<lambda>b. b \<noteq> 0) buf) else None)"

definition spy_write :: "(nat \<Rightarrow> nat) \<Rightarrow> u8 list \<Rightarrow> nat \<Rightarrow> (int \<times> u8 list) option" where
  "spy_write copied user count =
     (let len = min count 100; ary = replicate 100 0 in
      if len - copied len \<noteq> 0 then Some (- errno_code EFAULT, [])
      else map_option (Pair (int len)) (printk_string (take len user @ drop len ary)))"

text \<open>
  Opening and closing only log. The file operations that are registered: an operation that the structure
  does not set is NULL. \<open>fop_unlocked_ioctl\<close> is such a one; nothing refers to \<open>spy_ioctl\<close>.
\<close>

definition spy_open :: int where "spy_open = 0"
definition spy_release :: int where "spy_release = 0"

record file_operations =
  fop_read :: "((nat \<Rightarrow> nat) \<Rightarrow> nat \<Rightarrow> int \<times> u8 list) option"
  fop_write :: "((nat \<Rightarrow> nat) \<Rightarrow> u8 list \<Rightarrow> nat \<Rightarrow> (int \<times> u8 list) option) option"
  fop_open :: "int option"
  fop_release :: "int option"
  fop_unlocked_ioctl :: "(u64 \<Rightarrow> u64 \<Rightarrow> int) option"

definition spy_fops :: file_operations where
  "spy_fops = \<lparr>fop_read = Some spy_read, fop_write = Some spy_write, fop_open = Some spy_open,
     fop_release = Some spy_release, fop_unlocked_ioctl = None\<rparr>"

subsection \<open>Registration\<close>

abbreviation (input) DEVICE_COUNT :: nat where
  "DEVICE_COUNT \<equiv> 1"

record mod_state =
  kprobe_on :: bool
  chrdev_on :: bool
  class_on :: bool
  devices :: "u32 list"

definition mod_idle :: mod_state where
  "mod_idle = \<lparr>kprobe_on = False, chrdev_on = False, class_on = False, devices = []\<rparr>"

record kernel_env =
  k_kprobe :: "errno option"
  k_chrdev :: "errno option"
  k_class :: "errno option"
  k_device :: "u32 \<Rightarrow> errno option"

definition device_create :: "kernel_env \<Rightarrow> u32 \<Rightarrow> mod_state \<Rightarrow> errno + mod_state" where
  "device_create env i st =
     (case k_device env i of Some e \<Rightarrow> Inl e | None \<Rightarrow> Inr (st\<lparr>devices := i # devices st\<rparr>))"

text \<open>The loop over the devices: it stops at the first that fails, with its index.\<close>

fun create_devices :: "kernel_env \<Rightarrow> nat \<Rightarrow> u32 \<Rightarrow> mod_state \<Rightarrow> (errno \<times> u32 + mod_state) \<times> mod_state" where
  "create_devices env 0 i st = (Inr st, st)"
| "create_devices env (Suc n) i st =
     (case device_create env i st of
        Inl e \<Rightarrow> (Inl (e, i), st)
      | Inr st' \<Rightarrow> create_devices env n (i + 1) st')"

text \<open>\<open>while (i--) class_destroy (spy_class)\<close>.\<close>

fun class_destroy_times :: "nat \<Rightarrow> mod_state \<Rightarrow> mod_state option" where
  "class_destroy_times 0 st = Some st"
| "class_destroy_times (Suc n) st =
     (if class_on st then class_destroy_times n (st\<lparr>class_on := False\<rparr>) else None)"

definition device_err :: "errno \<Rightarrow> u32 \<Rightarrow> mod_state \<Rightarrow> (errno option \<times> mod_state) option" where
  "device_err e i st =
     map_option (\<lambda>st'. (Some e, st'\<lparr>chrdev_on := False\<rparr>)) (class_destroy_times (unat i) st)"

text \<open>\<open>i\<close> is not initialised when \<open>DEVICE_COUNT\<close> is 1; \<open>i0\<close> is the value it happens to have.\<close>

definition spy_device_init :: "kernel_env \<Rightarrow> nat \<Rightarrow> u32 \<Rightarrow> mod_state \<Rightarrow> (errno option \<times> mod_state) option" where
  "spy_device_init env count i0 st =
     (case k_chrdev env of
        Some e \<Rightarrow> Some (Some e, st)
      | None \<Rightarrow>
          (let st = st\<lparr>chrdev_on := True\<rparr> in
           case k_class env of
             Some e \<Rightarrow> Some (Some e, st\<lparr>chrdev_on := False\<rparr>)
           | None \<Rightarrow>
               (let st = st\<lparr>class_on := True\<rparr> in
                if count > 1 then
                  (case create_devices env count 0 st of
                     (Inl (e, i), st') \<Rightarrow> device_err e i st'
                   | (Inr st', _) \<Rightarrow> Some (None, st'))
                else
                  (case device_create env i0 st of
                     Inl e \<Rightarrow> device_err e i0 st
                   | Inr st' \<Rightarrow> Some (None, st')))))"

definition spy_device_exit :: "nat \<Rightarrow> mod_state \<Rightarrow> mod_state" where
  "spy_device_exit count st =
     st\<lparr>chrdev_on := False, devices := List.filter (\<lambda>d. \<not> unat d < count) (devices st),
        class_on := False\<rparr>"

definition kprobe_init :: "kernel_env \<Rightarrow> u32 \<Rightarrow> mod_state \<Rightarrow> (errno option \<times> mod_state) option" where
  "kprobe_init env i0 st =
     (case k_kprobe env of
        Some e \<Rightarrow> Some (Some e, st)
      | None \<Rightarrow> spy_device_init env DEVICE_COUNT i0 (st\<lparr>kprobe_on := True\<rparr>))"

definition kprobe_exit :: "mod_state \<Rightarrow> mod_state" where
  "kprobe_exit st = spy_device_exit DEVICE_COUNT (st\<lparr>kprobe_on := False\<rparr>)"

lemmas init_defs = kprobe_init_def spy_device_init_def device_create_def device_err_def mod_idle_def

subsection \<open>Properties\<close>

text \<open>\<open>spy_ioctl\<close> serves exactly the hashes of the six commands and refuses any other
  request with \<open>-EINVAL\<close>.\<close>

theorem spy_ioctl_commands:
  "spy_ioctl request arg =
     (if request \<in> strhash ` {''enable'', ''disable'', ''create'', ''load'', ''start'', ''eliminate''}
      then 0 else - 22)"
  by (simp add: spy_ioctl_def hv_defs strhash_commands)

text \<open>
  The command of the \<open>ioctl\<close> system call has 32 bits; all the hashes are larger, so that a command
  that came through the system call matches none of them.
\<close>

lemma spy_ioctl_32bit: "spy_ioctl (ucast (cmd :: u32)) arg = - errno_code EINVAL"
proof -
  have small: "(ucast cmd :: u64) \<noteq> n" if "2 ^ 32 \<le> unat n" for n
  proof
    have less: "unat cmd < 2 ^ 32"
      using unsigned_less [of cmd] by simp
    assume "(ucast cmd :: u64) = n"
    then have "unat n = unat (ucast cmd :: u64)"
      by simp
    also have "\<dots> = unat cmd"
      using less by (simp add: unsigned_ucast_eq take_bit_nat_eq_self)
    finally show False
      using that less by simp
  qed
  show ?thesis
    unfolding spy_ioctl_def by (simp add: small)
qed

text \<open>C39. A write to the device: at most 100 bytes are taken, a fault is \<open>-EFAULT\<close> and prints
  nothing, and the text printed is read within the buffer exactly when fewer than 100 bytes were
  written or one of the 100 is a NUL; a full buffer without a NUL is read past its end.\<close>

theorem spy_write_reads_in_bounds:
  "length user = count \<Longrightarrow> copied (min count 100) = min count 100 \<Longrightarrow>
   (case spy_write copied user count of
      Some (n, out) \<Rightarrow> n = int (min count 100) \<and> (count < 100 \<or> 0 \<in> set (take 100 user)) \<and>
        out = takeWhile (\<lambda>b. b \<noteq> 0) (take 100 user)
    | None \<Rightarrow> 100 \<le> count \<and> 0 \<notin> set (take 100 user))"
proof -
  assume len: "length user = count" and ok: "copied (min count 100) = min count 100"
  let ?buf = "take (min count 100) user @ drop (min count 100) (replicate 100 0)"
  have z: "0 \<in> set ?buf \<longleftrightarrow> count < 100 \<or> 0 \<in> set (take 100 user)"
    using len by (auto simp: min_def)
  have tw: "takeWhile (\<lambda>b. b \<noteq> 0) ?buf = takeWhile (\<lambda>b. b \<noteq> 0) (take 100 user)"
  proof (cases "count < 100")
    case True
    then have "?buf = user @ 0 # replicate (99 - count) 0"
      using len replicate_Suc [of "99 - count" "0 :: u8"] by (simp add: min_def Suc_diff_Suc flip: replicate_Suc)
    then show ?thesis
      using True len by (cases "0 \<in> set user")
        (simp_all add: takeWhile_append1 takeWhile_append2 takeWhile_eq_all_conv [THEN iffD2] takeWhile_append)
  next
    case False
    then show ?thesis
      using len by (simp add: min_def)
  qed
  show ?thesis
    unfolding spy_write_def Let_def printk_string_def z tw using ok by auto
qed

theorem spy_write_reads_in_bounds_witness:
  "spy_write (\<lambda>n. n) [72, 105] 2 = Some (2, [72, 105])"
  using spy_write_reads_in_bounds [of "[72, 105]" 2 "\<lambda>n. n"]
  by (auto split: option.splits simp: spy_write_def printk_string_def)

text \<open>Loading and unloading: with every registration granted, the module that is loaded and
  then unloaded leaves nothing behind exactly when the uninitialised minor number happened to be 0;
  otherwise its device stays registered.\<close>

theorem kprobe_init_exit_restores:
  assumes "k_kprobe env = None" "k_chrdev env = None" "k_class env = None" "k_device env i0 = None"
  shows "\<exists>st. kprobe_init env i0 mod_idle = Some (None, st) \<and>
    (kprobe_exit st = mod_idle \<longleftrightarrow> i0 = 0) \<and>
    devices (kprobe_exit st) = (if i0 = 0 then [] else [i0])"
  using assms by (auto simp: init_defs kprobe_exit_def spy_device_exit_def unat_eq_zero)

theorem kprobe_init_exit_restores_witness:
  "\<exists>st. kprobe_init \<lparr>k_kprobe = None, k_chrdev = None, k_class = None, k_device = \<lambda>_. None\<rparr> 5 mod_idle
      = Some (None, st) \<and> devices (kprobe_exit st) = [5]"
  using kprobe_init_exit_restores
    [of "\<lparr>k_kprobe = None, k_chrdev = None, k_class = None, k_device = \<lambda>_. None\<rparr>" 5]
  by auto

text \<open>Failure of the module's load: a refused kprobe changes nothing; any later failure returns the
  error with the kprobe still planted, and a refused device leaves the class registered too when the
  uninitialised counter is 0, releases it once when it is 1, and releases it twice otherwise.\<close>

theorem kprobe_init_failure_leaks:
  "(k_kprobe env = Some e \<longrightarrow> kprobe_init env i0 mod_idle = Some (Some e, mod_idle)) \<and>
   (k_kprobe env = None \<and> k_chrdev env = Some e \<longrightarrow>
      kprobe_init env i0 mod_idle = Some (Some e, mod_idle\<lparr>kprobe_on := True\<rparr>)) \<and>
   (k_kprobe env = None \<and> k_chrdev env = None \<and> k_class env = Some e \<longrightarrow>
      kprobe_init env i0 mod_idle = Some (Some e, mod_idle\<lparr>kprobe_on := True\<rparr>)) \<and>
   (k_kprobe env = None \<and> k_chrdev env = None \<and> k_class env = None \<and> k_device env i0 = Some e \<longrightarrow>
      kprobe_init env i0 mod_idle =
        (if i0 = 0 then Some (Some e, mod_idle\<lparr>kprobe_on := True, class_on := True\<rparr>)
         else if i0 = 1 then Some (Some e, mod_idle\<lparr>kprobe_on := True\<rparr>)
         else None))"
proof -
  have "class_destroy_times (unat i0) st =
      (if i0 = 0 then Some st else if i0 = 1 then Some (st\<lparr>class_on := False\<rparr>) else None)"
    if "class_on st" for st
  proof (cases "unat i0")
    case 0
    then show ?thesis by (simp add: unat_eq_zero)
  next
    case (Suc n)
    then have "i0 = 1 \<longleftrightarrow> n = 0" "i0 \<noteq> 0"
      by (auto simp: word_unat_eq_iff)
    then show ?thesis
      using that Suc by (cases n) auto
  qed
  then show ?thesis
    by (auto simp: init_defs)
qed

theorem kprobe_init_failure_leaks_witness:
  "kprobe_init \<lparr>k_kprobe = None, k_chrdev = Some EBUSY, k_class = None, k_device = \<lambda>_. None\<rparr> 0 mod_idle
     = Some (Some EBUSY, mod_idle\<lparr>kprobe_on := True\<rparr>)"
  using kprobe_init_failure_leaks
    [of "\<lparr>k_kprobe = None, k_chrdev = Some EBUSY, k_class = None, k_device = \<lambda>_. None\<rparr>" EBUSY 0]
  by simp

end
