(* ===== verification/Spy_Spinlock.thy ===== *)
theory Spy_Spinlock
  imports Spy_Prelude
begin

text \<open>
  The ticket lock of \<open>asm/spinlock.h\<close>. The structure \<open>{ u16 owner, next; }\<close> is one 32-bit
  word, as the \<open>lock xaddl\<close> of \<open>spin_lock\<close> sees it: \<open>owner\<close> is its low half. The CPUs
  interleave at the granularity of the atomic accesses: drawing a ticket, one read of the wait loop,
  the \<open>addw\<close> of \<open>spin_unlock\<close>. A CPU calls \<open>spin_unlock\<close> only while it holds the lock.
\<close>

subsection \<open>The lock word\<close>

definition lock_owner :: "u32 \<Rightarrow> u16" where
  "lock_owner w = ucast w"

definition lock_next :: "u32 \<Rightarrow> u16" where
  "lock_next w = ucast (drop_bit 16 w)"

text \<open>\<open>inc = { .next = 1 }\<close>; \<open>xaddl\<close> adds it and returns the old word.\<close>

definition spin_lock_xadd :: "u32 \<Rightarrow> u32 \<times> u32" where
  "spin_lock_xadd w = (w + 0x10000, w)"

text \<open>\<open>addw\<close> on the low half does not carry into the high half.\<close>

definition spin_unlock_word :: "u32 \<Rightarrow> u32" where
  "spin_unlock_word w = push_bit 16 (drop_bit 16 w) OR ucast (lock_owner w + 1)"

subsection \<open>The CPUs\<close>

datatype cpu_lock = Idle | Waiting u16 | Holding u16

record lock_sys =
  lock_word :: u32
  cpu_st :: "nat \<Rightarrow> cpu_lock"

definition spin_lock_start :: "nat \<Rightarrow> lock_sys \<Rightarrow> lock_sys" where
  "spin_lock_start c s =
     (let (w, inc) = spin_lock_xadd (lock_word s) in
      s\<lparr>lock_word := w,
        cpu_st := (cpu_st s)(c := (if lock_owner inc \<noteq> lock_next inc then Waiting (lock_next inc)
                                   else Holding (lock_next inc)))\<rparr>)"

definition spin_lock_poll :: "nat \<Rightarrow> u16 \<Rightarrow> lock_sys \<Rightarrow> lock_sys" where
  "spin_lock_poll c t s =
     (if lock_owner (lock_word s) \<noteq> t then s
      else s\<lparr>cpu_st := (cpu_st s)(c := Holding t)\<rparr>)"

definition spin_unlock :: "nat \<Rightarrow> lock_sys \<Rightarrow> lock_sys" where
  "spin_unlock c s =
     s\<lparr>lock_word := spin_unlock_word (lock_word s), cpu_st := (cpu_st s)(c := Idle)\<rparr>"

inductive lock_step :: "nat set \<Rightarrow> lock_sys \<Rightarrow> lock_sys \<Rightarrow> bool" for cpus where
  start: "c \<in> cpus \<Longrightarrow> cpu_st s c = Idle \<Longrightarrow> lock_step cpus s (spin_lock_start c s)"
| poll: "cpu_st s c = Waiting t \<Longrightarrow> lock_step cpus s (spin_lock_poll c t s)"
| unlock: "cpu_st s c = Holding t \<Longrightarrow> lock_step cpus s (spin_unlock c s)"

inductive_cases lock_stepE: "lock_step cpus s s'"

definition lock_init :: "lock_sys \<Rightarrow> bool" where
  "lock_init s \<longleftrightarrow> lock_owner (lock_word s) = lock_next (lock_word s) \<and> cpu_st s = (\<lambda>_. Idle)"

subsection \<open>The word operations on the two halves\<close>

lemma unat_lock_owner: "unat (lock_owner w) = unat w mod 65536"
  by (simp add: lock_owner_def unsigned_ucast_eq take_bit_eq_mod)

lemma unat_lock_next: "unat (lock_next w) = unat w div 65536"
proof -
  have "unat w < 2 ^ LENGTH(32)"
    by (rule unsigned_less)
  then have "unat w div 65536 < 65536"
    by (simp add: div_less_iff_less_mult)
  then show ?thesis
    by (simp add: lock_next_def unsigned_ucast_eq unsigned_drop_bit_eq take_bit_eq_mod drop_bit_eq_div unat_div_distrib)
qed

lemma add_65536_low: "(n + 65536) mod 4294967296 mod 65536 = n mod (65536 :: nat)"
  by (simp add: mod_mod_cancel)

lemma add_65536_high:
  fixes n :: nat
  assumes "n < 4294967296"
  shows "(n + 65536) mod 4294967296 div 65536 = (n div 65536 + 1) mod 65536"
proof (cases "n + 65536 < 4294967296")
  case True
  then have "n div 65536 + 1 < 65536"
    by (simp add: div_less_iff_less_mult)
  with True show ?thesis by simp
next
  case False
  then have "n div 65536 = 65535"
    using assms by (intro div_nat_eqI) simp_all
  moreover have "(n + 65536) mod 4294967296 = n + 65536 - 4294967296"
    using False assms by (simp add: mod_if)
  moreover have "n + 65536 - 4294967296 < 65536"
    using assms by simp
  ultimately show ?thesis by simp
qed

lemma lock_owner_xadd [simp]: "lock_owner (w + 0x10000) = lock_owner w"
  by (simp add: word_unat_eq_iff unat_lock_owner unat_word_ariths add_65536_low)

lemma lock_next_xadd [simp]: "lock_next (w + 0x10000) = lock_next w + 1"
proof -
  have "unat w < 2 ^ LENGTH(32)"
    by (rule unsigned_less)
  then show ?thesis
    by (simp add: word_unat_eq_iff unat_lock_next unat_word_ariths add_65536_high)
qed

lemma lock_owner_unlock [simp]: "lock_owner (spin_unlock_word w) = lock_owner w + 1"
  unfolding lock_owner_def spin_unlock_word_def by (rule bit_word_eqI) (auto simp: bit_simps)

lemma lock_next_unlock [simp]: "lock_next (spin_unlock_word w) = lock_next w"
  unfolding lock_next_def spin_unlock_word_def
  by (rule bit_word_eqI) (auto simp: bit_simps dest: bit_imp_le_length)

subsection \<open>The invariant: tickets are the distances \<open>0 .. k - 1\<close> from the owner\<close>

fun ticket_of :: "cpu_lock \<Rightarrow> u16" where
  "ticket_of Idle = 0"
| "ticket_of (Waiting t) = t"
| "ticket_of (Holding t) = t"

definition active :: "lock_sys \<Rightarrow> nat set" where
  "active s = {c. cpu_st s c \<noteq> Idle}"

text \<open>How many CPUs are before \<open>c\<close>.\<close>

definition lock_pos :: "lock_sys \<Rightarrow> nat \<Rightarrow> nat" where
  "lock_pos s c = unat (ticket_of (cpu_st s c) - lock_owner (lock_word s))"

definition lock_inv :: "nat set \<Rightarrow> lock_sys \<Rightarrow> bool" where
  "lock_inv cpus s \<longleftrightarrow> active s \<subseteq> cpus \<and>
     inj_on (lock_pos s) (active s) \<and> lock_pos s ` active s = {..<card (active s)} \<and>
     lock_next (lock_word s) = lock_owner (lock_word s) + of_nat (card (active s)) \<and>
     (\<forall>c t. cpu_st s c = Holding t \<longrightarrow> t = lock_owner (lock_word s))"

lemma unat_minus_one_diff: "x \<noteq> (0 :: u16) \<Longrightarrow> unat (x - 1) = unat x - 1"
  by (simp add: unat_minus_one)

lemma start_lock_inv:
  assumes inv: "lock_inv cpus s" and fin: "finite cpus" "card cpus \<le> 65536"
    and c: "c \<in> cpus" "cpu_st s c = Idle"
  shows "lock_inv cpus (spin_lock_start c s)" "lock_pos (spin_lock_start c s) c = card (active s)"
    "d \<noteq> c \<Longrightarrow> lock_pos (spin_lock_start c s) d = lock_pos s d"
proof -
  let ?s = "spin_lock_start c s" and ?k = "card (active s)"
  have A: "active ?s = insert c (active s)" "c \<notin> active s"
    using c by (auto simp: active_def spin_lock_start_def spin_lock_xadd_def)
  have finA: "finite (active s)" "active ?s \<subseteq> cpus"
    using inv fin c A by (auto simp: lock_inv_def intro: finite_subset)
  have "card (active ?s) \<le> 65536"
    using card_mono [OF fin(1) finA(2)] fin(2) by simp
  then have k: "?k < 65536"
    using A finA by simp
  have next_eq: "lock_next (lock_word s) - lock_owner (lock_word s) = of_nat ?k"
    using inv by (simp add: lock_inv_def)
  have "ticket_of (cpu_st ?s c) = lock_next (lock_word s)"
    by (simp add: spin_lock_start_def spin_lock_xadd_def)
  moreover have "lock_owner (lock_word ?s) = lock_owner (lock_word s)"
    by (simp add: spin_lock_start_def spin_lock_xadd_def)
  ultimately have "lock_pos ?s c = unat (of_nat ?k :: u16)"
    using next_eq by (simp add: lock_pos_def)
  then show pos_c: "lock_pos ?s c = ?k"
    using k by (simp add: unsigned_of_nat take_bit_nat_eq_self)
  show pos_d: "lock_pos ?s d = lock_pos s d" if "d \<noteq> c" for d
    using that by (simp add: lock_pos_def spin_lock_start_def spin_lock_xadd_def)
  have img: "lock_pos ?s ` active s = lock_pos s ` active s"
    using pos_d A(2) by (intro image_cong refl) metis
  have inj: "inj_on (lock_pos ?s) (active s)"
    using inv pos_d A(2) by (auto simp: lock_inv_def inj_on_def) metis
  have "lock_pos s ` active s = {..<?k}"
    using inv by (simp add: lock_inv_def)
  then show "lock_inv cpus ?s"
    unfolding lock_inv_def A(1)
    using inv finA A inj img pos_c
    by (auto simp: lock_inv_def lessThan_Suc spin_lock_start_def spin_lock_xadd_def split: if_splits)
qed

lemma poll_lock_inv:
  assumes "lock_inv cpus s" "cpu_st s c = Waiting t"
  shows "lock_inv cpus (spin_lock_poll c t s)" "lock_pos (spin_lock_poll c t s) = lock_pos s"
    "active (spin_lock_poll c t s) = active s"
proof -
  let ?s = "spin_lock_poll c t s"
  show A: "active ?s = active s"
    using assms by (auto simp: active_def spin_lock_poll_def)
  show P: "lock_pos ?s = lock_pos s"
    using assms by (auto simp: fun_eq_iff lock_pos_def spin_lock_poll_def)
  have "lock_word ?s = lock_word s"
    by (simp add: spin_lock_poll_def)
  moreover have "u = lock_owner (lock_word s)" if "cpu_st ?s d = Holding u" for d u
    using assms that by (auto simp: lock_inv_def spin_lock_poll_def split: if_splits)
  ultimately show "lock_inv cpus ?s"
    using assms(1) A P by (simp add: lock_inv_def)
qed

lemma unlock_lock_inv:
  assumes inv: "lock_inv cpus s" and fin: "finite cpus" and c: "cpu_st s c = Holding t"
  shows "lock_inv cpus (spin_unlock c s)" "active (spin_unlock c s) = active s - {c}"
    "d \<in> active s \<Longrightarrow> d \<noteq> c \<Longrightarrow> lock_pos s d = Suc (lock_pos (spin_unlock c s) d)"
proof -
  let ?s = "spin_unlock c s" and ?k = "card (active s)"
  show A: "active ?s = active s - {c}"
    by (auto simp: active_def spin_unlock_def)
  have ca: "c \<in> active s" "finite (active s)"
    using c inv fin by (auto simp: active_def lock_inv_def intro: finite_subset)
  have pc: "lock_pos s c = 0"
    using inv c by (auto simp: lock_inv_def lock_pos_def)
  have inj: "inj_on (lock_pos s) (active s)" and img: "lock_pos s ` active s = {..<?k}"
    using inv by (simp_all add: lock_inv_def)
  show P: "lock_pos s d = Suc (lock_pos ?s d)" if d: "d \<in> active s" "d \<noteq> c" for d
  proof -
    let ?x = "ticket_of (cpu_st s d) - lock_owner (lock_word s)"
    have "lock_pos s d \<noteq> 0"
      using inj d ca pc by (metis inj_onD)
    then have x0: "?x \<noteq> 0"
      by (auto simp: lock_pos_def)
    have "lock_pos ?s d = unat (?x - 1)"
      using d by (simp add: lock_pos_def spin_unlock_def algebra_simps)
    then show ?thesis
      using x0 \<open>lock_pos s d \<noteq> 0\<close> by (simp add: unat_minus_one_diff lock_pos_def)
  qed
  have inj': "inj_on (lock_pos ?s) (active s - {c})"
    using inj P by (auto simp: inj_on_def)
  have "lock_pos s ` (active s - {c}) = {..<?k} - {0}"
    using inj img pc ca by (simp add: inj_on_image_set_diff [of _ "active s"])
  moreover have "lock_pos s ` (active s - {c}) = Suc ` lock_pos ?s ` (active s - {c})"
    using P by (auto simp: image_image intro!: image_cong)
  moreover have "{..<?k} - {0} = Suc ` {..<?k - 1}"
  proof -
    have "x \<in> {..<?k} - {0} \<longleftrightarrow> x \<in> Suc ` {..<?k - 1}" for x
      by (cases x) auto
    then show ?thesis by blast
  qed
  ultimately have img': "lock_pos ?s ` (active s - {c}) = {..<?k - 1}"
    by (metis inj_image_eq_iff inj_Suc)
  have "u = lock_owner (lock_word ?s)" if "cpu_st ?s d = Holding u" for d u
  proof -
    have "cpu_st s d = Holding u" "d \<noteq> c"
      using that by (auto simp: spin_unlock_def split: if_splits)
    then have "lock_pos s d = 0" "d \<in> active s"
      using inv by (auto simp: lock_inv_def lock_pos_def active_def)
    with \<open>d \<noteq> c\<close> P show ?thesis by simp
  qed
  moreover have "lock_next (lock_word ?s) = lock_owner (lock_word ?s) + of_nat (?k - 1)"
  proof -
    have "?k > 0"
      using ca by (auto simp: card_gt_0_iff)
    then show ?thesis
      using inv by (cases ?k) (simp_all add: lock_inv_def spin_unlock_def)
  qed
  ultimately show "lock_inv cpus ?s"
    using inv A ca inj' img' by (auto simp: lock_inv_def)
qed

text \<open>Two actions of the lock as a transition system.\<close>

lemma lock_step_inv:
  assumes "finite cpus" "card cpus \<le> 65536" "lock_inv cpus s" "lock_step cpus s s'"
  shows "lock_inv cpus s'"
  using assms by (elim lock_stepE) (auto intro: start_lock_inv(1) poll_lock_inv(1) unlock_lock_inv(1))

lemma lock_init_inv: "lock_init s \<Longrightarrow> lock_inv cpus s"
  by (auto simp: lock_init_def lock_inv_def active_def)

subsection \<open>Every CPU set of at most \<open>2 ^ 16\<close> members\<close>

text \<open>The step relation is given the set of CPUs; sets that do not fit the ticket are ruled out by
  the start condition.\<close>

definition lock_sys_start :: "nat set \<times> lock_sys \<Rightarrow> bool" where
  "lock_sys_start cs \<longleftrightarrow> finite (fst cs) \<and> card (fst cs) \<le> 65536 \<and> lock_init (snd cs)"

definition lock_sys_step :: "nat set \<times> lock_sys \<Rightarrow> nat set \<times> lock_sys \<Rightarrow> bool" where
  "lock_sys_step cs cs' \<longleftrightarrow> fst cs' = fst cs \<and> lock_step (fst cs) (snd cs) (snd cs')"

definition lock_sys_inv :: "nat set \<times> lock_sys \<Rightarrow> bool" where
  "lock_sys_inv cs \<longleftrightarrow> finite (fst cs) \<and> card (fst cs) \<le> 65536 \<and> lock_inv (fst cs) (snd cs)"

interpretation ticket_lock: transition_system lock_sys_start lock_sys_step lock_sys_inv
  by unfold_locales
    (auto simp: lock_sys_start_def lock_sys_inv_def lock_sys_step_def
      intro: lock_init_inv lock_step_inv)

lemma lock_steps_sys: "(lock_step cpus)\<^sup>*\<^sup>* s s' \<Longrightarrow> lock_sys_step\<^sup>*\<^sup>* (cpus, s) (cpus, s')"
  by (induction rule: rtranclp_induct)
    (auto simp: lock_sys_step_def intro: rtranclp.rtrancl_into_rtrancl)

lemma reachable_lock_inv:
  assumes "finite cpus" "card cpus \<le> 65536" "lock_init s" "(lock_step cpus)\<^sup>*\<^sup>* s s'"
  shows "lock_inv cpus s'"
  using ticket_lock.reachable_inv [OF _ lock_steps_sys [OF assms(4)]] assms
  by (simp add: lock_sys_start_def lock_sys_inv_def)

lemma lock_inv_oldest:
  assumes "lock_inv cpus s" "finite cpus" "active s \<noteq> {}"
  shows "\<exists>c \<in> active s. ticket_of (cpu_st s c) = lock_owner (lock_word s)"
proof -
  have "finite (active s)"
    using assms by (auto simp: lock_inv_def intro: finite_subset)
  then have "0 \<in> lock_pos s ` active s"
    using assms by (auto simp: lock_inv_def card_gt_0_iff)
  then show ?thesis
    by (auto simp: lock_pos_def unat_eq_zero)
qed

lemma lock_inv_holder_unique:
  assumes "lock_inv cpus s" "cpu_st s a = Holding t" "cpu_st s b = Holding u"
  shows "a = b"
proof -
  have "t = lock_owner (lock_word s)" "u = lock_owner (lock_word s)"
    using assms by (meson lock_inv_def)+
  then have "lock_pos s a = 0" "lock_pos s b = 0"
    using assms(2,3) by (simp_all add: lock_pos_def)
  moreover have "a \<in> active s" "b \<in> active s"
    using assms(2,3) by (simp_all add: active_def)
  ultimately show ?thesis
    using assms(1) by (metis inj_onD lock_inv_def)
qed

subsection \<open>Properties\<close>

text \<open>C1. Mutual exclusion: in every state reached from a free lock by any interleaving of at most
  \<open>2 ^ 16\<close> CPUs, with the tickets wrapping around, at most one CPU holds the lock.\<close>

theorem spinlock_mutual_exclusion:
  assumes "finite cpus" "card cpus \<le> 65536" "lock_init s" "(lock_step cpus)\<^sup>*\<^sup>* s s'"
    and "cpu_st s' a = Holding t" "cpu_st s' b = Holding u"
  shows "a = b"
proof -
  have "lock_inv cpus s'"
    using assms(1-4) by (rule reachable_lock_inv)
  then show ?thesis
    using assms(5,6) by (rule lock_inv_holder_unique)
qed

theorem spinlock_mutual_exclusion_witness:
  "{a. cpu_st (spin_lock_start 3 \<lparr>lock_word = 0xFFFFFFFF, cpu_st = \<lambda>_. Idle\<rparr>) a = Holding 0xFFFF} = {3}"
proof -
  let ?s = "\<lparr>lock_word = 0xFFFFFFFF, cpu_st = \<lambda>_. Idle\<rparr>"
  have halves: "lock_owner 0xFFFFFFFF = 0xFFFF" "lock_next 0xFFFFFFFF = 0xFFFF"
    by (simp_all add: lock_owner_def lock_next_def)
  have step: "(lock_step {3})\<^sup>*\<^sup>* ?s (spin_lock_start 3 ?s)"
    by (rule r_into_rtranclp) (auto intro: lock_step.start)
  have held: "cpu_st (spin_lock_start 3 ?s) 3 = Holding 0xFFFF"
    by (simp add: spin_lock_start_def spin_lock_xadd_def halves)
  have "a = 3" if "cpu_st (spin_lock_start 3 ?s) a = Holding 0xFFFF" for a
    using spinlock_mutual_exclusion [OF _ _ _ step that held] by (simp add: lock_init_def halves)
  with held show ?thesis by blast
qed

text \<open>The lock is fair and its queue moves: a CPU that draws a ticket is put behind all CPUs that
  wait or hold; a poll changes nobody's place; an unlock moves every other CPU one place forward; and
  only the CPU at place 0 gets the lock.\<close>

theorem spinlock_fifo:
  assumes "finite cpus" "card cpus \<le> 65536" "lock_inv cpus s" "lock_step cpus s s'"
    and "d \<in> active s" "d \<in> active s'"
  shows "(lock_pos s' d = lock_pos s d \<or> lock_pos s d = Suc (lock_pos s' d)) \<and>
    (\<forall>c. c \<in> active s' - active s \<longrightarrow> lock_pos s' d < lock_pos s' c) \<and>
    (\<forall>t. cpu_st s' d = Holding t \<longrightarrow> lock_pos s' d = 0)"
proof -
  have inv': "lock_inv cpus s'"
    using assms(1-4) by (rule lock_step_inv)
  have lt: "lock_pos s d < card (active s)"
    using assms(3,5) by (auto simp: lock_inv_def)
  have hold: "cpu_st s' d = Holding t \<Longrightarrow> lock_pos s' d = 0" for t
    using inv' by (auto simp: lock_inv_def lock_pos_def)
  from assms(4) show ?thesis
  proof (cases rule: lock_step.cases)
    case (start c)
    have "d \<noteq> c" "active s' - active s \<subseteq> {c}"
      using start assms(5) by (auto simp: active_def spin_lock_start_def spin_lock_xadd_def split: if_splits)
    with start start_lock_inv(2,3) [OF assms(3,1,2) start(2,3)] lt hold show ?thesis by auto
  next
    case (poll c t)
    with poll_lock_inv [OF assms(3) poll(2)] hold show ?thesis by auto
  next
    case (unlock c t)
    with unlock_lock_inv(2,3) [OF assms(3,1) unlock(2)] assms(5,6) hold show ?thesis by auto
  qed
qed

theorem spinlock_fifo_witness:
  "lock_pos (spin_lock_start 1 (spin_lock_start 0 \<lparr>lock_word = 0, cpu_st = \<lambda>_. Idle\<rparr>)) 0
     < lock_pos (spin_lock_start 1 (spin_lock_start 0 \<lparr>lock_word = 0, cpu_st = \<lambda>_. Idle\<rparr>)) 1"
proof -
  let ?s0 = "\<lparr>lock_word = 0, cpu_st = \<lambda>_. Idle\<rparr>" and ?cpus = "{0, 1 :: nat}"
  let ?s1 = "spin_lock_start 0 ?s0" and ?s2 = "spin_lock_start 1 (spin_lock_start 0 ?s0)"
  have init: "lock_init ?s0"
    by (simp add: lock_init_def lock_owner_def lock_next_def)
  have inv: "lock_inv ?cpus ?s1"
    by (rule start_lock_inv(1) [OF lock_init_inv [OF init]]) simp_all
  have idle: "cpu_st ?s1 1 = Idle"
    by (simp add: spin_lock_start_def spin_lock_xadd_def)
  have act: "0 \<in> active ?s1" "0 \<in> active ?s2" "1 \<in> active ?s2 - active ?s1"
    by (simp_all add: active_def spin_lock_start_def spin_lock_xadd_def)
  have "lock_step ?cpus ?s1 ?s2"
    using idle by (intro lock_step.start) simp_all
  from spinlock_fifo [OF _ _ inv this act(1,2)] act(3) show ?thesis by auto
qed

text \<open>C36. No deadlock: in every reachable state with a CPU in the protocol, some CPU holds the lock,
  or one of the waiting CPUs gets it with its next poll.\<close>

theorem spinlock_progress:
  assumes "finite cpus" "card cpus \<le> 65536" "lock_init s" "(lock_step cpus)\<^sup>*\<^sup>* s s'"
    and "active s' \<noteq> {}"
  shows "\<exists>c t. cpu_st s' c = Holding t \<or>
    (cpu_st s' c = Waiting t \<and> cpu_st (spin_lock_poll c t s') c = Holding t)"
proof -
  have "lock_inv cpus s'"
    using assms(1-4) by (rule reachable_lock_inv)
  from lock_inv_oldest [OF this assms(1,5)] obtain c where
    c: "c \<in> active s'" "ticket_of (cpu_st s' c) = lock_owner (lock_word s')" by blast
  then show ?thesis
    by (cases "cpu_st s' c") (auto simp: active_def spin_lock_poll_def)
qed

theorem spinlock_progress_witness:
  "\<exists>c t. cpu_st (spin_lock_start 7 \<lparr>lock_word = 0, cpu_st = \<lambda>_. Idle\<rparr>) c = Holding t \<or>
     (cpu_st (spin_lock_start 7 \<lparr>lock_word = 0, cpu_st = \<lambda>_. Idle\<rparr>) c = Waiting t \<and>
      cpu_st (spin_lock_poll c t (spin_lock_start 7 \<lparr>lock_word = 0, cpu_st = \<lambda>_. Idle\<rparr>)) c = Holding t)"
proof (rule spinlock_progress [of "{7}"])
  show "(lock_step {7})\<^sup>*\<^sup>* \<lparr>lock_word = 0, cpu_st = \<lambda>_. Idle\<rparr>
      (spin_lock_start 7 \<lparr>lock_word = 0, cpu_st = \<lambda>_. Idle\<rparr>)"
    by (rule r_into_rtranclp) (auto intro: lock_step.start)
qed (simp_all add: lock_init_def lock_owner_def lock_next_def active_def spin_lock_start_def
    spin_lock_xadd_def)

end
