(* ===== verification/Spy_Pio.thy ===== *)
theory Spy_Pio
  imports Spy_Bitops
begin

text \<open>
  Port I/O permissions: \<open>pio_allow_access\<close>, \<open>vcpu_target_init\<close> and \<open>vcpu_target_exit\<close> of
  \<open>vcpu.c\<close>. A set bit of a target's I/O bitmap makes the processor intercept the port. The bitmap is a
  byte buffer; the loops go through the 64-bit accessors \<open>set_bit\<close> and \<open>clear_bit\<close>, and their
  effect is taken from the bit-array interface of those accessors. The command port of the i8042
  (\<open>cmd_reg\<close>), the address of the PM timer and the vendor's initialisation are parameters. A whitelist
  entry of the configuration is a base and a length of 32 bits.
\<close>

subsection \<open>State\<close>

record spy_pio =
  pio_base :: u32
  pio_length :: u32

record pio_target =
  io_bitmap :: "u8 list"
  pio_i8042_allowed :: bool
  pio_regions :: "spy_pio list"

definition byte_set_bit :: "nat \<Rightarrow> u8 list \<Rightarrow> u8 list option" where
  "byte_set_bit n bm =
     (case array_get bm (n div 8) of
        None \<Rightarrow> None | Some b \<Rightarrow> array_set bm (n div 8) (b OR push_bit (n mod 8) 1))"

definition byte_clear_bit :: "nat \<Rightarrow> u8 list \<Rightarrow> u8 list option" where
  "byte_clear_bit n bm =
     (case array_get bm (n div 8) of
        None \<Rightarrow> None | Some b \<Rightarrow> array_set bm (n div 8) (b AND NOT (push_bit (n mod 8) 1)))"

subsection \<open>Operations\<close>

definition pio_allow_access :: "u8 list \<Rightarrow> spy_pio \<Rightarrow> bool \<Rightarrow> u8 list option" where
  "pio_allow_access bm pio access =
     access_loop (if access then clear_bit_c else set_bit_c) (unat (pio_length pio)) (pio_base pio) bm"

fun pio_allow_all :: "bool \<Rightarrow> spy_pio list \<Rightarrow> u8 list \<Rightarrow> u8 list option" where
  "pio_allow_all access [] bm = Some bm"
| "pio_allow_all access (pio # pios) bm =
     (case pio_allow_access bm pio access of
        None \<Rightarrow> None | Some bm' \<Rightarrow> pio_allow_all access pios bm')"

definition covers_i8042 :: "u32 \<Rightarrow> spy_pio \<Rightarrow> bool" where
  "covers_i8042 cmd_reg pio \<longleftrightarrow> pio_base pio \<le> cmd_reg \<and> pio_base pio + pio_length pio > cmd_reg"

fun clear_pm_timer :: "nat \<Rightarrow> nat \<Rightarrow> u8 list \<Rightarrow> u8 list option" where
  "clear_pm_timer 0 addr bm = Some bm"
| "clear_pm_timer (Suc n) addr bm =
     (case byte_clear_bit addr bm of None \<Rightarrow> None | Some bm' \<Rightarrow> clear_pm_timer n (addr + 1) bm')"

text \<open>
  \<open>vcpu_target_init\<close>: \<open>alloc\<close> says whether the bitmap's pages could be allocated, \<open>vendor_init\<close> is the
  result of \<open>vcpu_vendor_target_init\<close>; \<open>root\<close> is \<open>None\<close> when the target is the root target itself.
\<close>

definition vcpu_target_init ::
  "bool \<Rightarrow> errno option \<Rightarrow> nat \<Rightarrow> u32 \<Rightarrow> nat \<Rightarrow> pio_target \<Rightarrow> pio_target option \<Rightarrow>
   (unit res \<times> pio_target \<times> pio_target option) option" where
  "vcpu_target_init alloc vendor_init io_bitmap_pages cmd_reg pm_timer_addr target root =
     (if \<not> alloc then Some (Inl ENOMEM, target, root)
      else case vendor_init of
        Some e \<Rightarrow> Some (Inl e, target, root)
      | None \<Rightarrow>
          (case pio_allow_all True (pio_regions target) (replicate (io_bitmap_pages * 4096) (- 1)) of
             None \<Rightarrow> None
           | Some bm \<Rightarrow>
          (case byte_set_bit (unat cmd_reg) bm of
             None \<Rightarrow> None
           | Some bm \<Rightarrow>
          (case (case root of
                   None \<Rightarrow> Some None
                 | Some r \<Rightarrow> map_option (\<lambda>rbm. Some (r\<lparr>io_bitmap := rbm\<rparr>))
                     (pio_allow_all False (pio_regions target) (io_bitmap r))) of
             None \<Rightarrow> None
           | Some root \<Rightarrow>
          (case (if pm_timer_addr \<noteq> 0 then clear_pm_timer 4 pm_timer_addr bm else Some bm) of
             None \<Rightarrow> None
           | Some bm \<Rightarrow>
               Some (OK, target\<lparr>io_bitmap := bm,
                 pio_i8042_allowed := list_ex (covers_i8042 cmd_reg) (pio_regions target)\<rparr>, root))))))"

definition refund_region :: "spy_pio \<Rightarrow> spy_pio \<Rightarrow> spy_pio option" where
  "refund_region target_wl root_wl =
     (let interval_start = MAX_u32 (pio_base target_wl) (pio_base root_wl);
          interval_end = MIN_u32 (pio_base target_wl + pio_length target_wl)
                                 (pio_base root_wl + pio_length root_wl)
      in if interval_start < interval_end
         then Some \<lparr>pio_base = interval_start, pio_length = interval_end - interval_start\<rparr>
         else None)"

text \<open>The nested loops over both whitelists, in the order of the code.\<close>

definition refund_regions :: "spy_pio list \<Rightarrow> spy_pio list \<Rightarrow> spy_pio list" where
  "refund_regions target_wls root_wls =
     concat (map (\<lambda>t. List.map_filter (refund_region t) root_wls) target_wls)"

definition vcpu_target_exit :: "pio_target \<Rightarrow> pio_target \<Rightarrow> pio_target option" where
  "vcpu_target_exit target root =
     map_option (\<lambda>bm. root\<lparr>io_bitmap := bm\<rparr>)
       (pio_allow_all True (refund_regions (pio_regions target) (pio_regions root)) (io_bitmap root))"

subsection \<open>Facts\<close>

definition in_pio :: "nat \<Rightarrow> spy_pio \<Rightarrow> bool" where
  "in_pio p pio \<longleftrightarrow> unat (pio_base pio) \<le> p \<and> p < unat (pio_base pio) + unat (pio_length pio)"

text \<open>A region within the 64k ports.\<close>

definition pio_ok :: "spy_pio \<Rightarrow> bool" where
  "pio_ok pio \<longleftrightarrow> unat (pio_base pio) + unat (pio_length pio) \<le> 65536"

lemma same_bit: "k = n \<longleftrightarrow> k div 8 = n div 8 \<and> k mod 8 = (n mod 8 :: nat)"
  by (metis mult_div_mod_eq)

lemma byte_bit_update:
  "i < length bm \<Longrightarrow> byte_bit (bm[i := v]) k \<longleftrightarrow> (if k div 8 = i then bit v (k mod 8) else byte_bit bm k)"
  by (simp add: byte_bit_def)

lemma byte_set_bit_Some:
  assumes "n div 8 < length bm"
  shows "\<exists>bm'. byte_set_bit n bm = Some bm' \<and> length bm' = length bm \<and>
    (\<forall>k. byte_bit bm' k \<longleftrightarrow> k = n \<or> byte_bit bm k)"
proof -
  let ?v = "bm ! (n div 8) OR push_bit (n mod 8) 1"
  have v: "bit ?v j \<longleftrightarrow> j = n mod 8 \<or> bit (bm ! (n div 8)) j" if "j < 8" for j
    using that by (auto simp: bit_simps)
  have "byte_bit (bm[n div 8 := ?v]) k \<longleftrightarrow> k = n \<or> byte_bit bm k" for k
    using assms v [of "k mod 8"] same_bit [of k n] by (simp add: byte_bit_update) (auto simp: byte_bit_def)
  then show ?thesis
    using assms by (simp add: byte_set_bit_def)
qed

lemma byte_clear_bit_Some:
  assumes "n div 8 < length bm"
  shows "\<exists>bm'. byte_clear_bit n bm = Some bm' \<and> length bm' = length bm \<and>
    (\<forall>k. byte_bit bm' k \<longleftrightarrow> k \<noteq> n \<and> byte_bit bm k)"
proof -
  let ?v = "bm ! (n div 8) AND NOT (push_bit (n mod 8) 1)"
  have v: "bit ?v j \<longleftrightarrow> j \<noteq> n mod 8 \<and> bit (bm ! (n div 8)) j" if "j < 8" for j
    using that by (auto simp: bit_simps)
  have "byte_bit (bm[n div 8 := ?v]) k \<longleftrightarrow> k \<noteq> n \<and> byte_bit bm k" for k
    using assms v [of "k mod 8"] same_bit [of k n] by (simp add: byte_bit_update) (auto simp: byte_bit_def)
  then show ?thesis
    using assms by (simp add: byte_clear_bit_def)
qed

lemma clear_pm_timer_Some:
  "addr + n \<le> 8 * length bm \<Longrightarrow>
   \<exists>bm'. clear_pm_timer n addr bm = Some bm' \<and> length bm' = length bm \<and>
     (\<forall>k. byte_bit bm' k \<longleftrightarrow> \<not> (addr \<le> k \<and> k < addr + n) \<and> byte_bit bm k)"
proof (induction n arbitrary: addr bm)
  case 0
  then show ?case by auto
next
  case (Suc n)
  then have "addr div 8 < length bm"
    by (simp add: div_less_iff_less_mult mult.commute)
  from byte_clear_bit_Some [OF this] obtain bm1 where
    b1: "byte_clear_bit addr bm = Some bm1" "length bm1 = length bm"
      "\<forall>k. byte_bit bm1 k \<longleftrightarrow> k \<noteq> addr \<and> byte_bit bm k" by blast
  from Suc.IH [of "addr + 1" bm1] Suc.prems b1(2) obtain bm2 where
    b2: "clear_pm_timer n (addr + 1) bm1 = Some bm2" "length bm2 = length bm1"
      "\<forall>k. byte_bit bm2 k \<longleftrightarrow> \<not> (addr + 1 \<le> k \<and> k < addr + 1 + n) \<and> byte_bit bm1 k" by auto
  have "byte_bit bm2 k \<longleftrightarrow> \<not> (addr \<le> k \<and> k < addr + Suc n) \<and> byte_bit bm k" for k
    unfolding b2(3) [rule_format] b1(3) [rule_format] by auto
  moreover have "clear_pm_timer (Suc n) addr bm = Some bm2" "length bm2 = length bm"
    using b1(1,2) b2(1,2) by simp_all
  ultimately show ?case by blast
qed

text \<open>The long accessors keep the length of the buffer.\<close>

lemma bit_op_length:
  "set_bit_c n bm = Some bm' \<Longrightarrow> length bm' = length bm"
  "clear_bit_c n bm = Some bm' \<Longrightarrow> length bm' = length bm"
  by (auto simp: set_bit_c_def clear_bit_c_def store_long_def split: option.splits if_splits)

lemma access_loop_length:
  assumes "\<And>n bm bm'. method n bm = Some bm' \<Longrightarrow> length bm' = length bm"
  shows "access_loop method len start bm = Some bm' \<Longrightarrow> length bm' = length bm"
  by (induction len arbitrary: start bm) (auto split: option.splits dest: assms)

lemma pio_allow_access_Some:
  assumes "length bm = 8192" "pio_ok pio"
  shows "\<exists>bm'. pio_allow_access bm pio access = Some bm' \<and> length bm' = 8192 \<and>
    (\<forall>k. byte_bit bm' k \<longleftrightarrow> (if in_pio k pio then \<not> access else byte_bit bm k))"
proof -
  have bits: "unat (pio_base pio) + unat (pio_length pio) \<le> long_bits bm" "long_bits bm < 2 ^ 32"
    using assms by (simp_all add: long_bits_def pio_ok_def)
  show ?thesis
  proof (cases access)
    case True
    from long_bitmap.access_loop_clear [OF bits] obtain bm' where
      bm': "access_loop clear_bit_c (unat (pio_length pio)) (pio_base pio) bm = Some bm'"
        "\<forall>k. byte_bit bm' k \<longleftrightarrow> \<not> in_pio k pio \<and> byte_bit bm k"
      unfolding in_pio_def by blast
    with access_loop_length [OF bit_op_length(2) bm'(1)] assms(1) True show ?thesis
      by (simp add: pio_allow_access_def)
  next
    case False
    from long_bitmap.access_loop_set [OF bits] obtain bm' where
      bm': "access_loop set_bit_c (unat (pio_length pio)) (pio_base pio) bm = Some bm'"
        "\<forall>k. byte_bit bm' k \<longleftrightarrow> in_pio k pio \<or> byte_bit bm k"
      unfolding in_pio_def by blast
    with access_loop_length [OF bit_op_length(1) bm'(1)] assms(1) False show ?thesis
      by (simp add: pio_allow_access_def)
  qed
qed

text \<open>A port is in one of the regions of a whitelist.\<close>

definition in_pios :: "nat \<Rightarrow> spy_pio list \<Rightarrow> bool" where
  "in_pios p pios \<longleftrightarrow> list_ex (in_pio p) pios"

lemma in_pios_simps [simp]:
  "\<not> in_pios p []" "in_pios p (pio # pios) \<longleftrightarrow> in_pio p pio \<or> in_pios p pios"
  by (simp_all add: in_pios_def)

lemma pio_allow_all_Some:
  assumes "length bm = 8192" "list_all pio_ok pios"
  shows "\<exists>bm'. pio_allow_all access pios bm = Some bm' \<and> length bm' = 8192 \<and>
    (\<forall>k. byte_bit bm' k \<longleftrightarrow> (if in_pios k pios then \<not> access else byte_bit bm k))"
  using assms
proof (induction pios arbitrary: bm)
  case Nil
  then show ?case by simp
next
  case (Cons pio pios)
  from pio_allow_access_Some [OF Cons.prems(1), of pio access] Cons.prems(2) obtain bm1 where
    b1: "pio_allow_access bm pio access = Some bm1" "length bm1 = 8192"
      "\<forall>k. byte_bit bm1 k \<longleftrightarrow> (if in_pio k pio then \<not> access else byte_bit bm k)" by auto
  from Cons.IH [OF b1(2)] Cons.prems(2) obtain bm2 where
    b2: "pio_allow_all access pios bm1 = Some bm2" "length bm2 = 8192"
      "\<forall>k. byte_bit bm2 k \<longleftrightarrow> (if in_pios k pios then \<not> access else byte_bit bm1 k)" by auto
  have "byte_bit bm2 k \<longleftrightarrow> (if in_pios k (pio # pios) then \<not> access else byte_bit bm k)" for k
    unfolding b2(3) [rule_format] b1(3) [rule_format] by simp
  then show ?case
    using b1(1) b2(1,2) by auto
qed

lemma refund_region_spec:
  assumes "pio_ok t" "pio_ok r"
  shows "case refund_region t r of
      Some g \<Rightarrow> pio_ok g \<and> (\<forall>p. in_pio p g \<longleftrightarrow> in_pio p t \<and> in_pio p r)
    | None \<Rightarrow> \<forall>p. \<not> (in_pio p t \<and> in_pio p r)"
proof -
  have sum: "unat (pio_base x + pio_length x) = unat (pio_base x) + unat (pio_length x)"
    if "pio_ok x" for x
    using that by (intro unat_word_plus_small) (simp add: pio_ok_def)
  let ?s = "MAX_u32 (pio_base t) (pio_base r)"
  let ?e = "MIN_u32 (pio_base t + pio_length t) (pio_base r + pio_length r)"
  have s: "unat ?s = max (unat (pio_base t)) (unat (pio_base r))"
    by (rule unat_MAX_u32)
  have e: "unat ?e = min (unat (pio_base t) + unat (pio_length t)) (unat (pio_base r) + unat (pio_length r))"
    using assms by (simp add: unat_MIN_u32 sum)
  show ?thesis
  proof (cases "?s < ?e")
    case True
    then have "unat (?e - ?s) = unat ?e - unat ?s"
      by (simp add: unat_sub word_less_nat_alt order.strict_implies_order word_le_nat_alt)
    then show ?thesis
      using True s e assms by (auto simp: refund_region_def Let_def in_pio_def pio_ok_def word_less_nat_alt)
  next
    case False
    then show ?thesis
      using s e by (auto simp: refund_region_def Let_def in_pio_def word_less_nat_alt)
  qed
qed

lemma refund_regions_spec:
  assumes "list_all pio_ok ts" "list_all pio_ok rs"
  shows "list_all pio_ok (refund_regions ts rs) \<and>
    (\<forall>p. in_pios p (refund_regions ts rs) \<longleftrightarrow> in_pios p ts \<and> in_pios p rs)"
proof -
  have inner: "list_all pio_ok (List.map_filter (refund_region t) rs) \<and>
      (\<forall>p. in_pios p (List.map_filter (refund_region t) rs) \<longleftrightarrow> in_pio p t \<and> in_pios p rs)"
    if "pio_ok t" for t
    using assms(2)
  proof (induction rs)
    case Nil
    then show ?case by (simp add: List.map_filter_simps)
  next
    case (Cons r rs)
    with refund_region_spec [OF that, of r] show ?case
      by (auto simp: List.map_filter_simps split: option.splits)
  qed
  have app: "in_pios p (xs @ ys) \<longleftrightarrow> in_pios p xs \<or> in_pios p ys" for p xs ys
    by (simp add: in_pios_def)
  show ?thesis
    using assms(1)
  proof (induction ts)
    case Nil
    then show ?case by (simp add: refund_regions_def)
  next
    case (Cons t ts)
    with inner [of t] show ?case
      by (auto simp: refund_regions_def app)
  qed
qed

lemma byte_bit_all_ones:
  assumes "k < 8 * n"
  shows "byte_bit (replicate n (- 1)) k"
proof -
  have "k div 8 < n"
    using assms by (simp add: div_less_iff_less_mult mult.commute)
  then show ?thesis
    by (simp add: byte_bit_def)
qed

lemma byte_bit_bound: "byte_bit bm k \<Longrightarrow> k < 8 * length bm"
  by (auto simp: byte_bit_def div_less_iff_less_mult mult.commute)

lemma covers_i8042_iff:
  assumes "pio_ok pio"
  shows "covers_i8042 cmd_reg pio \<longleftrightarrow> in_pio (unat cmd_reg) pio"
proof -
  have "unat (pio_base pio + pio_length pio) = unat (pio_base pio) + unat (pio_length pio)"
    using assms by (intro unat_word_plus_small) (simp add: pio_ok_def)
  then show ?thesis
    by (simp add: covers_i8042_def in_pio_def word_le_nat_alt word_less_nat_alt)
qed

lemma vcpu_target_init_result:
  assumes "list_all pio_ok (pio_regions target)" "unat cmd_reg < 65536" "pm_timer + 4 \<le> 65536"
    and "length (io_bitmap root) = 8192"
  shows "\<exists>target' root'. vcpu_target_init True None 2 cmd_reg pm_timer target (Some root) =
      Some (OK, target', Some root') \<and>
    length (io_bitmap target') = 8192 \<and> length (io_bitmap root') = 8192 \<and>
    (\<forall>p. byte_bit (io_bitmap target') p \<longleftrightarrow>
      p < 65536 \<and> (in_pios p (pio_regions target) \<longrightarrow> p = unat cmd_reg) \<and>
      \<not> (pm_timer \<noteq> 0 \<and> pm_timer \<le> p \<and> p < pm_timer + 4)) \<and>
    (\<forall>p. byte_bit (io_bitmap root') p \<longleftrightarrow>
      in_pios p (pio_regions target) \<or> byte_bit (io_bitmap root) p) \<and>
    pio_i8042_allowed target' = in_pios (unat cmd_reg) (pio_regions target) \<and>
    pio_regions target' = pio_regions target \<and> pio_regions root' = pio_regions root"
proof -
  let ?ps = "pio_regions target"
  obtain bm1 where b1: "pio_allow_all True ?ps (replicate 8192 (- 1)) = Some bm1" "length bm1 = 8192"
    "\<forall>k. byte_bit bm1 k \<longleftrightarrow> (if in_pios k ?ps then \<not> True else byte_bit (replicate 8192 (- 1)) k)"
    using pio_allow_all_Some [of "replicate 8192 (- 1)" ?ps True] assms(1) by auto
  have "unat cmd_reg div 8 < length bm1"
    using assms(2) b1(2) by (simp add: div_less_iff_less_mult)
  from byte_set_bit_Some [OF this] obtain bm2 where
    b2: "byte_set_bit (unat cmd_reg) bm1 = Some bm2" "length bm2 = length bm1"
      "\<forall>k. byte_bit bm2 k \<longleftrightarrow> k = unat cmd_reg \<or> byte_bit bm1 k" by blast
  obtain rbm where r: "pio_allow_all False ?ps (io_bitmap root) = Some rbm" "length rbm = 8192"
    "\<forall>k. byte_bit rbm k \<longleftrightarrow> (if in_pios k ?ps then \<not> False else byte_bit (io_bitmap root) k)"
    using pio_allow_all_Some [OF assms(4,1), of False] by auto
  have "pm_timer + 4 \<le> 8 * length bm2"
    using assms(3) b1(2) b2(2) by simp
  from clear_pm_timer_Some [OF this] obtain bm3 where
    b3: "clear_pm_timer 4 pm_timer bm2 = Some bm3" "length bm3 = length bm2"
      "\<forall>k. byte_bit bm3 k \<longleftrightarrow> \<not> (pm_timer \<le> k \<and> k < pm_timer + 4) \<and> byte_bit bm2 k" by blast
  define bm where "bm = (if pm_timer \<noteq> 0 then bm3 else bm2)"
  have i8042: "list_ex (covers_i8042 cmd_reg) ?ps = in_pios (unat cmd_reg) ?ps"
    using assms(1) covers_i8042_iff by (auto simp: in_pios_def list_ex_iff list_all_iff)
  have init: "vcpu_target_init True None 2 cmd_reg pm_timer target (Some root) =
      Some (OK, target\<lparr>io_bitmap := bm, pio_i8042_allowed := in_pios (unat cmd_reg) ?ps\<rparr>,
        Some (root\<lparr>io_bitmap := rbm\<rparr>))"
    using b1(1) b2(1) b3(1) r(1) by (simp add: vcpu_target_init_def bm_def i8042)
  have ones: "byte_bit (replicate 8192 (- 1)) k \<longleftrightarrow> k < 65536" for k
    using byte_bit_all_ones [of k 8192] byte_bit_bound [of "replicate 8192 (- 1)" k] by auto
  have "byte_bit bm p \<longleftrightarrow> p < 65536 \<and> (in_pios p ?ps \<longrightarrow> p = unat cmd_reg) \<and>
      \<not> (pm_timer \<noteq> 0 \<and> pm_timer \<le> p \<and> p < pm_timer + 4)" for p
    using assms(2) unfolding bm_def
    by (auto simp: b3(3) [rule_format] b2(3) [rule_format] b1(3) [rule_format] ones)
  moreover have "length bm = 8192"
    using b1(2) b2(2) b3(2) by (simp add: bm_def)
  ultimately show ?thesis
    using init r(2,3) by simp
qed

subsection \<open>Properties\<close>

text \<open>C34. Port permissions of a new target, with whitelist entries inside the 64k ports and the two
  bitmap pages of VMX: \<open>vcpu_target_init\<close> succeeds and writes only inside the bitmaps; a port is
  accessible to the target exactly when it is whitelisted and not the i8042 command port, or one of
  the four ports of the PM timer. Those are opened last, so they prevail: the command port is intercepted exactly
  when the PM timer does not cover it. The i8042 is moderated exactly when its command port is
  whitelisted, and the root target loses exactly the whitelisted ports.\<close>

theorem vcpu_target_init_ports:
  assumes "list_all pio_ok (pio_regions target)" "unat cmd_reg < 65536" "pm_timer + 4 \<le> 65536"
    and "length (io_bitmap root) = 8192"
  shows "\<exists>target' root'. vcpu_target_init True None 2 cmd_reg pm_timer target (Some root) =
      Some (OK, target', Some root') \<and>
    length (io_bitmap target') = 8192 \<and> length (io_bitmap root') = 8192 \<and>
    (\<forall>p. byte_bit (io_bitmap target') p \<longleftrightarrow>
      p < 65536 \<and> (in_pios p (pio_regions target) \<longrightarrow> p = unat cmd_reg) \<and>
      \<not> (pm_timer \<noteq> 0 \<and> pm_timer \<le> p \<and> p < pm_timer + 4)) \<and>
    (byte_bit (io_bitmap target') (unat cmd_reg) \<longleftrightarrow>
      pm_timer = 0 \<or> unat cmd_reg < pm_timer \<or> pm_timer + 4 \<le> unat cmd_reg) \<and>
    (\<forall>p. byte_bit (io_bitmap root') p \<longleftrightarrow>
      in_pios p (pio_regions target) \<or> byte_bit (io_bitmap root) p) \<and>
    pio_i8042_allowed target' = in_pios (unat cmd_reg) (pio_regions target) \<and>
    pio_regions target' = pio_regions target \<and> pio_regions root' = pio_regions root"
proof -
  have cmd: "\<not> (pm_timer \<noteq> 0 \<and> pm_timer \<le> unat cmd_reg \<and> unat cmd_reg < pm_timer + 4) \<longleftrightarrow>
      pm_timer = 0 \<or> unat cmd_reg < pm_timer \<or> pm_timer + 4 \<le> unat cmd_reg"
    by auto
  show ?thesis
    using vcpu_target_init_result [OF assms] assms(2) by (auto simp: cmd)
qed

theorem vcpu_target_init_ports_witness:
  "\<exists>target'. (\<exists>root'. vcpu_target_init True None 2 0x64 0x408
      \<lparr>io_bitmap = [], pio_i8042_allowed = False, pio_regions = [\<lparr>pio_base = 0x60, pio_length = 5\<rparr>]\<rparr>
      (Some \<lparr>io_bitmap = replicate 8192 0, pio_i8042_allowed = True, pio_regions = []\<rparr>) =
      Some (OK, target', Some root')) \<and>
    \<not> byte_bit (io_bitmap target') 0x60 \<and> byte_bit (io_bitmap target') 0x64 \<and>
    \<not> byte_bit (io_bitmap target') 0x409 \<and> byte_bit (io_bitmap target') 0x3f8"
  using vcpu_target_init_ports [of "\<lparr>io_bitmap = [], pio_i8042_allowed = False,
        pio_regions = [\<lparr>pio_base = 0x60, pio_length = 5\<rparr>]\<rparr>" "0x64" "0x408"
      "\<lparr>io_bitmap = replicate 8192 0, pio_i8042_allowed = True, pio_regions = []\<rparr>"]
  by (auto simp: pio_ok_def in_pio_def)

text \<open>A PM timer at ports \<open>0x62\<close> to \<open>0x65\<close> gives a target without any whitelist entry the command port.\<close>

lemma pm_timer_opens_i8042:
  "\<exists>target' root'. vcpu_target_init True None 2 0x64 0x62
      \<lparr>io_bitmap = [], pio_i8042_allowed = False, pio_regions = []\<rparr>
      (Some \<lparr>io_bitmap = replicate 8192 0, pio_i8042_allowed = True, pio_regions = []\<rparr>) =
      Some (OK, target', Some root') \<and> \<not> byte_bit (io_bitmap target') 0x64 \<and> \<not> pio_i8042_allowed target'"
  using vcpu_target_init_result [of "\<lparr>io_bitmap = [], pio_i8042_allowed = False, pio_regions = []\<rparr>" "0x64" "0x62"
      "\<lparr>io_bitmap = replicate 8192 0, pio_i8042_allowed = True, pio_regions = []\<rparr>"]
  by auto

text \<open>C35. A target that comes and goes: after \<open>vcpu_target_init\<close> and \<open>vcpu_target_exit\<close>, the root
  target has its old permissions, except that the ports in both whitelists are always accessible and
  those only in the target's whitelist always intercepted. So the command port of the i8042, which the
  code always intercepts, is open to the root target once a target with that port has been destroyed,
  and a PM timer port that only the target's whitelist covers is lost.\<close>

theorem vcpu_target_init_exit_root_ports:
  assumes "list_all pio_ok (pio_regions target)" "list_all pio_ok (pio_regions root)"
    and "unat cmd_reg < 65536" "pm_timer + 4 \<le> 65536" "length (io_bitmap root) = 8192"
    and "vcpu_target_init True None 2 cmd_reg pm_timer target (Some root) = Some (OK, target', Some root')"
  shows "\<exists>root''. vcpu_target_exit target' root' = Some root'' \<and>
    (\<forall>p. byte_bit (io_bitmap root'') p \<longleftrightarrow>
      (if in_pios p (pio_regions target) then \<not> in_pios p (pio_regions root)
       else byte_bit (io_bitmap root) p))"
proof -
  have t: "pio_regions target' = pio_regions target" "pio_regions root' = pio_regions root"
    "length (io_bitmap root') = 8192"
    "\<forall>p. byte_bit (io_bitmap root') p \<longleftrightarrow> in_pios p (pio_regions target) \<or> byte_bit (io_bitmap root) p"
    using vcpu_target_init_result [OF assms(1,3,4,5)] assms(6) by auto
  note refund = refund_regions_spec [OF assms(1,2)]
  from pio_allow_all_Some [OF t(3) conjunct1 [OF refund], of True] obtain bm where
    bm: "pio_allow_all True (refund_regions (pio_regions target) (pio_regions root)) (io_bitmap root') = Some bm"
      "\<forall>k. byte_bit bm k \<longleftrightarrow> (if in_pios k (refund_regions (pio_regions target) (pio_regions root))
         then \<not> True else byte_bit (io_bitmap root') k)" by blast
  have "byte_bit bm p \<longleftrightarrow> (if in_pios p (pio_regions target) then \<not> in_pios p (pio_regions root)
       else byte_bit (io_bitmap root) p)" for p
    unfolding bm(2) [rule_format] t(4) [rule_format] using refund by auto
  then show ?thesis
    using bm(1) t(1,2) by (simp add: vcpu_target_exit_def)
qed

text \<open>The target and the root target of the witness, with the i8042's port in both whitelists; the
  root target intercepts the command port at first.\<close>

definition demo_pio_target :: pio_target where
  "demo_pio_target = \<lparr>io_bitmap = [], pio_i8042_allowed = False,
     pio_regions = [\<lparr>pio_base = 0x60, pio_length = 5\<rparr>]\<rparr>"

definition demo_pio_root :: pio_target where
  "demo_pio_root = \<lparr>io_bitmap = replicate 8192 (- 1), pio_i8042_allowed = True,
     pio_regions = [\<lparr>pio_base = 0, pio_length = 0x100\<rparr>]\<rparr>"

theorem vcpu_target_init_exit_root_ports_witness:
  "byte_bit (io_bitmap demo_pio_root) 0x64 \<and>
   (\<exists>target' root' root''.
      vcpu_target_init True None 2 0x64 0x408 demo_pio_target (Some demo_pio_root) = Some (OK, target', Some root') \<and>
      vcpu_target_exit target' root' = Some root'' \<and> \<not> byte_bit (io_bitmap root'') 0x64)"
proof -
  have pre: "list_all pio_ok (pio_regions demo_pio_target)" "list_all pio_ok (pio_regions demo_pio_root)"
    "unat (0x64 :: u32) < 65536" "0x408 + 4 \<le> (65536 :: nat)" "length (io_bitmap demo_pio_root) = 8192"
    by (simp_all add: demo_pio_target_def demo_pio_root_def pio_ok_def)
  from vcpu_target_init_result [OF pre(1,3,4,5)] obtain target' root' where init:
    "vcpu_target_init True None 2 0x64 0x408 demo_pio_target (Some demo_pio_root) = Some (OK, target', Some root')"
    by blast
  from vcpu_target_init_exit_root_ports [OF pre init] obtain root'' where
    "vcpu_target_exit target' root' = Some root''"
    "\<forall>p. byte_bit (io_bitmap root'') p \<longleftrightarrow>
      (if in_pios p (pio_regions demo_pio_target) then \<not> in_pios p (pio_regions demo_pio_root)
       else byte_bit (io_bitmap demo_pio_root) p)" by blast
  moreover have "byte_bit (io_bitmap demo_pio_root) 0x64"
    by (simp add: demo_pio_root_def byte_bit_all_ones)
  ultimately show ?thesis
    using init by (auto simp: demo_pio_target_def demo_pio_root_def in_pio_def)
qed

end
