(* ===== verification/Spy_Dmar.thy ===== *)
theory Spy_Dmar
  imports Spy_Bitops
begin

text \<open>
  The DMAR units as \<open>vtd.c\<close> drives them: the invalidation queue, the command register, the set-up
  of a unit, fault reporting and fault events.

  The register accessors \<open>mmio_*\<close> are not part of this source; they are the fields of the record
  \<open>dmar_ops\<close>, over a hardware state \<open>'h\<close> that every read may advance. So is the flag
  \<open>vtd_iq_completed\<close> that a wait descriptor makes the unit set in memory. A poll loop is
  \<open>partial_function (option)\<close>: \<open>None\<close> is a loop that never ends, or an access outside a queue.
  The invalidation queue of a unit is a list of descriptors, 256 of them in a page. The critical
  section under \<open>inv_queue_lock\<close> is modelled as one operation, and the cache flushes, which change
  no state of the model, are left out.
\<close>

subsection \<open>Registers and descriptors\<close>

record 'h dmar_ops =
  mmio_read32 :: "u64 \<Rightarrow> 'h \<Rightarrow> u32 \<times> 'h"
  mmio_read64 :: "u64 \<Rightarrow> 'h \<Rightarrow> u64 \<times> 'h"
  mmio_write32 :: "u64 \<Rightarrow> u32 \<Rightarrow> 'h \<Rightarrow> 'h"
  mmio_write64 :: "u64 \<Rightarrow> u64 \<Rightarrow> 'h \<Rightarrow> 'h"
  mmio_read32_field :: "u64 \<Rightarrow> u32 \<Rightarrow> 'h \<Rightarrow> u32 \<times> 'h"
  mmio_read64_field :: "u64 \<Rightarrow> u64 \<Rightarrow> 'h \<Rightarrow> u64 \<times> 'h"
  mmio_write32_field :: "u64 \<Rightarrow> u32 \<Rightarrow> u32 \<Rightarrow> 'h \<Rightarrow> 'h"
  mmio_write64_field :: "u64 \<Rightarrow> u64 \<Rightarrow> u64 \<Rightarrow> 'h \<Rightarrow> 'h"
  iq_clear :: "'h \<Rightarrow> 'h"
  iq_completed :: "'h \<Rightarrow> bool \<times> 'h"
  iq_completed_phys :: u64

abbreviation (input) VTD_CAP_REG :: u64 where "VTD_CAP_REG \<equiv> 0x08"
abbreviation (input) VTD_GCMD_REG :: u64 where "VTD_GCMD_REG \<equiv> 0x18"
abbreviation (input) VTD_GSTS_REG :: u64 where "VTD_GSTS_REG \<equiv> 0x1c"
abbreviation (input) VTD_RTADDR_REG :: u64 where "VTD_RTADDR_REG \<equiv> 0x20"
abbreviation (input) VTD_FSTS_REG :: u64 where "VTD_FSTS_REG \<equiv> 0x34"
abbreviation (input) VTD_FECTL_REG :: u64 where "VTD_FECTL_REG \<equiv> 0x38"
abbreviation (input) VTD_FEDATA_REG :: u64 where "VTD_FEDATA_REG \<equiv> 0x3c"
abbreviation (input) VTD_FEADDR_REG :: u64 where "VTD_FEADDR_REG \<equiv> 0x40"
abbreviation (input) VTD_FEUADDR_REG :: u64 where "VTD_FEUADDR_REG \<equiv> 0x44"
abbreviation (input) VTD_IQH_REG :: u64 where "VTD_IQH_REG \<equiv> 0x80"
abbreviation (input) VTD_IQT_REG :: u64 where "VTD_IQT_REG \<equiv> 0x88"
abbreviation (input) VTD_IQA_REG :: u64 where "VTD_IQA_REG \<equiv> 0x90"
abbreviation (input) VTD_IRTA_REG :: u64 where "VTD_IRTA_REG \<equiv> 0xb8"
abbreviation (input) VTD_FRCD_HI_REG :: u64 where "VTD_FRCD_HI_REG \<equiv> 0x8"

abbreviation (input) VTD_GCMD_SIRTP :: u32 where "VTD_GCMD_SIRTP \<equiv> 0x01000000"
abbreviation (input) VTD_GCMD_IRE :: u32 where "VTD_GCMD_IRE \<equiv> 0x02000000"
abbreviation (input) VTD_GCMD_QIE :: u32 where "VTD_GCMD_QIE \<equiv> 0x04000000"
abbreviation (input) VTD_GCMD_SRTP :: u32 where "VTD_GCMD_SRTP \<equiv> 0x40000000"
abbreviation (input) VTD_GCMD_TE :: u32 where "VTD_GCMD_TE \<equiv> 0x80000000"

abbreviation (input) VTD_FSTS_PFO :: u32 where "VTD_FSTS_PFO \<equiv> 1"
abbreviation (input) VTD_FSTS_PFO_CLEAR :: u32 where "VTD_FSTS_PFO_CLEAR \<equiv> 1"
abbreviation (input) VTD_FSTS_PPF :: u32 where "VTD_FSTS_PPF \<equiv> 0x2"
abbreviation (input) VTD_FSTS_FRI_MASK :: u64 where "VTD_FSTS_FRI_MASK \<equiv> BIT_MASK 15 8"
abbreviation (input) VTD_FECTL_IM :: u32 where "VTD_FECTL_IM \<equiv> 0x80000000"
abbreviation (input) VTD_IRTA_EIME :: u64 where "VTD_IRTA_EIME \<equiv> push_bit 11 1"

abbreviation (input) VTD_REQ_INV_CONTEXT :: u64 where "VTD_REQ_INV_CONTEXT \<equiv> 0x01"
abbreviation (input) VTD_INV_CONTEXT_GLOBAL :: u64 where "VTD_INV_CONTEXT_GLOBAL \<equiv> push_bit 4 1"
abbreviation (input) VTD_INV_CONTEXT_DOMAIN :: u64 where "VTD_INV_CONTEXT_DOMAIN \<equiv> push_bit 4 2"
abbreviation (input) VTD_INV_CONTEXT_DOMAIN_SHIFT :: nat where "VTD_INV_CONTEXT_DOMAIN_SHIFT \<equiv> 16"
abbreviation (input) VTD_REQ_INV_IOTLB :: u64 where "VTD_REQ_INV_IOTLB \<equiv> 0x02"
abbreviation (input) VTD_INV_IOTLB_GLOBAL :: u64 where "VTD_INV_IOTLB_GLOBAL \<equiv> push_bit 4 1"
abbreviation (input) VTD_INV_IOTLB_DOMAIN :: u64 where "VTD_INV_IOTLB_DOMAIN \<equiv> push_bit 4 2"
abbreviation (input) VTD_INV_IOTLB_DW :: u64 where "VTD_INV_IOTLB_DW \<equiv> push_bit 6 1"
abbreviation (input) VTD_INV_IOTLB_DR :: u64 where "VTD_INV_IOTLB_DR \<equiv> push_bit 7 1"
abbreviation (input) VTD_INV_IOTLB_DOMAIN_SHIFT :: nat where "VTD_INV_IOTLB_DOMAIN_SHIFT \<equiv> 16"
abbreviation (input) VTD_REQ_INV_INT :: u64 where "VTD_REQ_INV_INT \<equiv> 0x04"
abbreviation (input) VTD_INV_INT_GLOBAL :: u64 where "VTD_INV_INT_GLOBAL \<equiv> push_bit 4 0"
abbreviation (input) VTD_REQ_INV_WAIT :: u64 where "VTD_REQ_INV_WAIT \<equiv> 0x05"
abbreviation (input) VTD_INV_WAIT_SW :: u64 where "VTD_INV_WAIT_SW \<equiv> push_bit 5 1"
abbreviation (input) VTD_INV_WAIT_FN :: u64 where "VTD_INV_WAIT_FN \<equiv> push_bit 6 1"
abbreviation (input) VTD_INV_WAIT_SDATA_SHIFT :: nat where "VTD_INV_WAIT_SDATA_SHIFT \<equiv> 32"

abbreviation (input) VTD_FRCD_LO_FI_MASK :: u64 where "VTD_FRCD_LO_FI_MASK \<equiv> BIT_MASK 63 12"
abbreviation (input) VTD_FRCD_HI_SID_MASK :: u64 where "VTD_FRCD_HI_SID_MASK \<equiv> BIT_MASK 15 0"
abbreviation (input) VTD_FRCD_HI_FR_MASK :: u64 where "VTD_FRCD_HI_FR_MASK \<equiv> BIT_MASK 39 32"
abbreviation (input) VTD_FRCD_HI_TYPE :: u64 where "VTD_FRCD_HI_TYPE \<equiv> push_bit 62 1"
abbreviation (input) VTD_FRCD_HI_F :: u64 where "VTD_FRCD_HI_F \<equiv> 0x8000000000000000"
abbreviation (input) VTD_FRCD_HI_F_CLEAR :: u64 where "VTD_FRCD_HI_F_CLEAR \<equiv> 1"

definition VTD_GSTS_USED_CTRLS :: u32 where
  "VTD_GSTS_USED_CTRLS = 0x02000000 OR 0x04000000 OR 0x80000000"

definition VTD_IQT_QT_MASK :: u64 where "VTD_IQT_QT_MASK = BIT_MASK 18 4"
definition VTD_CAP_FRO_MASK :: u64 where "VTD_CAP_FRO_MASK = BIT_MASK 33 24"
definition VTD_CAP_NFR_MASK :: u64 where "VTD_CAP_NFR_MASK = BIT_MASK 47 40"

record vtd_entry =
  lo_word :: u64
  hi_word :: u64

definition inv_global_context :: vtd_entry where
  "inv_global_context = \<lparr>lo_word = VTD_REQ_INV_CONTEXT OR VTD_INV_CONTEXT_GLOBAL, hi_word = 0\<rparr>"

definition inv_global_iotlb :: vtd_entry where
  "inv_global_iotlb =
     \<lparr>lo_word = VTD_REQ_INV_IOTLB OR VTD_INV_IOTLB_GLOBAL OR VTD_INV_IOTLB_DW OR VTD_INV_IOTLB_DR,
       hi_word = 0\<rparr>"

definition inv_global_int :: vtd_entry where
  "inv_global_int = \<lparr>lo_word = VTD_REQ_INV_INT OR VTD_INV_INT_GLOBAL, hi_word = 0\<rparr>"

subsection \<open>Poll loops\<close>

partial_function (option) poll :: "('h \<Rightarrow> 'a \<times> 'h) \<Rightarrow> ('a \<Rightarrow> bool) \<Rightarrow> 'h \<Rightarrow> 'h option" where
  "poll rd ok h = (case rd h of (v, h') \<Rightarrow> if ok v then Some h' else poll rd ok h')"

declare poll.simps [code]

text \<open>The hardware state after \<open>n\<close> reads, and a hardware that answers some read.\<close>

definition after_reads :: "('h \<Rightarrow> 'a \<times> 'h) \<Rightarrow> nat \<Rightarrow> 'h \<Rightarrow> 'h" where
  "after_reads rd n h = ((snd \<circ> rd) ^^ n) h"

definition answers :: "('h \<Rightarrow> 'a \<times> 'h) \<Rightarrow> ('a \<Rightarrow> bool) \<Rightarrow> 'h \<Rightarrow> bool" where
  "answers rd ok h \<longleftrightarrow> (\<exists>n. ok (fst (rd (after_reads rd n h))))"

lemma poll_returns: "answers rd ok h \<Longrightarrow> \<exists>h'. poll rd ok h = Some h'"
proof -
  have "ok (fst (rd (after_reads rd n h))) \<Longrightarrow> \<exists>h'. poll rd ok h = Some h'" for n
  proof (induction n arbitrary: h)
    case 0
    then show ?case
      by (subst poll.simps) (auto simp: after_reads_def split: prod.splits)
  next
    case (Suc n)
    then have "\<exists>h'. poll rd ok (snd (rd h)) = Some h'"
      by (simp add: after_reads_def funpow_swap1)
    then show ?case
      by (subst poll.simps) (auto split: prod.splits)
  qed
  then show "answers rd ok h \<Longrightarrow> \<exists>h'. poll rd ok h = Some h'"
    by (auto simp: answers_def)
qed

lemma poll_result:
  "poll rd ok h = Some h' \<Longrightarrow> \<exists>n v. rd (after_reads rd n h) = (v, h') \<and> ok v"
proof (erule poll.raw_induct [rotated, where P = "\<lambda>rd ok h h'. \<exists>n v. rd (after_reads rd n h) = (v, h') \<and> ok v"],
    goal_cases)
  case (1 pl rd ok h h')
  obtain v h1 where r: "rd h = (v, h1)" by fastforce
  show ?case
  proof (cases "ok v")
    case True
    then have "rd (after_reads rd 0 h) = (v, h')"
      using 1(2) r by (simp add: after_reads_def)
    with True show ?thesis by blast
  next
    case False
    then obtain n v' where "rd (after_reads rd n h1) = (v', h')" "ok v'"
      using 1 r by auto blast
    then have "rd (after_reads rd (Suc n) h) = (v', h')"
      using r by (simp add: after_reads_def funpow_swap1)
    with \<open>ok v'\<close> show ?thesis by blast
  qed
qed

subsection \<open>The invalidation queue\<close>

definition inv_queue_write :: "vtd_entry list \<Rightarrow> nat \<Rightarrow> vtd_entry \<Rightarrow> (vtd_entry list \<times> nat) option" where
  "inv_queue_write inv_queue index content =
     map_option (\<lambda>q. (q, (index + 1) mod (4096 div 16))) (array_set inv_queue index content)"

definition inv_wait :: "'h dmar_ops \<Rightarrow> vtd_entry" where
  "inv_wait ops =
     \<lparr>lo_word = VTD_REQ_INV_WAIT OR VTD_INV_WAIT_SW OR VTD_INV_WAIT_FN OR push_bit VTD_INV_WAIT_SDATA_SHIFT 1,
       hi_word = iq_completed_phys ops\<rparr>"

definition vtd_submit_iq_request ::
  "'h dmar_ops \<Rightarrow> u64 \<Rightarrow> vtd_entry option \<Rightarrow> vtd_entry list \<Rightarrow> 'h \<Rightarrow> (vtd_entry list \<times> 'h) option" where
  "vtd_submit_iq_request ops reg_base inv_request inv_queue h =
     (case mmio_read64_field ops (reg_base + VTD_IQT_REG) VTD_IQT_QT_MASK (iq_clear ops h) of
        (tail, h) \<Rightarrow>
          (case (case inv_request of
                   None \<Rightarrow> Some (inv_queue, unat (ucast tail :: u32))
                 | Some req \<Rightarrow> inv_queue_write inv_queue (unat (ucast tail :: u32)) req) of
             None \<Rightarrow> None
           | Some (inv_queue, index) \<Rightarrow>
               (case inv_queue_write inv_queue index (inv_wait ops) of
                  None \<Rightarrow> None
                | Some (inv_queue, index) \<Rightarrow>
                    (case poll (iq_completed ops) (\<lambda>done. done)
                            (mmio_write64_field ops (reg_base + VTD_IQT_REG) VTD_IQT_QT_MASK
                              (of_nat index) h) of
                       None \<Rightarrow> None
                     | Some h \<Rightarrow> Some (inv_queue, h)))))"

text \<open>\<open>for (n = 0; n < dmar_units; n++)\<close> with the register base and the queue advancing.\<close>

abbreviation (input) DMAR_MMIO_SIZE :: u64 where "DMAR_MMIO_SIZE \<equiv> 0x4000"

fun for_units ::
  "(nat \<Rightarrow> u64 \<Rightarrow> vtd_entry list \<Rightarrow> 'h \<Rightarrow> (vtd_entry list \<times> 'h) option) \<Rightarrow> nat \<Rightarrow> nat \<Rightarrow> u64 \<Rightarrow>
   vtd_entry list list \<Rightarrow> 'h \<Rightarrow> (vtd_entry list list \<times> 'h) option" where
  "for_units body n 0 reg_base qs h = Some (qs, h)"
| "for_units body n (Suc k) reg_base [] h = None"
| "for_units body n (Suc k) reg_base (q # qs) h =
     (case body n reg_base q h of
        None \<Rightarrow> None
      | Some (q', h') \<Rightarrow>
          map_option (\<lambda>(qs', h''). (q' # qs', h''))
            (for_units body (n + 1) k (reg_base + DMAR_MMIO_SIZE) qs h'))"

definition inv_domain_context :: "u32 \<Rightarrow> vtd_entry" where
  "inv_domain_context did =
     \<lparr>lo_word = VTD_REQ_INV_CONTEXT OR VTD_INV_CONTEXT_DOMAIN OR ucast (push_bit VTD_INV_CONTEXT_DOMAIN_SHIFT did), hi_word = 0\<rparr>"

definition inv_domain_iotlb :: "u32 \<Rightarrow> vtd_entry" where
  "inv_domain_iotlb did =
     \<lparr>lo_word = VTD_REQ_INV_IOTLB OR VTD_INV_IOTLB_DOMAIN OR VTD_INV_IOTLB_DW OR VTD_INV_IOTLB_DR OR
         ucast (push_bit VTD_INV_IOTLB_DOMAIN_SHIFT did),
      hi_word = 0\<rparr>"

definition flush_domain_unit ::
  "'h dmar_ops \<Rightarrow> u32 \<Rightarrow> u64 \<Rightarrow> vtd_entry list \<Rightarrow> 'h \<Rightarrow> (vtd_entry list \<times> 'h) option" where
  "flush_domain_unit ops did reg_base q h =
     (case vtd_submit_iq_request ops reg_base (Some (inv_domain_context did)) q h of
        None \<Rightarrow> None
      | Some (q, h) \<Rightarrow> vtd_submit_iq_request ops reg_base (Some (inv_domain_iotlb did)) q h)"

definition vtd_flush_domain_caches ::
  "'h dmar_ops \<Rightarrow> u32 \<Rightarrow> nat \<Rightarrow> u64 \<Rightarrow> vtd_entry list list \<Rightarrow> 'h \<Rightarrow> (vtd_entry list list \<times> 'h) option" where
  "vtd_flush_domain_caches ops did dmar_units dmar_reg_base unit_inv_queue h =
     for_units (\<lambda>n. flush_domain_unit ops did) 0 dmar_units dmar_reg_base unit_inv_queue h"

subsection \<open>The command register\<close>

definition vtd_update_gcmd_reg :: "'h dmar_ops \<Rightarrow> u64 \<Rightarrow> u32 \<Rightarrow> bool \<Rightarrow> 'h \<Rightarrow> 'h option" where
  "vtd_update_gcmd_reg ops reg_base msk on h =
     (case mmio_read32 ops (reg_base + VTD_GSTS_REG) h of
        (status, h) \<Rightarrow>
          let val = status AND VTD_GSTS_USED_CTRLS;
              val = (if on then val OR msk else val AND NOT msk);
              h = mmio_write32 ops (reg_base + VTD_GCMD_REG) val h
          in poll (mmio_read32 ops (reg_base + VTD_GSTS_REG)) (\<lambda>s. s AND msk = val AND msk) h)"

text \<open>A sequence of register steps, each of which may not return.\<close>

definition hbind :: "'a option \<Rightarrow> ('a \<Rightarrow> 'b option) \<Rightarrow> 'b option" where
  "hbind m f = (case m of None \<Rightarrow> None | Some a \<Rightarrow> f a)"

lemma hbind_Some [simp]: "hbind (Some a) f = f a" "hbind None f = None"
  by (simp_all add: hbind_def)

subsection \<open>Setting up a unit\<close>

definition vtd_get_fault_rec_reg_addr :: "'h dmar_ops \<Rightarrow> u64 \<Rightarrow> 'h \<Rightarrow> u64 \<times> 'h" where
  "vtd_get_fault_rec_reg_addr ops reg_base h =
     (case mmio_read64_field ops (reg_base + VTD_CAP_REG) VTD_CAP_FRO_MASK h of
        (fro, h) \<Rightarrow> (reg_base + 16 * fro, h))"

fun clear_fault_records :: "'h dmar_ops \<Rightarrow> u64 \<Rightarrow> nat \<Rightarrow> nat \<Rightarrow> 'h \<Rightarrow> 'h" where
  "clear_fault_records ops fault_reg_base n 0 h = h"
| "clear_fault_records ops fault_reg_base n (Suc k) h =
     clear_fault_records ops fault_reg_base (n + 1) k
       (mmio_write64_field ops (fault_reg_base + 16 * of_nat n + VTD_FRCD_HI_REG)
         0x8000000000000000 1 h)"

text \<open>The physical addresses and settings a unit is programmed with.\<close>

record unit_setup =
  root_table_phys :: u64
  irt_phys :: u64
  using_x2apic :: bool
  irt_size_log2 :: u32
  unit_inv_queue_phys :: u64

definition vtd_init_unit ::
  "'h dmar_ops \<Rightarrow> unit_setup \<Rightarrow> u64 \<Rightarrow> u64 \<Rightarrow> vtd_entry list \<Rightarrow> 'h \<Rightarrow> (vtd_entry list \<times> 'h) option" where
  "vtd_init_unit ops cfg inv_queue_phys reg_base q h =
     hbind (vtd_update_gcmd_reg ops reg_base VTD_GCMD_QIE False h) (\<lambda>h.
     hbind (vtd_update_gcmd_reg ops reg_base VTD_GCMD_IRE False h) (\<lambda>h.
     (case mmio_read64_field ops (reg_base + VTD_CAP_REG) VTD_CAP_NFR_MASK h of (nfr, h) \<Rightarrow>
     (case vtd_get_fault_rec_reg_addr ops reg_base h of (fault_reg_base, h) \<Rightarrow>
     let h = clear_fault_records ops fault_reg_base 0 (unat (ucast nfr :: u32)) h;
         h = mmio_write32_field ops (reg_base + VTD_FSTS_REG) VTD_FSTS_PFO VTD_FSTS_PFO_CLEAR h;
         h = mmio_write64 ops (reg_base + VTD_RTADDR_REG) (root_table_phys cfg) h in
     hbind (vtd_update_gcmd_reg ops reg_base VTD_GCMD_SRTP True h) (\<lambda>h.
     let h = mmio_write64 ops (reg_base + VTD_IRTA_REG)
               (irt_phys cfg OR (if using_x2apic cfg then VTD_IRTA_EIME else 0) OR
                ucast (irt_size_log2 cfg - 1)) h in
     hbind (vtd_update_gcmd_reg ops reg_base VTD_GCMD_SIRTP True h) (\<lambda>h.
     let h = mmio_write64 ops (reg_base + VTD_IQT_REG) 0 h;
         h = mmio_write64 ops (reg_base + VTD_IQA_REG) inv_queue_phys h in
     hbind (vtd_update_gcmd_reg ops reg_base VTD_GCMD_QIE True h) (\<lambda>h.
     hbind (vtd_submit_iq_request ops reg_base (Some inv_global_context) q h) (\<lambda>(q, h).
     hbind (vtd_submit_iq_request ops reg_base (Some inv_global_iotlb) q h) (\<lambda>(q, h).
     hbind (vtd_submit_iq_request ops reg_base (Some inv_global_int) q h) (\<lambda>(q, h).
     hbind (vtd_update_gcmd_reg ops reg_base VTD_GCMD_TE True h) (\<lambda>h.
     hbind (vtd_update_gcmd_reg ops reg_base VTD_GCMD_IRE True h) (\<lambda>h.
     Some (q, h)))))))))))))"

subsection \<open>Fault events\<close>

text \<open>
  The MSI message is made of constants of the APIC headers, which are not part of this source:
  \<open>msi_address\<close> gives the low address word for an APIC id of 8 bits, \<open>msi_dm_nmi\<close> the data word.
\<close>

record 'h fault_msi =
  msi_address :: "u8 \<Rightarrow> u32"
  msi_dm_nmi :: u32
  send_nmi_ipi :: "u32 \<Rightarrow> 'h \<Rightarrow> 'h"

fun init_fault_units :: "'h dmar_ops \<Rightarrow> 'h fault_msi \<Rightarrow> u32 \<Rightarrow> nat \<Rightarrow> u64 \<Rightarrow> 'h \<Rightarrow> 'h" where
  "init_fault_units ops msi apic_id 0 reg_base h = h"
| "init_fault_units ops msi apic_id (Suc n) reg_base h =
     (let h = mmio_write32_field ops (reg_base + VTD_FECTL_REG) VTD_FECTL_IM 1 h;
          h = snd (mmio_read32 ops (reg_base + VTD_FECTL_REG) h);
          h = mmio_write32 ops (reg_base + VTD_FEDATA_REG) (msi_dm_nmi msi) h;
          h = mmio_write32 ops (reg_base + VTD_FEADDR_REG) (msi_address msi (ucast apic_id)) h;
          h = mmio_write32 ops (reg_base + VTD_FEUADDR_REG) 0 h;
          h = mmio_write32_field ops (reg_base + VTD_FECTL_REG) VTD_FECTL_IM 0 h
      in init_fault_units ops msi apic_id n (reg_base + DMAR_MMIO_SIZE) h)"

definition vtd_init_fault_nmi :: "'h dmar_ops \<Rightarrow> 'h fault_msi \<Rightarrow> u32 \<Rightarrow> nat \<Rightarrow> u64 \<Rightarrow> 'h \<Rightarrow> 'h" where
  "vtd_init_fault_nmi ops msi apic_id dmar_units dmar_reg_base h =
     send_nmi_ipi msi apic_id (init_fault_units ops msi apic_id dmar_units dmar_reg_base h)"

text \<open>What \<open>vtd_print_fault_record_reg_status\<close> reports of a fault record.\<close>

record fault_report =
  fr_unit :: nat
  fr_sid :: u32
  fr_reason :: u32
  fr_info :: u64
  fr_type :: u32

definition vtd_print_fault_record_reg_status ::
  "'h dmar_ops \<Rightarrow> nat \<Rightarrow> u64 \<Rightarrow> 'h \<Rightarrow> fault_report \<times> 'h" where
  "vtd_print_fault_record_reg_status ops unit_no reg_base h =
     (let (sid, h) = mmio_read64_field ops (reg_base + VTD_FRCD_HI_REG) VTD_FRCD_HI_SID_MASK h;
          (fr, h) = mmio_read64_field ops (reg_base + VTD_FRCD_HI_REG) VTD_FRCD_HI_FR_MASK h;
          (fi, h) = mmio_read64_field ops reg_base VTD_FRCD_LO_FI_MASK h;
          (typ, h) = mmio_read64_field ops (reg_base + VTD_FRCD_HI_REG) VTD_FRCD_HI_TYPE h
      in (\<lparr>fr_unit = unit_no, fr_sid = ucast sid, fr_reason = ucast fr, fr_info = fi, fr_type = ucast typ\<rparr>, h))"

fun check_fault_units :: "'h dmar_ops \<Rightarrow> nat \<Rightarrow> nat \<Rightarrow> u64 \<Rightarrow> 'h \<Rightarrow> fault_report list \<times> 'h" where
  "check_fault_units ops n 0 reg_base h = ([], h)"
| "check_fault_units ops n (Suc k) reg_base h =
     (let (ppf, h) = mmio_read32_field ops (reg_base + VTD_FSTS_REG) VTD_FSTS_PPF h in
      if ppf \<noteq> 0 then
        (let (fr_index, h) = mmio_read32_field ops (reg_base + VTD_FSTS_REG) (ucast VTD_FSTS_FRI_MASK) h;
             (fault_reg_addr, h) = vtd_get_fault_rec_reg_addr ops reg_base h;
             rec_reg_addr = fault_reg_addr + ucast (16 * fr_index);
             (report, h) = vtd_print_fault_record_reg_status ops n rec_reg_addr h;
             h = mmio_write64_field ops (rec_reg_addr + VTD_FRCD_HI_REG) VTD_FRCD_HI_F VTD_FRCD_HI_F_CLEAR h;
             (reports, h) = check_fault_units ops (n + 1) k (reg_base + DMAR_MMIO_SIZE) h
         in (report # reports, h))
      else check_fault_units ops (n + 1) k (reg_base + DMAR_MMIO_SIZE) h)"

definition iommu_check_pending_faults ::
  "'h dmar_ops \<Rightarrow> nat \<Rightarrow> nat \<Rightarrow> nat \<Rightarrow> u64 \<Rightarrow> 'h \<Rightarrow> fault_report list \<times> 'h" where
  "iommu_check_pending_faults ops this_cpu_id fault_reporting_cpu_id dmar_units dmar_reg_base h =
     (if this_cpu_id \<noteq> fault_reporting_cpu_id then ([], h)
      else check_fault_units ops 0 dmar_units dmar_reg_base h)"

subsection \<open>Committing a configuration\<close>

text \<open>\<open>iommu_config_commit (target)\<close>: \<open>None\<close> for a NULL argument, the id otherwise.\<close>

datatype commit = Commit_none | Commit_root | Commit_target u32

definition iommu_config_commit ::
  "'h dmar_ops \<Rightarrow> 'h fault_msi \<Rightarrow> unit_setup \<Rightarrow> u32 \<Rightarrow> u32 \<Rightarrow> commit \<Rightarrow> nat \<Rightarrow> u64 \<Rightarrow>
   vtd_entry list list \<Rightarrow> bool \<Rightarrow> 'h \<Rightarrow> (vtd_entry list list \<times> bool \<times> 'h) option" where
  "iommu_config_commit ops msi cfg apic_id root_id target dmar_units dmar_reg_base qs initialized h =
     (let h = (if target \<noteq> Commit_none
               then vtd_init_fault_nmi ops msi apic_id dmar_units dmar_reg_base h else h) in
      case target of
        Commit_root \<Rightarrow>
          map_option (\<lambda>(qs, h). (qs, True, h))
            (for_units (\<lambda>n. vtd_init_unit ops cfg (unit_inv_queue_phys cfg + of_nat n * PAGE_SIZE))
              0 dmar_units dmar_reg_base qs h)
      | Commit_target did \<Rightarrow>
          hbind (vtd_flush_domain_caches ops did dmar_units dmar_reg_base qs h) (\<lambda>(qs, h).
          map_option (\<lambda>(qs, h). (qs, initialized, h))
            (vtd_flush_domain_caches ops root_id dmar_units dmar_reg_base qs h))
      | Commit_none \<Rightarrow>
          map_option (\<lambda>(qs, h). (qs, initialized, h))
            (vtd_flush_domain_caches ops root_id dmar_units dmar_reg_base qs h))"

subsection \<open>What the hardware promises\<close>

text \<open>
  After a write of the tail register the unit eventually executes the wait descriptor at the end of the queue, and
  the tail register holds an index into the queue of 256 descriptors.
\<close>

definition iq_answers :: "'h dmar_ops \<Rightarrow> bool" where
  "iq_answers ops \<longleftrightarrow> (\<forall>reg_base t h. answers (iq_completed ops) (\<lambda>done. done)
     (mmio_write64_field ops (reg_base + VTD_IQT_REG) VTD_IQT_QT_MASK t h))"

definition iq_tail :: "'h dmar_ops \<Rightarrow> u64 \<Rightarrow> 'h \<Rightarrow> nat" where
  "iq_tail ops reg_base h =
     unat (ucast (fst (mmio_read64_field ops (reg_base + VTD_IQT_REG) VTD_IQT_QT_MASK (iq_clear ops h))) :: u32)"

definition iq_tail_in_queue :: "'h dmar_ops \<Rightarrow> bool" where
  "iq_tail_in_queue ops \<longleftrightarrow> (\<forall>reg_base h. iq_tail ops reg_base h < 256)"

definition queues_ok :: "nat \<Rightarrow> vtd_entry list list \<Rightarrow> bool" where
  "queues_ok n qs \<longleftrightarrow> n \<le> length qs \<and> (\<forall>q \<in> set qs. length q = 256)"

lemma inv_queue_write_Some:
  "i < length q \<Longrightarrow> inv_queue_write q i e = Some (q[i := e], (i + 1) mod 256)"
  by (simp add: inv_queue_write_def)

lemma submit_Some:
  assumes "iq_answers ops" "iq_tail_in_queue ops" "length q = 256"
  shows "\<exists>q' h'. vtd_submit_iq_request ops reg_base req q h = Some (q', h') \<and> length q' = 256"
proof -
  let ?t = "iq_tail ops reg_base h"
  obtain tail h1 where r: "mmio_read64_field ops (reg_base + VTD_IQT_REG) VTD_IQT_QT_MASK (iq_clear ops h)
      = (tail, h1)" by fastforce
  have t: "?t < 256" "unat (ucast tail :: u32) = ?t"
    using assms(2) r unfolding iq_tail_in_queue_def by (blast, simp add: iq_tail_def)
  have p: "\<exists>h'. poll (iq_completed ops) (\<lambda>done. done)
      (mmio_write64_field ops (reg_base + VTD_IQT_REG) VTD_IQT_QT_MASK i h) = Some h'" for i h
    using assms(1) unfolding iq_answers_def by (blast intro: poll_returns)
  have m: "(?t + 1) mod 256 < 256"
    by simp
  show ?thesis
    using t m assms(3) p unfolding vtd_submit_iq_request_def r
    by (cases req) (fastforce simp: inv_queue_write_Some split: option.splits)+
qed

text \<open>A loop over the units returns when its body does.\<close>

lemma for_units_Some:
  assumes body: "\<And>n base q h. length q = 256 \<Longrightarrow> \<exists>q' h'. body n base q h = Some (q', h') \<and> length q' = 256"
    and "queues_ok k qs"
  shows "\<exists>qs' h'. for_units body n k base qs h = Some (qs', h') \<and> queues_ok k qs' \<and> length qs' = length qs"
  using assms(2)
proof (induction k arbitrary: n base qs h)
  case 0
  then show ?case by simp
next
  case (Suc k)
  then obtain q qs1 where qs: "qs = q # qs1" "length q = 256" "queues_ok k qs1"
    by (cases qs) (auto simp: queues_ok_def)
  from body [OF qs(2)] obtain q' h1 where b: "body n base q h = Some (q', h1)" "length q' = 256"
    by blast
  from Suc.IH [OF qs(3)] obtain qs' h' where
    "for_units body (n + 1) k (base + DMAR_MMIO_SIZE) qs1 h1 = Some (qs', h')" "queues_ok k qs'"
    "length qs' = length qs1" by blast
  with qs b show ?case
    by (auto simp: queues_ok_def)
qed

lemma flush_domain_unit_Some:
  assumes "iq_answers ops" "iq_tail_in_queue ops" "length q = 256"
  shows "\<exists>q' h'. flush_domain_unit ops did base q h = Some (q', h') \<and> length q' = 256"
proof -
  from submit_Some [OF assms] obtain q1 h1 where
    s1: "vtd_submit_iq_request ops base (Some (inv_domain_context did)) q h = Some (q1, h1)"
      "length q1 = 256" by blast
  from submit_Some [OF assms(1,2) s1(2)] show ?thesis
    by (simp add: flush_domain_unit_def s1)
qed

subsection \<open>An ideal unit that records what is written\<close>

text \<open>
  Hardware whose status register follows the command register at once, with one fault record, that
  executes wait descriptors when the tail is written, and records every write.
\<close>

datatype hw_event = W32 u64 u32 | W64 u64 u64 | F32 u64 u32 u32 | F64 u64 u64 u64 | IQ_clear

record ideal_hw =
  hw_trace :: "hw_event list"
  hw_status :: u32
  hw_tail :: u64

definition ideal_ops :: "u64 \<Rightarrow> ideal_hw dmar_ops" where
  "ideal_ops base =
     \<lparr>mmio_read32 = (\<lambda>a h. (if a = base + VTD_GSTS_REG then hw_status h else 0, h)),
      mmio_read64 = (\<lambda>a h. (0, h)),
      mmio_write32 = (\<lambda>a v h. h\<lparr>hw_trace := hw_trace h @ [W32 a v],
         hw_status := (if a = base + VTD_GCMD_REG then v else hw_status h)\<rparr>),
      mmio_write64 = (\<lambda>a v h. h\<lparr>hw_trace := hw_trace h @ [W64 a v],
         hw_tail := (if a = base + VTD_IQT_REG then drop_bit 4 v else hw_tail h)\<rparr>),
      mmio_read32_field = (\<lambda>a m h. (0, h)),
      mmio_read64_field = (\<lambda>a m h. (if a = base + VTD_IQT_REG then hw_tail h AND 0xFF
         else if m = VTD_CAP_NFR_MASK then 1 else 2, h)),
      mmio_write32_field = (\<lambda>a m v h. h\<lparr>hw_trace := hw_trace h @ [F32 a m v]\<rparr>),
      mmio_write64_field = (\<lambda>a m v h. h\<lparr>hw_trace := hw_trace h @ [F64 a m v],
         hw_tail := (if a = base + VTD_IQT_REG then v else hw_tail h)\<rparr>),
      iq_clear = (\<lambda>h. h\<lparr>hw_trace := hw_trace h @ [IQ_clear]\<rparr>),
      iq_completed = (\<lambda>h. (True, h)),
      iq_completed_phys = 0x1000\<rparr>"

lemma ideal_iq_answers: "iq_answers (ideal_ops base)"
  by (simp add: iq_answers_def answers_def ideal_ops_def)

lemma ucast_u64_u32_and_ff: "unat (ucast (x AND 0xFF :: u64) :: u32) < 256"
proof -
  have "unat (ucast (x AND 0xFF) :: u32) \<le> unat (x AND 0xFF :: u64)"
    by (simp add: unsigned_ucast_eq take_bit_nat_less_eq_self)
  also have "unat (x AND 0xFF :: u64) < 256"
    by (rule unat_and_mask_less) simp
  finally show ?thesis .
qed

lemma ideal_iq_tail: "iq_tail_in_queue (ideal_ops base)"
  by (simp add: iq_tail_in_queue_def iq_tail_def ideal_ops_def ucast_u64_u32_and_ff)

lemma poll_now: "rd h = (v, h') \<Longrightarrow> ok v \<Longrightarrow> poll rd ok h = Some h'"
  by (subst poll.simps) simp

lemma ideal_update_gcmd:
  "vtd_update_gcmd_reg (ideal_ops base) base msk on h =
     (let val = (if on then (hw_status h AND VTD_GSTS_USED_CTRLS) OR msk
                 else (hw_status h AND VTD_GSTS_USED_CTRLS) AND NOT msk) in
      Some (h\<lparr>hw_trace := hw_trace h @ [W32 (base + VTD_GCMD_REG) val], hw_status := val\<rparr>))"
proof -
  let ?val = "if on then (hw_status h AND VTD_GSTS_USED_CTRLS) OR msk
                 else (hw_status h AND VTD_GSTS_USED_CTRLS) AND NOT msk"
  have rd: "mmio_read32 (ideal_ops base) (base + VTD_GSTS_REG) h = (hw_status h, h)" for h
    by (simp add: ideal_ops_def)
  have wr: "mmio_write32 (ideal_ops base) (base + VTD_GCMD_REG) v h =
      h\<lparr>hw_trace := hw_trace h @ [W32 (base + VTD_GCMD_REG) v], hw_status := v\<rparr>" for v
    by (simp add: ideal_ops_def)
  show ?thesis
    unfolding vtd_update_gcmd_reg_def Let_def rd prod.case wr
    by (rule poll_now [OF refl]) simp
qed

lemma ideal_submit:
  assumes "hw_tail h = of_nat t" "t < 254" "length q = 256"
  shows "vtd_submit_iq_request (ideal_ops base) base (Some req) q h =
     Some (q[t := req, t + 1 := inv_wait (ideal_ops base)],
       h\<lparr>hw_trace := hw_trace h @ [IQ_clear, F64 (base + VTD_IQT_REG) VTD_IQT_QT_MASK (of_nat (t + 2))],
         hw_tail := of_nat (t + 2)\<rparr>)"
proof -
  have "of_nat t AND 0xFF = (of_nat t :: u64)"
  proof -
    have "(0xFF :: u64) = mask 8"
      by (simp add: mask_eq_exp_minus_1)
    then have "of_nat t AND 0xFF = (of_nat (take_bit 8 t) :: u64)"
      by (simp only: take_bit_of_nat flip: take_bit_eq_mask)
    then show ?thesis
      using assms(2) by (simp add: take_bit_nat_eq_self)
  qed
  moreover have "unat (ucast (of_nat t :: u64) :: u32) = t"
    using assms(2) by (simp add: unsigned_ucast_eq unsigned_of_nat take_bit_nat_eq_self)
  ultimately show ?thesis
    using assms unfolding vtd_submit_iq_request_def
    by (simp add: ideal_ops_def inv_queue_write_Some poll_now)
qed

subsection \<open>Properties\<close>

text \<open>C28. Submitting an invalidation request: for a unit that executes wait descriptors and whose
  tail register holds an index into the queue, the call returns; the request (if there is one) is
  stored at the tail, the wait descriptor right behind it, with the index wrapping at the end of the
  page, and no other descriptor changes; the state returned is one the hardware reaches from the
  write of the new tail by completing the wait.\<close>

theorem vtd_submit_iq_request_spec:
  assumes "iq_answers ops" "iq_tail_in_queue ops" "length q = 256"
    and "mmio_read64_field ops (reg_base + VTD_IQT_REG) VTD_IQT_QT_MASK (iq_clear ops h) = (tail, h1)"
    and "t = unat (ucast tail :: u32)"
  shows "\<exists>h' k. vtd_submit_iq_request ops reg_base req q h =
      Some (case req of None \<Rightarrow> q[t := inv_wait ops]
            | Some r \<Rightarrow> q[t := r, (t + 1) mod 256 := inv_wait ops], h') \<and>
    iq_completed ops (after_reads (iq_completed ops) k
      (mmio_write64_field ops (reg_base + VTD_IQT_REG) VTD_IQT_QT_MASK
        (of_nat ((t + (if req = None then 1 else 2)) mod 256)) h1)) = (True, h')"
proof -
  have t: "t < 256"
    using assms(2,4,5) unfolding iq_tail_in_queue_def iq_tail_def by (metis fst_conv)
  let ?w = "\<lambda>i. mmio_write64_field ops (reg_base + VTD_IQT_REG) VTD_IQT_QT_MASK (of_nat i) h1"
  have p: "\<exists>h' k. poll (iq_completed ops) (\<lambda>done. done) (?w i) = Some h' \<and>
      iq_completed ops (after_reads (iq_completed ops) k (?w i)) = (True, h')" for i
  proof -
    from assms(1) [unfolded iq_answers_def, rule_format, THEN poll_returns] obtain h' where
      h': "poll (iq_completed ops) (\<lambda>done. done) (?w i) = Some h'" by blast
    with poll_result [OF h'] show ?thesis by auto
  qed
  have m: "((t + 1) mod 256 + 1) mod 256 = (t + 2) mod 256"
    by (simp add: mod_simps)
  show ?thesis
  proof (cases req)
    case None
    with p [of "(t + 1) mod 256"] t assms(3,5) show ?thesis
      by (auto simp: vtd_submit_iq_request_def assms(4) inv_queue_write_Some)
  next
    case (Some r)
    with p [of "(t + 2) mod 256"] t m assms(3,5) show ?thesis
      by (auto simp: vtd_submit_iq_request_def assms(4) inv_queue_write_Some)
  qed
qed

theorem vtd_submit_iq_request_spec_witness:
  "\<exists>h'. vtd_submit_iq_request (ideal_ops 0) 0 (Some inv_global_int)
       (replicate 256 inv_global_context) \<lparr>hw_trace = [], hw_status = 0, hw_tail = 255\<rparr> =
     Some ((replicate 256 inv_global_context)[255 := inv_global_int, 0 := inv_wait (ideal_ops 0)], h')"
proof -
  let ?h = "\<lparr>hw_trace = [], hw_status = 0, hw_tail = 255\<rparr>"
  have r: "mmio_read64_field (ideal_ops 0) (0 + VTD_IQT_REG) VTD_IQT_QT_MASK (iq_clear (ideal_ops 0) ?h)
      = (255, iq_clear (ideal_ops 0) ?h)"
    by (simp add: ideal_ops_def)
  have t: "255 = unat (ucast (255 :: u64) :: u32)"
    by simp
  show ?thesis
    using vtd_submit_iq_request_spec [OF ideal_iq_answers ideal_iq_tail _ r t,
        of "replicate 256 inv_global_context" "Some inv_global_int"]
    by auto
qed

text \<open>Every command to a unit keeps the other controls: \<open>vtd_update_gcmd_reg\<close> writes the
  controls in use with exactly the bits of the mask changed, and returns, for a unit whose status
  eventually shows the request, only once a read of the status has shown it.\<close>

theorem vtd_update_gcmd_reg_spec:
  assumes "mmio_read32 ops (reg_base + VTD_GSTS_REG) h = (status, h1)"
    and "val = (if on then (status AND VTD_GSTS_USED_CTRLS) OR msk
                else (status AND VTD_GSTS_USED_CTRLS) AND NOT msk)"
    and "answers (mmio_read32 ops (reg_base + VTD_GSTS_REG)) (\<lambda>s. s AND msk = (if on then msk else 0))
          (mmio_write32 ops (reg_base + VTD_GCMD_REG) val h1)"
  shows "\<exists>h' k s. vtd_update_gcmd_reg ops reg_base msk on h = Some h' \<and>
    mmio_read32 ops (reg_base + VTD_GSTS_REG)
      (after_reads (mmio_read32 ops (reg_base + VTD_GSTS_REG)) k
        (mmio_write32 ops (reg_base + VTD_GCMD_REG) val h1)) = (s, h') \<and>
    s AND msk = (if on then msk else 0)"
proof -
  have val: "val AND msk = (if on then msk else 0)"
    unfolding assms(2) by (auto intro!: bit_word_eqI simp: bit_simps)
  have upd: "vtd_update_gcmd_reg ops reg_base msk on h =
      poll (mmio_read32 ops (reg_base + VTD_GSTS_REG)) (\<lambda>s. s AND msk = (if on then msk else 0))
        (mmio_write32 ops (reg_base + VTD_GCMD_REG) val h1)"
    unfolding vtd_update_gcmd_reg_def assms(1) prod.case Let_def assms(2) [symmetric] val ..
  from poll_returns [OF assms(3)] obtain h' where
    h': "poll (mmio_read32 ops (reg_base + VTD_GSTS_REG)) (\<lambda>s. s AND msk = (if on then msk else 0))
        (mmio_write32 ops (reg_base + VTD_GCMD_REG) val h1) = Some h'" by blast
  with poll_result [OF h'] upd show ?thesis
    by auto
qed

theorem vtd_update_gcmd_reg_spec_witness:
  "vtd_update_gcmd_reg (ideal_ops 0) 0 VTD_GCMD_TE True \<lparr>hw_trace = [], hw_status = 0x06000000, hw_tail = 0\<rparr>
     = Some \<lparr>hw_trace = [W32 0x18 0x86000000], hw_status = 0x86000000, hw_tail = 0\<rparr>"
proof -
  let ?h = "\<lparr>hw_trace = [], hw_status = 0x06000000, hw_tail = 0\<rparr>"
  let ?w = "\<lparr>hw_trace = [W32 0x18 0x86000000], hw_status = 0x86000000, hw_tail = 0\<rparr>"
  have r: "mmio_read32 (ideal_ops 0) (0 + VTD_GSTS_REG) ?h = (0x06000000, ?h)"
    by (simp add: ideal_ops_def)
  have v: "0x86000000 = (if True then (0x06000000 AND VTD_GSTS_USED_CTRLS) OR VTD_GCMD_TE
      else (0x06000000 AND VTD_GSTS_USED_CTRLS) AND NOT VTD_GCMD_TE)"
    by (simp add: VTD_GSTS_USED_CTRLS_def)
  have w: "mmio_write32 (ideal_ops 0) (0 + VTD_GCMD_REG) 0x86000000 ?h = ?w"
    by (simp add: ideal_ops_def)
  have rd: "mmio_read32 (ideal_ops 0) (0 + VTD_GSTS_REG) h = (hw_status h, h)" for h
    by (simp add: ideal_ops_def)
  have reads: "after_reads (mmio_read32 (ideal_ops 0) (0 + VTD_GSTS_REG)) k h = h" for k h
    unfolding after_reads_def by (induction k) (simp_all add: ideal_ops_def)
  have a: "answers (mmio_read32 (ideal_ops 0) (0 + VTD_GSTS_REG))
      (\<lambda>s. s AND VTD_GCMD_TE = (if True then VTD_GCMD_TE else 0))
      (mmio_write32 (ideal_ops 0) (0 + VTD_GCMD_REG) 0x86000000 ?h)"
    unfolding answers_def w rd by (rule exI [of _ 0]) (simp add: after_reads_def)
  from vtd_update_gcmd_reg_spec [OF r v a] show ?thesis
    unfolding w reads rd by auto
qed

text \<open>The set-up of a unit in the state Linux may leave it in (all controls off, or interrupt
  remapping and queued invalidation on), as the sequence of its register writes: the old queue and
  remapping are switched off and old faults cleared; the root table, the remapping table and the queue
  are programmed, each followed by its command; the context cache, the IOTLB and the interrupt entry
  cache are invalidated through the queue; and only then are translation and remapping enabled.\<close>

theorem vtd_init_unit_sequence:
  fixes linux_ir :: bool and base queue_phys :: u64
  defines "gcmd \<equiv> base + VTD_GCMD_REG" and "iqt \<equiv> base + VTD_IQT_REG" and "ops \<equiv> ideal_ops base"
  shows "vtd_init_unit ops cfg queue_phys base (replicate 256 e)
      \<lparr>hw_trace = [], hw_status = (if linux_ir then 0x06000000 else 0), hw_tail = t\<rparr> =
    Some ((replicate 256 e)[0 := inv_global_context, 1 := inv_wait ops, 2 := inv_global_iotlb,
            3 := inv_wait ops, 4 := inv_global_int, 5 := inv_wait ops],
      \<lparr>hw_trace =
        [W32 gcmd (if linux_ir then 0x02000000 else 0), W32 gcmd 0,
         F64 (base + 40) 0x8000000000000000 1, F32 (base + VTD_FSTS_REG) 1 1,
         W64 (base + VTD_RTADDR_REG) (root_table_phys cfg), W32 gcmd VTD_GCMD_SRTP,
         W64 (base + VTD_IRTA_REG)
           (irt_phys cfg OR (if using_x2apic cfg then 0x800 else 0) OR ucast (irt_size_log2 cfg - 1)),
         W32 gcmd VTD_GCMD_SIRTP,
         W64 iqt 0, W64 (base + VTD_IQA_REG) queue_phys, W32 gcmd VTD_GCMD_QIE,
         IQ_clear, F64 iqt VTD_IQT_QT_MASK 2, IQ_clear, F64 iqt VTD_IQT_QT_MASK 4,
         IQ_clear, F64 iqt VTD_IQT_QT_MASK 6,
         W32 gcmd 0x84000000, W32 gcmd 0x86000000],
       hw_status = 0x86000000, hw_tail = 6\<rparr>)"
proof -
  have fields: "VTD_CAP_FRO_MASK \<noteq> VTD_CAP_NFR_MASK"
  proof -
    have "bit VTD_CAP_FRO_MASK 24" "\<not> bit VTD_CAP_NFR_MASK 24"
      by (simp_all add: VTD_CAP_FRO_MASK_def VTD_CAP_NFR_MASK_def masks)
    then show ?thesis by metis
  qed
  have acc: "mmio_read64_field ops (base + VTD_CAP_REG) VTD_CAP_NFR_MASK h = (1, h)"
    "mmio_read64_field ops (base + VTD_CAP_REG) VTD_CAP_FRO_MASK h = (2, h)"
    "mmio_write64_field ops (40 + base) m v h =
       h\<lparr>hw_trace := hw_trace h @ [F64 (base + 40) m v]\<rparr>"
    "mmio_write32_field ops a m32 v32 h = h\<lparr>hw_trace := hw_trace h @ [F32 a m32 v32]\<rparr>"
    "mmio_write64 ops a w h = h\<lparr>hw_trace := hw_trace h @ [W64 a w],
         hw_tail := (if a = base + VTD_IQT_REG then drop_bit 4 w else hw_tail h)\<rparr>"
    for h a m v m32 v32 w
    using fields by (simp_all add: ops_def ideal_ops_def)
  note submit = ideal_submit [where base = base, folded ops_def]
  show ?thesis
    unfolding vtd_init_unit_def ops_def [symmetric] ideal_update_gcmd [of base, folded ops_def]
      vtd_get_fault_rec_reg_addr_def gcmd_def iqt_def
    by (simp add: Let_def acc VTD_GSTS_USED_CTRLS_def submit [of _ 0] submit [of _ 2] submit [of _ 4])
qed

end
