(* ===== verification/Spy_Irte.thy ===== *)
theory Spy_Irte
  imports Spy_Dmar
begin

text \<open>
  The interrupt remapping table of \<open>vtd.c\<close>: the entries, the regions devices reserve in it, and
  the update of an entry. \<open>VTD_INTERRUPT_LIMIT ()\<close> is the field \<open>irt_limit\<close>; the table has at
  least that many entries (\<open>vtd_init\<close> rounds up to a power of two), and a region never
  reaches beyond it. The lengths come from fields of 16 bits or fewer, so index arithmetic
  does not wrap.
\<close>

subsection \<open>Entries\<close>

text \<open>\<open>union vtd_irte\<close> is two raw words; a bit field is \<open>len\<close> bits from bit \<open>lo\<close> of one.\<close>

record vtd_irte =
  raw0 :: u64
  raw1 :: u64

definition bf_get :: "nat \<Rightarrow> nat \<Rightarrow> u64 \<Rightarrow> u64" where
  "bf_get lo len w = take_bit len (drop_bit lo w)"

definition bf_set :: "nat \<Rightarrow> nat \<Rightarrow> u64 \<Rightarrow> u64 \<Rightarrow> u64" where
  "bf_set lo len v w = (w AND NOT (push_bit lo (mask len))) OR push_bit lo (take_bit len v)"

definition irte_p :: "vtd_irte \<Rightarrow> bool" where "irte_p e = bit (raw0 e) 0"
definition irte_dest_logical :: "vtd_irte \<Rightarrow> u64" where "irte_dest_logical e = bf_get 2 1 (raw0 e)"
definition irte_redir_hint :: "vtd_irte \<Rightarrow> u64" where "irte_redir_hint e = bf_get 3 1 (raw0 e)"
definition irte_level_triggered :: "vtd_irte \<Rightarrow> u64" where "irte_level_triggered e = bf_get 4 1 (raw0 e)"
definition irte_delivery_mode :: "vtd_irte \<Rightarrow> u64" where "irte_delivery_mode e = bf_get 5 3 (raw0 e)"
definition irte_assigned :: "vtd_irte \<Rightarrow> bool" where "irte_assigned e = bit (raw0 e) 8"
definition irte_vector :: "vtd_irte \<Rightarrow> u64" where "irte_vector e = bf_get 16 8 (raw0 e)"
definition irte_destination :: "vtd_irte \<Rightarrow> u64" where "irte_destination e = bf_get 32 32 (raw0 e)"
definition irte_sid :: "vtd_irte \<Rightarrow> u16" where "irte_sid e = ucast (raw1 e)"
definition irte_sq :: "vtd_irte \<Rightarrow> u64" where "irte_sq e = bf_get 16 2 (raw1 e)"
definition irte_svt :: "vtd_irte \<Rightarrow> u64" where "irte_svt e = bf_get 18 2 (raw1 e)"

definition irte_set0 :: "nat \<Rightarrow> nat \<Rightarrow> u64 \<Rightarrow> vtd_irte \<Rightarrow> vtd_irte" where
  "irte_set0 lo len v e = e\<lparr>raw0 := bf_set lo len v (raw0 e)\<rparr>"

definition irte_set1 :: "nat \<Rightarrow> nat \<Rightarrow> u64 \<Rightarrow> vtd_irte \<Rightarrow> vtd_irte" where
  "irte_set1 lo len v e = e\<lparr>raw1 := bf_set lo len v (raw1 e)\<rparr>"

lemma bit_bf_get: "lo + len \<le> 64 \<Longrightarrow> bit (bf_get lo len w) n \<longleftrightarrow> n < len \<and> bit w (lo + n)"
  by (auto simp: bf_get_def bit_simps ac_simps)

lemma bit_bf_set:
  "lo + len \<le> 64 \<Longrightarrow> bit (bf_set lo len v w) n \<longleftrightarrow>
   (if lo \<le> n \<and> n < lo + len then bit v (n - lo) else bit w n)"
  by (auto simp: bf_set_def bit_simps dest: bit_imp_le_length)

lemma bf_get_set_same: "lo + len \<le> 64 \<Longrightarrow> bf_get lo len (bf_set lo len v w) = take_bit len v"
  by (rule bit_word_eqI) (auto simp: bit_bf_get bit_bf_set bit_simps)

lemma bf_get_set_other:
  "lo + len \<le> 64 \<Longrightarrow> lo' + len' \<le> 64 \<Longrightarrow> lo + len \<le> lo' \<or> lo' + len' \<le> lo \<Longrightarrow>
   bf_get lo' len' (bf_set lo len v w) = bf_get lo' len' w"
  by (rule bit_word_eqI) (auto simp: bit_bf_get bit_bf_set)

lemmas irte_get_defs = irte_p_def irte_dest_logical_def irte_redir_hint_def irte_level_triggered_def
  irte_delivery_mode_def irte_assigned_def irte_vector_def irte_destination_def irte_sid_def
  irte_sq_def irte_svt_def

lemmas irte_set_defs = irte_set0_def irte_set1_def

subsection \<open>Regions\<close>

text \<open>Entry \<open>n\<close> of the table belongs to \<open>device_id\<close>.\<close>

definition irte_owned :: "vtd_irte \<Rightarrow> u16 \<Rightarrow> bool" where
  "irte_owned e device_id \<longleftrightarrow> irte_assigned e \<and> irte_sid e = device_id"

fun find_region :: "vtd_irte list \<Rightarrow> u16 \<Rightarrow> nat \<Rightarrow> nat \<Rightarrow> nat res" where
  "find_region t device_id n 0 = Inl ENOENT"
| "find_region t device_id n (Suc k) =
     (if irte_assigned (t ! n) \<and> irte_sid (t ! n) = device_id then Inr n
      else find_region t device_id (n + 1) k)"

definition vtd_find_int_remap_region :: "vtd_irte list \<Rightarrow> nat \<Rightarrow> u16 \<Rightarrow> nat res" where
  "vtd_find_int_remap_region t limit device_id = find_region t device_id 0 limit"

text \<open>The scan of \<open>vtd_reserve_int_remap_region\<close>; \<open>start\<close> is \<open>None\<close> while it is negative.\<close>

fun reserve_scan :: "vtd_irte list \<Rightarrow> nat \<Rightarrow> nat option \<Rightarrow> nat \<Rightarrow> nat \<Rightarrow> nat option" where
  "reserve_scan t len start n 0 = None"
| "reserve_scan t len start n (Suc k) =
     (if irte_assigned (t ! n) then reserve_scan t len None (n + 1) k
      else (let s = (case start of None \<Rightarrow> n | Some s \<Rightarrow> s) in
            if n + 1 = s + len then Some s else reserve_scan t len (Some s) (n + 1) k))"

definition irte_assign :: "u16 \<Rightarrow> vtd_irte \<Rightarrow> vtd_irte" where
  "irte_assign device_id e = irte_set1 0 16 (ucast device_id) (irte_set0 8 1 1 e)"

fun assign_region :: "vtd_irte list \<Rightarrow> u16 \<Rightarrow> nat \<Rightarrow> nat \<Rightarrow> vtd_irte list" where
  "assign_region t device_id n 0 = t"
| "assign_region t device_id n (Suc k) =
     assign_region (t[n := irte_assign device_id (t ! n)]) device_id (n + 1) k"

definition vtd_reserve_int_remap_region ::
  "vtd_irte list \<Rightarrow> nat \<Rightarrow> u16 \<Rightarrow> nat \<Rightarrow> nat res \<times> vtd_irte list" where
  "vtd_reserve_int_remap_region t limit device_id len =
     (if len = 0 \<or> \<not> isl (vtd_find_int_remap_region t limit device_id) then (Inr 0, t)
      else case reserve_scan t len None 0 limit of
             Some start \<Rightarrow> (Inr start, assign_region t device_id start len)
           | None \<Rightarrow> (Inl E2BIG, t))"

subsection \<open>Facts on the entries and the scans\<close>

lemma irte_assign_owned [simp]: "irte_owned (irte_assign d e) d' \<longleftrightarrow> d' = d"
proof -
  have "irte_assigned (irte_assign d e)"
    by (simp add: irte_assign_def irte_assigned_def irte_set_defs bit_bf_set bit_1_iff)
  moreover have "irte_sid (irte_assign d e) = d"
    by (rule bit_word_eqI)
      (auto simp: irte_assign_def irte_sid_def irte_set_defs bit_simps bit_bf_set)
  ultimately show ?thesis
    by (auto simp: irte_owned_def)
qed

lemma irte_assign_fields [simp]:
  "irte_assigned (irte_assign d e)" "irte_sid (irte_assign d e) = d"
  using irte_assign_owned [of d e d] by (simp_all add: irte_owned_def)

lemma irte_assign_keeps_p [simp]: "irte_p (irte_assign d e) = irte_p e"
  by (simp add: irte_assign_def irte_p_def irte_set_defs bit_bf_set)

lemma find_region_Inr:
  "find_region t d n k = Inr m \<longleftrightarrow>
   n \<le> m \<and> m < n + k \<and> irte_owned (t ! m) d \<and> (\<forall>i. n \<le> i \<and> i < m \<longrightarrow> \<not> irte_owned (t ! i) d)"
proof (induction t d n k rule: find_region.induct)
  case (1 t d n)
  then show ?case by simp
next
  case (2 t d n k)
  show ?case
  proof (cases "irte_owned (t ! n) d")
    case True
    then show ?thesis
      by (auto simp: irte_owned_def dest: le_neq_implies_less)
  next
    case False
    then have "find_region t d n (Suc k) = find_region t d (n + 1) k"
      by (auto simp: irte_owned_def)
    moreover have le: "n \<le> i \<longleftrightarrow> i = n \<or> n + 1 \<le> i" for i
      by auto
    moreover have "(\<forall>i. n \<le> i \<and> i < m \<longrightarrow> \<not> irte_owned (t ! i) d) \<longleftrightarrow>
        (\<forall>i. n + 1 \<le> i \<and> i < m \<longrightarrow> \<not> irte_owned (t ! i) d)"
      using False unfolding le by blast
    moreover have "n \<le> m \<and> irte_owned (t ! m) d \<longleftrightarrow> n + 1 \<le> m \<and> irte_owned (t ! m) d"
      using False unfolding le by blast
    ultimately show ?thesis
      using 2 False by (auto simp: irte_owned_def)
  qed
qed

lemma find_region_Inl:
  "find_region t d n k = Inl e \<longleftrightarrow> e = ENOENT \<and> (\<forall>i. n \<le> i \<and> i < n + k \<longrightarrow> \<not> irte_owned (t ! i) d)"
proof (induction t d n k rule: find_region.induct)
  case (1 t d n)
  then show ?case by auto
next
  case (2 t d n k)
  show ?case
  proof (cases "irte_owned (t ! n) d")
    case True
    then show ?thesis
      by (auto simp: irte_owned_def)
  next
    case False
    have split: "(\<forall>i. n \<le> i \<and> i < n + Suc k \<longrightarrow> P i) \<longleftrightarrow> P n \<and> (\<forall>i. n + 1 \<le> i \<and> i < (n + 1) + k \<longrightarrow> P i)"
      for P :: "nat \<Rightarrow> bool"
      by (auto simp: Suc_le_eq) (metis le_neq_implies_less)
    show ?thesis
      using 2 False unfolding split by (auto simp: irte_owned_def)
  qed
qed

text \<open>A run of \<open>len\<close> free entries starts at \<open>s\<close>.\<close>

definition free_run :: "vtd_irte list \<Rightarrow> nat \<Rightarrow> nat \<Rightarrow> bool" where
  "free_run t s len \<longleftrightarrow> (\<forall>i. s \<le> i \<and> i < s + len \<longrightarrow> \<not> irte_assigned (t ! i))"

lemma assign_region_length [simp]: "length (assign_region t d n k) = length t"
  by (induction t d n k rule: assign_region.induct) auto

lemma assign_region_nth:
  "n + k \<le> length t \<Longrightarrow> assign_region t d n k ! i =
   (if n \<le> i \<and> i < n + k then irte_assign d (t ! i) else t ! i)"
proof (induction t d n k rule: assign_region.induct)
  case (1 t d n)
  then show ?case by auto
next
  case (2 t d n k)
  let ?t = "t[n := irte_assign d (t ! n)]"
  have "assign_region t d n (Suc k) ! i =
      (if n + 1 \<le> i \<and> i < n + 1 + k then irte_assign d (?t ! i) else ?t ! i)"
    using 2 by simp
  then show ?case
    using 2(2) by (cases "i = n") simp_all
qed

text \<open>Invariant of the scan: \<open>start\<close>, if set, begins the run of free entries that ends at \<open>n\<close>,
  it is shorter than \<open>len\<close>, and no run of \<open>len\<close> free entries begins before it.\<close>

definition scan_inv :: "vtd_irte list \<Rightarrow> nat \<Rightarrow> nat option \<Rightarrow> nat \<Rightarrow> bool" where
  "scan_inv t len start n \<longleftrightarrow>
     (case start of
        None \<Rightarrow> (\<forall>s. s < n \<longrightarrow> \<not> free_run t s len)
      | Some s \<Rightarrow> s < n \<and> n < s + len \<and> free_run t s (n - s) \<and> (\<forall>s'. s' < s \<longrightarrow> \<not> free_run t s' len))"

lemma free_run_assigned: "irte_assigned (t ! n) \<Longrightarrow> s \<le> n \<Longrightarrow> n < s + len \<Longrightarrow> \<not> free_run t s len"
  by (auto simp: free_run_def)

lemma scan_inv_assigned:
  assumes "scan_inv t len start n" "irte_assigned (t ! n)" "0 < len"
  shows "scan_inv t len None (n + 1)"
proof (cases start)
  case None
  then show ?thesis
    using assms free_run_assigned [OF assms(2), of n len] by (auto simp: scan_inv_def less_Suc_eq)
next
  case (Some s)
  have "\<not> free_run t s' len" if "s' < n + 1" for s'
  proof (cases "s' < s")
    case True
    then show ?thesis using assms(1) Some by (simp add: scan_inv_def)
  next
    case False
    then show ?thesis
      using free_run_assigned [OF assms(2), of s' len] assms(1,3) Some that by (auto simp: scan_inv_def)
  qed
  then show ?thesis by (simp add: scan_inv_def)
qed

lemma scan_inv_free:
  assumes "scan_inv t len start n" "\<not> irte_assigned (t ! n)" "0 < len"
    and "s = (case start of None \<Rightarrow> n | Some s \<Rightarrow> s)"
  shows "s \<le> n" "n < s + len" "free_run t s (n + 1 - s)" "\<forall>s'. s' < s \<longrightarrow> \<not> free_run t s' len"
proof -
  have fr: "free_run t s (n - s)" "s \<le> n" "n < s + len"
    using assms by (auto simp: scan_inv_def free_run_def split: option.splits)
  then show "s \<le> n" "n < s + len" by simp_all
  show "free_run t s (n + 1 - s)"
    using fr assms(2) by (auto simp: free_run_def less_Suc_eq)
  show "\<forall>s'. s' < s \<longrightarrow> \<not> free_run t s' len"
    using assms by (auto simp: scan_inv_def split: option.splits)
qed

lemma reserve_scan_spec:
  assumes "scan_inv t len start n" "0 < len"
  shows "case reserve_scan t len start n k of
      Some s \<Rightarrow> s + len \<le> n + k \<and> free_run t s len \<and> (\<forall>s'. s' < s \<longrightarrow> \<not> free_run t s' len)
    | None \<Rightarrow> (\<forall>s. s + len \<le> n + k \<longrightarrow> \<not> free_run t s len)"
  using assms
proof (induction t len start n k rule: reserve_scan.induct)
  case (1 t len start n)
  then show ?case
    by (auto simp: scan_inv_def split: option.splits)
next
  case (2 t len start n k)
  show ?case
  proof (cases "irte_assigned (t ! n)")
    case True
    with 2(1) [OF True scan_inv_assigned [OF 2(3) True 2(4)] 2(4)] show ?thesis
      by (simp split: option.splits)
  next
    case False
    define s where "s = (case start of None \<Rightarrow> n | Some s \<Rightarrow> s)"
    note sf = scan_inv_free [OF 2(3) False 2(4) s_def]
    show ?thesis
    proof (cases "n + 1 = s + len")
      case True
      then have "n + 1 - s = len"
        using sf by simp
      then have "free_run t s len"
        using sf(3) by simp
      moreover have "reserve_scan t len start n (Suc k) = Some s"
        using False True by (simp add: s_def [symmetric] Let_def)
      ultimately show ?thesis
        using sf True by simp
    next
      case ne: False
      then have "scan_inv t len (Some s) (n + 1)"
        using sf by (auto simp: scan_inv_def)
      from 2(2) [OF False s_def ne this 2(4)] show ?thesis
        using False ne by (simp add: s_def [symmetric] Let_def split: option.splits)
    qed
  qed
qed

lemma scan_inv_start: "scan_inv t len None 0"
  by (simp add: scan_inv_def)

lemma reserve_scan_result:
  "0 < len \<Longrightarrow> case reserve_scan t len None 0 limit of
      Some s \<Rightarrow> s + len \<le> limit \<and> free_run t s len \<and> (\<forall>s'. s' < s \<longrightarrow> \<not> free_run t s' len)
    | None \<Rightarrow> (\<forall>s. s + len \<le> limit \<longrightarrow> \<not> free_run t s len)"
  using reserve_scan_spec [OF scan_inv_start [of t len], of limit] by (simp split: option.splits)

subsection \<open>The allocator interface\<close>

text \<open>What a client of the table relies on: \<open>find\<close> gives the first slot a device owns, and
  \<open>reserve\<close>, for a device that owns none, gives it a run of slots and changes no other ownership.\<close>

locale slot_allocator =
  fixes wf :: "'t \<Rightarrow> bool" and owned :: "'t \<Rightarrow> nat \<Rightarrow> 'd \<Rightarrow> bool"
    and find :: "'t \<Rightarrow> 'd \<Rightarrow> nat option" and reserve :: "'t \<Rightarrow> 'd \<Rightarrow> nat \<Rightarrow> (nat \<times> 't) option"
  assumes owner_unique: "owned t i d \<Longrightarrow> owned t i d' \<Longrightarrow> d = d'"
    and find_Some: "find t d = Some b \<longleftrightarrow> owned t b d \<and> (\<forall>i. i < b \<longrightarrow> \<not> owned t i d)"
    and reserve_wf: "wf t \<Longrightarrow> find t d = None \<Longrightarrow> 0 < len \<Longrightarrow> reserve t d len = Some (b, t') \<Longrightarrow> wf t'"
    and reserve_owned: "wf t \<Longrightarrow> find t d = None \<Longrightarrow> 0 < len \<Longrightarrow> reserve t d len = Some (b, t') \<Longrightarrow>
      owned t' i e \<longleftrightarrow> owned t i e \<or> (e = d \<and> b \<le> i \<and> i < b + len)"
begin

lemma find_None: "find t d = None \<Longrightarrow> \<not> owned t i d"
proof
  assume none: "find t d = None" and "owned t i d"
  then have "owned t (LEAST i. owned t i d) d" "\<forall>j. j < (LEAST i. owned t i d) \<longrightarrow> \<not> owned t j d"
    by (auto intro: LeastI dest: not_less_Least)
  then show False
    using find_Some none by (metis option.distinct(1))
qed

text \<open>A device that has reserved finds its region, and all slots of it are its own.\<close>

lemma find_after_reserve:
  assumes "wf t" "find t d = None" "0 < len" "reserve t d len = Some (b, t')"
  shows "find t' d = Some b \<and> (\<forall>i. b \<le> i \<and> i < b + len \<longrightarrow> owned t' i d)"
  using reserve_owned [OF assms] find_None [OF assms(2)] assms(3)
  by (auto simp: find_Some)

text \<open>The regions of all other devices stay where they are.\<close>

lemma find_other_after_reserve:
  assumes "wf t" "find t d = None" "0 < len" "reserve t d len = Some (b, t')" "e \<noteq> d"
  shows "find t' e = find t e"
proof (cases "find t e")
  case None
  then have "find t' e \<noteq> Some c" for c
    using reserve_owned [OF assms(1-4)] find_None [OF None] assms(5) by (auto simp: find_Some)
  with None show ?thesis by (cases "find t' e") auto
next
  case (Some c)
  then have "find t' e = Some c"
    using reserve_owned [OF assms(1-4)] assms(5) by (auto simp: find_Some)
  with Some show ?thesis by simp
qed

text \<open>Every device's slots form one run.\<close>

definition contiguous :: "'t \<Rightarrow> bool" where
  "contiguous t \<longleftrightarrow> (\<forall>d i j k. owned t i d \<longrightarrow> owned t k d \<longrightarrow> i \<le> j \<longrightarrow> j \<le> k \<longrightarrow> owned t j d)"

lemma contiguous_reserve:
  assumes "wf t" "find t d = None" "0 < len" "reserve t d len = Some (b, t')" "contiguous t"
  shows "contiguous t'"
  unfolding contiguous_def
proof (intro allI impI)
  fix e i j k
  assume o: "owned t' i e" "owned t' k e" "i \<le> j" "j \<le> k"
  show "owned t' j e"
  proof (cases "e = d")
    case True
    then show ?thesis
      using o find_None [OF assms(2)] by (auto simp: reserve_owned [OF assms(1-4)])
  next
    case False
    then show ?thesis
      using o assms(5) unfolding contiguous_def reserve_owned [OF assms(1-4)] by blast
  qed
qed

end

definition irt_wf :: "vtd_irte list \<times> nat \<Rightarrow> bool" where
  "irt_wf tb \<longleftrightarrow> snd tb \<le> length (fst tb)"

definition irt_owned :: "vtd_irte list \<times> nat \<Rightarrow> nat \<Rightarrow> u16 \<Rightarrow> bool" where
  "irt_owned tb i d \<longleftrightarrow> i < snd tb \<and> irte_owned (fst tb ! i) d"

definition irt_find :: "vtd_irte list \<times> nat \<Rightarrow> u16 \<Rightarrow> nat option" where
  "irt_find tb d = (case vtd_find_int_remap_region (fst tb) (snd tb) d of Inl _ \<Rightarrow> None | Inr n \<Rightarrow> Some n)"

definition irt_reserve :: "vtd_irte list \<times> nat \<Rightarrow> u16 \<Rightarrow> nat \<Rightarrow> (nat \<times> (vtd_irte list \<times> nat)) option" where
  "irt_reserve tb d len =
     (case vtd_reserve_int_remap_region (fst tb) (snd tb) d len of
        (Inl _, _) \<Rightarrow> None | (Inr b, t') \<Rightarrow> Some (b, (t', snd tb)))"

lemma irt_find_None:
  "irt_find tb d = None \<Longrightarrow> vtd_find_int_remap_region (fst tb) (snd tb) d = Inl ENOENT"
  by (auto simp: irt_find_def vtd_find_int_remap_region_def find_region_Inl split: sum.splits)

text \<open>A reservation for a device without a region, in terms of the scan.\<close>

lemma reserve_new:
  assumes "vtd_find_int_remap_region t limit d = Inl ENOENT" "0 < len"
  shows "vtd_reserve_int_remap_region t limit d len =
    (case reserve_scan t len None 0 limit of
       Some start \<Rightarrow> (Inr start, assign_region t d start len) | None \<Rightarrow> (Inl E2BIG, t))"
  using assms by (simp add: vtd_reserve_int_remap_region_def)

interpretation irte_alloc: slot_allocator irt_wf irt_owned irt_find irt_reserve
proof unfold_locales
  fix t i d d'
  show "irt_owned t i d \<Longrightarrow> irt_owned t i d' \<Longrightarrow> d = d'"
    by (simp add: irt_owned_def irte_owned_def)
next
  fix t d b
  show "irt_find t d = Some b \<longleftrightarrow> irt_owned t b d \<and> (\<forall>i. i < b \<longrightarrow> \<not> irt_owned t i d)"
    by (auto simp: irt_find_def irt_owned_def vtd_find_int_remap_region_def find_region_Inr
        find_region_Inl split: sum.splits) (metis linorder_neqE_nat)
next
  fix t d len b t'
  assume a: "irt_wf t" "irt_find t d = None" "0 < len" "irt_reserve t d len = Some (b, t')"
  then have r: "reserve_scan (fst t) len None 0 (snd t) = Some b"
    "t' = (assign_region (fst t) d b len, snd t)"
    using irt_find_None [OF a(2)] by (auto simp: irt_reserve_def reserve_new split: option.splits)
  show "irt_wf t'"
    using a(1) r(2) by (simp add: irt_wf_def)
  fix i e
  have run: "b + len \<le> snd t" "free_run (fst t) b len"
    using reserve_scan_result [OF a(3), where t = "fst t" and limit = "snd t"] r(1) by auto
  then have "b + len \<le> length (fst t)"
    using a(1) by (simp add: irt_wf_def)
  then show "irt_owned t' i e \<longleftrightarrow> irt_owned t i e \<or> (e = d \<and> b \<le> i \<and> i < b + len)"
    using run r(2) by (auto simp: irt_owned_def assign_region_nth free_run_def irte_owned_def)
qed

subsection \<open>Updating entries\<close>

record 'h vtd_sys =
  irt :: "vtd_irte list"
  irt_limit :: nat
  dmar_units :: nat
  dmar_reg_base :: u64
  unit_inv_queue :: "vtd_entry list list"
  dmar_hw :: 'h

text \<open>The entry as the hardware may see it between the stores of \<open>vtd_update_irte\<close>: a present
  entry gets its upper half first; an entry that is not present only its lower half.\<close>

definition irte_stores :: "vtd_irte \<Rightarrow> vtd_irte \<Rightarrow> vtd_irte list" where
  "irte_stores irte content =
     (if irte_p content
      then [irte\<lparr>raw1 := raw1 content\<rparr>, irte\<lparr>raw1 := raw1 content, raw0 := raw0 content\<rparr>]
      else [irte\<lparr>raw0 := raw0 content\<rparr>])"

abbreviation (input) VTD_INV_INT_INDEX :: u64 where "VTD_INV_INT_INDEX \<equiv> push_bit 4 1"
abbreviation (input) VTD_INV_INT_IIDX_SHIFT :: nat where "VTD_INV_INT_IIDX_SHIFT \<equiv> 32"

definition inv_int_index :: "nat \<Rightarrow> vtd_entry" where
  "inv_int_index index = \<lparr>lo_word = VTD_REQ_INV_INT OR VTD_INV_INT_INDEX OR push_bit VTD_INV_INT_IIDX_SHIFT (of_nat index), hi_word = 0\<rparr>"

definition vtd_update_irte :: "'h dmar_ops \<Rightarrow> nat \<Rightarrow> vtd_irte \<Rightarrow> 'h vtd_sys \<Rightarrow> 'h vtd_sys option" where
  "vtd_update_irte ops index content s =
     (case array_get (irt s) index of
        None \<Rightarrow> None
      | Some irte \<Rightarrow>
          map_option
            (\<lambda>(qs, h). s\<lparr>irt := (irt s)[index := last (irte_stores irte content)],
                         unit_inv_queue := qs, dmar_hw := h\<rparr>)
            (for_units (\<lambda>n base. vtd_submit_iq_request ops base (Some (inv_int_index index)))
              0 (dmar_units s) (dmar_reg_base s) (unit_inv_queue s) (dmar_hw s)))"

definition free_irte :: vtd_irte where
  "free_irte = \<lparr>raw0 = 0, raw1 = 0\<rparr>"

fun free_region :: "'h dmar_ops \<Rightarrow> nat \<Rightarrow> nat \<Rightarrow> 'h vtd_sys \<Rightarrow> 'h vtd_sys option" where
  "free_region ops pos 0 s = Some s"
| "free_region ops pos (Suc len) s =
     (case vtd_update_irte ops pos free_irte s of
        None \<Rightarrow> None | Some s' \<Rightarrow> free_region ops (pos + 1) len s')"

definition vtd_free_int_remap_region :: "'h dmar_ops \<Rightarrow> u16 \<Rightarrow> nat \<Rightarrow> 'h vtd_sys \<Rightarrow> 'h vtd_sys option" where
  "vtd_free_int_remap_region ops device_id len s =
     (case vtd_find_int_remap_region (irt s) (irt_limit s) device_id of
        Inl _ \<Rightarrow> Some s | Inr pos \<Rightarrow> free_region ops pos len s)"

subsection \<open>Mapping an interrupt\<close>

text \<open>
  The message and its filter come from the APIC code, which is not part of this source:
  \<open>apic_filter_irq_dest\<close> refuses a message (\<open>None\<close>) or returns it with its destination restricted.
\<close>

record apic_irq_message =
  valid :: bool
  msg_vector :: u64
  msg_delivery_mode :: u64
  msg_dest_logical :: u64
  msg_level_triggered :: u64
  msg_redir_hint :: u64
  msg_destination :: u64

record apic_if =
  apic_filter_irq_dest :: "apic_irq_message \<Rightarrow> apic_irq_message option"
  dlvr_fixed :: u64
  dlvr_lowpri :: u64
  apic_x2apic :: bool

abbreviation (input) VTD_IRTE_SQ_VERIFY_FULL_SID :: u64 where "VTD_IRTE_SQ_VERIFY_FULL_SID \<equiv> 0x0"
abbreviation (input) VTD_IRTE_SVT_VERIFY_SID_SQ :: u64 where "VTD_IRTE_SVT_VERIFY_SID_SQ \<equiv> 0x1"

definition irte_of_msg :: "apic_if \<Rightarrow> apic_irq_message \<Rightarrow> vtd_irte \<Rightarrow> vtd_irte" where
  "irte_of_msg ap msg irte =
     (let irte = irte_set0 2 1 (msg_dest_logical msg) irte;
          irte = irte_set0 3 1 (msg_redir_hint msg) irte;
          irte = irte_set0 4 1 (msg_level_triggered msg) irte;
          irte = irte_set0 5 3 (msg_delivery_mode msg) irte;
          irte = irte_set0 16 8 (msg_vector msg) irte;
          irte = irte_set0 32 32 (msg_destination msg) irte;
          irte = (if \<not> apic_x2apic ap then irte_set0 32 32 (push_bit 8 (irte_destination irte)) irte else irte);
          irte = irte_set1 16 2 VTD_IRTE_SQ_VERIFY_FULL_SID irte
      in irte_set1 18 2 VTD_IRTE_SVT_VERIFY_SID_SQ irte)"

definition iommu_map_interrupt ::
  "'h dmar_ops \<Rightarrow> apic_if \<Rightarrow> u16 \<Rightarrow> nat \<Rightarrow> apic_irq_message \<Rightarrow> 'h vtd_sys \<Rightarrow> (nat res \<times> 'h vtd_sys) option" where
  "iommu_map_interrupt ops ap device_id vector irq_msg s =
     (case vtd_find_int_remap_region (irt s) (irt_limit s) device_id of
        Inl e \<Rightarrow> Some (Inl e, s)
      | Inr base_index \<Rightarrow>
          if vector \<ge> irt_limit s \<or> base_index \<ge> irt_limit s - vector then Some (Inl ERANGE, s)
          else
            (case array_get (irt s) (base_index + vector) of
               None \<Rightarrow> None
             | Some irte \<Rightarrow>
                 if \<not> irte_assigned irte \<or> irte_sid irte \<noteq> device_id then Some (Inl ERANGE, s)
                 else
                   (let irte = irte_set0 0 1 (if valid irq_msg then 1 else 0) irte;
                        update = (\<lambda>irte. map_option (Pair (Inr (base_index + vector)))
                                  (vtd_update_irte ops (base_index + vector) irte s))
                    in if \<not> irte_p irte then update irte
                       else if msg_delivery_mode irq_msg \<noteq> dlvr_fixed ap \<and>
                               msg_delivery_mode irq_msg \<noteq> dlvr_lowpri ap then Some (Inl EINVAL, s)
                       else (case apic_filter_irq_dest ap irq_msg of
                               None \<Rightarrow> Some (Inl EPERM, s)
                             | Some irq_msg \<Rightarrow> update (irte_of_msg ap irq_msg irte)))))"

subsection \<open>The system with working hardware\<close>

definition vtd_sys_ok :: "'h dmar_ops \<Rightarrow> 'h vtd_sys \<Rightarrow> bool" where
  "vtd_sys_ok ops s \<longleftrightarrow> iq_answers ops \<and> iq_tail_in_queue ops \<and>
     queues_ok (dmar_units s) (unit_inv_queue s) \<and> irt_limit s \<le> length (irt s)"

text \<open>Updates of the table that keep everything else in order.\<close>

lemma vtd_update_irte_Some:
  assumes ok: "vtd_sys_ok ops s" and i: "index < length (irt s)"
  shows "\<exists>s'. vtd_update_irte ops index content s = Some s' \<and> vtd_sys_ok ops s' \<and>
    irt_limit s' = irt_limit s \<and>
    irt s' = (irt s)[index := last (irte_stores (irt s ! index) content)]"
proof -
  have q: "queues_ok (dmar_units s) (unit_inv_queue s)" "iq_answers ops" "iq_tail_in_queue ops"
    using ok by (simp_all add: vtd_sys_ok_def)
  let ?body = "\<lambda>n base. vtd_submit_iq_request ops base (Some (inv_int_index index))"
  have "\<exists>q' h'. ?body n base q h = Some (q', h') \<and> length q' = 256" if "length q = 256" for n base q h
    using submit_Some [OF q(2,3) that] by blast
  from for_units_Some [of ?body, OF this q(1)] obtain qs h where
    "for_units (\<lambda>n base. vtd_submit_iq_request ops base (Some (inv_int_index index))) 0 (dmar_units s)
       (dmar_reg_base s) (unit_inv_queue s) (dmar_hw s) = Some (qs, h)"
    "queues_ok (dmar_units s) qs"
    by blast
  then show ?thesis
    using ok i by (simp add: vtd_update_irte_def vtd_sys_ok_def)
qed

lemma last_irte_stores:
  "last (irte_stores irte content) =
     (if irte_p content then content else irte\<lparr>raw0 := raw0 content\<rparr>)"
  by (simp add: irte_stores_def)

lemma free_irte_stores:
  "\<not> irte_owned (last (irte_stores irte free_irte)) d"
  "\<not> irte_assigned (last (irte_stores irte free_irte))"
  "\<not> irte_p (last (irte_stores irte free_irte))"
  by (simp_all add: irte_stores_def free_irte_def irte_p_def irte_owned_def irte_assigned_def)

lemma free_region_Some:
  "vtd_sys_ok ops s \<Longrightarrow> pos + len \<le> length (irt s) \<Longrightarrow>
   \<exists>s'. free_region ops pos len s = Some s' \<and> vtd_sys_ok ops s' \<and> irt_limit s' = irt_limit s \<and>
     length (irt s') = length (irt s) \<and>
     (\<forall>i. irt s' ! i = (if pos \<le> i \<and> i < pos + len
                        then last (irte_stores (irt s ! i) free_irte) else irt s ! i))"
proof (induction len arbitrary: pos s)
  case 0
  then show ?case by auto
next
  case (Suc len)
  then have pos: "pos < length (irt s)"
    by simp
  from vtd_update_irte_Some [OF Suc.prems(1) pos, of free_irte] obtain s1 where
    s1: "vtd_update_irte ops pos free_irte s = Some s1" "vtd_sys_ok ops s1" "irt_limit s1 = irt_limit s"
      "irt s1 = (irt s)[pos := last (irte_stores (irt s ! pos) free_irte)]" by blast
  from Suc.IH [OF s1(2), of "pos + 1"] Suc.prems(2) s1(4) obtain s2 where
    s2: "free_region ops (pos + 1) len s1 = Some s2" "vtd_sys_ok ops s2" "irt_limit s2 = irt_limit s1"
      "length (irt s2) = length (irt s1)"
      "\<forall>i. irt s2 ! i = (if pos + 1 \<le> i \<and> i < pos + 1 + len
                        then last (irte_stores (irt s1 ! i) free_irte) else irt s1 ! i)" by auto
  have "irt s2 ! i = (if pos \<le> i \<and> i < pos + Suc len
      then last (irte_stores (irt s ! i) free_irte) else irt s ! i)" for i
    using s2(5) [rule_format, of i] s1(4) pos by (cases "i = pos") simp_all
  with s1 s2 show ?case by simp
qed

subsection \<open>Entries built from a message\<close>

lemma irte_of_msg_fields:
  fixes ap msg irte
  defines "e \<equiv> irte_of_msg ap msg irte"
  shows "irte_p e = irte_p irte" "irte_assigned e = irte_assigned irte" "irte_sid e = irte_sid irte"
    "irte_vector e = take_bit 8 (msg_vector msg)"
    "irte_delivery_mode e = take_bit 3 (msg_delivery_mode msg)"
    "irte_destination e = take_bit 32 (if apic_x2apic ap then msg_destination msg
       else push_bit 8 (msg_destination msg))"
    "irte_sq e = 0" "irte_svt e = 1"
proof -
  show "irte_p e = irte_p irte" "irte_assigned e = irte_assigned irte"
    by (simp_all add: e_def irte_of_msg_def Let_def irte_p_def irte_assigned_def irte_set_defs bit_bf_set)
  show "irte_sid e = irte_sid irte"
    by (rule bit_word_eqI)
      (auto simp: e_def irte_of_msg_def Let_def irte_sid_def irte_set_defs bit_simps bit_bf_set)
  show "irte_vector e = take_bit 8 (msg_vector msg)"
    "irte_delivery_mode e = take_bit 3 (msg_delivery_mode msg)"
    "irte_sq e = 0" "irte_svt e = 1"
    by (simp_all add: e_def irte_of_msg_def Let_def irte_set_defs irte_get_defs
        bf_get_set_same bf_get_set_other)
  show "irte_destination e = take_bit 32 (if apic_x2apic ap then msg_destination msg
       else push_bit 8 (msg_destination msg))"
    by (auto simp: e_def irte_of_msg_def Let_def irte_set_defs irte_destination_def
        bf_get_set_same bf_get_set_other intro!: bit_word_eqI simp: bit_simps)
qed

subsection \<open>Properties\<close>

text \<open>C29. Reserving entries for a device that has none is first fit: the call succeeds exactly when
  some run of \<open>len\<close> free entries lies below the limit; then it takes the first such run, gives
  exactly these entries to the device and changes no other entry; otherwise it returns \<open>-E2BIG\<close>
  and changes nothing.\<close>

theorem vtd_reserve_first_fit:
  assumes "limit \<le> length t" "0 < len" "vtd_find_int_remap_region t limit d = Inl ENOENT"
  shows "case vtd_reserve_int_remap_region t limit d len of
      (Inr b, t') \<Rightarrow> b + len \<le> limit \<and> free_run t b len \<and> (\<forall>b'. b' < b \<longrightarrow> \<not> free_run t b' len) \<and>
        length t' = length t \<and> vtd_find_int_remap_region t' limit d = Inr b \<and>
        (\<forall>i. if b \<le> i \<and> i < b + len then t' ! i = irte_assign d (t ! i) \<and> irte_owned (t' ! i) d
             else t' ! i = t ! i)
    | (Inl e, t') \<Rightarrow> e = E2BIG \<and> t' = t \<and> (\<forall>b. b + len \<le> limit \<longrightarrow> \<not> free_run t b len)"
proof (cases "reserve_scan t len None 0 limit")
  case None
  then show ?thesis
    using reserve_scan_result [OF assms(2), where t = t and limit = limit] by (simp add: reserve_new [OF assms(3,2)])
next
  case (Some b)
  let ?t = "assign_region t d b len"
  have r: "vtd_reserve_int_remap_region t limit d len = (Inr b, ?t)"
    using Some by (simp add: reserve_new [OF assms(3,2)])
  have run: "b + len \<le> limit" "free_run t b len" "\<forall>b'. b' < b \<longrightarrow> \<not> free_run t b' len"
    using reserve_scan_result [OF assms(2), where t = t and limit = limit] Some by auto
  then have nth: "?t ! i = (if b \<le> i \<and> i < b + len then irte_assign d (t ! i) else t ! i)" for i
    using assms(1) by (intro assign_region_nth) simp
  have "irt_find (t, limit) d = None"
    using assms(3) by (simp add: irt_find_def)
  moreover have "irt_reserve (t, limit) d len = Some (b, (?t, limit))"
    using r by (simp add: irt_reserve_def)
  ultimately have "irt_find (?t, limit) d = Some b"
    using irte_alloc.find_after_reserve [of "(t, limit)" d len b "(?t, limit)"] assms(1,2)
    by (simp add: irt_wf_def)
  then have "vtd_find_int_remap_region ?t limit d = Inr b"
    by (auto simp: irt_find_def split: sum.splits)
  with r run nth show ?thesis by simp
qed

theorem vtd_reserve_first_fit_witness:
  "fst (vtd_reserve_int_remap_region [irte_assign 7 free_irte, free_irte, free_irte, free_irte] 4 9 2) = Inr 1"
proof -
  let ?t = "[irte_assign 7 free_irte, free_irte, free_irte, free_irte]"
  have find: "vtd_find_int_remap_region ?t 4 9 = Inl ENOENT"
    by code_simp
  have run: "free_run ?t 1 2" "\<not> free_run ?t 0 2"
    by (auto simp: free_run_def nth_Cons' irte_assigned_def free_irte_def irte_assign_def
        irte_set_defs bit_bf_set bit_1_iff intro!: exI [of _ 0])
  show ?thesis
    using vtd_reserve_first_fit [OF _ _ find, of 2] run
    by (auto split: prod.splits sum.splits) (metis One_nat_def less_one linorder_neqE_nat)
qed

text \<open>The table never tears: while \<open>vtd_update_irte\<close> stores a new content, every entry the
  hardware can see is not present, or equal to the old entry, or equal to the new content, provided the
  old entry was not present or had the same upper half.\<close>

theorem vtd_update_irte_no_torn_entry:
  assumes "\<not> irte_p irte \<or> raw1 irte = raw1 content"
  shows "\<forall>e. e \<in> set (irte_stores irte content) \<longrightarrow> \<not> irte_p e \<or> e = irte \<or> e = content"
  using assms by (auto simp: irte_stores_def irte_p_def)

theorem vtd_update_irte_no_torn_entry_witness:
  "\<not> irte_p (hd (irte_stores free_irte \<lparr>raw0 = 1, raw1 = 5\<rparr>))"
proof -
  have e: "hd (irte_stores free_irte \<lparr>raw0 = 1, raw1 = 5\<rparr>) = \<lparr>raw0 = 0, raw1 = 5\<rparr>"
    by (simp add: irte_stores_def irte_p_def free_irte_def)
  have "\<lparr>raw0 = 0, raw1 = 5\<rparr> \<in> set (irte_stores free_irte \<lparr>raw0 = 1, raw1 = 5\<rparr>)"
    by (simp add: irte_stores_def irte_p_def free_irte_def)
  with vtd_update_irte_no_torn_entry [of free_irte "\<lparr>raw0 = 1, raw1 = 5\<rparr>"] show ?thesis
    unfolding e by (auto simp: free_irte_def irte_p_def)
qed

text \<open>What \<open>iommu_map_interrupt\<close> does to the table, with the new content of the entry.\<close>

definition mapped_irte :: "apic_if \<Rightarrow> apic_irq_message \<Rightarrow> vtd_irte \<Rightarrow> vtd_irte \<Rightarrow> bool" where
  "mapped_irte ap msg old e \<longleftrightarrow>
     (if valid msg then (\<exists>m. apic_filter_irq_dest ap msg = Some m \<and> e = irte_of_msg ap m (irte_set0 0 1 1 old))
      else e = irte_set0 0 1 0 old)"

lemma irte_present_bit:
  "irte_p (irte_set0 0 1 (if v then 1 else 0) e) = v"
  "irte_owned (irte_set0 0 1 x e) d = irte_owned e d"
  by (auto simp: irte_p_def irte_set0_def bit_bf_set irte_owned_def irte_assigned_def irte_sid_def bit_1_iff)

lemma mapped_irte_owned: "mapped_irte ap msg old e \<Longrightarrow> irte_owned e d = irte_owned old d"
  by (auto simp: mapped_irte_def irte_present_bit irte_of_msg_fields irte_owned_def split: if_splits)
    (auto simp: irte_set0_def irte_assigned_def irte_sid_def bit_bf_set)

lemma mapped_irte_present:
  assumes "mapped_irte ap msg old e"
  shows "irte_p e = valid msg"
    and "irte_p e \<Longrightarrow> \<exists>m. apic_filter_irq_dest ap msg = Some m \<and>
      irte_vector e = take_bit 8 (msg_vector m) \<and>
      irte_destination e = take_bit 32 (if apic_x2apic ap then msg_destination m
        else push_bit 8 (msg_destination m)) \<and> irte_sq e = 0 \<and> irte_svt e = 1"
  using assms irte_present_bit(1) [of True old] irte_present_bit(1) [of False old]
  by (auto simp: mapped_irte_def irte_of_msg_fields split: if_splits)

lemma iommu_map_interrupt_result:
  assumes ok: "vtd_sys_ok ops s"
  shows "\<exists>r s'. iommu_map_interrupt ops ap d vector msg s = Some (r, s') \<and> vtd_sys_ok ops s' \<and>
    irt_limit s' = irt_limit s \<and>
    (case r of
       Inl e \<Rightarrow> s' = s
     | Inr i \<Rightarrow> i < irt_limit s \<and> irte_owned (irt s ! i) d \<and>
         vtd_find_int_remap_region (irt s) (irt_limit s) d = Inr (i - vector) \<and> vector \<le> i \<and>
         (\<exists>e. irt s' = (irt s)[i := e] \<and> mapped_irte ap msg (irt s ! i) e))"
proof (cases "vtd_find_int_remap_region (irt s) (irt_limit s) d")
  case (Inl e)
  then show ?thesis using ok by (simp add: iommu_map_interrupt_def)
next
  case (Inr b)
  show ?thesis
  proof (cases "vector \<ge> irt_limit s \<or> b \<ge> irt_limit s - vector")
    case True
    then show ?thesis using Inr ok by (simp add: iommu_map_interrupt_def)
  next
    case range: False
    let ?i = "b + vector" and ?e = "irt s ! (b + vector)"
    let ?e1 = "irte_set0 0 1 (if valid msg then 1 else 0) ?e"
    have i: "?i < irt_limit s" "?i < length (irt s)"
      using range ok by (auto simp: vtd_sys_ok_def)
    note def = iommu_map_interrupt_def irte_owned_def Let_def irte_present_bit(1)
    note upd = vtd_update_irte_Some [OF ok i(2)]
    consider (other) "\<not> irte_owned ?e d" | (absent) "irte_owned ?e d" "\<not> valid msg"
      | (mode) "irte_owned ?e d" "valid msg"
          "msg_delivery_mode msg \<noteq> dlvr_fixed ap \<and> msg_delivery_mode msg \<noteq> dlvr_lowpri ap"
      | (filter) "irte_owned ?e d" "valid msg" "apic_filter_irq_dest ap msg = None"
          "\<not> (msg_delivery_mode msg \<noteq> dlvr_fixed ap \<and> msg_delivery_mode msg \<noteq> dlvr_lowpri ap)"
      | (store) m where "irte_owned ?e d" "valid msg" "apic_filter_irq_dest ap msg = Some m"
          "\<not> (msg_delivery_mode msg \<noteq> dlvr_fixed ap \<and> msg_delivery_mode msg \<noteq> dlvr_lowpri ap)"
      by blast
    then show ?thesis
    proof cases
      case other
      then show ?thesis using Inr range i ok by (auto simp: def)
    next
      case absent
      obtain s' where s': "vtd_update_irte ops ?i ?e1 s = Some s'" "vtd_sys_ok ops s'" "irt_limit s' = irt_limit s"
        "irt s' = (irt s)[?i := ?e1]"
        using upd [of ?e1] absent irte_present_bit(1) [of "valid msg" ?e]
        by (auto simp: last_irte_stores irte_set0_def)
      moreover have "iommu_map_interrupt ops ap d vector msg s = Some (Inr ?i, s')"
        using Inr range i s'(1) absent irte_present_bit(1) [of "valid msg" ?e] by (auto simp: def)
      moreover have "mapped_irte ap msg ?e ?e1"
        using absent by (simp add: mapped_irte_def)
      ultimately show ?thesis
        using Inr i absent by auto
    next
      case mode
      then show ?thesis using Inr range i ok irte_present_bit(1) [of True ?e] by (auto simp: def)
    next
      case filter
      then show ?thesis using Inr range i ok irte_present_bit(1) [of True ?e] by (auto simp: def)
    next
      case store
      let ?e2 = "irte_of_msg ap m ?e1"
      have p: "irte_p ?e2"
        using store irte_present_bit(1) [of True ?e] by (simp add: irte_of_msg_fields)
      obtain s' where s': "vtd_update_irte ops ?i ?e2 s = Some s'" "vtd_sys_ok ops s'" "irt_limit s' = irt_limit s"
        "irt s' = (irt s)[?i := ?e2]"
        using upd [of ?e2] p by (auto simp: last_irte_stores)
      moreover have "iommu_map_interrupt ops ap d vector msg s = Some (Inr ?i, s')"
        using Inr range i s'(1) store irte_present_bit(1) [of True ?e] by (auto simp: def)
      moreover have "mapped_irte ap msg ?e ?e2"
        using store by (simp add: mapped_irte_def)
      ultimately show ?thesis
        using Inr i store by auto
    qed
  qed
qed

text \<open>C2. Isolation of interrupts: with units that execute their queues, \<open>iommu_map_interrupt\<close>
  returns on every input. On an error nothing has changed. On success the index returned is below the
  limit and belongs to the device, it is the device's base plus the vector, no other entry has changed,
  the entry still belongs to the device, and if it is present its message passed the filter of the
  target: it carries the vector and destination of the filtered message and the hardware is told to
  verify the full source id.\<close>

theorem iommu_map_interrupt_isolation:
  assumes ok: "vtd_sys_ok ops s"
  shows "\<exists>r s'. iommu_map_interrupt ops ap d vector msg s = Some (r, s') \<and>
    (case r of
       Inl e \<Rightarrow> s' = s
     | Inr i \<Rightarrow> i < irt_limit s \<and> irte_owned (irt s ! i) d \<and>
         vtd_find_int_remap_region (irt s) (irt_limit s) d = Inr (i - vector) \<and> vector \<le> i \<and>
         vtd_sys_ok ops s' \<and>
         (\<exists>e. irt s' = (irt s)[i := e] \<and> irte_owned e d \<and> irte_p e = valid msg \<and>
            (irte_p e \<longrightarrow> (\<exists>m. apic_filter_irq_dest ap msg = Some m \<and>
               irte_vector e = take_bit 8 (msg_vector m) \<and>
               irte_destination e = take_bit 32 (if apic_x2apic ap then msg_destination m
                 else push_bit 8 (msg_destination m)) \<and>
               irte_sq e = 0 \<and> irte_svt e = 1))))"
proof -
  from iommu_map_interrupt_result [OF ok] obtain r s' where
    run: "iommu_map_interrupt ops ap d vector msg s = Some (r, s')" "vtd_sys_ok ops s'"
    and res: "case r of
       Inl e \<Rightarrow> s' = s
     | Inr i \<Rightarrow> i < irt_limit s \<and> irte_owned (irt s ! i) d \<and>
         vtd_find_int_remap_region (irt s) (irt_limit s) d = Inr (i - vector) \<and> vector \<le> i \<and>
         (\<exists>e. irt s' = (irt s)[i := e] \<and> mapped_irte ap msg (irt s ! i) e)" by blast
  show ?thesis
  proof (cases r)
    case (Inl e)
    then show ?thesis using run res by simp
  next
    case (Inr i)
    then obtain e where e: "irt s' = (irt s)[i := e]" "mapped_irte ap msg (irt s ! i) e"
      using res by auto
    have "irte_owned e d" "irte_owned (irt s ! i) d"
      using res Inr mapped_irte_owned [OF e(2)] by simp_all
    with e(1) mapped_irte_present [OF e(2)] have "\<exists>e. irt s' = (irt s)[i := e] \<and> irte_owned e d \<and>
        irte_p e = valid msg \<and>
        (irte_p e \<longrightarrow> (\<exists>m. apic_filter_irq_dest ap msg = Some m \<and>
           irte_vector e = take_bit 8 (msg_vector m) \<and>
           irte_destination e = take_bit 32 (if apic_x2apic ap then msg_destination m
             else push_bit 8 (msg_destination m)) \<and>
           irte_sq e = 0 \<and> irte_svt e = 1))"
      by blast
    then show ?thesis
      using run res Inr by (simp del: ex_simps split del: if_split)
  qed
qed

text \<open>A concrete system: one unit, one page of queue, a table of eight free entries.\<close>

definition demo_sys :: "vtd_irte list \<Rightarrow> ideal_hw vtd_sys" where
  "demo_sys t = \<lparr>irt = t, irt_limit = 8, dmar_units = 1, dmar_reg_base = 0,
     unit_inv_queue = [replicate 256 inv_global_int],
     dmar_hw = \<lparr>hw_trace = [], hw_status = 0, hw_tail = 0\<rparr>\<rparr>"

lemma demo_sys_ok: "8 \<le> length t \<Longrightarrow> vtd_sys_ok (ideal_ops 0) (demo_sys t)"
  by (simp add: vtd_sys_ok_def demo_sys_def ideal_iq_answers ideal_iq_tail queues_ok_def)

lemma demo_sys_simps [simp]: "irt (demo_sys t) = t" "irt_limit (demo_sys t) = 8"
  by (simp_all add: demo_sys_def)

definition demo_apic :: "bool \<Rightarrow> apic_if" where
  "demo_apic ok = \<lparr>apic_filter_irq_dest = (\<lambda>m. if ok then Some m else None), dlvr_fixed = 0,
     dlvr_lowpri = 1, apic_x2apic = False\<rparr>"

definition demo_msg :: apic_irq_message where
  "demo_msg = \<lparr>valid = True, msg_vector = 0x31, msg_delivery_mode = 0, msg_dest_logical = 1,
     msg_level_triggered = 0, msg_redir_hint = 0, msg_destination = 1\<rparr>"

theorem iommu_map_interrupt_isolation_witness:
  "\<exists>r s'. iommu_map_interrupt (ideal_ops 0) (demo_apic False) 7 0 demo_msg
     (demo_sys (replicate 8 (irte_assign 7 free_irte))) = Some (r, s') \<and>
     irte_p (irt s' ! 0) = False"
proof -
  let ?s = "demo_sys (replicate 8 (irte_assign 7 free_irte))"
  have ok: "vtd_sys_ok (ideal_ops 0) ?s"
    by (rule demo_sys_ok) simp
  have "\<not> irte_p free_irte"
    by (simp add: irte_p_def free_irte_def)
  then have np: "\<not> irte_p (irt ?s ! 0)"
    by simp
  from iommu_map_interrupt_isolation [OF ok, of "demo_apic False" 7 0 demo_msg] obtain r s' where
    r: "iommu_map_interrupt (ideal_ops 0) (demo_apic False) 7 0 demo_msg ?s = Some (r, s')"
    and c: "case r of
       Inl e \<Rightarrow> s' = ?s
     | Inr i \<Rightarrow> i < irt_limit ?s \<and> irte_owned (irt ?s ! i) 7 \<and>
         vtd_find_int_remap_region (irt ?s) (irt_limit ?s) 7 = Inr (i - 0) \<and> 0 \<le> i \<and>
         vtd_sys_ok (ideal_ops 0) s' \<and>
         (\<exists>e. irt s' = (irt ?s)[i := e] \<and> irte_owned e 7 \<and> irte_p e = valid demo_msg \<and>
            (irte_p e \<longrightarrow> (\<exists>m. apic_filter_irq_dest (demo_apic False) demo_msg = Some m \<and>
               irte_vector e = take_bit 8 (msg_vector m) \<and>
               irte_destination e = take_bit 32 (if apic_x2apic (demo_apic False) then msg_destination m
                 else push_bit 8 (msg_destination m)) \<and>
               irte_sq e = 0 \<and> irte_svt e = 1)))"
    by (elim exE conjE)
  have "s' = ?s"
    using c by (cases r) (auto simp: demo_msg_def demo_apic_def)
  with r np show ?thesis by auto
qed

text \<open>What a device reserves it can use: after a successful reservation of \<open>len\<close> entries at
  \<open>b\<close>, mapping an acceptable message to any vector below \<open>len\<close> succeeds with the index
  \<open>b + vector\<close>, and every other device still finds its region where it was.\<close>

theorem vtd_reserve_then_map:
  assumes "vtd_sys_ok ops s" "0 < len" "vtd_find_int_remap_region (irt s) (irt_limit s) d = Inl ENOENT"
    and "vtd_reserve_int_remap_region (irt s) (irt_limit s) d len = (Inr b, t')"
    and "vector < len" "apic_filter_irq_dest ap msg = Some m"
    and "msg_delivery_mode msg = dlvr_fixed ap \<or> msg_delivery_mode msg = dlvr_lowpri ap"
  shows "(\<exists>s'. iommu_map_interrupt ops ap d vector msg (s\<lparr>irt := t'\<rparr>) = Some (Inr (b + vector), s')) \<and>
    (\<forall>d'. d' \<noteq> d \<longrightarrow> vtd_find_int_remap_region t' (irt_limit s) d' =
       vtd_find_int_remap_region (irt s) (irt_limit s) d')"
proof -
  let ?l = "irt_limit s"
  have pre: "irt_wf (irt s, ?l)" "irt_find (irt s, ?l) d = None"
    "irt_reserve (irt s, ?l) d len = Some (b, (t', ?l))"
    using assms by (simp_all add: irt_wf_def vtd_sys_ok_def irt_find_def irt_reserve_def)
  have wf': "irt_wf (t', ?l)"
    by (rule irte_alloc.reserve_wf [OF pre(1,2) assms(2) pre(3)])
  have fnd: "irt_find (t', ?l) d = Some b" "irt_owned (t', ?l) (b + vector) d"
    using irte_alloc.find_after_reserve [OF pre(1,2) assms(2) pre(3)] assms(5) by auto
  then have find: "vtd_find_int_remap_region t' ?l d = Inr b"
    by (auto simp: irt_find_def split: sum.splits)
  have i: "b + vector < ?l" "b + vector < length t'" "irte_owned (t' ! (b + vector)) d"
    using fnd(2) wf' by (simp_all add: irt_owned_def irt_wf_def)
  have ok: "vtd_sys_ok ops (s\<lparr>irt := t'\<rparr>)"
    using assms(1) wf' by (simp add: vtd_sys_ok_def irt_wf_def)
  have upd: "\<exists>s'. vtd_update_irte ops (b + vector) c (s\<lparr>irt := t'\<rparr>) = Some s'" for c
    using vtd_update_irte_Some [OF ok, of "b + vector" c] i by auto
  have "\<exists>s'. iommu_map_interrupt ops ap d vector msg (s\<lparr>irt := t'\<rparr>) = Some (Inr (b + vector), s')"
    using i find upd assms(6,7)
    by (auto simp: iommu_map_interrupt_def irte_owned_def Let_def split: if_splits)
  moreover have "vtd_find_int_remap_region t' ?l d' = vtd_find_int_remap_region (irt s) ?l d'"
    if "d' \<noteq> d" for d'
  proof -
    have inl: "vtd_find_int_remap_region t ?l d' = Inl e \<Longrightarrow> e = ENOENT" for t e
      by (simp add: vtd_find_int_remap_region_def find_region_Inl)
    have "irt_find (t', ?l) d' = irt_find (irt s, ?l) d'"
      using irte_alloc.find_other_after_reserve [OF pre(1,2) assms(2) pre(3) that] .
    then show ?thesis
      by (auto simp: irt_find_def dest: inl split: sum.splits)
  qed
  ultimately show ?thesis by blast
qed

lemma demo_reserve:
  "vtd_find_int_remap_region (replicate 8 free_irte) 8 9 = Inl ENOENT"
  "vtd_reserve_int_remap_region (replicate 8 free_irte) 8 9 3 =
     (Inr 0, replicate 3 (irte_assign 9 free_irte) @ replicate 5 free_irte)"
  by code_simp+

theorem vtd_reserve_then_map_witness:
  "\<exists>s'. iommu_map_interrupt (ideal_ops 0) (demo_apic True) 9 2 demo_msg
     (demo_sys (replicate 3 (irte_assign 9 free_irte) @ replicate 5 free_irte)) = Some (Inr 2, s')"
proof -
  let ?s = "demo_sys (replicate 8 free_irte)"
  have ok: "vtd_sys_ok (ideal_ops 0) ?s"
    by (rule demo_sys_ok) simp
  have upd: "?s\<lparr>irt := t\<rparr> = demo_sys t" for t
    by (simp add: demo_sys_def)
  show ?thesis
    using vtd_reserve_then_map [OF ok, of 3 9 0 "replicate 3 (irte_assign 9 free_irte) @ replicate 5 free_irte"
        2 "demo_apic True" demo_msg demo_msg] demo_reserve
    by (simp add: upd demo_apic_def demo_msg_def numeral_2_eq_2)
qed

text \<open>Freeing undoes reserving: after a device reserved a region and freed it with the same
  length, the call has returned, every entry belongs again to whom it belonged before, none of the
  freed entries is present, and the device has no region.\<close>

theorem vtd_reserve_free_roundtrip:
  assumes "vtd_sys_ok ops s" "0 < len" "vtd_find_int_remap_region (irt s) (irt_limit s) d = Inl ENOENT"
    and "vtd_reserve_int_remap_region (irt s) (irt_limit s) d len = (Inr b, t')"
  shows "\<exists>s'. vtd_free_int_remap_region ops d len (s\<lparr>irt := t'\<rparr>) = Some s' \<and>
    (\<forall>i d'. irte_owned (irt s' ! i) d' \<longleftrightarrow> irte_owned (irt s ! i) d') \<and>
    (\<forall>i. b \<le> i \<and> i < b + len \<longrightarrow> \<not> irte_p (irt s' ! i)) \<and>
    vtd_find_int_remap_region (irt s') (irt_limit s') d = Inl ENOENT"
proof -
  let ?l = "irt_limit s"
  have scan: "reserve_scan (irt s) len None 0 ?l = Some b" "t' = assign_region (irt s) d b len"
    using assms(4) by (auto simp: reserve_new [OF assms(3,2)] split: option.splits)
  have run: "b + len \<le> ?l" "free_run (irt s) b len"
    using reserve_scan_result [OF assms(2), where t = "irt s" and limit = ?l] scan(1) by auto
  have lim: "?l \<le> length (irt s)"
    using assms(1) by (simp add: vtd_sys_ok_def)
  have t': "t' ! i = (if b \<le> i \<and> i < b + len then irte_assign d (irt s ! i) else irt s ! i)" for i
    unfolding scan(2) using run lim by (intro assign_region_nth) simp
  have none: "\<not> irte_owned (irt s ! i) d" if "i < ?l" for i
    using assms(3) that by (simp add: vtd_find_int_remap_region_def find_region_Inl)
  have find: "vtd_find_int_remap_region t' ?l d = Inr b"
    using run none assms(2) by (auto simp: vtd_find_int_remap_region_def find_region_Inr t')
  have ok: "vtd_sys_ok ops (s\<lparr>irt := t'\<rparr>)" "b + len \<le> length (irt (s\<lparr>irt := t'\<rparr>))"
    using assms(1) run lim by (simp_all add: vtd_sys_ok_def scan(2))
  from free_region_Some [OF ok] obtain s' where
    s': "free_region ops b len (s\<lparr>irt := t'\<rparr>) = Some s'" "irt_limit s' = ?l"
      "\<forall>i. irt s' ! i = (if b \<le> i \<and> i < b + len
                        then last (irte_stores (t' ! i) free_irte) else t' ! i)"
    by auto
  have owned: "irte_owned (irt s' ! i) d' \<longleftrightarrow> irte_owned (irt s ! i) d'" for i d'
    using run(2) unfolding s'(3) [rule_format] t'
    by (auto simp: free_irte_stores free_run_def irte_owned_def)
  have "vtd_find_int_remap_region (irt s') ?l d = Inl ENOENT"
    using none by (simp add: vtd_find_int_remap_region_def find_region_Inl owned)
  moreover have "vtd_free_int_remap_region ops d len (s\<lparr>irt := t'\<rparr>) = Some s'"
    using s'(1) find by (simp add: vtd_free_int_remap_region_def)
  ultimately show ?thesis
    using owned s'(2,3) by (auto simp: free_irte_stores)
qed

theorem vtd_reserve_free_roundtrip_witness:
  "\<exists>s'. vtd_free_int_remap_region (ideal_ops 0) 9 3
     (demo_sys (replicate 3 (irte_assign 9 free_irte) @ replicate 5 free_irte)) = Some s' \<and>
     vtd_find_int_remap_region (irt s') (irt_limit s') 9 = Inl ENOENT"
proof -
  let ?s = "demo_sys (replicate 8 free_irte)"
  have ok: "vtd_sys_ok (ideal_ops 0) ?s"
    by (rule demo_sys_ok) simp
  have upd: "?s\<lparr>irt := t\<rparr> = demo_sys t" for t
    by (simp add: demo_sys_def)
  show ?thesis
    using vtd_reserve_free_roundtrip [OF ok, of 3 9 0
        "replicate 3 (irte_assign 9 free_irte) @ replicate 5 free_irte"] demo_reserve
    by (auto simp: upd)
qed

end
