(* ===== verification/Spy_Vmcs.thy ===== *)
theory Spy_Vmcs
  imports Spy_Paging
begin

text \<open>
  The VMCS and the set-up of a virtual CPU: \<open>asm/vmx.h\<close> and the first half of \<open>vmx.c\<close>.

  The VMCS is a map from field encodings to values, because the code computes with encodings;
  \<open>vmcs_fields\<close> is the enumeration of the header. A \<open>vmwrite\<close> can fail: the environment
  \<open>vmwrite_ok\<close> says for which fields it succeeds, and a failing write leaves the VMCS as it is.
  The functions accumulate the success of all writes in \<open>ok\<close> and go on after a failure.
  Model-specific registers, \<open>cpuid\<close>, host registers and the physical addresses of static tables
  are fields of the environment.
\<close>

subsection \<open>VMCS encodings\<close>

definition vmcs_fields :: "(string \<times> u64) list" where
  "vmcs_fields =
   [(''VIRTUAL_PROCESSOR_ID'', 0x00000000),
    (''GUEST_ES_SELECTOR'', 0x00000800),
    (''GUEST_CS_SELECTOR'', 0x00000802),
    (''GUEST_SS_SELECTOR'', 0x00000804),
    (''GUEST_DS_SELECTOR'', 0x00000806),
    (''GUEST_FS_SELECTOR'', 0x00000808),
    (''GUEST_GS_SELECTOR'', 0x0000080a),
    (''GUEST_LDTR_SELECTOR'', 0x0000080c),
    (''GUEST_TR_SELECTOR'', 0x0000080e),
    (''HOST_ES_SELECTOR'', 0x00000c00),
    (''HOST_CS_SELECTOR'', 0x00000c02),
    (''HOST_SS_SELECTOR'', 0x00000c04),
    (''HOST_DS_SELECTOR'', 0x00000c06),
    (''HOST_FS_SELECTOR'', 0x00000c08),
    (''HOST_GS_SELECTOR'', 0x00000c0a),
    (''HOST_TR_SELECTOR'', 0x00000c0c),
    (''IO_BITMAP_A'', 0x00002000),
    (''IO_BITMAP_A_HIGH'', 0x00002001),
    (''IO_BITMAP_B'', 0x00002002),
    (''IO_BITMAP_B_HIGH'', 0x00002003),
    (''MSR_BITMAP'', 0x00002004),
    (''MSR_BITMAP_HIGH'', 0x00002005),
    (''VM_EXIT_MSR_STORE_ADDR'', 0x00002006),
    (''VM_EXIT_MSR_STORE_ADDR_HIGH'', 0x00002007),
    (''VM_EXIT_MSR_LOAD_ADDR'', 0x00002008),
    (''VM_EXIT_MSR_LOAD_ADDR_HIGH'', 0x00002009),
    (''VM_ENTRY_MSR_LOAD_ADDR'', 0x0000200a),
    (''VM_ENTRY_MSR_LOAD_ADDR_HIGH'', 0x0000200b),
    (''TSC_OFFSET'', 0x00002010),
    (''TSC_OFFSET_HIGH'', 0x00002011),
    (''VIRTUAL_APIC_PAGE_ADDR'', 0x00002012),
    (''VIRTUAL_APIC_PAGE_ADDR_HIGH'', 0x00002013),
    (''APIC_ACCESS_ADDR'', 0x00002014),
    (''APIC_ACCESS_ADDR_HIGH'', 0x00002015),
    (''EPT_POINTER'', 0x0000201a),
    (''EPT_POINTER_HIGH'', 0x0000201b),
    (''GUEST_PHYSICAL_ADDRESS'', 0x00002400),
    (''GUEST_PHYSICAL_ADDRESS_HIGH'', 0x00002401),
    (''VMCS_LINK_POINTER'', 0x00002800),
    (''VMCS_LINK_POINTER_HIGH'', 0x00002801),
    (''GUEST_IA32_DEBUGCTL'', 0x00002802),
    (''GUEST_IA32_DEBUGCTL_HIGH'', 0x00002803),
    (''GUEST_IA32_PAT'', 0x00002804),
    (''GUEST_IA32_PAT_HIGH'', 0x00002805),
    (''GUEST_IA32_EFER'', 0x00002806),
    (''GUEST_IA32_EFER_HIGH'', 0x00002807),
    (''GUEST_IA32_PERF_GLOBAL_CTRL'', 0x00002808),
    (''GUEST_IA32_PERF_GLOBAL_CTRL_HIGH'', 0x00002809),
    (''GUEST_PDPTR0'', 0x0000280a),
    (''GUEST_PDPTR0_HIGH'', 0x0000280b),
    (''GUEST_PDPTR1'', 0x0000280c),
    (''GUEST_PDPTR1_HIGH'', 0x0000280d),
    (''GUEST_PDPTR2'', 0x0000280e),
    (''GUEST_PDPTR2_HIGH'', 0x0000280f),
    (''GUEST_PDPTR3'', 0x00002810),
    (''GUEST_PDPTR3_HIGH'', 0x00002811),
    (''HOST_IA32_PAT'', 0x00002c00),
    (''HOST_IA32_PAT_HIGH'', 0x00002c01),
    (''HOST_IA32_EFER'', 0x00002c02),
    (''HOST_IA32_EFER_HIGH'', 0x00002c03),
    (''HOST_IA32_PERF_GLOBAL_CTRL'', 0x00002c04),
    (''HOST_IA32_PERF_GLOBAL_CTRL_HIGH'', 0x00002c05),
    (''PIN_BASED_VM_EXEC_CONTROL'', 0x00004000),
    (''CPU_BASED_VM_EXEC_CONTROL'', 0x00004002),
    (''EXCEPTION_BITMAP'', 0x00004004),
    (''PAGE_FAULT_ERROR_CODE_MASK'', 0x00004006),
    (''PAGE_FAULT_ERROR_CODE_MATCH'', 0x00004008),
    (''CR3_TARGET_COUNT'', 0x0000400a),
    (''VM_EXIT_CONTROLS'', 0x0000400c),
    (''VM_EXIT_MSR_STORE_COUNT'', 0x0000400e),
    (''VM_EXIT_MSR_LOAD_COUNT'', 0x00004010),
    (''VM_ENTRY_CONTROLS'', 0x00004012),
    (''VM_ENTRY_MSR_LOAD_COUNT'', 0x00004014),
    (''VM_ENTRY_INTR_INFO_FIELD'', 0x00004016),
    (''VM_ENTRY_EXCEPTION_ERROR_CODE'', 0x00004018),
    (''VM_ENTRY_INSTRUCTION_LEN'', 0x0000401a),
    (''TPR_THRESHOLD'', 0x0000401c),
    (''SECONDARY_VM_EXEC_CONTROL'', 0x0000401e),
    (''PLE_GAP'', 0x00004020),
    (''PLE_WINDOW'', 0x00004022),
    (''VM_INSTRUCTION_ERROR'', 0x00004400),
    (''VM_EXIT_REASON'', 0x00004402),
    (''VM_EXIT_INTR_INFO'', 0x00004404),
    (''VM_EXIT_INTR_ERROR_CODE'', 0x00004406),
    (''IDT_VECTORING_INFO_FIELD'', 0x00004408),
    (''IDT_VECTORING_ERROR_CODE'', 0x0000440a),
    (''VM_EXIT_INSTRUCTION_LEN'', 0x0000440c),
    (''VMX_INSTRUCTION_INFO'', 0x0000440e),
    (''GUEST_ES_LIMIT'', 0x00004800),
    (''GUEST_CS_LIMIT'', 0x00004802),
    (''GUEST_SS_LIMIT'', 0x00004804),
    (''GUEST_DS_LIMIT'', 0x00004806),
    (''GUEST_FS_LIMIT'', 0x00004808),
    (''GUEST_GS_LIMIT'', 0x0000480a),
    (''GUEST_LDTR_LIMIT'', 0x0000480c),
    (''GUEST_TR_LIMIT'', 0x0000480e),
    (''GUEST_GDTR_LIMIT'', 0x00004810),
    (''GUEST_IDTR_LIMIT'', 0x00004812),
    (''GUEST_ES_AR_BYTES'', 0x00004814),
    (''GUEST_CS_AR_BYTES'', 0x00004816),
    (''GUEST_SS_AR_BYTES'', 0x00004818),
    (''GUEST_DS_AR_BYTES'', 0x0000481a),
    (''GUEST_FS_AR_BYTES'', 0x0000481c),
    (''GUEST_GS_AR_BYTES'', 0x0000481e),
    (''GUEST_LDTR_AR_BYTES'', 0x00004820),
    (''GUEST_TR_AR_BYTES'', 0x00004822),
    (''GUEST_INTERRUPTIBILITY_INFO'', 0x00004824),
    (''GUEST_ACTIVITY_STATE'', 0x00004826),
    (''GUEST_SYSENTER_CS'', 0x0000482A),
    (''VMX_PREEMPTION_TIMER_VALUE'', 0x0000482E),
    (''HOST_IA32_SYSENTER_CS'', 0x00004c00),
    (''CR0_GUEST_HOST_MASK'', 0x00006000),
    (''CR4_GUEST_HOST_MASK'', 0x00006002),
    (''CR0_READ_SHADOW'', 0x00006004),
    (''CR4_READ_SHADOW'', 0x00006006),
    (''CR3_TARGET_VALUE0'', 0x00006008),
    (''CR3_TARGET_VALUE1'', 0x0000600a),
    (''CR3_TARGET_VALUE2'', 0x0000600c),
    (''CR3_TARGET_VALUE3'', 0x0000600e),
    (''EXIT_QUALIFICATION'', 0x00006400),
    (''GUEST_LINEAR_ADDRESS'', 0x0000640a),
    (''GUEST_CR0'', 0x00006800),
    (''GUEST_CR3'', 0x00006802),
    (''GUEST_CR4'', 0x00006804),
    (''GUEST_ES_BASE'', 0x00006806),
    (''GUEST_CS_BASE'', 0x00006808),
    (''GUEST_SS_BASE'', 0x0000680a),
    (''GUEST_DS_BASE'', 0x0000680c),
    (''GUEST_FS_BASE'', 0x0000680e),
    (''GUEST_GS_BASE'', 0x00006810),
    (''GUEST_LDTR_BASE'', 0x00006812),
    (''GUEST_TR_BASE'', 0x00006814),
    (''GUEST_GDTR_BASE'', 0x00006816),
    (''GUEST_IDTR_BASE'', 0x00006818),
    (''GUEST_DR7'', 0x0000681a),
    (''GUEST_RSP'', 0x0000681c),
    (''GUEST_RIP'', 0x0000681e),
    (''GUEST_RFLAGS'', 0x00006820),
    (''GUEST_PENDING_DBG_EXCEPTIONS'', 0x00006822),
    (''GUEST_SYSENTER_ESP'', 0x00006824),
    (''GUEST_SYSENTER_EIP'', 0x00006826),
    (''HOST_CR0'', 0x00006c00),
    (''HOST_CR3'', 0x00006c02),
    (''HOST_CR4'', 0x00006c04),
    (''HOST_FS_BASE'', 0x00006c06),
    (''HOST_GS_BASE'', 0x00006c08),
    (''HOST_TR_BASE'', 0x00006c0a),
    (''HOST_GDTR_BASE'', 0x00006c0c),
    (''HOST_IDTR_BASE'', 0x00006c0e),
    (''HOST_IA32_SYSENTER_ESP'', 0x00006c10),
    (''HOST_IA32_SYSENTER_EIP'', 0x00006c12),
    (''HOST_RSP'', 0x00006c14),
    (''HOST_RIP'', 0x00006c16)]"

abbreviation (input) HOST_CR0 :: u64 where "HOST_CR0 \<equiv> 0x00006c00"
abbreviation (input) HOST_CR3 :: u64 where "HOST_CR3 \<equiv> 0x00006c02"
abbreviation (input) HOST_CR4 :: u64 where "HOST_CR4 \<equiv> 0x00006c04"
abbreviation (input) HOST_CS_SELECTOR :: u64 where "HOST_CS_SELECTOR \<equiv> 0x00000c02"
abbreviation (input) HOST_DS_SELECTOR :: u64 where "HOST_DS_SELECTOR \<equiv> 0x00000c06"
abbreviation (input) HOST_ES_SELECTOR :: u64 where "HOST_ES_SELECTOR \<equiv> 0x00000c00"
abbreviation (input) HOST_SS_SELECTOR :: u64 where "HOST_SS_SELECTOR \<equiv> 0x00000c04"
abbreviation (input) HOST_FS_SELECTOR :: u64 where "HOST_FS_SELECTOR \<equiv> 0x00000c08"
abbreviation (input) HOST_GS_SELECTOR :: u64 where "HOST_GS_SELECTOR \<equiv> 0x00000c0a"
abbreviation (input) HOST_TR_SELECTOR :: u64 where "HOST_TR_SELECTOR \<equiv> 0x00000c0c"
abbreviation (input) HOST_FS_BASE :: u64 where "HOST_FS_BASE \<equiv> 0x00006c06"
abbreviation (input) HOST_GS_BASE :: u64 where "HOST_GS_BASE \<equiv> 0x00006c08"
abbreviation (input) HOST_TR_BASE :: u64 where "HOST_TR_BASE \<equiv> 0x00006c0a"
abbreviation (input) HOST_GDTR_BASE :: u64 where "HOST_GDTR_BASE \<equiv> 0x00006c0c"
abbreviation (input) HOST_IDTR_BASE :: u64 where "HOST_IDTR_BASE \<equiv> 0x00006c0e"
abbreviation (input) HOST_IA32_PAT :: u64 where "HOST_IA32_PAT \<equiv> 0x00002c00"
abbreviation (input) HOST_IA32_EFER :: u64 where "HOST_IA32_EFER \<equiv> 0x00002c02"
abbreviation (input) HOST_IA32_SYSENTER_CS :: u64 where "HOST_IA32_SYSENTER_CS \<equiv> 0x00004c00"
abbreviation (input) HOST_IA32_SYSENTER_EIP :: u64 where "HOST_IA32_SYSENTER_EIP \<equiv> 0x00006c12"
abbreviation (input) HOST_IA32_SYSENTER_ESP :: u64 where "HOST_IA32_SYSENTER_ESP \<equiv> 0x00006c10"
abbreviation (input) HOST_RSP :: u64 where "HOST_RSP \<equiv> 0x00006c14"
abbreviation (input) HOST_RIP :: u64 where "HOST_RIP \<equiv> 0x00006c16"
abbreviation (input) GUEST_CR0 :: u64 where "GUEST_CR0 \<equiv> 0x00006800"
abbreviation (input) GUEST_CR3 :: u64 where "GUEST_CR3 \<equiv> 0x00006802"
abbreviation (input) GUEST_CR4 :: u64 where "GUEST_CR4 \<equiv> 0x00006804"
abbreviation (input) CR0_READ_SHADOW :: u64 where "CR0_READ_SHADOW \<equiv> 0x00006004"
abbreviation (input) CR4_READ_SHADOW :: u64 where "CR4_READ_SHADOW \<equiv> 0x00006006"
abbreviation (input) CR0_GUEST_HOST_MASK :: u64 where "CR0_GUEST_HOST_MASK \<equiv> 0x00006000"
abbreviation (input) CR4_GUEST_HOST_MASK :: u64 where "CR4_GUEST_HOST_MASK \<equiv> 0x00006002"
abbreviation (input) GUEST_ES_SELECTOR :: u64 where "GUEST_ES_SELECTOR \<equiv> 0x00000800"
abbreviation (input) GUEST_CS_SELECTOR :: u64 where "GUEST_CS_SELECTOR \<equiv> 0x00000802"
abbreviation (input) GUEST_SS_SELECTOR :: u64 where "GUEST_SS_SELECTOR \<equiv> 0x00000804"
abbreviation (input) GUEST_DS_SELECTOR :: u64 where "GUEST_DS_SELECTOR \<equiv> 0x00000806"
abbreviation (input) GUEST_FS_SELECTOR :: u64 where "GUEST_FS_SELECTOR \<equiv> 0x00000808"
abbreviation (input) GUEST_GS_SELECTOR :: u64 where "GUEST_GS_SELECTOR \<equiv> 0x0000080a"
abbreviation (input) GUEST_LDTR_SELECTOR :: u64 where "GUEST_LDTR_SELECTOR \<equiv> 0x0000080c"
abbreviation (input) GUEST_TR_SELECTOR :: u64 where "GUEST_TR_SELECTOR \<equiv> 0x0000080e"
abbreviation (input) GUEST_GDTR_BASE :: u64 where "GUEST_GDTR_BASE \<equiv> 0x00006816"
abbreviation (input) GUEST_GDTR_LIMIT :: u64 where "GUEST_GDTR_LIMIT \<equiv> 0x00004810"
abbreviation (input) GUEST_IDTR_BASE :: u64 where "GUEST_IDTR_BASE \<equiv> 0x00006818"
abbreviation (input) GUEST_IDTR_LIMIT :: u64 where "GUEST_IDTR_LIMIT \<equiv> 0x00004812"
abbreviation (input) GUEST_RFLAGS :: u64 where "GUEST_RFLAGS \<equiv> 0x00006820"
abbreviation (input) GUEST_RSP :: u64 where "GUEST_RSP \<equiv> 0x0000681c"
abbreviation (input) GUEST_RIP :: u64 where "GUEST_RIP \<equiv> 0x0000681e"
abbreviation (input) GUEST_SYSENTER_CS :: u64 where "GUEST_SYSENTER_CS \<equiv> 0x0000482A"
abbreviation (input) GUEST_SYSENTER_EIP :: u64 where "GUEST_SYSENTER_EIP \<equiv> 0x00006826"
abbreviation (input) GUEST_SYSENTER_ESP :: u64 where "GUEST_SYSENTER_ESP \<equiv> 0x00006824"
abbreviation (input) GUEST_DR7 :: u64 where "GUEST_DR7 \<equiv> 0x0000681a"
abbreviation (input) GUEST_IA32_DEBUGCTL :: u64 where "GUEST_IA32_DEBUGCTL \<equiv> 0x00002802"
abbreviation (input) GUEST_ACTIVITY_STATE :: u64 where "GUEST_ACTIVITY_STATE \<equiv> 0x00004826"
abbreviation (input) GUEST_INTERRUPTIBILITY_INFO :: u64 where "GUEST_INTERRUPTIBILITY_INFO \<equiv> 0x00004824"
abbreviation (input) GUEST_PENDING_DBG_EXCEPTIONS :: u64 where "GUEST_PENDING_DBG_EXCEPTIONS \<equiv> 0x00006822"
abbreviation (input) GUEST_IA32_PAT :: u64 where "GUEST_IA32_PAT \<equiv> 0x00002804"
abbreviation (input) GUEST_IA32_EFER :: u64 where "GUEST_IA32_EFER \<equiv> 0x00002806"
abbreviation (input) VMCS_LINK_POINTER :: u64 where "VMCS_LINK_POINTER \<equiv> 0x00002800"
abbreviation (input) VM_ENTRY_INTR_INFO_FIELD :: u64 where "VM_ENTRY_INTR_INFO_FIELD \<equiv> 0x00004016"
abbreviation (input) PIN_BASED_VM_EXEC_CONTROL :: u64 where "PIN_BASED_VM_EXEC_CONTROL \<equiv> 0x00004000"
abbreviation (input) VMX_PREEMPTION_TIMER_VALUE :: u64 where "VMX_PREEMPTION_TIMER_VALUE \<equiv> 0x0000482E"
abbreviation (input) CPU_BASED_VM_EXEC_CONTROL :: u64 where "CPU_BASED_VM_EXEC_CONTROL \<equiv> 0x00004002"
abbreviation (input) MSR_BITMAP :: u64 where "MSR_BITMAP \<equiv> 0x00002004"
abbreviation (input) SECONDARY_VM_EXEC_CONTROL :: u64 where "SECONDARY_VM_EXEC_CONTROL \<equiv> 0x0000401e"
abbreviation (input) APIC_ACCESS_ADDR :: u64 where "APIC_ACCESS_ADDR \<equiv> 0x00002014"
abbreviation (input) EXCEPTION_BITMAP :: u64 where "EXCEPTION_BITMAP \<equiv> 0x00004004"
abbreviation (input) VM_EXIT_CONTROLS :: u64 where "VM_EXIT_CONTROLS \<equiv> 0x0000400c"
abbreviation (input) VM_EXIT_MSR_STORE_COUNT :: u64 where "VM_EXIT_MSR_STORE_COUNT \<equiv> 0x0000400e"
abbreviation (input) VM_EXIT_MSR_LOAD_COUNT :: u64 where "VM_EXIT_MSR_LOAD_COUNT \<equiv> 0x00004010"
abbreviation (input) VM_ENTRY_MSR_LOAD_COUNT :: u64 where "VM_ENTRY_MSR_LOAD_COUNT \<equiv> 0x00004014"
abbreviation (input) VM_ENTRY_CONTROLS :: u64 where "VM_ENTRY_CONTROLS \<equiv> 0x00004012"
abbreviation (input) CR3_TARGET_COUNT :: u64 where "CR3_TARGET_COUNT \<equiv> 0x0000400a"
abbreviation (input) IO_BITMAP_A :: u64 where "IO_BITMAP_A \<equiv> 0x00002000"
abbreviation (input) IO_BITMAP_B :: u64 where "IO_BITMAP_B \<equiv> 0x00002002"
abbreviation (input) EPT_POINTER :: u64 where "EPT_POINTER \<equiv> 0x0000201a"
abbreviation (input) GUEST_ES_BASE :: u64 where "GUEST_ES_BASE \<equiv> 0x00006806"
abbreviation (input) GUEST_ES_LIMIT :: u64 where "GUEST_ES_LIMIT \<equiv> 0x00004800"
abbreviation (input) GUEST_ES_AR_BYTES :: u64 where "GUEST_ES_AR_BYTES \<equiv> 0x00004814"
abbreviation (input) GUEST_CS_BASE :: u64 where "GUEST_CS_BASE \<equiv> 0x00006808"
abbreviation (input) GUEST_CS_LIMIT :: u64 where "GUEST_CS_LIMIT \<equiv> 0x00004802"
abbreviation (input) GUEST_CS_AR_BYTES :: u64 where "GUEST_CS_AR_BYTES \<equiv> 0x00004816"
abbreviation (input) VM_EXIT_INTR_INFO :: u64 where "VM_EXIT_INTR_INFO \<equiv> 0x00004404"
abbreviation (input) VM_EXIT_INTR_ERROR_CODE :: u64 where "VM_EXIT_INTR_ERROR_CODE \<equiv> 0x00004406"
abbreviation (input) VM_ENTRY_EXCEPTION_ERROR_CODE :: u64 where "VM_ENTRY_EXCEPTION_ERROR_CODE \<equiv> 0x00004018"
abbreviation (input) EXIT_QUALIFICATION :: u64 where "EXIT_QUALIFICATION \<equiv> 0x00006400"
abbreviation (input) VM_EXIT_REASON :: u64 where "VM_EXIT_REASON \<equiv> 0x00004402"
abbreviation (input) GUEST_PDPTR0 :: u64 where "GUEST_PDPTR0 \<equiv> 0x0000280a"
abbreviation (input) VM_EXIT_INSTRUCTION_LEN :: u64 where "VM_EXIT_INSTRUCTION_LEN \<equiv> 0x0000440c"
abbreviation (input) GUEST_PHYSICAL_ADDRESS :: u64 where "GUEST_PHYSICAL_ADDRESS \<equiv> 0x00002400"
abbreviation (input) GUEST_DS_BASE :: u64 where "GUEST_DS_BASE \<equiv> 0x0000680c"
abbreviation (input) GUEST_DS_LIMIT :: u64 where "GUEST_DS_LIMIT \<equiv> 0x00004806"
abbreviation (input) GUEST_DS_AR_BYTES :: u64 where "GUEST_DS_AR_BYTES \<equiv> 0x0000481a"
abbreviation (input) GUEST_FS_BASE :: u64 where "GUEST_FS_BASE \<equiv> 0x0000680e"
abbreviation (input) GUEST_FS_LIMIT :: u64 where "GUEST_FS_LIMIT \<equiv> 0x00004808"
abbreviation (input) GUEST_FS_AR_BYTES :: u64 where "GUEST_FS_AR_BYTES \<equiv> 0x0000481c"
abbreviation (input) GUEST_GS_BASE :: u64 where "GUEST_GS_BASE \<equiv> 0x00006810"
abbreviation (input) GUEST_GS_LIMIT :: u64 where "GUEST_GS_LIMIT \<equiv> 0x0000480a"
abbreviation (input) GUEST_GS_AR_BYTES :: u64 where "GUEST_GS_AR_BYTES \<equiv> 0x0000481e"
abbreviation (input) GUEST_SS_BASE :: u64 where "GUEST_SS_BASE \<equiv> 0x0000680a"
abbreviation (input) GUEST_SS_LIMIT :: u64 where "GUEST_SS_LIMIT \<equiv> 0x00004804"
abbreviation (input) GUEST_SS_AR_BYTES :: u64 where "GUEST_SS_AR_BYTES \<equiv> 0x00004818"
abbreviation (input) GUEST_TR_BASE :: u64 where "GUEST_TR_BASE \<equiv> 0x00006814"
abbreviation (input) GUEST_TR_LIMIT :: u64 where "GUEST_TR_LIMIT \<equiv> 0x0000480e"
abbreviation (input) GUEST_TR_AR_BYTES :: u64 where "GUEST_TR_AR_BYTES \<equiv> 0x00004822"
abbreviation (input) GUEST_LDTR_BASE :: u64 where "GUEST_LDTR_BASE \<equiv> 0x00006812"
abbreviation (input) GUEST_LDTR_LIMIT :: u64 where "GUEST_LDTR_LIMIT \<equiv> 0x0000480c"
abbreviation (input) GUEST_LDTR_AR_BYTES :: u64 where "GUEST_LDTR_AR_BYTES \<equiv> 0x00004820"

subsection \<open>Constants\<close>

abbreviation (input) CR0_IDX :: nat where "CR0_IDX \<equiv> 0"
abbreviation (input) CR4_IDX :: nat where "CR4_IDX \<equiv> 1"

abbreviation (input) X86_CR0_PE :: u64 where "X86_CR0_PE \<equiv> 0x1"
abbreviation (input) X86_CR0_ET :: u64 where "X86_CR0_ET \<equiv> 0x10"
abbreviation (input) X86_CR0_NW :: u64 where "X86_CR0_NW \<equiv> 0x20000000"
abbreviation (input) X86_CR0_CD :: u64 where "X86_CR0_CD \<equiv> 0x40000000"
abbreviation (input) X86_CR0_PG :: u64 where "X86_CR0_PG \<equiv> 0x80000000"
abbreviation (input) X86_CR4_PAE :: u64 where "X86_CR4_PAE \<equiv> 0x20"
abbreviation (input) X86_CR4_VMXE :: u64 where "X86_CR4_VMXE \<equiv> 0x2000"
abbreviation (input) X86_CR4_OSXSAVE :: u64 where "X86_CR4_OSXSAVE \<equiv> 0x40000"

definition X86_CR0_RESERVED :: u64 where
  "X86_CR0_RESERVED = BIT_MASK 28 19 OR push_bit 17 1 OR BIT_MASK 15 6"

definition X86_CR4_RESERVED :: u64 where
  "X86_CR4_RESERVED = BIT_MASK 31 23 OR push_bit 19 1 OR push_bit 15 1 OR push_bit 12 1"

definition X86_CR0_HOST_STATE :: u64 where
  "X86_CR0_HOST_STATE = push_bit 31 1 OR push_bit 16 1 OR push_bit 5 1 OR push_bit 4 1 OR
     push_bit 3 1 OR push_bit 1 1 OR push_bit 0 1"

abbreviation (input) MSR_IA32_FEATURE_CONTROL :: u32 where "MSR_IA32_FEATURE_CONTROL \<equiv> 0x3a"
abbreviation (input) MSR_IA32_PAT :: u32 where "MSR_IA32_PAT \<equiv> 0x277"
abbreviation (input) MSR_IA32_MTRR_DEF_TYPE :: u32 where "MSR_IA32_MTRR_DEF_TYPE \<equiv> 0x2ff"
abbreviation (input) MSR_IA32_SYSENTER_CS :: u32 where "MSR_IA32_SYSENTER_CS \<equiv> 0x174"
abbreviation (input) MSR_IA32_SYSENTER_ESP :: u32 where "MSR_IA32_SYSENTER_ESP \<equiv> 0x175"
abbreviation (input) MSR_IA32_SYSENTER_EIP :: u32 where "MSR_IA32_SYSENTER_EIP \<equiv> 0x176"
abbreviation (input) MSR_IA32_PERF_GLOBAL_CTRL :: u32 where "MSR_IA32_PERF_GLOBAL_CTRL \<equiv> 0x38f"
abbreviation (input) MSR_IA32_VMX_BASIC :: u32 where "MSR_IA32_VMX_BASIC \<equiv> 0x480"
abbreviation (input) MSR_IA32_VMX_PINBASED_CTLS :: u32 where "MSR_IA32_VMX_PINBASED_CTLS \<equiv> 0x481"
abbreviation (input) MSR_IA32_VMX_PROCBASED_CTLS :: u32 where "MSR_IA32_VMX_PROCBASED_CTLS \<equiv> 0x482"
abbreviation (input) MSR_IA32_VMX_EXIT_CTLS :: u32 where "MSR_IA32_VMX_EXIT_CTLS \<equiv> 0x483"
abbreviation (input) MSR_IA32_VMX_ENTRY_CTLS :: u32 where "MSR_IA32_VMX_ENTRY_CTLS \<equiv> 0x484"
abbreviation (input) MSR_IA32_VMX_MISC :: u32 where "MSR_IA32_VMX_MISC \<equiv> 0x485"
abbreviation (input) MSR_IA32_VMX_CR0_FIXED0 :: u32 where "MSR_IA32_VMX_CR0_FIXED0 \<equiv> 0x486"
abbreviation (input) MSR_IA32_VMX_CR0_FIXED1 :: u32 where "MSR_IA32_VMX_CR0_FIXED1 \<equiv> 0x487"
abbreviation (input) MSR_IA32_VMX_CR4_FIXED0 :: u32 where "MSR_IA32_VMX_CR4_FIXED0 \<equiv> 0x488"
abbreviation (input) MSR_IA32_VMX_CR4_FIXED1 :: u32 where "MSR_IA32_VMX_CR4_FIXED1 \<equiv> 0x489"
abbreviation (input) MSR_IA32_VMX_PROCBASED_CTLS2 :: u32 where "MSR_IA32_VMX_PROCBASED_CTLS2 \<equiv> 0x48b"
abbreviation (input) MSR_IA32_VMX_EPT_VPID_CAP :: u32 where "MSR_IA32_VMX_EPT_VPID_CAP \<equiv> 0x48c"
abbreviation (input) MSR_IA32_VMX_TRUE_PROCBASED_CTLS :: u32 where "MSR_IA32_VMX_TRUE_PROCBASED_CTLS \<equiv> 0x48e"
abbreviation (input) MSR_GS_BASE :: u32 where "MSR_GS_BASE \<equiv> 0xc0000101"

abbreviation (input) EFER_LME :: u64 where "EFER_LME \<equiv> 0x100"
abbreviation (input) EFER_LMA :: u64 where "EFER_LMA \<equiv> 0x400"
abbreviation (input) PIN_BASED_NMI_EXITING :: u64 where "PIN_BASED_NMI_EXITING \<equiv> 0x8"
abbreviation (input) PIN_BASED_VMX_PREEMPTION_TIMER :: u64 where "PIN_BASED_VMX_PREEMPTION_TIMER \<equiv> 0x40"
abbreviation (input) CPU_BASED_CR3_LOAD_EXITING :: u64 where "CPU_BASED_CR3_LOAD_EXITING \<equiv> push_bit 15 1"
abbreviation (input) CPU_BASED_CR3_STORE_EXITING :: u64 where "CPU_BASED_CR3_STORE_EXITING \<equiv> push_bit 16 1"
abbreviation (input) CPU_BASED_USE_IO_BITMAPS :: u64 where "CPU_BASED_USE_IO_BITMAPS \<equiv> push_bit 25 1"
abbreviation (input) CPU_BASED_USE_MSR_BITMAPS :: u64 where "CPU_BASED_USE_MSR_BITMAPS \<equiv> push_bit 28 1"
abbreviation (input) CPU_BASED_ACTIVATE_SECONDARY_CONTROLS :: u64 where "CPU_BASED_ACTIVATE_SECONDARY_CONTROLS \<equiv> push_bit 31 1"
abbreviation (input) SECONDARY_EXEC_VIRTUALIZE_APIC_ACCESSES :: u64 where "SECONDARY_EXEC_VIRTUALIZE_APIC_ACCESSES \<equiv> push_bit 0 1"
abbreviation (input) SECONDARY_EXEC_ENABLE_EPT :: u64 where "SECONDARY_EXEC_ENABLE_EPT \<equiv> push_bit 1 1"
abbreviation (input) SECONDARY_EXEC_UNRESTRICTED_GUEST :: u64 where "SECONDARY_EXEC_UNRESTRICTED_GUEST \<equiv> push_bit 7 1"
abbreviation (input) VM_EXIT_HOST_ADDR_SPACE_SIZE :: u64 where "VM_EXIT_HOST_ADDR_SPACE_SIZE \<equiv> push_bit 9 1"
abbreviation (input) VM_EXIT_SAVE_IA32_PAT :: u64 where "VM_EXIT_SAVE_IA32_PAT \<equiv> push_bit 18 1"
abbreviation (input) VM_EXIT_LOAD_IA32_PAT :: u64 where "VM_EXIT_LOAD_IA32_PAT \<equiv> push_bit 19 1"
abbreviation (input) VM_EXIT_SAVE_IA32_EFER :: u64 where "VM_EXIT_SAVE_IA32_EFER \<equiv> push_bit 20 1"
abbreviation (input) VM_EXIT_LOAD_IA32_EFER :: u64 where "VM_EXIT_LOAD_IA32_EFER \<equiv> push_bit 21 1"
abbreviation (input) VM_ENTRY_LOAD_IA32_PAT :: u64 where "VM_ENTRY_LOAD_IA32_PAT \<equiv> push_bit 14 1"
abbreviation (input) VM_ENTRY_LOAD_IA32_EFER :: u64 where "VM_ENTRY_LOAD_IA32_EFER \<equiv> push_bit 15 1"
abbreviation (input) EPT_PAGE_WALK_4 :: u64 where "EPT_PAGE_WALK_4 \<equiv> push_bit 6 1"
abbreviation (input) EPTP_WB :: u64 where "EPTP_WB \<equiv> push_bit 14 1"
abbreviation (input) EPT_INVEPT :: u64 where "EPT_INVEPT \<equiv> push_bit 20 1"
abbreviation (input) SECONDARY_EXEC_RDTSCP :: u32 where "SECONDARY_EXEC_RDTSCP \<equiv> push_bit 3 1"
abbreviation (input) SECONDARY_EXEC_INVPCID :: u32 where "SECONDARY_EXEC_INVPCID \<equiv> push_bit 12 1"
abbreviation (input) SECONDARY_EXEC_XSAVES :: u32 where "SECONDARY_EXEC_XSAVES \<equiv> push_bit 20 1"
abbreviation (input) GUEST_ACTIVITY_ACTIVE :: u64 where "GUEST_ACTIVITY_ACTIVE \<equiv> 0"
abbreviation (input) DB_VECTOR :: nat where "DB_VECTOR \<equiv> 1"
abbreviation (input) AC_VECTOR :: nat where "AC_VECTOR \<equiv> 17"
abbreviation (input) VM_ENTRY_IA32E_MODE :: u64 where "VM_ENTRY_IA32E_MODE \<equiv> 0x200"
abbreviation (input) EPT_TYPE_WRITEBACK :: u64 where "EPT_TYPE_WRITEBACK \<equiv> 6"
abbreviation (input) EPT_PAGE_WALK_LEN :: u64 where "EPT_PAGE_WALK_LEN \<equiv> 24"

subsection \<open>State\<close>

datatype vmx_state = VMXOFF | VMXON | VMCS_READY

text \<open>The states in the order of the enumeration.\<close>

fun vmx_state_rank :: "vmx_state \<Rightarrow> nat" where
  "vmx_state_rank VMXOFF = 0"
| "vmx_state_rank VMXON = 1"
| "vmx_state_rank VMCS_READY = 2"

instantiation vmx_state :: linorder
begin

definition less_eq_vmx_state :: "vmx_state \<Rightarrow> vmx_state \<Rightarrow> bool" where
  "less_eq_vmx_state a b \<longleftrightarrow> vmx_state_rank a \<le> vmx_state_rank b"

definition less_vmx_state :: "vmx_state \<Rightarrow> vmx_state \<Rightarrow> bool" where
  "less_vmx_state a b \<longleftrightarrow> vmx_state_rank a < vmx_state_rank b"

instance
proof
  fix x y :: vmx_state
  show "x \<le> y \<Longrightarrow> y \<le> x \<Longrightarrow> x = y"
    by (cases x; cases y) (simp_all add: less_eq_vmx_state_def)
qed (auto simp: less_eq_vmx_state_def less_vmx_state_def)

end

record segment =
  seg_base :: u64
  seg_limit :: u32
  seg_access_rights :: u32
  seg_selector :: u16

definition invalid_seg :: segment where
  "invalid_seg = \<lparr>seg_base = 0, seg_limit = 0, seg_access_rights = 0x10000, seg_selector = 0\<rparr>"

record desc_table_reg =
  dtr_limit :: u16
  dtr_base :: u64

record per_cpu =
  guest_regs :: "u64 list"
  pat :: u64
  mtrr_def_type :: u64
  pdpte :: "u64 list"
  vmx_state :: vmx_state
  linux_cr0 :: u64
  linux_cr3 :: u64
  linux_cr4 :: u64
  linux_efer :: u64
  linux_sp :: u64
  linux_ip :: u64
  linux_cs :: segment
  linux_ds :: segment
  linux_es :: segment
  linux_fs :: segment
  linux_gs :: segment
  linux_tss :: segment
  linux_gdtr :: desc_table_reg
  linux_idtr :: desc_table_reg
  stats :: "nat \<Rightarrow> u32"
  vmcs :: "u64 \<Rightarrow> u64"

record vmx_env =
  vmwrite_ok :: "u64 \<Rightarrow> bool"
  rdmsr :: "u32 \<Rightarrow> u64"
  cpuid_eax :: "u32 \<Rightarrow> u32 \<Rightarrow> u32"
  cpuid_ebx :: "u32 \<Rightarrow> u32 \<Rightarrow> u32"
  cpuid_ecx :: "u32 \<Rightarrow> u32 \<Rightarrow> u32"
  cpuid_edx :: "u32 \<Rightarrow> u32 \<Rightarrow> u32"
  read_cr0 :: u64
  read_cr3 :: u64
  read_cr4 :: u64
  gdtr_base :: u64
  idtr_base :: u64
  stack_top :: u64
  vmexit_entry :: u64
  io_bitmap_phys :: u64
  ept_root_phys :: u64
  msr_bitmap_phys :: u64
  apic_access_phys :: u64

text \<open>\<open>cr_maybe1\<close>, \<open>cr_required1\<close> (index 0 for CR0, 1 for CR4) and \<open>secondary_exec_addon\<close>.\<close>

record vmx_limits =
  cr_maybe1 :: "u64 list"
  cr_required1 :: "u64 list"
  secondary_exec_addon :: u32

subsection \<open>VMCS access\<close>

definition w16 :: "u64 \<Rightarrow> u64" where "w16 v = ucast (ucast v :: u16)"
definition w32 :: "u64 \<Rightarrow> u64" where "w32 v = ucast (ucast v :: u32)"

definition vmcs_write64 :: "vmx_env \<Rightarrow> u64 \<Rightarrow> u64 \<Rightarrow> (u64 \<Rightarrow> u64) \<Rightarrow> bool \<times> (u64 \<Rightarrow> u64)" where
  "vmcs_write64 env field val m = (if vmwrite_ok env field then (True, m(field := val)) else (False, m))"

text \<open>\<open>ok &= vmcs_write (...)\<close> for a sequence of writes.\<close>

fun vmcs_writes :: "vmx_env \<Rightarrow> (u64 \<times> u64) list \<Rightarrow> (u64 \<Rightarrow> u64) \<Rightarrow> bool \<times> (u64 \<Rightarrow> u64)" where
  "vmcs_writes env [] m = (True, m)"
| "vmcs_writes env ((field, val) # ws) m =
     (case vmcs_write64 env field val m of
        (ok1, m1) \<Rightarrow> (case vmcs_writes env ws m1 of (ok2, m2) \<Rightarrow> (ok1 \<and> ok2, m2)))"

subsection \<open>Feature checks\<close>

definition vmx_define_cr_restrictions :: "nat \<Rightarrow> u64 \<Rightarrow> u64 \<Rightarrow> vmx_limits \<Rightarrow> bool \<times> vmx_limits" where
  "vmx_define_cr_restrictions cr_idx maybe1 required1 lim =
     (if cr_maybe1 lim ! cr_idx = 0
      then (True, lim\<lparr>cr_maybe1 := (cr_maybe1 lim)[cr_idx := maybe1],
                      cr_required1 := (cr_required1 lim)[cr_idx := required1]\<rparr>)
      else (cr_maybe1 lim ! cr_idx = maybe1 \<and> cr_required1 lim ! cr_idx = required1, lim))"

definition EPT_MANDATORY_FEATURES :: u64 where
  "EPT_MANDATORY_FEATURES = EPT_PAGE_WALK_4 OR EPTP_WB OR EPT_INVEPT"

text \<open>The features found missing, in the order of the tests before the CR restrictions.\<close>

definition vmx_addons :: "vmx_env \<Rightarrow> u32 \<Rightarrow> u32" where
  "vmx_addons env addon =
     (let addon = (if bit (cpuid_edx env 0x80000001 0) 27 then addon OR SECONDARY_EXEC_RDTSCP else addon);
          addon = (if bit (cpuid_ebx env 0x07 0) 10 then addon OR SECONDARY_EXEC_INVPCID else addon)
      in if bit (cpuid_eax env 0x0d 1) 3 then addon OR SECONDARY_EXEC_XSAVES else addon)"

definition vmx_check_features :: "vmx_env \<Rightarrow> vmx_limits \<Rightarrow> errno option \<times> vmx_limits" where
  "vmx_check_features env lim =
     (let basic = rdmsr env MSR_IA32_VMX_BASIC;
          pin = drop_bit 32 (rdmsr env MSR_IA32_VMX_PINBASED_CTLS);
          proc = drop_bit 32 (rdmsr env MSR_IA32_VMX_PROCBASED_CTLS);
          true_proc = rdmsr env MSR_IA32_VMX_TRUE_PROCBASED_CTLS;
          proc2 = drop_bit 32 (rdmsr env MSR_IA32_VMX_PROCBASED_CTLS2);
          ept_cap = rdmsr env MSR_IA32_VMX_EPT_VPID_CAP;
          entry = drop_bit 32 (rdmsr env MSR_IA32_VMX_ENTRY_CTLS);
          exit = drop_bit 32 (rdmsr env MSR_IA32_VMX_EXIT_CTLS)
      in if \<not> bit (cpuid_ecx env 1 0) 5 then (Some ENODEV, lim)
         else if drop_bit 32 basic AND 0x1fff > PAGE_SIZE \<or>
                 drop_bit 50 basic AND 0xf \<noteq> EPT_TYPE_WRITEBACK \<or> \<not> bit basic 55 then (Some EIO, lim)
         else if \<not> bit pin 3 \<or> \<not> bit pin 6 then (Some EIO, lim)
         else if \<not> bit proc 25 \<or> \<not> bit proc 28 \<or> \<not> bit proc 31 then (Some EIO, lim)
         else if bit true_proc 15 \<or> bit true_proc 16 then (Some EIO, lim)
         else if \<not> bit proc2 0 \<or> \<not> bit proc2 1 \<or>
                 ept_cap AND EPT_MANDATORY_FEATURES \<noteq> EPT_MANDATORY_FEATURES \<or>
                 (\<not> bit ept_cap 25 \<and> \<not> bit ept_cap 26) \<or> \<not> bit proc2 7 then (Some EIO, lim)
         else
           (let lim = lim\<lparr>secondary_exec_addon := vmx_addons env (secondary_exec_addon lim)\<rparr>;
                addon = ucast (secondary_exec_addon lim)
            in if proc2 AND addon \<noteq> addon then (Some EIO, lim)
               else if \<not> bit entry 14 \<or> \<not> bit entry 15 \<or> \<not> bit exit 18 \<or> \<not> bit exit 19 \<or>
                       \<not> bit exit 20 \<or> \<not> bit exit 21 then (Some EIO, lim)
               else if \<not> bit (rdmsr env MSR_IA32_VMX_MISC) 6 then (Some EIO, lim)
               else
                 (case vmx_define_cr_restrictions CR0_IDX
                     (rdmsr env MSR_IA32_VMX_CR0_FIXED1 AND NOT (X86_CR0_NW OR X86_CR0_CD))
                     ((rdmsr env MSR_IA32_VMX_CR0_FIXED0 AND NOT (X86_CR0_PE OR X86_CR0_PG)) OR X86_CR0_ET)
                     lim of
                    (False, lim) \<Rightarrow> (Some EIO, lim)
                  | (True, lim) \<Rightarrow>
                      (case vmx_define_cr_restrictions CR4_IDX (rdmsr env MSR_IA32_VMX_CR4_FIXED1)
                          (rdmsr env MSR_IA32_VMX_CR4_FIXED0) lim of
                         (False, lim) \<Rightarrow> (Some EIO, lim)
                       | (True, lim) \<Rightarrow> (None, lim)))))"

subsection \<open>EPT paging\<close>

definition EPT_LINK_FLAGS :: u64 where
  "EPT_LINK_FLAGS = 0x001 OR 0x002 OR 0x004"

definition ept_set_next_pt :: "u64 \<Rightarrow> u64" where
  "ept_set_next_pt next_pt = (next_pt AND BIT_MASK 51 12) OR 0x001 OR 0x002 OR 0x004"

lemma bit_EPT_LINK_FLAGS [masks]: "bit EPT_LINK_FLAGS n \<longleftrightarrow> n < 3"
proof -
  have "EPT_LINK_FLAGS = mask 3"
    by (simp add: EPT_LINK_FLAGS_def mask_eq_exp_minus_1)
  then have "bit EPT_LINK_FLAGS n \<longleftrightarrow> bit (mask 3 :: u64) n"
    by (simp only:)
  also have "\<dots> \<longleftrightarrow> n < 3"
    unfolding bit_mask_iff by auto
  finally show ?thesis .
qed

interpretation ept_link: table_link EPT_LINK_FLAGS ept_set_next_pt
  by unfold_locales (simp add: ept_set_next_pt_def EPT_LINK_FLAGS_def or.assoc, simp_all add: masks)

subsection \<open>Control registers and segments\<close>

definition guest_cr_writes :: "vmx_limits \<Rightarrow> nat \<Rightarrow> u64 \<Rightarrow> (u64 \<times> u64) list" where
  "guest_cr_writes lim cr_idx val =
     (let val = (if cr_idx \<noteq> 0 then val OR X86_CR4_VMXE else val) in
      [(if cr_idx \<noteq> 0 then GUEST_CR4 else GUEST_CR0,
        (val AND cr_maybe1 lim ! cr_idx) OR cr_required1 lim ! cr_idx),
       (if cr_idx \<noteq> 0 then CR4_READ_SHADOW else CR0_READ_SHADOW, val),
       (if cr_idx \<noteq> 0 then CR4_GUEST_HOST_MASK else CR0_GUEST_HOST_MASK,
        cr_required1 lim ! cr_idx OR NOT (cr_maybe1 lim ! cr_idx))])"

definition vmx_set_guest_cr :: "vmx_env \<Rightarrow> vmx_limits \<Rightarrow> nat \<Rightarrow> u64 \<Rightarrow> (u64 \<Rightarrow> u64) \<Rightarrow> bool \<times> (u64 \<Rightarrow> u64)" where
  "vmx_set_guest_cr env lim cr_idx val m = vmcs_writes env (guest_cr_writes lim cr_idx val) m"

definition vcpu_vendor_get_guest_cr4 :: "vmx_limits \<Rightarrow> (u64 \<Rightarrow> u64) \<Rightarrow> u64" where
  "vcpu_vendor_get_guest_cr4 lim m =
     (let host_mask = cr_required1 lim ! CR4_IDX OR NOT (cr_maybe1 lim ! CR4_IDX) in
      (m CR4_READ_SHADOW AND host_mask) OR (m GUEST_CR4 AND NOT host_mask))"

definition target_config_writes :: "vmx_env \<Rightarrow> (u64 \<times> u64) list" where
  "target_config_writes env =
     [(IO_BITMAP_A, io_bitmap_phys env), (IO_BITMAP_B, io_bitmap_phys env + PAGE_SIZE),
      (EPT_POINTER, ept_root_phys env OR EPT_TYPE_WRITEBACK OR EPT_PAGE_WALK_LEN)]"

definition GUEST_SEG_LIMIT :: u64 where "GUEST_SEG_LIMIT = GUEST_ES_LIMIT - GUEST_ES_SELECTOR"
definition GUEST_SEG_AR_BYTES :: u64 where "GUEST_SEG_AR_BYTES = GUEST_ES_AR_BYTES - GUEST_ES_SELECTOR"
definition GUEST_SEG_BASE :: u64 where "GUEST_SEG_BASE = GUEST_ES_BASE - GUEST_ES_SELECTOR"

definition guest_segment_writes :: "segment \<Rightarrow> u64 \<Rightarrow> (u64 \<times> u64) list" where
  "guest_segment_writes seg selector_field =
     [(selector_field, ucast (seg_selector seg)),
      (selector_field + GUEST_SEG_BASE, seg_base seg),
      (selector_field + GUEST_SEG_LIMIT, ucast (seg_limit seg)),
      (selector_field + GUEST_SEG_AR_BYTES, ucast (seg_access_rights seg))]"

subsection \<open>Setting up the VMCS\<close>

definition host_writes :: "vmx_env \<Rightarrow> (u64 \<times> u64) list" where
  "host_writes env =
     [(HOST_CR0, read_cr0 env), (HOST_CR3, read_cr3 env), (HOST_CR4, read_cr4 env),
      (HOST_CS_SELECTOR, 8), (HOST_DS_SELECTOR, 0), (HOST_ES_SELECTOR, 0), (HOST_SS_SELECTOR, 0),
      (HOST_FS_SELECTOR, 0), (HOST_GS_SELECTOR, 0), (HOST_TR_SELECTOR, 16),
      (HOST_FS_BASE, 0), (HOST_GS_BASE, rdmsr env MSR_GS_BASE), (HOST_TR_BASE, 0),
      (HOST_GDTR_BASE, gdtr_base env), (HOST_IDTR_BASE, idtr_base env),
      (HOST_IA32_PAT, rdmsr env MSR_IA32_PAT), (HOST_IA32_EFER, EFER_LMA OR EFER_LME),
      (HOST_IA32_SYSENTER_CS, 0), (HOST_IA32_SYSENTER_EIP, 0), (HOST_IA32_SYSENTER_ESP, 0),
      (HOST_RSP, stack_top env), (HOST_RIP, vmexit_entry env)]"

definition guest_writes :: "vmx_env \<Rightarrow> vmx_limits \<Rightarrow> per_cpu \<Rightarrow> (u64 \<times> u64) list" where
  "guest_writes env lim cpu =
     guest_cr_writes lim CR0_IDX (linux_cr0 cpu) @ guest_cr_writes lim CR4_IDX (linux_cr4 cpu) @
     [(GUEST_CR3, linux_cr3 cpu)] @
     guest_segment_writes (linux_cs cpu) GUEST_CS_SELECTOR @
     guest_segment_writes (linux_ds cpu) GUEST_DS_SELECTOR @
     guest_segment_writes (linux_es cpu) GUEST_ES_SELECTOR @
     guest_segment_writes (linux_fs cpu) GUEST_FS_SELECTOR @
     guest_segment_writes (linux_gs cpu) GUEST_GS_SELECTOR @
     guest_segment_writes invalid_seg GUEST_SS_SELECTOR @
     guest_segment_writes (linux_tss cpu) GUEST_TR_SELECTOR @
     guest_segment_writes invalid_seg GUEST_LDTR_SELECTOR @
     [(GUEST_GDTR_BASE, dtr_base (linux_gdtr cpu)), (GUEST_GDTR_LIMIT, ucast (dtr_limit (linux_gdtr cpu))),
      (GUEST_IDTR_BASE, dtr_base (linux_idtr cpu)), (GUEST_IDTR_LIMIT, ucast (dtr_limit (linux_idtr cpu))),
      (GUEST_RFLAGS, 0x02), (GUEST_RSP, linux_sp cpu + (6 + 1) * 8), (GUEST_RIP, linux_ip cpu),
      (GUEST_SYSENTER_CS, w32 (rdmsr env MSR_IA32_SYSENTER_CS)),
      (GUEST_SYSENTER_EIP, rdmsr env MSR_IA32_SYSENTER_EIP),
      (GUEST_SYSENTER_ESP, rdmsr env MSR_IA32_SYSENTER_ESP),
      (GUEST_DR7, 0x400), (GUEST_IA32_DEBUGCTL, 0),
      (GUEST_ACTIVITY_STATE, GUEST_ACTIVITY_ACTIVE), (GUEST_INTERRUPTIBILITY_INFO, 0), (GUEST_PENDING_DBG_EXCEPTIONS, 0),
      (GUEST_IA32_PAT, pat cpu), (GUEST_IA32_EFER, linux_efer cpu)]"

definition control_writes :: "vmx_env \<Rightarrow> vmx_limits \<Rightarrow> (u64 \<times> u64) list" where
  "control_writes env lim =
     [(VMCS_LINK_POINTER, - 1), (VM_ENTRY_INTR_INFO_FIELD, 0),
      (PIN_BASED_VM_EXEC_CONTROL, w32 (rdmsr env MSR_IA32_VMX_PINBASED_CTLS OR PIN_BASED_NMI_EXITING)),
      (VMX_PREEMPTION_TIMER_VALUE, 0),
      (CPU_BASED_VM_EXEC_CONTROL,
       w32 ((rdmsr env MSR_IA32_VMX_PROCBASED_CTLS OR
               (CPU_BASED_USE_IO_BITMAPS OR CPU_BASED_USE_MSR_BITMAPS OR CPU_BASED_ACTIVATE_SECONDARY_CONTROLS)) AND
            NOT (CPU_BASED_CR3_LOAD_EXITING OR CPU_BASED_CR3_STORE_EXITING))),
      (MSR_BITMAP, msr_bitmap_phys env),
      (SECONDARY_VM_EXEC_CONTROL,
       w32 (rdmsr env MSR_IA32_VMX_PROCBASED_CTLS2 OR
            (SECONDARY_EXEC_VIRTUALIZE_APIC_ACCESSES OR SECONDARY_EXEC_ENABLE_EPT OR
             SECONDARY_EXEC_UNRESTRICTED_GUEST OR ucast (secondary_exec_addon lim)))),
      (APIC_ACCESS_ADDR, apic_access_phys env)] @
     target_config_writes env @
     [(EXCEPTION_BITMAP, push_bit DB_VECTOR 1 OR push_bit AC_VECTOR 1),
      (VM_EXIT_CONTROLS,
       w32 (rdmsr env MSR_IA32_VMX_EXIT_CTLS OR
            (VM_EXIT_HOST_ADDR_SPACE_SIZE OR VM_EXIT_SAVE_IA32_PAT OR VM_EXIT_LOAD_IA32_PAT OR
             VM_EXIT_SAVE_IA32_EFER OR VM_EXIT_LOAD_IA32_EFER))),
      (VM_EXIT_MSR_STORE_COUNT, 0), (VM_EXIT_MSR_LOAD_COUNT, 0), (VM_ENTRY_MSR_LOAD_COUNT, 0),
      (VM_ENTRY_CONTROLS,
       w32 (rdmsr env MSR_IA32_VMX_ENTRY_CTLS OR (VM_ENTRY_IA32E_MODE OR VM_ENTRY_LOAD_IA32_PAT OR VM_ENTRY_LOAD_IA32_EFER))),
      (CR4_GUEST_HOST_MASK, 0),
      (CR3_TARGET_COUNT, 0)]"

definition vmcs_setup :: "vmx_env \<Rightarrow> vmx_limits \<Rightarrow> per_cpu \<Rightarrow> bool \<times> per_cpu" where
  "vmcs_setup env lim cpu =
     (case vmcs_writes env (host_writes env @ guest_writes env lim cpu @ control_writes env lim) (vmcs cpu) of
        (ok, m) \<Rightarrow> (ok, cpu\<lparr>vmcs := m\<rparr>))"

subsection \<open>Entering and leaving VMX operation\<close>

text \<open>
  The processor's side of \<open>vcpu_init\<close> and \<open>vcpu_exit\<close>: whether it is in VMX operation, whether
  the VMCS of this CPU is the current one, and its CR0, CR4 and feature control.
\<close>

record vmx_hw =
  vmx_on :: bool
  vmcs_current :: bool
  hw_cr0 :: u64
  hw_cr4 :: u64
  hw_feature_control :: u64
  hw_perf_global_ctrl :: u64

text \<open>Whether \<open>vmxon\<close>, \<open>vmclear\<close> and \<open>vmptrld\<close> succeed.\<close>

record vmx_ops =
  vmxon_ok :: bool
  vmclear_ok :: bool
  vmptrld_ok :: bool

text \<open>The last part of \<open>vcpu_init\<close>, from the load of the control registers on.\<close>

definition vcpu_init_vmx ::
  "vmx_env \<Rightarrow> vmx_ops \<Rightarrow> vmx_limits \<Rightarrow> per_cpu \<Rightarrow> vmx_hw \<Rightarrow> errno option \<times> per_cpu \<times> vmx_hw" where
  "vcpu_init_vmx env op lim cpu hw =
     (let hw = hw\<lparr>hw_cr0 := X86_CR0_HOST_STATE,
                  hw_cr4 := X86_CR4_PAE OR X86_CR4_VMXE OR
                    (if bit (cpuid_ecx env 1 0) 26 then X86_CR4_OSXSAVE else 0)\<rparr> in
      if \<not> vmxon_ok op then (Some EIO, cpu, hw\<lparr>hw_cr4 := linux_cr4 cpu\<rparr>)
      else
        (let cpu = cpu\<lparr>vmx_state := VMXON\<rparr>; hw = hw\<lparr>vmx_on := True\<rparr> in
         if \<not> vmclear_ok op then (Some EIO, cpu, hw)
         else if \<not> vmptrld_ok op then (Some EIO, cpu, hw)
         else
           (let hw = hw\<lparr>vmcs_current := True\<rparr> in
            case vmcs_setup env lim cpu of
              (False, cpu) \<Rightarrow> (Some EIO, cpu, hw)
            | (True, cpu) \<Rightarrow> (None, cpu\<lparr>vmx_state := VMCS_READY\<rparr>, hw))))"

definition vcpu_init ::
  "vmx_env \<Rightarrow> vmx_ops \<Rightarrow> vmx_limits \<Rightarrow> per_cpu \<Rightarrow> vmx_hw \<Rightarrow> errno option \<times> vmx_limits \<times> per_cpu \<times> vmx_hw" where
  "vcpu_init env op lim cpu hw =
     (let hw = (if cpuid_eax env 0x0a 0 AND 0xff > 0 then hw\<lparr>hw_perf_global_ctrl := 0\<rparr> else hw) in
      if linux_cr4 cpu AND X86_CR4_VMXE \<noteq> 0 then (Some EBUSY, lim, cpu, hw)
      else case vmx_check_features env lim of
        (Some e, lim) \<Rightarrow> (Some e, lim, cpu, hw)
      | (None, lim) \<Rightarrow>
          (let feature_ctrl = hw_feature_control hw; msk = 0x5 in
           if feature_ctrl AND msk \<noteq> msk \<and> bit feature_ctrl 0 then (Some ENODEV, lim, cpu, hw)
           else
             (let hw = (if feature_ctrl AND msk \<noteq> msk
                        then hw\<lparr>hw_feature_control := feature_ctrl OR msk\<rparr> else hw) in
              if (linux_cr0 cpu OR cr_required1 lim ! CR0_IDX) AND X86_CR0_RESERVED \<noteq> 0 \<or>
                 (linux_cr4 cpu OR cr_required1 lim ! CR4_IDX) AND X86_CR4_RESERVED \<noteq> 0
              then (Some EIO, lim, cpu, hw)
              else (case vcpu_init_vmx env op lim cpu hw of (err, cpu, hw) \<Rightarrow> (err, lim, cpu, hw)))))"

text \<open>\<open>vcpu_exit\<close> in two parts, before and after its memory barrier: an NMI may come between.\<close>

definition vcpu_exit_mark :: "per_cpu \<Rightarrow> per_cpu" where
  "vcpu_exit_mark cpu = cpu\<lparr>vmx_state := VMXOFF\<rparr>"

definition vcpu_exit_leave :: "per_cpu \<Rightarrow> vmx_hw \<Rightarrow> per_cpu \<times> vmx_hw" where
  "vcpu_exit_leave cpu hw =
     (cpu\<lparr>linux_cr4 := linux_cr4 cpu AND NOT X86_CR4_VMXE\<rparr>, hw\<lparr>vmcs_current := False, vmx_on := False\<rparr>)"

definition vcpu_exit :: "per_cpu \<Rightarrow> vmx_hw \<Rightarrow> per_cpu \<times> vmx_hw" where
  "vcpu_exit cpu hw =
     (if vmx_state cpu = VMXOFF then (cpu, hw) else vcpu_exit_leave (vcpu_exit_mark cpu) hw)"

definition vmx_preemption_timer_set_enable :: "vmx_env \<Rightarrow> bool \<Rightarrow> per_cpu \<Rightarrow> per_cpu" where
  "vmx_preemption_timer_set_enable env enable cpu =
     (let ctrl = w32 (vmcs cpu PIN_BASED_VM_EXEC_CONTROL);
          ctrl = (if enable then ctrl OR PIN_BASED_VMX_PREEMPTION_TIMER
                  else ctrl AND NOT PIN_BASED_VMX_PREEMPTION_TIMER)
      in cpu\<lparr>vmcs := snd (vmcs_write64 env PIN_BASED_VM_EXEC_CONTROL (w32 ctrl) (vmcs cpu))\<rparr>)"

text \<open>\<open>vcpu_nmi_handler\<close> runs at any time; \<open>None\<close> is an access to the VMCS while it is not current.\<close>

definition vcpu_nmi_handler :: "vmx_env \<Rightarrow> per_cpu \<Rightarrow> vmx_hw \<Rightarrow> per_cpu option" where
  "vcpu_nmi_handler env cpu hw =
     (if vmx_state cpu = VMCS_READY then
        (if vmcs_current hw then Some (vmx_preemption_timer_set_enable env True cpu) else None)
      else Some cpu)"

subsection \<open>Reset\<close>

definition reset_segment_writes :: "(u64 \<times> u64) list" where
  "reset_segment_writes =
     [(GUEST_CS_LIMIT, 0xffff), (GUEST_CS_AR_BYTES, 0x0009b),
      (GUEST_DS_SELECTOR, 0), (GUEST_DS_BASE, 0), (GUEST_DS_LIMIT, 0xffff), (GUEST_DS_AR_BYTES, 0x00093),
      (GUEST_ES_SELECTOR, 0), (GUEST_ES_BASE, 0), (GUEST_ES_LIMIT, 0xffff), (GUEST_ES_AR_BYTES, 0x00093),
      (GUEST_FS_SELECTOR, 0), (GUEST_FS_BASE, 0), (GUEST_FS_LIMIT, 0xffff), (GUEST_FS_AR_BYTES, 0x00093),
      (GUEST_GS_SELECTOR, 0), (GUEST_GS_BASE, 0), (GUEST_GS_LIMIT, 0xffff), (GUEST_GS_AR_BYTES, 0x00093),
      (GUEST_SS_SELECTOR, 0), (GUEST_SS_BASE, 0), (GUEST_SS_LIMIT, 0xffff), (GUEST_SS_AR_BYTES, 0x00093),
      (GUEST_TR_SELECTOR, 0), (GUEST_TR_BASE, 0), (GUEST_TR_LIMIT, 0xffff), (GUEST_TR_AR_BYTES, 0x0008b),
      (GUEST_LDTR_SELECTOR, 0), (GUEST_LDTR_BASE, 0), (GUEST_LDTR_LIMIT, 0xffff), (GUEST_LDTR_AR_BYTES, 0x00082),
      (GUEST_GDTR_BASE, 0), (GUEST_GDTR_LIMIT, 0xffff), (GUEST_IDTR_BASE, 0), (GUEST_IDTR_LIMIT, 0xffff),
      (GUEST_IA32_EFER, 0), (GUEST_SYSENTER_CS, 0), (GUEST_SYSENTER_EIP, 0), (GUEST_SYSENTER_ESP, 0),
      (GUEST_DR7, 0x400), (GUEST_ACTIVITY_STATE, GUEST_ACTIVITY_ACTIVE), (GUEST_INTERRUPTIBILITY_INFO, 0),
      (GUEST_PENDING_DBG_EXCEPTIONS, 0), (VM_ENTRY_INTR_INFO_FIELD, 0)]"

text \<open>
  The reset of a guest; \<open>None\<close> is \<open>panic_stop\<close>. \<open>APIC_BSP_PSEUDO_SIPI\<close> belongs to the APIC
  headers and is the parameter \<open>bsp_sipi\<close>. \<open>sipi_vector << 12\<close> is computed in 32 bits.
\<close>

definition reset_entry_writes :: "u32 \<Rightarrow> u64 \<Rightarrow> u32 \<Rightarrow> (u64 \<times> u64) list" where
  "reset_entry_writes bsp_sipi cpu_reset_address sipi_vector =
     (if sipi_vector = bsp_sipi then
        [(GUEST_IA32_DEBUGCTL, 0), (GUEST_RIP, cpu_reset_address AND 0xffff),
         (GUEST_CS_SELECTOR, w16 (drop_bit 4 cpu_reset_address AND 0xf000)),
         (GUEST_CS_BASE, cpu_reset_address AND NOT 0xffff)]
      else
        [(GUEST_RIP, 0), (GUEST_CS_SELECTOR, w16 (ucast (push_bit 8 sipi_vector))),
         (GUEST_CS_BASE, ucast (push_bit 12 sipi_vector))])"

definition vcpu_vendor_reset ::
  "vmx_env \<Rightarrow> vmx_limits \<Rightarrow> u32 \<Rightarrow> u64 \<Rightarrow> u32 \<Rightarrow> per_cpu \<Rightarrow> per_cpu option" where
  "vcpu_vendor_reset env lim bsp_sipi cpu_reset_address sipi_vector cpu =
     (case vmcs_writes env
         (guest_cr_writes lim CR0_IDX (X86_CR0_NW OR X86_CR0_CD OR X86_CR0_ET) @
          guest_cr_writes lim CR4_IDX 0 @
          [(GUEST_CR3, 0), (GUEST_RFLAGS, 0x02), (GUEST_RSP, 0)] @
          reset_entry_writes bsp_sipi cpu_reset_address sipi_vector @ reset_segment_writes) (vmcs cpu) of
        (ok1, m) \<Rightarrow>
          (case vmcs_writes env
              ((VM_ENTRY_CONTROLS, w32 (w32 (m VM_ENTRY_CONTROLS) AND NOT VM_ENTRY_IA32E_MODE)) #
               target_config_writes env) m of
             (ok2, m) \<Rightarrow> if ok1 \<and> ok2 then Some (cpu\<lparr>vmcs := m\<rparr>) else None))"

definition vcpu_skip_emulated_instruction :: "vmx_env \<Rightarrow> u32 \<Rightarrow> per_cpu \<Rightarrow> per_cpu" where
  "vcpu_skip_emulated_instruction env inst_len cpu =
     cpu\<lparr>vmcs := snd (vmcs_write64 env GUEST_RIP (vmcs cpu GUEST_RIP + ucast inst_len) (vmcs cpu))\<rparr>"

definition vcpu_vendor_set_guest_pat :: "vmx_env \<Rightarrow> u64 \<Rightarrow> per_cpu \<Rightarrow> per_cpu" where
  "vcpu_vendor_set_guest_pat env val cpu =
     cpu\<lparr>vmcs := snd (vmcs_write64 env GUEST_IA32_PAT val (vmcs cpu))\<rparr>"

subsection \<open>Facts on sequences of writes\<close>

lemma vmcs_writes_all_ok:
  "(\<And>f. vmwrite_ok env f) \<Longrightarrow> vmcs_writes env ws m = (True, fold (\<lambda>(f, v) m. m(f := v)) ws m)"
  by (induction ws arbitrary: m) (auto simp: vmcs_write64_def)

lemma fold_writes_lookup:
  "fold (\<lambda>(f, v) m. m(f := v)) ws m x = (case map_of (rev ws) x of None \<Rightarrow> m x | Some v \<Rightarrow> v)"
proof (induction ws arbitrary: m)
  case Nil
  then show ?case by simp
next
  case (Cons w ws)
  then show ?case
    by (cases w) (auto simp: map_add_def split: option.splits)
qed

lemma vmcs_writes_append:
  "vmcs_writes env (ws1 @ ws2) m =
     (case vmcs_writes env ws1 m of (ok1, m1) \<Rightarrow>
       (case vmcs_writes env ws2 m1 of (ok2, m2) \<Rightarrow> (ok1 \<and> ok2, m2)))"
  by (induction ws1 arbitrary: m) (auto split: prod.splits)

lemmas seg_offsets = GUEST_SEG_BASE_def GUEST_SEG_LIMIT_def GUEST_SEG_AR_BYTES_def

lemmas write_lists = host_writes_def guest_writes_def control_writes_def guest_cr_writes_def
  guest_segment_writes_def target_config_writes_def reset_segment_writes_def reset_entry_writes_def

subsection \<open>VMX operation as a transition system\<close>

text \<open>The state of a CPU and its processor, and whether \<open>vcpu_exit\<close> is between its two parts.\<close>

record vmx_sys =
  sys_cpu :: per_cpu
  sys_hw :: vmx_hw
  exiting :: bool

inductive vmx_step :: "vmx_sys \<Rightarrow> vmx_sys \<Rightarrow> bool" where
  init: "\<not> exiting s \<Longrightarrow> vmx_state (sys_cpu s) = VMXOFF \<Longrightarrow>
    vcpu_init env op lim (sys_cpu s) (sys_hw s) = (res, lim', cpu', hw') \<Longrightarrow>
    vmx_step s (s\<lparr>sys_cpu := cpu', sys_hw := hw'\<rparr>)"
| exit_mark: "\<not> exiting s \<Longrightarrow> vmx_state (sys_cpu s) \<noteq> VMXOFF \<Longrightarrow>
    vmx_step s (s\<lparr>sys_cpu := vcpu_exit_mark (sys_cpu s), exiting := True\<rparr>)"
| exit_leave: "exiting s \<Longrightarrow> vcpu_exit_leave (sys_cpu s) (sys_hw s) = (cpu', hw') \<Longrightarrow>
    vmx_step s (s\<lparr>sys_cpu := cpu', sys_hw := hw', exiting := False\<rparr>)"
| nmi: "vcpu_nmi_handler env (sys_cpu s) (sys_hw s) = Some cpu' \<Longrightarrow>
    vmx_step s (s\<lparr>sys_cpu := cpu'\<rparr>)"

definition vmx_start :: "vmx_sys \<Rightarrow> bool" where
  "vmx_start s \<longleftrightarrow> vmx_state (sys_cpu s) = VMXOFF \<and> \<not> vmx_on (sys_hw s) \<and>
     \<not> vmcs_current (sys_hw s) \<and> \<not> exiting s"

definition vmx_inv :: "vmx_sys \<Rightarrow> bool" where
  "vmx_inv s \<longleftrightarrow>
     (vmx_state (sys_cpu s) = VMCS_READY \<longrightarrow> vmcs_current (sys_hw s)) \<and>
     (vmcs_current (sys_hw s) \<longrightarrow> vmx_on (sys_hw s)) \<and>
     (vmx_on (sys_hw s) \<longleftrightarrow> vmx_state (sys_cpu s) \<noteq> VMXOFF \<or> exiting s) \<and>
     (exiting s \<longrightarrow> vmx_state (sys_cpu s) = VMXOFF)"

text \<open>What \<open>vcpu_init\<close> does to the states, by result.\<close>

lemma vmcs_setup_keeps: "vmcs_setup env lim cpu = (ok, cpu') \<Longrightarrow> \<exists>m. cpu' = cpu\<lparr>vmcs := m\<rparr>"
  by (auto simp: vmcs_setup_def split: prod.splits)

definition init_outcome :: "errno option \<Rightarrow> per_cpu \<Rightarrow> vmx_hw \<Rightarrow> per_cpu \<Rightarrow> vmx_hw \<Rightarrow> bool" where
  "init_outcome res cpu hw cpu' hw' \<longleftrightarrow>
     (res = None \<and> vmx_state cpu' = VMCS_READY \<and> vmx_on hw' \<and> vmcs_current hw') \<or>
     (res \<noteq> None \<and> vmx_state cpu' = VMXON \<and> vmx_on hw') \<or>
     (res \<noteq> None \<and> vmx_state cpu' = vmx_state cpu \<and> vmx_on hw' = vmx_on hw \<and>
      vmcs_current hw' = vmcs_current hw)"

lemma vcpu_init_vmx_outcome:
  assumes "vcpu_init_vmx env op lim cpu hw = (res, cpu', hw')"
  shows "init_outcome res cpu hw cpu' hw'"
proof -
  obtain ok c where vs: "vmcs_setup env lim (cpu\<lparr>vmx_state := VMXON\<rparr>) = (ok, c)" by fastforce
  then have "vmx_state c = VMXON"
    by (auto dest: vmcs_setup_keeps)
  moreover have "vmx_state (c\<lparr>vmx_state := VMCS_READY\<rparr>) = VMCS_READY"
    by simp
  ultimately show ?thesis
    using assms [symmetric] unfolding vcpu_init_vmx_def Let_def vs init_outcome_def
    by (cases ok) (simp_all split: if_splits)
qed

lemma vcpu_init_outcome:
  assumes "vcpu_init env op lim cpu hw = (res, lim', cpu', hw')"
  shows "init_outcome res cpu hw cpu' hw'"
proof -
  define hw1 where "hw1 = (if cpuid_eax env 0x0a 0 AND 0xff > 0 then hw\<lparr>hw_perf_global_ctrl := 0\<rparr> else hw)"
  define hw2 where "hw2 = (if hw_feature_control hw1 AND 0x5 \<noteq> 0x5
    then hw1\<lparr>hw_feature_control := hw_feature_control hw1 OR 0x5\<rparr> else hw1)"
  have keep: "vmx_on hw1 = vmx_on hw" "vmcs_current hw1 = vmcs_current hw"
    "vmx_on hw2 = vmx_on hw" "vmcs_current hw2 = vmcs_current hw"
    by (auto simp: hw1_def hw2_def)
  have early: "init_outcome (Some e) cpu hw cpu hw1" "init_outcome (Some e) cpu hw cpu hw2" for e
    using keep by (auto simp: init_outcome_def)
  have late: "init_outcome err cpu hw c h" if "vcpu_init_vmx env op l cpu hw2 = (err, c, h)" for err l c h
    using vcpu_init_vmx_outcome [OF that] keep by (auto simp: init_outcome_def)
  have "case vcpu_init env op lim cpu hw of (res, lim', cpu', hw') \<Rightarrow> init_outcome res cpu hw cpu' hw'"
    unfolding vcpu_init_def hw1_def [symmetric] Let_def hw2_def [symmetric]
    by (simp add: early split: prod.splits option.splits) (blast intro: late)
  then show ?thesis
    using assms by simp
qed

lemma nmi_keeps:
  "vcpu_nmi_handler env cpu hw = Some cpu' \<Longrightarrow> vmx_state cpu' = vmx_state cpu"
  by (auto simp: vcpu_nmi_handler_def vmx_preemption_timer_set_enable_def Let_def split: if_splits)

interpretation vmx_operation: transition_system vmx_start vmx_step vmx_inv
proof unfold_locales
  show "vmx_start s \<Longrightarrow> vmx_inv s" for s
    by (simp add: vmx_start_def vmx_inv_def)
  show "vmx_inv s'" if "vmx_inv s" "vmx_step s s'" for s s'
    using that(2)
  proof cases
    case (init env op lim res lim' cpu' hw')
    then show ?thesis
      using that(1) vcpu_init_outcome [OF init(4)] by (auto simp: vmx_inv_def init_outcome_def)
  next
    case exit_mark
    then show ?thesis
      using that(1) by (auto simp: vmx_inv_def vcpu_exit_mark_def)
  next
    case (exit_leave cpu' hw')
    then show ?thesis
      using that(1) by (auto simp: vmx_inv_def vcpu_exit_leave_def)
  next
    case (nmi env cpu')
    then show ?thesis
      using that(1) nmi_keeps [OF nmi(2)] by (auto simp: vmx_inv_def)
  qed
qed

subsection \<open>Properties\<close>

text \<open>The VMCS enumeration: all encodings are different, and for each of the eight segment
  registers the base, limit and access rights fields lie at the offsets from the selector's field that
  \<open>vmx_set_guest_segment\<close> adds.\<close>

theorem vmcs_fields_consistent:
  "distinct (map snd vmcs_fields) \<and>
   list_all2 (\<lambda>k seg.
     \<exists>sel. vmcs_fields ! (1 + k) = (''GUEST_'' @ seg @ ''_SELECTOR'', sel) \<and>
       vmcs_fields ! (124 + k) = (''GUEST_'' @ seg @ ''_BASE'', sel + GUEST_SEG_BASE) \<and>
       vmcs_fields ! (88 + k) = (''GUEST_'' @ seg @ ''_LIMIT'', sel + GUEST_SEG_LIMIT) \<and>
       vmcs_fields ! (98 + k) = (''GUEST_'' @ seg @ ''_AR_BYTES'', sel + GUEST_SEG_AR_BYTES))
     [0..<8] [''ES'', ''CS'', ''SS'', ''DS'', ''FS'', ''GS'', ''LDTR'', ''TR'']"
proof
  have "sorted_wrt (<) (map snd vmcs_fields)"
    unfolding vmcs_fields_def list.map snd_conv
    by (simp add: sorted_wrt2 sorted_wrt1 transp_on_less del: sorted_wrt.simps(2))
  then show "distinct (map snd vmcs_fields)"
    by (simp add: strict_sorted_iff)
  have "[0..<8] = [0, 1, 2, 3, 4, 5, 6, 7 :: nat]"
    by (simp add: upt_conv_Cons)
  then show "list_all2 (\<lambda>k seg.
     \<exists>sel. vmcs_fields ! (1 + k) = (''GUEST_'' @ seg @ ''_SELECTOR'', sel) \<and>
       vmcs_fields ! (124 + k) = (''GUEST_'' @ seg @ ''_BASE'', sel + GUEST_SEG_BASE) \<and>
       vmcs_fields ! (88 + k) = (''GUEST_'' @ seg @ ''_LIMIT'', sel + GUEST_SEG_LIMIT) \<and>
       vmcs_fields ! (98 + k) = (''GUEST_'' @ seg @ ''_AR_BYTES'', sel + GUEST_SEG_AR_BYTES))
     [0..<8] [''ES'', ''CS'', ''SS'', ''DS'', ''FS'', ''GS'', ''LDTR'', ''TR'']"
    by (simp add: vmcs_fields_def seg_offsets)
qed

text \<open>The guest's CR4 reads back: after \<open>vmx_set_guest_cr\<close> wrote a value, the reconstruction from
  shadow and guest register gives the value with VMXE set, and the register itself has every bit that
  VMX requires and none that it forbids.\<close>

theorem vmx_guest_cr4_roundtrip:
  assumes "\<And>f. vmwrite_ok env f"
  shows "\<exists>m'. vmx_set_guest_cr env lim CR4_IDX val m = (True, m') \<and>
    vcpu_vendor_get_guest_cr4 lim m' = val OR X86_CR4_VMXE \<and>
    m' GUEST_CR4 AND cr_required1 lim ! 1 = cr_required1 lim ! 1 \<and>
    m' GUEST_CR4 AND NOT (cr_maybe1 lim ! 1 OR cr_required1 lim ! 1) = 0"
proof -
  let ?v = "val OR X86_CR4_VMXE" and ?m = "cr_maybe1 lim ! 1" and ?r = "cr_required1 lim ! 1"
  have w: "vmx_set_guest_cr env lim CR4_IDX val m =
      (True, m(GUEST_CR4 := (?v AND ?m) OR ?r, CR4_READ_SHADOW := ?v, CR4_GUEST_HOST_MASK := ?r OR NOT ?m))"
    using assms by (simp add: vmx_set_guest_cr_def guest_cr_writes_def vmcs_write64_def Let_def)
  have rb: "(v AND (r OR NOT m)) OR (((v AND m) OR r) AND NOT (r OR NOT m)) = v"
    "((v AND m) OR r) AND r = r" "((v AND m) OR r) AND NOT (m OR r) = 0" for v m r :: u64
    by (rule bit_word_eqI; auto simp: bit_simps)+
  define m' where "m' = m(GUEST_CR4 := (?v AND ?m) OR ?r, CR4_READ_SHADOW := ?v, CR4_GUEST_HOST_MASK := ?r OR NOT ?m)"
  have g: "m' GUEST_CR4 = (?v AND ?m) OR ?r" "m' CR4_READ_SHADOW = ?v"
    by (simp_all add: m'_def)
  show ?thesis
    unfolding w m'_def [symmetric]
    by (intro exI [of _ m'] conjI) (simp_all only: vcpu_vendor_get_guest_cr4_def Let_def g rb)
qed

text \<open>An environment whose writes all succeed.\<close>

definition demo_env :: vmx_env where
  "demo_env = \<lparr>vmwrite_ok = \<lambda>_. True, rdmsr = \<lambda>_. 0, cpuid_eax = \<lambda>_ _. 0, cpuid_ebx = \<lambda>_ _. 0,
     cpuid_ecx = \<lambda>_ _. 0x20, cpuid_edx = \<lambda>_ _. 0, read_cr0 = 0x80050033, read_cr3 = 0x1000, read_cr4 = 0x2020,
     gdtr_base = 0x2000, idtr_base = 0x3000, stack_top = 0x4000, vmexit_entry = 0x5000,
     io_bitmap_phys = 0x10000, ept_root_phys = 0x20000, msr_bitmap_phys = 0x30000, apic_access_phys = 0x40000\<rparr>"

definition demo_limits :: vmx_limits where
  "demo_limits = \<lparr>cr_maybe1 = [0xFFFFFFFF, 0x3727FF], cr_required1 = [0x30, 0x2000], secondary_exec_addon = 0\<rparr>"

theorem vmx_guest_cr4_roundtrip_witness:
  "\<exists>m'. vmx_set_guest_cr demo_env demo_limits CR4_IDX 0x406F0 (\<lambda>_. 0) = (True, m') \<and>
     vcpu_vendor_get_guest_cr4 demo_limits m' = 0x426F0"
  using vmx_guest_cr4_roundtrip [of demo_env demo_limits "0x406F0" "\<lambda>_. 0"]
  by (auto simp: demo_env_def)

text \<open>C5. The NMI handler is safe: from a CPU outside VMX operation, through any sequence of
  \<open>vcpu_init\<close> calls that succeed or fail at any point, \<open>vcpu_exit\<close> calls and NMIs (also between the two
  parts of \<open>vcpu_exit\<close>), the handler never touches the VMCS while it is not current; and the processor is
  in VMX operation exactly when the recorded state says so or an exit is under way.\<close>

theorem vmx_nmi_never_touches_stale_vmcs:
  assumes "vmx_start s" "vmx_step\<^sup>*\<^sup>* s s'"
  shows "vcpu_nmi_handler env (sys_cpu s') (sys_hw s') \<noteq> None \<and>
    (vmx_on (sys_hw s') \<longleftrightarrow> vmx_state (sys_cpu s') > VMXOFF \<or> exiting s')"
proof -
  have "vmx_inv s'"
    using assms by (rule vmx_operation.reachable_inv)
  moreover have "st > VMXOFF \<longleftrightarrow> st \<noteq> VMXOFF" for st
    by (cases st) (simp_all add: less_vmx_state_def)
  ultimately show ?thesis
    by (auto simp: vmx_inv_def vcpu_nmi_handler_def)
qed

text \<open>A CPU before the hypervisor is entered.\<close>

definition demo_segment :: segment where
  "demo_segment = \<lparr>seg_base = 0, seg_limit = 0xFFFFFFFF, seg_access_rights = 0xA09B, seg_selector = 0x10\<rparr>"

definition demo_cpu :: per_cpu where
  "demo_cpu = \<lparr>guest_regs = replicate 16 0, pat = 0x0007040600070406, mtrr_def_type = 0xC06,
     pdpte = replicate 4 0, vmx_state = VMXOFF, linux_cr0 = 0x80050033, linux_cr3 = 0x1000,
     linux_cr4 = 0x6F0, linux_efer = 0xD01, linux_sp = 0x8000, linux_ip = 0x9000,
     linux_cs = demo_segment, linux_ds = demo_segment, linux_es = demo_segment, linux_fs = demo_segment,
     linux_gs = demo_segment, linux_tss = demo_segment, linux_gdtr = \<lparr>dtr_limit = 0x7F, dtr_base = 0xA000\<rparr>,
     linux_idtr = \<lparr>dtr_limit = 0xFFF, dtr_base = 0xB000\<rparr>, stats = \<lambda>_. 0, vmcs = \<lambda>_. 0\<rparr>"

definition demo_vmx_sys :: vmx_sys where
  "demo_vmx_sys = \<lparr>sys_cpu = demo_cpu,
     sys_hw = \<lparr>vmx_on = False, vmcs_current = False, hw_cr0 = 0, hw_cr4 = 0, hw_feature_control = 5,
               hw_perf_global_ctrl = 0\<rparr>, exiting = False\<rparr>"

theorem vmx_nmi_never_touches_stale_vmcs_witness:
  "\<exists>s'. vmx_step demo_vmx_sys s' \<and> vcpu_nmi_handler demo_env (sys_cpu s') (sys_hw s') \<noteq> None"
proof -
  have start: "vmx_start demo_vmx_sys"
    by (simp add: vmx_start_def demo_vmx_sys_def demo_cpu_def)
  obtain res lim' cpu' hw' where
    "vcpu_init demo_env \<lparr>vmxon_ok = True, vmclear_ok = True, vmptrld_ok = True\<rparr> demo_limits
       (sys_cpu demo_vmx_sys) (sys_hw demo_vmx_sys) = (res, lim', cpu', hw')"
    by (metis prod_cases4)
  then have step: "vmx_step demo_vmx_sys (demo_vmx_sys\<lparr>sys_cpu := cpu', sys_hw := hw'\<rparr>)"
    using start by (auto simp: vmx_start_def intro: vmx_step.init)
  from vmx_nmi_never_touches_stale_vmcs [OF start r_into_rtranclp [of vmx_step, OF step], of demo_env] step
  show ?thesis by blast
qed












text \<open>Where a reset guest starts: after \<open>vcpu_vendor_reset\<close>, code segment base plus instruction
  pointer is the configured reset address for the hard reset, and \<open>vector * 4096\<close> for a SIPI with its
  selector \<open>vector * 256\<close>; long mode is off, interrupts are disabled, and the reset reports success
  exactly when every write did.\<close>

theorem vcpu_vendor_reset_entry:
  assumes "\<And>f. vmwrite_ok env f" "sipi_vector \<noteq> bsp_sipi \<Longrightarrow> sipi_vector < 0x100"
  shows "\<exists>m. vcpu_vendor_reset env lim bsp_sipi reset_address sipi_vector cpu = Some (cpu\<lparr>vmcs := m\<rparr>) \<and>
    m GUEST_CS_BASE + m GUEST_RIP =
      (if sipi_vector = bsp_sipi then reset_address else ucast sipi_vector * 4096) \<and>
    (sipi_vector \<noteq> bsp_sipi \<longrightarrow> m GUEST_CS_SELECTOR = ucast sipi_vector * 256) \<and>
    \<not> bit (m VM_ENTRY_CONTROLS) 9 \<and> m GUEST_IA32_EFER = 0 \<and> m GUEST_RFLAGS = 2 \<and>
    m EPT_POINTER = ept_root_phys env OR EPT_TYPE_WRITEBACK OR EPT_PAGE_WALK_LEN"
proof -
  let ?ws = "guest_cr_writes lim CR0_IDX (X86_CR0_NW OR X86_CR0_CD OR X86_CR0_ET) @
          guest_cr_writes lim CR4_IDX 0 @
          [(GUEST_CR3, 0), (GUEST_RFLAGS, 0x02), (GUEST_RSP, 0)] @
          reset_entry_writes bsp_sipi reset_address sipi_vector @ reset_segment_writes"
  let ?m1 = "fold (\<lambda>(f, v) m. m(f := v)) ?ws (vmcs cpu)"
  let ?ws2 = "(VM_ENTRY_CONTROLS, w32 (w32 (?m1 VM_ENTRY_CONTROLS) AND NOT VM_ENTRY_IA32E_MODE)) #
     target_config_writes env"
  let ?m = "fold (\<lambda>(f, v) m. m(f := v)) ?ws2 ?m1"
  have reset: "vcpu_vendor_reset env lim bsp_sipi reset_address sipi_vector cpu = Some (cpu\<lparr>vmcs := ?m\<rparr>)"
    by (simp only: vcpu_vendor_reset_def vmcs_writes_all_ok [OF assms(1)] prod.case simp_thms if_True)
  have m1: "?m f = ?m1 f" if "f \<notin> {VM_ENTRY_CONTROLS, IO_BITMAP_A, IO_BITMAP_B, EPT_POINTER}" for f
    using that unfolding fold_writes_lookup [of ?ws2] target_config_writes_def by simp
  have look: "?m EPT_POINTER = ept_root_phys env OR EPT_TYPE_WRITEBACK OR EPT_PAGE_WALK_LEN"
    "?m VM_ENTRY_CONTROLS = w32 (w32 (?m1 VM_ENTRY_CONTROLS) AND NOT VM_ENTRY_IA32E_MODE)"
    unfolding fold_writes_lookup [of ?ws2] target_config_writes_def by simp_all
  have look1: "?m1 GUEST_IA32_EFER = 0" "?m1 GUEST_RFLAGS = 2"
    "?m1 GUEST_RIP = (if sipi_vector = bsp_sipi then reset_address AND 0xffff else 0)"
    "?m1 GUEST_CS_BASE = (if sipi_vector = bsp_sipi then reset_address AND NOT 0xffff
       else ucast (push_bit 12 sipi_vector))"
    "?m1 GUEST_CS_SELECTOR = (if sipi_vector = bsp_sipi
       then w16 (drop_bit 4 reset_address AND 0xf000) else w16 (ucast (push_bit 8 sipi_vector)))"
    unfolding fold_writes_lookup write_lists Let_def by simp_all
  have ia32e: "\<not> bit (w32 (v AND NOT VM_ENTRY_IA32E_MODE)) 9" for v
    using bit_exp_iff [where 'a = u64, of 9 9] by (simp add: w32_def bit_simps)
  have entry: "(a AND NOT n) + (a AND n) = (a :: u64)" for a n
  proof -
    have "(a AND NOT n) AND (a AND n) = 0" "(a AND NOT n) OR (a AND n) = a"
      by (rule bit_word_eqI; auto simp: bit_simps)+
    then show ?thesis
      using word_plus_and_or [of "a AND NOT n" "a AND n"] by simp
  qed
  note entry = entry [where n = "0xffff"]
  have small: "ucast (push_bit 12 sipi_vector) = (ucast sipi_vector * 4096 :: u64) \<and>
    w16 (ucast (push_bit 8 sipi_vector)) = ucast sipi_vector * 256" if "sipi_vector < 0x100"
  proof -
    have "unat sipi_vector < 256"
      using that by (simp add: word_less_nat_alt)
    then show ?thesis
      by (simp add: word_unat_eq_iff w16_def push_bit_eq_mult unsigned_ucast_eq unat_word_ariths
          take_bit_eq_mod)
  qed
  have cs: "?m GUEST_CS_BASE = ?m1 GUEST_CS_BASE" "?m GUEST_RIP = ?m1 GUEST_RIP"
    "?m GUEST_CS_SELECTOR = ?m1 GUEST_CS_SELECTOR" "?m GUEST_IA32_EFER = ?m1 GUEST_IA32_EFER"
    "?m GUEST_RFLAGS = ?m1 GUEST_RFLAGS"
    by (rule m1, simp)+
  have sipi: "sipi_vector < 0x100" if "sipi_vector \<noteq> bsp_sipi"
    using assms(2) [OF that] .
  have start: "?m GUEST_CS_BASE + ?m GUEST_RIP =
      (if sipi_vector = bsp_sipi then reset_address else ucast sipi_vector * 4096)"
    unfolding cs look1 using small [OF sipi] entry [of reset_address] by (cases "sipi_vector = bsp_sipi") simp_all
  have selector: "sipi_vector \<noteq> bsp_sipi \<longrightarrow> ?m GUEST_CS_SELECTOR = ucast sipi_vector * 256"
    unfolding cs look1 using small [OF sipi] by simp
  have mode: "\<not> bit (?m VM_ENTRY_CONTROLS) 9"
    unfolding look(2) by (rule ia32e)
  have efer: "?m GUEST_IA32_EFER = 0" and flags: "?m GUEST_RFLAGS = 2"
    unfolding cs by (fact look1)+
  show ?thesis
    by (rule exI [of _ ?m]) (intro conjI; fact reset start selector mode efer flags look(1))
qed

theorem vcpu_vendor_reset_entry_witness:
  "\<exists>m. vcpu_vendor_reset demo_env demo_limits 0x100 0xfffffff0 0x9a demo_cpu = Some (demo_cpu\<lparr>vmcs := m\<rparr>) \<and>
     m GUEST_CS_BASE + m GUEST_RIP = 0x9a000 \<and> m GUEST_CS_SELECTOR = 0x9a00"
proof -
  have "\<And>f. vmwrite_ok demo_env f"
    by (simp add: demo_env_def)
  from vcpu_vendor_reset_entry [OF this, of "0x9a" "0x100" demo_limits "0xfffffff0" demo_cpu]
  show ?thesis
    by auto
qed

end
