(* ===== verification/Spy_Vcpu.thy ===== *)
theory Spy_Vcpu
  imports Spy_Vmcs
begin

text \<open>
  The vendor-independent exit handlers of \<open>vcpu.c\<close> and the accessors of \<open>vmx.c\<close> they use.

  The state is the \<open>per_cpu\<close> record of \<open>Spy_Vmcs\<close>; \<open>guest_regs\<close> is the \<open>by_index\<close> view of
  \<open>union registers\<close>, 16 longs with \<open>r15\<close> first and \<open>rax\<close> last. The handlers of the other
  subsystems, whose sources are not part of the repository (hypercall dispatch, PCI configuration
  ports, i8042, instruction decoding, MMIO dispatch, APIC, event check), are the fields of
  \<open>vcpu_ext\<close>; all they do to this CPU is the state they return. A handler that returns \<open>False\<close>
  makes the caller park the CPU.
\<close>

subsection \<open>Registers and counters\<close>

abbreviation (input) RSI :: nat where "RSI \<equiv> 9"
abbreviation (input) RDI :: nat where "RDI \<equiv> 8"
abbreviation (input) RBX :: nat where "RBX \<equiv> 12"
abbreviation (input) RDX :: nat where "RDX \<equiv> 13"
abbreviation (input) RCX :: nat where "RCX \<equiv> 14"
abbreviation (input) RAX :: nat where "RAX \<equiv> 15"

definition reg_of :: "per_cpu \<Rightarrow> nat \<Rightarrow> u64" where
  "reg_of cpu r = guest_regs cpu ! r"

definition set_reg :: "nat \<Rightarrow> u64 \<Rightarrow> per_cpu \<Rightarrow> per_cpu" where
  "set_reg r v cpu = cpu\<lparr>guest_regs := (guest_regs cpu)[r := v]\<rparr>"

definition regs_ok :: "per_cpu \<Rightarrow> bool" where
  "regs_ok cpu \<longleftrightarrow> length (guest_regs cpu) = 16"

abbreviation (input) SPY_CPU_STAT_VMEXITS_TOTAL :: nat where "SPY_CPU_STAT_VMEXITS_TOTAL \<equiv> 0"
abbreviation (input) SPY_CPU_STAT_VMEXITS_MMIO :: nat where "SPY_CPU_STAT_VMEXITS_MMIO \<equiv> 1"
abbreviation (input) SPY_CPU_STAT_VMEXITS_MANAGEMENT :: nat where "SPY_CPU_STAT_VMEXITS_MANAGEMENT \<equiv> 2"
abbreviation (input) SPY_CPU_STAT_VMEXITS_PIO :: nat where "SPY_CPU_STAT_VMEXITS_PIO \<equiv> 4"
abbreviation (input) SPY_CPU_STAT_VMEXITS_XAPIC :: nat where "SPY_CPU_STAT_VMEXITS_XAPIC \<equiv> 5"
abbreviation (input) SPY_CPU_STAT_VMEXITS_CR :: nat where "SPY_CPU_STAT_VMEXITS_CR \<equiv> 6"
abbreviation (input) SPY_CPU_STAT_VMEXITS_CPUID :: nat where "SPY_CPU_STAT_VMEXITS_CPUID \<equiv> 7"
abbreviation (input) SPY_CPU_STAT_VMEXITS_XSETBV :: nat where "SPY_CPU_STAT_VMEXITS_XSETBV \<equiv> 8"
abbreviation (input) SPY_CPU_STAT_VMEXITS_EXCEPTION :: nat where "SPY_CPU_STAT_VMEXITS_EXCEPTION \<equiv> 9"
abbreviation (input) SPY_CPU_STAT_VMEXITS_MSR_OTHER :: nat where "SPY_CPU_STAT_VMEXITS_MSR_OTHER \<equiv> 10"

definition stat_inc :: "nat \<Rightarrow> per_cpu \<Rightarrow> per_cpu" where
  "stat_inc n cpu = cpu\<lparr>stats := (stats cpu)(n := stats cpu n + 1)\<rparr>"

definition set_rdmsr_value :: "u64 \<Rightarrow> per_cpu \<Rightarrow> per_cpu" where
  "set_rdmsr_value val cpu = set_reg RDX (drop_bit 32 val) (set_reg RAX (w32 val) cpu)"

definition get_wrmsr_value :: "per_cpu \<Rightarrow> u64" where
  "get_wrmsr_value cpu = w32 (reg_of cpu RAX) OR push_bit 32 (reg_of cpu RDX)"

subsection \<open>Vendor accessors\<close>

abbreviation (input) MTRR_ENABLE :: u64 where "MTRR_ENABLE \<equiv> 0x800"
abbreviation (input) PAT_RESET_VALUE :: u64 where "PAT_RESET_VALUE \<equiv> 0x0007040600070406"
abbreviation (input) X86_RFLAGS_VM :: u64 where "X86_RFLAGS_VM \<equiv> 0x20000"

definition vcpu_vendor_get_efer :: "per_cpu \<Rightarrow> u64" where
  "vcpu_vendor_get_efer cpu = vmcs cpu GUEST_IA32_EFER"

definition vcpu_vendor_get_rflags :: "per_cpu \<Rightarrow> u64" where
  "vcpu_vendor_get_rflags cpu = vmcs cpu GUEST_RFLAGS"

definition vcpu_vendor_get_rip :: "per_cpu \<Rightarrow> u64" where
  "vcpu_vendor_get_rip cpu = vmcs cpu GUEST_RIP"

definition vcpu_vendor_get_cs_attr :: "per_cpu \<Rightarrow> u16" where
  "vcpu_vendor_get_cs_attr cpu = ucast (ucast (vmcs cpu GUEST_CS_AR_BYTES) :: u32)"

record vcpu_io_intercept =
  io_port :: u16
  io_size :: u32
  io_in :: bool
  io_inst_len :: u32
  io_rep_or_str :: bool

definition vcpu_vendor_get_io_intercept :: "per_cpu \<Rightarrow> vcpu_io_intercept" where
  "vcpu_vendor_get_io_intercept cpu =
     (let exitq = vmcs cpu EXIT_QUALIFICATION in
      \<lparr>io_port = ucast (drop_bit 16 exitq AND 0xFFFF),
       io_size = ucast ((exitq AND 0x3) + 1),
       io_in = (drop_bit 3 (exitq AND 0x8) \<noteq> 0),
       io_inst_len = ucast (vmcs cpu VM_EXIT_INSTRUCTION_LEN),
       io_rep_or_str = (exitq AND 0x30 \<noteq> 0)\<rparr>)"

record vcpu_mmio_intercept =
  phys_addr :: u64
  is_write :: bool

definition vcpu_vendor_get_mmio_intercept :: "per_cpu \<Rightarrow> vcpu_mmio_intercept" where
  "vcpu_vendor_get_mmio_intercept cpu =
     \<lparr>phys_addr = vmcs cpu GUEST_PHYSICAL_ADDRESS, is_write = (vmcs cpu EXIT_QUALIFICATION AND 0x2 \<noteq> 0)\<rparr>"

text \<open>\<open>guest_paging_structures\<close>: which paging the guest uses, and its root table.\<close>

datatype guest_paging =
  X86_64_PAGING u64 | PAE_PAGING u64 | I386_PAGING u64 | NO_PAGING

definition vcpu_get_guest_paging_structs :: "per_cpu \<Rightarrow> guest_paging \<times> per_cpu" where
  "vcpu_get_guest_paging_structs cpu =
     (let m = vmcs cpu in
      if w32 (m VM_ENTRY_CONTROLS) AND VM_ENTRY_IA32E_MODE \<noteq> 0
      then (X86_64_PAGING (m GUEST_CR3 AND BIT_MASK 51 12), cpu)
      else if m GUEST_CR0 AND X86_CR0_PG = 0 then (NO_PAGING, cpu)
      else if m GUEST_CR4 AND X86_CR4_PAE \<noteq> 0
      then (PAE_PAGING (m GUEST_CR3 AND BIT_MASK 31 5),
            cpu\<lparr>pdpte := map (\<lambda>n. m (GUEST_PDPTR0 + of_nat n * 2)) [0..<4]\<rparr>)
      else (I386_PAGING (m GUEST_CR3 AND BIT_MASK 31 12), cpu))"

definition vcpu_pae_get_pdpte :: "per_cpu \<Rightarrow> u64 \<Rightarrow> u64" where
  "vcpu_pae_get_pdpte cpu virt = pdpte cpu ! unat (drop_bit 30 virt AND 0x3)"

text \<open>
  \<open>vcpu_map_inst\<close>: the instruction bytes from \<open>pc\<close> to the end of its page, at most \<open>len\<close> of
  them; \<open>get_page\<close> is \<open>paging_get_guest_pages\<close> for one page. The result is the offset in the page
  and the number of bytes available.
\<close>

definition vcpu_map_inst :: "(u64 \<Rightarrow> u8 list option) \<Rightarrow> u64 \<Rightarrow> u32 \<Rightarrow> (u8 list \<times> u64 \<times> u32) option" where
  "vcpu_map_inst get_page pc len =
     (if len = 0 then None
      else (case get_page pc of
              None \<Rightarrow> None
            | Some page \<Rightarrow>
                (let bytes_avail = ucast (PAGE_SIZE - (pc AND PAGE_OFFS_MASK)) :: u16 in
                 Some (page, pc AND PAGE_OFFS_MASK,
                       if len > ucast bytes_avail then ucast bytes_avail else len))))"

subsection \<open>What the handlers call\<close>

datatype mmio_result = MMIO_HANDLED | MMIO_UNHANDLED | MMIO_OTHER

record mmio_access =
  mmio_address :: u64
  mmio_size :: u32
  mmio_is_write :: bool
  mmio_value :: u64

record mmio_instruction =
  inst_len :: u32
  access_size :: u32
  in_reg_num :: nat
  reg_preserve_mask :: u64
  out_val :: u64

record vcpu_ext =
  ext_hypercall :: "u64 \<Rightarrow> u64 \<Rightarrow> u64 \<Rightarrow> per_cpu \<Rightarrow> u64 \<times> per_cpu"
  ext_pci_config :: "u16 \<Rightarrow> bool \<Rightarrow> u32 \<Rightarrow> per_cpu \<Rightarrow> int \<times> per_cpu"
  ext_i8042 :: "u16 \<Rightarrow> bool \<Rightarrow> u32 \<Rightarrow> per_cpu \<Rightarrow> int \<times> per_cpu"
  ext_mmio_parse :: "guest_paging \<Rightarrow> bool \<Rightarrow> per_cpu \<Rightarrow> mmio_instruction"
  ext_mmio_access :: "mmio_access \<Rightarrow> per_cpu \<Rightarrow> mmio_result \<times> u64 \<times> per_cpu"
  ext_x2apic_read :: "per_cpu \<Rightarrow> per_cpu"
  ext_x2apic_write :: "per_cpu \<Rightarrow> bool \<times> per_cpu"
  ext_apic_mmio :: "guest_paging \<Rightarrow> u32 \<Rightarrow> bool \<Rightarrow> per_cpu \<Rightarrow> u32 \<times> per_cpu"
  ext_check_events :: "per_cpu \<Rightarrow> per_cpu"

subsection \<open>Hypercalls\<close>

abbreviation (input) SPY_HC_DISABLE :: u64 where "SPY_HC_DISABLE \<equiv> 0"
abbreviation (input) X86_INST_LEN_HYPERCALL :: u32 where "X86_INST_LEN_HYPERCALL \<equiv> 3"
abbreviation (input) X86_INST_LEN_CPUID :: u32 where "X86_INST_LEN_CPUID \<equiv> 2"
abbreviation (input) X86_INST_LEN_WRMSR :: u32 where "X86_INST_LEN_WRMSR \<equiv> 2"

definition vcpu_long_mode :: "per_cpu \<Rightarrow> bool" where
  "vcpu_long_mode cpu \<longleftrightarrow> vcpu_vendor_get_efer cpu AND EFER_LMA \<noteq> 0 \<and> bit (vcpu_vendor_get_cs_attr cpu) 13"

definition hypercall_denied :: "per_cpu \<Rightarrow> bool" where
  "hypercall_denied cpu \<longleftrightarrow>
     (\<not> vcpu_long_mode cpu \<and> vcpu_vendor_get_rflags cpu AND X86_RFLAGS_VM \<noteq> 0) \<or>
     ucast (vcpu_vendor_get_cs_attr cpu) AND BIT_MASK 6 5 \<noteq> 0"

text \<open>The result says whether the hypervisor is left (\<open>vcpu_deactivate_vmm\<close>).\<close>

definition vcpu_handle_hypercall :: "vmx_env \<Rightarrow> vcpu_ext \<Rightarrow> per_cpu \<Rightarrow> bool \<times> per_cpu" where
  "vcpu_handle_hypercall env ext cpu0 =
     (let arg_mask = (if vcpu_long_mode cpu0 then - 1 else 0xffffffff);
          code = reg_of cpu0 RAX;
          cpu = vcpu_skip_emulated_instruction env X86_INST_LEN_HYPERCALL cpu0
      in if hypercall_denied cpu0 then (False, set_reg RAX (- 1) cpu)
         else
           (case ext_hypercall ext code (reg_of cpu RDI AND arg_mask) (reg_of cpu RSI AND arg_mask) cpu of
              (res, cpu) \<Rightarrow> (code = SPY_HC_DISABLE \<and> res = 0, set_reg RAX res cpu)))"

subsection \<open>Port and memory accesses\<close>

definition vcpu_handle_io_access :: "vmx_env \<Rightarrow> vcpu_ext \<Rightarrow> per_cpu \<Rightarrow> bool \<times> per_cpu" where
  "vcpu_handle_io_access env ext cpu =
     (let io = vcpu_vendor_get_io_intercept cpu in
      if io_rep_or_str io then (False, cpu)
      else
        (case ext_pci_config ext (io_port io) (io_in io) (io_size io) cpu of
           (res1, cpu1) \<Rightarrow>
             (case (if res1 = 0 then ext_i8042 ext (io_port io) (io_in io) (io_size io) cpu1
                    else (res1, cpu1)) of
                (res, cpu2) \<Rightarrow>
                  if res = 1 \<or> io_port io = 0x80 \<and> io_size io = 1
                  then (True, vcpu_skip_emulated_instruction env (io_inst_len io) cpu2)
                  else (False, cpu2))))"

definition vcpu_handle_mmio_access :: "vmx_env \<Rightarrow> vcpu_ext \<Rightarrow> per_cpu \<Rightarrow> bool \<times> per_cpu" where
  "vcpu_handle_mmio_access env ext cpu =
     (let intercept = vcpu_vendor_get_mmio_intercept cpu in
      case vcpu_get_guest_paging_structs cpu of
        (pg_structs, cpu) \<Rightarrow>
          (let inst = ext_mmio_parse ext pg_structs (is_write intercept) cpu in
           if inst_len inst = 0 then (False, cpu)
           else
             (case ext_mmio_access ext
                 \<lparr>mmio_address = phys_addr intercept, mmio_size = access_size inst,
                  mmio_is_write = is_write intercept,
                  mmio_value = (if is_write intercept then out_val inst else 0)\<rparr> cpu of
                (MMIO_HANDLED, val, cpu) \<Rightarrow>
                  (True, vcpu_skip_emulated_instruction env (inst_len inst)
                     (if is_write intercept then cpu
                      else set_reg (in_reg_num inst)
                             ((reg_of cpu (in_reg_num inst) AND reg_preserve_mask inst) OR val) cpu))
              | (_, _, cpu) \<Rightarrow> (False, cpu))))"

subsection \<open>Model-specific registers\<close>

abbreviation (input) MSR_X2APIC_BASE :: u64 where "MSR_X2APIC_BASE \<equiv> 0x800"
abbreviation (input) MSR_X2APIC_END :: u64 where "MSR_X2APIC_END \<equiv> 0x83f"

text \<open>The filter of the guest's PAT, byte by byte.\<close>

definition pat_type_ok :: "u32 \<Rightarrow> bool" where
  "pat_type_ok pa \<longleftrightarrow> \<not> (pa = 2 \<or> pa = 3 \<or> pa > 7)"

definition pat_valid :: "u64 \<Rightarrow> bool" where
  "pat_valid val \<longleftrightarrow> list_all (\<lambda>bit_pos. pat_type_ok (ucast (drop_bit bit_pos val AND 0xff)))
     [0, 8, 16, 24, 32, 40, 48, 56]"

definition vcpu_handle_msr_read :: "vmx_env \<Rightarrow> vcpu_ext \<Rightarrow> per_cpu \<Rightarrow> bool \<times> per_cpu" where
  "vcpu_handle_msr_read env ext cpu =
     (let rcx = reg_of cpu RCX; skip = vcpu_skip_emulated_instruction env X86_INST_LEN_WRMSR in
      if MSR_X2APIC_BASE \<le> rcx \<and> rcx \<le> MSR_X2APIC_END then (True, skip (ext_x2apic_read ext cpu))
      else if rcx = 0x277 then
        (True, skip (set_rdmsr_value (pat cpu) (stat_inc SPY_CPU_STAT_VMEXITS_MSR_OTHER cpu)))
      else if rcx = 0x2ff then
        (True, skip (set_rdmsr_value (mtrr_def_type cpu) (stat_inc SPY_CPU_STAT_VMEXITS_MSR_OTHER cpu)))
      else (False, cpu))"

definition vcpu_handle_msr_write :: "vmx_env \<Rightarrow> vcpu_ext \<Rightarrow> per_cpu \<Rightarrow> bool \<times> per_cpu" where
  "vcpu_handle_msr_write env ext cpu =
     (let rcx = reg_of cpu RCX; skip = vcpu_skip_emulated_instruction env X86_INST_LEN_WRMSR in
      if MSR_X2APIC_BASE \<le> rcx \<and> rcx \<le> MSR_X2APIC_END then
        (case ext_x2apic_write ext cpu of (ok, cpu) \<Rightarrow> if ok then (True, skip cpu) else (False, cpu))
      else if rcx = 0x277 then
        (let cpu = stat_inc SPY_CPU_STAT_VMEXITS_MSR_OTHER cpu; val = get_wrmsr_value cpu in
         if \<not> pat_valid val then (False, cpu)
         else
           (let cpu = cpu\<lparr>pat := val\<rparr> in
            (True, skip (if mtrr_def_type cpu AND MTRR_ENABLE \<noteq> 0
                         then vcpu_vendor_set_guest_pat env val cpu else cpu))))
      else if rcx = 0x2ff then
        (let cpu = stat_inc SPY_CPU_STAT_VMEXITS_MSR_OTHER cpu; val = get_wrmsr_value cpu;
             cpu = cpu\<lparr>mtrr_def_type := mtrr_def_type cpu AND NOT MTRR_ENABLE\<rparr>;
             cpu = cpu\<lparr>mtrr_def_type := mtrr_def_type cpu OR (val AND MTRR_ENABLE)\<rparr>
         in (True, skip (vcpu_vendor_set_guest_pat env (if val AND MTRR_ENABLE \<noteq> 0 then pat cpu else 0) cpu)))
      else (False, cpu))"

subsection \<open>CPUID and reset\<close>

text \<open>
  \<open>X86_FEATURE_HYPERVISOR\<close> is \<open>1 << 31\<close> in a 32-bit \<open>int\<close>; ORed into a 64-bit register it is
  sign-extended.
\<close>

definition X86_FEATURE_HYPERVISOR_int :: u64 where
  "X86_FEATURE_HYPERVISOR_int = scast (push_bit 31 1 :: u32)"

definition cpuid_leaf :: "vmx_env \<Rightarrow> per_cpu \<Rightarrow> per_cpu" where
  "cpuid_leaf env cpu =
     (let op = ucast (reg_of cpu RAX) :: u32; sub = ucast (reg_of cpu RCX) :: u32 in
      set_reg RDX (ucast (cpuid_edx env op sub)) (set_reg RCX (ucast (cpuid_ecx env op sub))
        (set_reg RBX (ucast (cpuid_ebx env op sub)) (set_reg RAX (ucast (cpuid_eax env op sub)) cpu))))"

definition vcpu_handle_cpuid :: "vmx_env \<Rightarrow> vmx_limits \<Rightarrow> bool \<Rightarrow> per_cpu \<Rightarrow> per_cpu" where
  "vcpu_handle_cpuid env lim is_root cpu =
     (let function = ucast (reg_of cpu RAX) :: u32;
          cpu = stat_inc SPY_CPU_STAT_VMEXITS_CPUID cpu;
          skip = vcpu_skip_emulated_instruction env X86_INST_LEN_CPUID in
      if function = 0x40000000 then
        skip (set_reg RDX 0 (set_reg RCX 0 (set_reg RBX 0x00797053 (set_reg RAX 0x40000001 cpu))))
      else if function = 0x40000001 then
        skip (set_reg RDX 0 (set_reg RCX 0 (set_reg RBX 0 (set_reg RAX 0 cpu))))
      else
        (let cpu = cpuid_leaf env cpu; rcx = reg_of cpu RCX in
         if function = 0x01 then
           (let rcx = (if is_root then rcx else (rcx AND NOT (push_bit 5 1)) OR X86_FEATURE_HYPERVISOR_int);
                rcx = rcx AND NOT (push_bit 27 1);
                rcx = (if vcpu_vendor_get_guest_cr4 lim (vmcs cpu) AND X86_CR4_OSXSAVE \<noteq> 0
                       then rcx OR push_bit 27 1 else rcx)
            in skip (set_reg RCX rcx cpu))
         else if function = 0x80000001 then
           skip (if is_root then cpu else set_reg RCX (rcx AND NOT (push_bit 2 1)) cpu)
         else skip cpu))"

text \<open>\<open>vcpu_reset\<close>; \<open>None\<close> is the \<open>panic_stop\<close> of a failed \<open>vcpu_vendor_reset\<close>.\<close>

definition vcpu_reset :: "vmx_env \<Rightarrow> vmx_limits \<Rightarrow> u32 \<Rightarrow> u64 \<Rightarrow> u32 \<Rightarrow> per_cpu \<Rightarrow> per_cpu option" where
  "vcpu_reset env lim bsp_sipi cpu_reset_address sipi_vector cpu =
     (case vcpu_vendor_reset env lim bsp_sipi cpu_reset_address sipi_vector cpu of
        None \<Rightarrow> None
      | Some cpu \<Rightarrow>
          (let cpu = cpu\<lparr>guest_regs := replicate 16 0\<rparr> in
           Some (if sipi_vector = bsp_sipi
                 then vcpu_vendor_set_guest_pat env 0
                        (cpu\<lparr>pat := PAT_RESET_VALUE, mtrr_def_type := mtrr_def_type cpu AND NOT MTRR_ENABLE\<rparr>)
                 else cpu)))"

text \<open>
  \<open>vcpu_park\<close>, with \<open>parking_root_phys\<close> the physical address of the parking page table. The branch that the option
  \<open>CONFIG_CRASH_TARGET_ON_PANIC\<close> adds, which sets the instruction pointer of a failed CPU to 0 instead, is left out.
\<close>

definition vcpu_park :: "vmx_env \<Rightarrow> vmx_limits \<Rightarrow> u32 \<Rightarrow> u64 \<Rightarrow> u64 \<Rightarrow> per_cpu \<Rightarrow> per_cpu option" where
  "vcpu_park env lim bsp_sipi cpu_reset_address parking_root_phys cpu =
     (case vcpu_vendor_reset env lim bsp_sipi cpu_reset_address 0 cpu of
        None \<Rightarrow> None
      | Some cpu \<Rightarrow>
          Some (cpu\<lparr>vmcs := snd (vmcs_writes env
            [(GUEST_IA32_DEBUGCTL, 0),
             (EPT_POINTER, parking_root_phys OR EPT_TYPE_WRITEBACK OR EPT_PAGE_WALK_LEN)] (vmcs cpu))\<rparr>))"

subsection \<open>Registers\<close>

lemma reg_set_reg: "regs_ok cpu \<Longrightarrow> r' < 16 \<Longrightarrow> reg_of (set_reg r v cpu) r' = (if r' = r then v else reg_of cpu r')"
  by (simp add: reg_of_def set_reg_def regs_ok_def nth_list_update)

lemma regs_ok_simps [simp]:
  "regs_ok (set_reg r v cpu) = regs_ok cpu" "regs_ok (stat_inc n cpu) = regs_ok cpu"
  "regs_ok (vcpu_skip_emulated_instruction env len cpu) = regs_ok cpu"
  "regs_ok (vcpu_vendor_set_guest_pat env v cpu) = regs_ok cpu"
  "regs_ok (set_rdmsr_value v cpu) = regs_ok cpu"
  "regs_ok (cpu\<lparr>pat := p\<rparr>) = regs_ok cpu" "regs_ok (cpu\<lparr>mtrr_def_type := p\<rparr>) = regs_ok cpu"
  "regs_ok (cpu\<lparr>vmcs := m\<rparr>) = regs_ok cpu"
  by (simp_all add: regs_ok_def set_reg_def stat_inc_def vcpu_skip_emulated_instruction_def
      vcpu_vendor_set_guest_pat_def set_rdmsr_value_def)

lemma reg_of_simps [simp]:
  "reg_of (stat_inc n cpu) r = reg_of cpu r"
  "reg_of (vcpu_skip_emulated_instruction env len cpu) r = reg_of cpu r"
  "reg_of (vcpu_vendor_set_guest_pat env v cpu) r = reg_of cpu r"
  by (simp_all add: reg_of_def stat_inc_def vcpu_skip_emulated_instruction_def vcpu_vendor_set_guest_pat_def)

text \<open>Two functions of the same form: what a handler shows the guest of a 64-bit register.\<close>

lemma rdmsr_wrmsr:
  assumes "regs_ok cpu"
  shows "get_wrmsr_value (set_rdmsr_value v cpu) = v"
proof (rule bit_word_eqI)
  fix n assume "n < LENGTH(64)"
  then show "bit (get_wrmsr_value (set_rdmsr_value v cpu)) n \<longleftrightarrow> bit v n"
    using assms by (cases "n < 32") (auto simp: get_wrmsr_value_def set_rdmsr_value_def reg_set_reg w32_def bit_simps)
qed

subsection \<open>Hypercalls\<close>

lemma word_zero_iff: "(v :: 'a::len word) = 0 \<longleftrightarrow> (\<forall>n. \<not> bit v n)"
  by (auto intro: bit_word_eqI)

lemma hypercall_denied_bits:
  "hypercall_denied cpu \<longleftrightarrow>
     bit (vmcs cpu GUEST_CS_AR_BYTES) 5 \<or> bit (vmcs cpu GUEST_CS_AR_BYTES) 6 \<or>
     (bit (vmcs cpu GUEST_RFLAGS) 17 \<and>
      \<not> (bit (vmcs cpu GUEST_IA32_EFER) 10 \<and> bit (vmcs cpu GUEST_CS_AR_BYTES) 13))"
proof -
  have flag: "v AND 0x20000 \<noteq> 0 \<longleftrightarrow> bit v 17" "v AND 0x400 \<noteq> 0 \<longleftrightarrow> bit v 10" for v :: u64
    using single_bit_and_zero_iff [of 17 v] single_bit_and_zero_iff [of 10 v] by (simp_all add: push_bit_eq_mult)
  have dpl: "x AND BIT_MASK 6 5 \<noteq> 0 \<longleftrightarrow> bit x 5 \<or> bit x 6" for x
  proof -
    have "bit (BIT_MASK 6 5) n \<longleftrightarrow> n = 5 \<or> n = 6" for n
      by (auto simp: masks)
    then show ?thesis
      unfolding word_zero_iff bit_and_iff by (simp only:) blast
  qed
  show ?thesis
    unfolding hypercall_denied_def vcpu_long_mode_def vcpu_vendor_get_rflags_def vcpu_vendor_get_efer_def
      vcpu_vendor_get_cs_attr_def flag dpl
    by (auto simp: bit_simps)
qed


lemma set_reg_length: "regs_ok cpu \<Longrightarrow> guest_regs (set_reg r v cpu) = (guest_regs cpu)[r := v]"
  by (simp add: set_reg_def)

lemma and_ffffffff: "(v :: u64) AND 0xffffffff = take_bit 32 v"
  by (simp add: take_bit_eq_mask mask_eq_exp_minus_1)

text \<open>C6. Who may issue hypercalls: code at a privilege level other than 0 and virtual-8086 code gets
  \<open>-EPERM\<close> with no other effect than the skipped instruction, whatever the dispatcher would have done;
  kernel code reaches the dispatcher with its arguments, cut to 32 bits outside 64-bit mode; and the
  hypervisor is left only on hypercall 0, issued by kernel code, that the dispatcher accepted.\<close>

theorem vcpu_hypercall_privilege:
  "let ar = vmcs cpu GUEST_CS_AR_BYTES;
       long = (bit (vmcs cpu GUEST_IA32_EFER) 10 \<and> bit ar 13);
       denied = (bit ar 5 \<or> bit ar 6 \<or> (bit (vmcs cpu GUEST_RFLAGS) 17 \<and> \<not> long));
       arg = (\<lambda>v. if long then v else take_bit 32 v);
       next_insn = vcpu_skip_emulated_instruction env 3 cpu;
       call = ext_hypercall ext (reg_of cpu RAX) (arg (reg_of cpu RDI)) (arg (reg_of cpu RSI)) next_insn
   in vcpu_handle_hypercall env ext cpu =
        (if denied then (False, set_reg RAX (- 1) next_insn)
         else (reg_of cpu RAX = SPY_HC_DISABLE \<and> fst call = 0, set_reg RAX (fst call) (snd call)))"
proof -
  have long: "vcpu_long_mode cpu \<longleftrightarrow> bit (vmcs cpu GUEST_IA32_EFER) 10 \<and> bit (vmcs cpu GUEST_CS_AR_BYTES) 13"
    using single_bit_and_zero_iff [of 10 "vmcs cpu GUEST_IA32_EFER"]
    by (auto simp: vcpu_long_mode_def vcpu_vendor_get_efer_def vcpu_vendor_get_cs_attr_def bit_simps push_bit_eq_mult)
  have arg: "v AND (if l then - 1 else 0xffffffff) = (if l then v else take_bit 32 v)" for v :: u64 and l
    by (simp add: and_ffffffff)
  show ?thesis
    unfolding Let_def vcpu_handle_hypercall_def hypercall_denied_bits long arg reg_of_simps
    by (auto split: prod.splits)
qed

subsection \<open>CPUID\<close>

lemma bit_feature_consts [masks]:
  "bit X86_FEATURE_HYPERVISOR_int n \<longleftrightarrow> 31 \<le> n \<and> n < 64"
  "bit (push_bit 27 1 :: u64) n \<longleftrightarrow> n = 27" "bit (push_bit 5 1 :: u64) n \<longleftrightarrow> n = 5"
proof -
  have "X86_FEATURE_HYPERVISOR_int = NOT (mask 31)"
    by (simp add: X86_FEATURE_HYPERVISOR_int_def mask_eq_exp_minus_1)
  then have "bit X86_FEATURE_HYPERVISOR_int n \<longleftrightarrow> bit (NOT (mask 31) :: u64) n"
    by (simp only:)
  also have "\<dots> \<longleftrightarrow> 31 \<le> n \<and> n < 64"
    unfolding bit_not_iff bit_mask_iff by auto
  finally show "bit X86_FEATURE_HYPERVISOR_int n \<longleftrightarrow> 31 \<le> n \<and> n < 64" .
qed (unfold push_bit_eq_mult mult_1 bit_exp_iff, auto)

lemma reg_of_cpuid_leaf:
  assumes "regs_ok cpu"
  shows "reg_of (cpuid_leaf env cpu) r =
    (let op = ucast (reg_of cpu RAX) :: u32; sub = ucast (reg_of cpu RCX) :: u32 in
     if r = RAX then ucast (cpuid_eax env op sub) else if r = RBX then ucast (cpuid_ebx env op sub)
     else if r = RCX then ucast (cpuid_ecx env op sub) else if r = RDX then ucast (cpuid_edx env op sub)
     else reg_of cpu r)"
  using assms by (auto simp: cpuid_leaf_def Let_def reg_of_def set_reg_def regs_ok_def nth_list_update)

lemma regs_ok_cpuid_leaf [simp]: "regs_ok (cpuid_leaf env cpu) = regs_ok cpu"
  by (simp add: cpuid_leaf_def Let_def)

lemma vmcs_cpuid_leaf [simp]: "vmcs (cpuid_leaf env cpu) = vmcs cpu" "vmcs (stat_inc k cpu) = vmcs cpu"
  by (simp_all add: cpuid_leaf_def set_reg_def stat_inc_def Let_def)

text \<open>What a guest sees of CPUID leaf 1: the processor's feature word, with OSXSAVE telling the
  guest's own CR4 setting; and, outside the root target, VMX hidden and the hypervisor flag set. The
  flag is sign-extended: bits 32 to 63 of the register, which the instruction should clear, are ones.\<close>

theorem vcpu_cpuid_leaf1:
  assumes "regs_ok cpu" "(ucast (reg_of cpu RAX) :: u32) = 1" "n < 64"
  shows "bit (reg_of (vcpu_handle_cpuid env lim is_root cpu) RCX) n \<longleftrightarrow>
    (if n = 27 then bit (vcpu_vendor_get_guest_cr4 lim (vmcs cpu)) 18
     else if \<not> is_root \<and> n = 5 then False
     else if \<not> is_root \<and> n \<ge> 31 then True
     else bit (cpuid_ecx env 1 (ucast (reg_of cpu RCX))) n)"
proof -
  have osx: "v AND 0x40000 \<noteq> 0 \<longleftrightarrow> bit v 18" for v :: u64
    using single_bit_and_zero_iff [of 18 v] by (simp add: push_bit_eq_mult)
  have r: "reg_of (cpuid_leaf env (stat_inc k cpu)) RCX = ucast (cpuid_ecx env 1 (ucast (reg_of cpu RCX)))" for k
    using assms(1,2) by (simp add: reg_of_cpuid_leaf Let_def)
  have len: "n < LENGTH(64)" "n < 64"
    using assms(3) by simp_all
  have out: "reg_of (vcpu_handle_cpuid env lim is_root cpu) RCX =
    (let rcx = ucast (cpuid_ecx env 1 (ucast (reg_of cpu RCX))) :: u64;
         rcx = (if is_root then rcx else (rcx AND NOT (push_bit 5 1)) OR X86_FEATURE_HYPERVISOR_int);
         rcx = rcx AND NOT (push_bit 27 1)
     in if bit (vcpu_vendor_get_guest_cr4 lim (vmcs cpu)) 18 then rcx OR push_bit 27 1 else rcx)"
    unfolding vcpu_handle_cpuid_def Let_def assms(2) osx
    using assms(1) r by (simp add: reg_set_reg)
  show ?thesis
    unfolding out Let_def using len
    by (auto simp only: masks bit_and_iff bit_or_iff bit_not_iff bit_ucast_iff possible_bit_word split: if_splits)
qed


subsection \<open>Shadow PAT and MTRR state\<close>

lemma vmcs_writes_other:
  "f \<notin> fst ` set ws \<Longrightarrow> snd (vmcs_writes env ws m) f = m f"
proof (induction ws arbitrary: m)
  case Nil
  then show ?case by simp
next
  case (Cons w ws)
  obtain field val where w: "w = (field, val)"
    by (metis surj_pair)
  have "snd (vmcs_writes env (w # ws) m) = snd (vmcs_writes env ws (snd (vmcs_write64 env field val m)))"
    by (simp add: w split: prod.splits)
  then show ?case
    using Cons w by (simp add: vmcs_write64_def)
qed

text \<open>What a reset leaves alone: the guest's PAT field is written by no part of it.\<close>

lemma vcpu_vendor_reset_keeps_pat:
  assumes "vcpu_vendor_reset env lim bsp_sipi addr vec cpu = Some cpu'"
  shows "\<exists>m. cpu' = cpu\<lparr>vmcs := m\<rparr> \<and> m GUEST_IA32_PAT = vmcs cpu GUEST_IA32_PAT"
proof -
  let ?ws = "guest_cr_writes lim CR0_IDX (X86_CR0_NW OR X86_CR0_CD OR X86_CR0_ET) @
          guest_cr_writes lim CR4_IDX 0 @
          [(GUEST_CR3, 0), (GUEST_RFLAGS, 0x02), (GUEST_RSP, 0)] @
          reset_entry_writes bsp_sipi addr vec @ reset_segment_writes"
  have "GUEST_IA32_PAT \<notin> fst ` set ?ws"
    by (simp add: write_lists Let_def)
  then have first: "snd (vmcs_writes env ?ws m) GUEST_IA32_PAT = m GUEST_IA32_PAT" for m
    by (rule vmcs_writes_other)
  have "GUEST_IA32_PAT \<notin> fst ` set ((VM_ENTRY_CONTROLS, v) # target_config_writes env)" for v
    by (simp add: target_config_writes_def)
  then have second: "snd (vmcs_writes env ((VM_ENTRY_CONTROLS, v) # target_config_writes env) m) GUEST_IA32_PAT =
      m GUEST_IA32_PAT" for v m
    by (rule vmcs_writes_other)
  obtain ok1 m1 where w1: "vmcs_writes env ?ws (vmcs cpu) = (ok1, m1)"
    by (metis surj_pair)
  obtain ok2 m2 where w2: "vmcs_writes env ((VM_ENTRY_CONTROLS,
      w32 (w32 (m1 VM_ENTRY_CONTROLS) AND NOT VM_ENTRY_IA32E_MODE)) # target_config_writes env) m1 = (ok2, m2)"
    by (metis surj_pair)
  have "cpu' = cpu\<lparr>vmcs := m2\<rparr>"
    using assms unfolding vcpu_vendor_reset_def w1 prod.case w2 by (simp split: if_splits)
  moreover have "m2 GUEST_IA32_PAT = vmcs cpu GUEST_IA32_PAT"
    using first [of "vmcs cpu"] second [of _ m1] unfolding w1 by (metis snd_conv w2)
  ultimately show ?thesis by blast
qed

text \<open>
  The steps that touch the shadow state or run between such steps. \<open>guest\<close> is the guest running and
  the processor saving its state: it may change registers and VMCS fields, but not its PAT, because
  writes to that register exit.
\<close>

definition not_x2apic :: "per_cpu \<Rightarrow> bool" where
  "not_x2apic cpu \<longleftrightarrow> \<not> (MSR_X2APIC_BASE \<le> reg_of cpu RCX \<and> reg_of cpu RCX \<le> MSR_X2APIC_END)"

inductive pat_step :: "per_cpu \<Rightarrow> per_cpu \<Rightarrow> bool" where
  guest: "length regs = 16 \<Longrightarrow> m GUEST_IA32_PAT = vmcs cpu GUEST_IA32_PAT \<Longrightarrow>
    pat_step cpu (cpu\<lparr>guest_regs := regs, vmcs := m\<rparr>)"
| msr_read: "not_x2apic cpu \<Longrightarrow> vcpu_handle_msr_read env ext cpu = (ok, cpu') \<Longrightarrow> pat_step cpu cpu'"
| msr_write: "vmwrite_ok env GUEST_IA32_PAT \<Longrightarrow> not_x2apic cpu \<Longrightarrow>
    vcpu_handle_msr_write env ext cpu = (ok, cpu') \<Longrightarrow> pat_step cpu cpu'"
| cpuid: "pat_step cpu (vcpu_handle_cpuid env lim is_root cpu)"
| reset: "vmwrite_ok env GUEST_IA32_PAT \<Longrightarrow>
    vcpu_reset env lim bsp_sipi addr vec cpu = Some cpu' \<Longrightarrow> pat_step cpu cpu'"

definition mtrr_on :: "per_cpu \<Rightarrow> bool" where
  "mtrr_on cpu \<longleftrightarrow> mtrr_def_type cpu AND MTRR_ENABLE \<noteq> 0"

definition pat_start :: "per_cpu \<Rightarrow> bool" where
  "pat_start cpu \<longleftrightarrow> regs_ok cpu \<and> pat_valid (pat cpu) \<and> mtrr_on cpu \<and> vmcs cpu GUEST_IA32_PAT = pat cpu"

definition pat_inv :: "per_cpu \<Rightarrow> bool" where
  "pat_inv cpu \<longleftrightarrow> regs_ok cpu \<and> pat_valid (pat cpu) \<and>
     vmcs cpu GUEST_IA32_PAT = (if mtrr_on cpu then pat cpu else 0)"

text \<open>The operations that leave PAT, MTRR type and the guest's PAT field as they are.\<close>

lemma pat_inv_set_reg [simp]: "pat_inv (set_reg r v cpu) = pat_inv cpu"
  by (simp add: pat_inv_def mtrr_on_def regs_ok_def set_reg_def)

lemma pat_inv_stat_inc [simp]: "pat_inv (stat_inc n cpu) = pat_inv cpu"
  by (simp add: pat_inv_def mtrr_on_def regs_ok_def stat_inc_def)

lemma pat_inv_skip [simp]: "pat_inv (vcpu_skip_emulated_instruction env len cpu) = pat_inv cpu"
  by (simp add: pat_inv_def mtrr_on_def regs_ok_def vcpu_skip_emulated_instruction_def vmcs_write64_def)

lemma pat_inv_set_rdmsr [simp]: "pat_inv (set_rdmsr_value v cpu) = pat_inv cpu"
  by (simp add: set_rdmsr_value_def)

lemma pat_inv_cpuid: "pat_inv (vcpu_handle_cpuid env lim is_root cpu) = pat_inv cpu"
  by (simp add: vcpu_handle_cpuid_def cpuid_leaf_def Let_def)

lemma pat_valid_consts: "pat_valid 0" "pat_valid PAT_RESET_VALUE"
  by (simp_all add: pat_valid_def pat_type_ok_def drop_bit_eq_div)

lemma mtrr_enable_update:
  fixes v w :: u64
  shows "((v AND NOT MTRR_ENABLE) OR (w AND MTRR_ENABLE)) AND MTRR_ENABLE = w AND MTRR_ENABLE"
    "(v AND NOT MTRR_ENABLE) AND MTRR_ENABLE = 0"
  by (rule bit_word_eqI; auto simp: bit_simps)+

lemma pat_inv_msr_write:
  assumes "pat_inv cpu" "vmwrite_ok env GUEST_IA32_PAT" "not_x2apic cpu"
  shows "pat_inv (snd (vcpu_handle_msr_write env ext cpu))"
proof -
  have pat_case: "pat_inv (let cpu = cpu\<lparr>pat := val\<rparr> in
      if mtrr_def_type cpu AND MTRR_ENABLE \<noteq> 0 then vcpu_vendor_set_guest_pat env val cpu else cpu)"
    if "pat_inv cpu" "pat_valid val" for cpu val
    using that assms(2)
    by (simp add: pat_inv_def mtrr_on_def regs_ok_def vcpu_vendor_set_guest_pat_def vmcs_write64_def Let_def)
  have mtrr_case: "pat_inv (vcpu_vendor_set_guest_pat env (if val AND MTRR_ENABLE \<noteq> 0 then pat cpu else 0)
      (cpu\<lparr>mtrr_def_type := (mtrr_def_type cpu AND NOT MTRR_ENABLE) OR (val AND MTRR_ENABLE)\<rparr>))"
    if "pat_inv cpu" for cpu val
    using that assms(2) mtrr_enable_update(1) [of "mtrr_def_type cpu" val]
    by (simp add: pat_inv_def mtrr_on_def regs_ok_def vcpu_vendor_set_guest_pat_def vmcs_write64_def)
  consider "reg_of cpu RCX = 0x277" | "reg_of cpu RCX = 0x2ff" | "reg_of cpu RCX \<noteq> 0x277" "reg_of cpu RCX \<noteq> 0x2ff"
    by blast
  then show ?thesis
  proof cases
    case 1
    then show ?thesis
      unfolding vcpu_handle_msr_write_def Let_def
      using assms(1) pat_case by (simp add: Let_def)
  next
    case 2
    let ?cpu = "stat_inc SPY_CPU_STAT_VMEXITS_MSR_OTHER cpu"
    have "pat_inv ?cpu"
      using assms(1) by simp
    from mtrr_case [OF this, of "get_wrmsr_value ?cpu"] show ?thesis
      unfolding vcpu_handle_msr_write_def Let_def 2
      by (cases "get_wrmsr_value ?cpu AND MTRR_ENABLE = 0") simp_all
  next
    case 3
    then show ?thesis
      using assms(1,3) by (auto simp: vcpu_handle_msr_write_def not_x2apic_def Let_def)
  qed
qed


lemma pat_inv_msr_read:
  "pat_inv cpu \<Longrightarrow> not_x2apic cpu \<Longrightarrow> pat_inv (snd (vcpu_handle_msr_read env ext cpu))"
  by (auto simp: vcpu_handle_msr_read_def not_x2apic_def Let_def)

lemma pat_inv_reset:
  assumes "pat_inv cpu" "vmwrite_ok env GUEST_IA32_PAT" "vcpu_reset env lim bsp_sipi addr vec cpu = Some cpu'"
  shows "pat_inv cpu'"
proof -
  obtain c where c: "vcpu_vendor_reset env lim bsp_sipi addr vec cpu = Some c"
    using assms(3) by (auto simp: vcpu_reset_def split: option.splits)
  obtain m where m: "c = cpu\<lparr>vmcs := m\<rparr>" "m GUEST_IA32_PAT = vmcs cpu GUEST_IA32_PAT"
    using vcpu_vendor_reset_keeps_pat [OF c] by blast
  then have "pat_inv (c\<lparr>guest_regs := replicate 16 0\<rparr>)"
    using assms(1) by (simp add: pat_inv_def regs_ok_def mtrr_on_def)
  moreover have "pat_inv (vcpu_vendor_set_guest_pat env 0
      (d\<lparr>pat := PAT_RESET_VALUE, mtrr_def_type := mtrr_def_type d AND NOT MTRR_ENABLE\<rparr>))" 
    if "d = c\<lparr>guest_regs := replicate 16 0\<rparr>" for d
    using that assms(2) mtrr_enable_update(2) pat_valid_consts(2)
    by (simp add: pat_inv_def mtrr_on_def vcpu_vendor_set_guest_pat_def vmcs_write64_def regs_ok_def)
  ultimately show ?thesis
    using assms(3) unfolding vcpu_reset_def c option.case Let_def by (auto split: if_splits)
qed

interpretation pat_shadow: transition_system pat_start pat_step pat_inv
proof
  fix s :: per_cpu
  show "pat_start s \<Longrightarrow> pat_inv s"
    by (simp add: pat_start_def pat_inv_def)
next
  fix s s' :: per_cpu
  assume inv: "pat_inv s" and step: "pat_step s s'"
  from step show "pat_inv s'"
  proof cases
    case (guest regs m)
    then show ?thesis
      using inv by (simp add: pat_inv_def regs_ok_def mtrr_on_def)
  next
    case (msr_read env ext ok)
    then show ?thesis
      using pat_inv_msr_read [OF inv, of env ext] by simp
  next
    case (msr_write env ext ok)
    then show ?thesis
      using pat_inv_msr_write [OF inv, of env ext] by simp
  next
    case (cpuid env lim is_root)
    then show ?thesis
      using inv by (simp add: pat_inv_cpuid)
  next
    case (reset env lim bsp_sipi addr vec)
    then show ?thesis
      using pat_inv_reset [OF inv] by blast
  qed
qed

text \<open>C4. The guest's memory types stay under control: along any run of the guest with its MSR accesses,
  CPUID exits and resets, the PAT that the processor uses for the guest has no reserved type in any of its
  eight bytes, is the guest's own PAT while the guest has its MTRRs enabled, and is 0 - uncached everywhere -
  while it has them disabled.\<close>

theorem vcpu_guest_pat_controlled:
  assumes "pat_start cpu" "pat_step\<^sup>*\<^sup>* cpu cpu'"
  shows "pat_valid (vmcs cpu' GUEST_IA32_PAT) \<and>
    (mtrr_def_type cpu' AND MTRR_ENABLE \<noteq> 0 \<longrightarrow> vmcs cpu' GUEST_IA32_PAT = pat cpu') \<and>
    (mtrr_def_type cpu' AND MTRR_ENABLE = 0 \<longrightarrow> vmcs cpu' GUEST_IA32_PAT = 0)"
proof -
  have "pat_inv cpu'"
    using assms by (rule pat_shadow.reachable_inv)
  then show ?thesis
    using pat_valid_consts(1) by (auto simp: pat_inv_def mtrr_on_def)
qed

text \<open>A guest with its MTRRs on that writes a new MTRR default type.\<close>

definition demo_guest :: per_cpu where
  "demo_guest = demo_cpu\<lparr>guest_regs := (replicate 16 0)[RCX := 0x2ff, RAX := 0x006],
     vmcs := (\<lambda>_. 0)(GUEST_IA32_PAT := 0x0007040600070406)\<rparr>"

theorem vcpu_guest_pat_controlled_witness:
  "\<forall>ext. vmcs (snd (vcpu_handle_msr_write demo_env ext demo_guest)) GUEST_IA32_PAT = 0"
proof
  fix ext
  obtain ok cpu' where run: "vcpu_handle_msr_write demo_env ext demo_guest = (ok, cpu')"
    by (metis surj_pair)
  have start: "pat_start demo_guest"
    using pat_valid_consts(2)
    by (simp add: pat_start_def regs_ok_def mtrr_on_def demo_guest_def demo_cpu_def)
  have "pat_step demo_guest cpu'"
    by (rule pat_step.msr_write [OF _ _ run])
      (simp_all add: demo_env_def not_x2apic_def reg_of_def demo_guest_def)
  from vcpu_guest_pat_controlled [OF start r_into_rtranclp [of pat_step, OF this]]
  have "mtrr_def_type cpu' AND MTRR_ENABLE = 0 \<longrightarrow> vmcs cpu' GUEST_IA32_PAT = 0"
    by blast
  moreover have "mtrr_def_type cpu' AND MTRR_ENABLE = 0"
    using run by (auto simp: vcpu_handle_msr_write_def Let_def reg_of_def get_wrmsr_value_def stat_inc_def
        demo_guest_def demo_cpu_def w32_def vcpu_skip_emulated_instruction_def vcpu_vendor_set_guest_pat_def)
  ultimately show "vmcs (snd (vcpu_handle_msr_write demo_env ext demo_guest)) GUEST_IA32_PAT = 0"
    by (simp add: run)
qed

theorem vcpu_cpuid_leaf1_witness:
  "bit (reg_of (vcpu_handle_cpuid demo_env demo_limits False (demo_cpu\<lparr>guest_regs := (replicate 16 0)[RAX := 1]\<rparr>)) RCX) 63"
  using vcpu_cpuid_leaf1 [of "demo_cpu\<lparr>guest_regs := (replicate 16 0)[RAX := 1]\<rparr>" 63 demo_env demo_limits False]
  by (simp add: regs_ok_def reg_of_def)

subsection \<open>Instruction bytes\<close>

text \<open>The bytes handed out lie in the page that was mapped.\<close>

lemma vcpu_map_inst_in_page:
  assumes "vcpu_map_inst get_page pc len = Some (page, offs, n)"
  shows "0 < unat n \<and> unat n \<le> unat len \<and> unat offs + unat n \<le> 4096"
proof -
  have "unat (pc AND PAGE_OFFS_MASK) < 4096"
    by (rule unat_and_mask_less) (simp add: PAGE_OFFS_MASK_def PAGE_MASK_def)
  note offs = this
  define avail where "avail = (ucast (ucast (PAGE_SIZE - (pc AND PAGE_OFFS_MASK)) :: u16) :: u32)"
  have "unat avail = 4096 - unat (pc AND PAGE_OFFS_MASK)"
    using offs unfolding avail_def
    by (simp add: unsigned_ucast_eq unat_mod_distrib take_bit_eq_mod unat_sub word_le_nat_alt)
  then show ?thesis
    using assms offs unfolding vcpu_map_inst_def Let_def word_less_nat_alt avail_def [symmetric]
    by (auto simp: unat_gt_0 split: if_splits option.splits)
qed

end
