(* ===== verification/Spy_Ept.thy ===== *)
theory Spy_Ept
  imports Spy_Vmcs
begin

text \<open>
  The intercepts and the extended page table of a target: the MSR bitmap, \<open>vcpu_vendor_early_init\<close>,
  and the memory functions of \<open>vmx.c\<close>. The page table walker itself (\<open>paging_create\<close>,
  \<open>paging_destroy\<close>) is not part of the repository; the calls to it are modelled as the requests that
  are made, with the entry formats it uses taken from \<open>Spy_Paging\<close>.
\<close>

subsection \<open>The MSR bitmap\<close>

text \<open>
  A designated array initialiser \<open>[first ... last] = value\<close>, in bytes; bytes that no range names
  are 0. The ranges are the ones of the source, an MSR number \<open>a\<close> standing for the byte \<open>a / 8\<close>.
\<close>

fun range_value :: "(nat \<times> nat \<times> u8) list \<Rightarrow> nat \<Rightarrow> u8" where
  "range_value [] i = 0"
| "range_value ((a, b, v) # rs) i = (if a div 8 \<le> i \<and> i \<le> b div 8 then v else range_value rs i)"

definition range_init :: "(nat \<times> nat \<times> u8) list \<Rightarrow> u8 list" where
  "range_init rs = map (range_value rs) [0..<0x2000 div 8]"

definition msr_bitmap_0000_read :: "(nat \<times> nat \<times> u8) list" where
  "msr_bitmap_0000_read =
     [(0, 0x26f, 0), (0x270, 0x277, 0x80), (0x278, 0x2f7, 0), (0x2f8, 0x2ff, 0x80), (0x300, 0x7ff, 0),
      (0x800, 0x807, 0x0c), (0x808, 0x80f, 0xa5), (0x810, 0x817, 0xff), (0x818, 0x81f, 0xff),
      (0x820, 0x827, 0xff), (0x828, 0x82f, 0x81), (0x830, 0x837, 0xfd), (0x838, 0x83f, 0x43),
      (0x840, 0x1fff, 0)]"

definition msr_bitmap_0000_write :: "(nat \<times> nat \<times> u8) list" where
  "msr_bitmap_0000_write =
     [(0, 0x17, 0), (0x18, 0x1f, 0x08), (0x20, 0x1ff, 0), (0x200, 0x277, 0xff), (0x278, 0x2f7, 0),
      (0x2f8, 0x2ff, 0x80), (0x300, 0x387, 0), (0x388, 0x38f, 0x80), (0x390, 0x7ff, 0),
      (0x808, 0x80f, 0x89), (0x810, 0x827, 0), (0x828, 0x82f, 0x81), (0x830, 0x837, 0xfd),
      (0x838, 0x83f, 0xc1), (0x840, 0xd8f, 0xff), (0xd90, 0x1fff, 0)]"

record msr_bitmap =
  bmp_0000_read :: "u8 list"
  bmp_c000_read :: "u8 list"
  bmp_0000_write :: "u8 list"
  bmp_c000_write :: "u8 list"

definition initial_msr_bitmap :: msr_bitmap where
  "initial_msr_bitmap =
     \<lparr>bmp_0000_read = range_init msr_bitmap_0000_read, bmp_c000_read = range_init [(0, 0x1fff, 0)],
      bmp_0000_write = range_init msr_bitmap_0000_write, bmp_c000_write = range_init [(0, 0x1fff, 0)]\<rparr>"

text \<open>\<open>memset\<close> of part of an array.\<close>

definition memset_range :: "nat \<Rightarrow> nat \<Rightarrow> u8 \<Rightarrow> u8 list \<Rightarrow> u8 list" where
  "memset_range from len v bs = take from bs @ replicate len v @ drop (from + len) bs"

definition x2apic_msr_bitmap :: "msr_bitmap \<Rightarrow> msr_bitmap" where
  "x2apic_msr_bitmap b =
     b\<lparr>bmp_0000_read := memset_range (0x800 div 8) ((0x83f - 0x800 + 1) div 8) 0 (bmp_0000_read b),
       bmp_0000_write :=
         (memset_range (0x800 div 8) ((0x83f - 0x800 + 1) div 8) 0 (bmp_0000_write b))[0x830 div 8 := 0x01]\<rparr>"

text \<open>How the processor reads a bitmap: bit \<open>msr\<close> of the part for the low MSRs.\<close>

definition msr_intercepted :: "u8 list \<Rightarrow> nat \<Rightarrow> bool" where
  "msr_intercepted bmp msr \<longleftrightarrow> bit (bmp ! (msr div 8)) (msr mod 8)"

subsection \<open>Early initialisation\<close>

text \<open>
  \<open>vcpu_vendor_early_init\<close> up to the final \<open>vcpu_target_init (&root_target)\<close>: the EPT format derived
  from the one of x86-64, and the bitmap.
\<close>

definition ept_paging_of :: "(u64 \<Rightarrow> u64 \<Rightarrow> u64) \<Rightarrow> u64 \<Rightarrow> paging list" where
  "ept_paging_of get_phys_invalid ept_cap =
     (let ept = map (\<lambda>p. p\<lparr>set_next_pt := Some ept_set_next_pt\<rparr>) (x86_64_paging get_phys_invalid);
          ept = (if ept_cap AND push_bit 17 1 = 0 then ept[1 := (ept ! 1)\<lparr>page_size := 0\<rparr>] else ept)
      in if ept_cap AND push_bit 16 1 = 0 then ept[2 := (ept ! 2)\<lparr>page_size := 0\<rparr>] else ept)"

definition vcpu_vendor_early_init ::
  "vmx_env \<Rightarrow> (u64 \<Rightarrow> u64 \<Rightarrow> u64) \<Rightarrow> bool \<Rightarrow> vmx_limits \<Rightarrow> msr_bitmap \<Rightarrow>
     errno option \<times> vmx_limits \<times> (paging list \<times> msr_bitmap) option" where
  "vcpu_vendor_early_init env get_phys_invalid using_x2apic lim bmp =
     (case vmx_check_features env lim of
        (Some e, lim) \<Rightarrow> (Some e, lim, None)
      | (None, lim) \<Rightarrow>
          (None, lim,
           Some (ept_paging_of get_phys_invalid (rdmsr env MSR_IA32_VMX_EPT_VPID_CAP),
                 if using_x2apic then x2apic_msr_bitmap bmp else bmp)))"

subsection \<open>Memory regions of a target\<close>

record spy_memory =
  mem_phys_start :: u64
  mem_virt_start :: u64
  mem_size :: u64
  mem_flags :: u64

abbreviation (input) SPY_MEM_READ :: u64 where "SPY_MEM_READ \<equiv> 0x0001"
abbreviation (input) SPY_MEM_WRITE :: u64 where "SPY_MEM_WRITE \<equiv> 0x0002"
abbreviation (input) SPY_MEM_EXECUTE :: u64 where "SPY_MEM_EXECUTE \<equiv> 0x0004"
abbreviation (input) SPY_MEM_DMA :: u64 where "SPY_MEM_DMA \<equiv> 0x0008"
abbreviation (input) SPY_MEM_COMM_REGION :: u64 where "SPY_MEM_COMM_REGION \<equiv> 0x0020"
abbreviation (input) SPY_MEM_NO_HUGEPAGES :: u64 where "SPY_MEM_NO_HUGEPAGES \<equiv> 0x0100"

abbreviation (input) EPT_FLAG_READ :: u64 where "EPT_FLAG_READ \<equiv> 0x001"
abbreviation (input) EPT_FLAG_WRITE :: u64 where "EPT_FLAG_WRITE \<equiv> 0x002"
abbreviation (input) EPT_FLAG_EXECUTE :: u64 where "EPT_FLAG_EXECUTE \<equiv> 0x004"
abbreviation (input) EPT_FLAG_WB_TYPE :: u64 where "EPT_FLAG_WB_TYPE \<equiv> 0x030"

abbreviation (input) PAGING_NON_COHERENT :: u64 where "PAGING_NON_COHERENT \<equiv> 0"
abbreviation (input) PAGING_COHERENT :: u64 where "PAGING_COHERENT \<equiv> 1"
abbreviation (input) PAGING_HUGE :: u64 where "PAGING_HUGE \<equiv> 2"

text \<open>The arguments of a call of \<open>paging_create\<close> or \<open>paging_destroy\<close>.\<close>

datatype paging_request =
  Paging_Create (req_phys: u64) (req_size: u64) (req_virt: u64) (req_access: u64) (req_paging: u64)
| Paging_Destroy (req_virt: u64) (req_size: u64) (req_paging: u64)

definition ept_access_flags :: "u64 \<Rightarrow> u64" where
  "ept_access_flags flags =
     (let acc = EPT_FLAG_WB_TYPE;
          acc = (if flags AND SPY_MEM_READ \<noteq> 0 then acc OR EPT_FLAG_READ else acc);
          acc = (if flags AND SPY_MEM_WRITE \<noteq> 0 then acc OR EPT_FLAG_WRITE else acc)
      in if flags AND SPY_MEM_EXECUTE \<noteq> 0 then acc OR EPT_FLAG_EXECUTE else acc)"

definition vcpu_map_memory_region :: "u64 \<Rightarrow> spy_memory \<Rightarrow> paging_request" where
  "vcpu_map_memory_region comm_page_phys mem =
     (let phys_start = (if mem_flags mem AND SPY_MEM_COMM_REGION \<noteq> 0 then comm_page_phys else mem_phys_start mem);
          paging_flags = PAGING_NON_COHERENT OR PAGING_HUGE;
          paging_flags = (if mem_flags mem AND SPY_MEM_NO_HUGEPAGES \<noteq> 0
                          then paging_flags AND NOT PAGING_HUGE else paging_flags)
      in Paging_Create phys_start (mem_size mem) (mem_virt_start mem) (ept_access_flags (mem_flags mem)) paging_flags)"

definition vcpu_unmap_memory_region :: "spy_memory \<Rightarrow> paging_request" where
  "vcpu_unmap_memory_region mem = Paging_Destroy (mem_virt_start mem) (mem_size mem) PAGING_NON_COHERENT"

text \<open>The APIC access page at the default APIC address \<open>xapic_base\<close>, and its removal.\<close>

definition vcpu_vendor_target_init :: "u64 \<Rightarrow> u64 \<Rightarrow> paging_request" where
  "vcpu_vendor_target_init apic_access_page_phys xapic_base =
     Paging_Create apic_access_page_phys PAGE_SIZE xapic_base
       (EPT_FLAG_READ OR EPT_FLAG_WRITE OR EPT_FLAG_WB_TYPE) (PAGING_NON_COHERENT OR 0)"

definition vcpu_vendor_target_exit :: "u64 \<Rightarrow> paging_request" where
  "vcpu_vendor_target_exit xapic_base = Paging_Destroy xapic_base PAGE_SIZE PAGING_NON_COHERENT"

text \<open>\<open>vcpu_tlb_flush\<close>: the type and the descriptor of its \<open>invept\<close>.\<close>

definition vcpu_tlb_flush :: "vmx_env \<Rightarrow> (u64 \<Rightarrow> u64) \<Rightarrow> u64 \<times> u64 \<times> u64" where
  "vcpu_tlb_flush env m =
     (if rdmsr env MSR_IA32_VMX_EPT_VPID_CAP AND push_bit 25 1 \<noteq> 0 then (1, m EPT_POINTER, 0) else (2, 0, 0))"

subsection \<open>Facts\<close>

lemma length_memset_range [simp]:
  "from + len \<le> length bs \<Longrightarrow> length (memset_range from len v bs) = length bs"
  by (simp add: memset_range_def)

lemma nth_memset_range:
  assumes "from + len \<le> length bs" "i < length bs"
  shows "memset_range from len v bs ! i = (if from \<le> i \<and> i < from + len then v else bs ! i)"
  using assms by (auto simp: memset_range_def nth_append min_def)

lemma length_range_init [simp]: "length (range_init rs) = 0x400"
  by (simp add: range_init_def)

lemma nth_range_init: "i < 0x400 \<Longrightarrow> range_init rs ! i = range_value rs i"
  by (simp add: range_init_def)

text \<open>The bits of the table's bytes.\<close>

lemma bit_table_bytes:
  assumes "k < 8"
  shows "bit (0xff :: int) k" "bit (0x80 :: int) k \<longleftrightarrow> k = 7" "bit (0x08 :: int) k \<longleftrightarrow> k = 3"
    "bit (0x0c :: int) k \<longleftrightarrow> k = 2 \<or> k = 3" "bit (0xa5 :: int) k \<longleftrightarrow> k = 0 \<or> k = 2 \<or> k = 5 \<or> k = 7"
    "bit (0x81 :: int) k \<longleftrightarrow> k = 0 \<or> k = 7" "bit (0xfd :: int) k \<longleftrightarrow> k = 0 \<or> 2 \<le> k"
    "bit (0x43 :: int) k \<longleftrightarrow> k \<le> 1 \<or> k = 6" "bit (0x89 :: int) k \<longleftrightarrow> k = 0 \<or> k = 3 \<or> k = 7"
    "bit (0xc1 :: int) k \<longleftrightarrow> k = 0 \<or> k = 6 \<or> k = 7" "bit (0x01 :: int) k \<longleftrightarrow> k = 0"
proof -
  have "k = 0 \<or> k = 1 \<or> k = 2 \<or> k = 3 \<or> k = 4 \<or> k = 5 \<or> k = 6 \<or> k = 7"
    using assms by linarith
  then show "bit (0xff :: int) k" "bit (0x80 :: int) k \<longleftrightarrow> k = 7" "bit (0x08 :: int) k \<longleftrightarrow> k = 3"
    "bit (0x0c :: int) k \<longleftrightarrow> k = 2 \<or> k = 3" "bit (0xa5 :: int) k \<longleftrightarrow> k = 0 \<or> k = 2 \<or> k = 5 \<or> k = 7"
    "bit (0x81 :: int) k \<longleftrightarrow> k = 0 \<or> k = 7" "bit (0xfd :: int) k \<longleftrightarrow> k = 0 \<or> 2 \<le> k"
    "bit (0x43 :: int) k \<longleftrightarrow> k \<le> 1 \<or> k = 6" "bit (0x89 :: int) k \<longleftrightarrow> k = 0 \<or> k = 3 \<or> k = 7"
    "bit (0xc1 :: int) k \<longleftrightarrow> k = 0 \<or> k = 6 \<or> k = 7" "bit (0x01 :: int) k \<longleftrightarrow> k = 0"
    by (elim disjE; simp)+
qed


definition msr_write_intercepts :: "nat \<Rightarrow> bool" where
  "msr_write_intercepts msr \<longleftrightarrow>
     msr = 0x1b \<or> 0x200 \<le> msr \<and> msr \<le> 0x277 \<or> msr = 0x2ff \<or> msr = 0x38f \<or>
     msr = 0x808 \<or> msr = 0x80b \<or> msr = 0x80f \<or> msr = 0x828 \<or> msr = 0x82f \<or> msr = 0x830 \<or>
     0x832 \<le> msr \<and> msr \<le> 0x838 \<or> msr = 0x83e \<or> msr = 0x83f \<or> 0x840 \<le> msr \<and> msr \<le> 0xd8f"

definition msr_read_intercepts :: "nat \<Rightarrow> bool" where
  "msr_read_intercepts msr \<longleftrightarrow>
     msr = 0x277 \<or> msr = 0x2ff \<or> msr = 0x802 \<or> msr = 0x803 \<or> msr = 0x808 \<or> msr = 0x80a \<or>
     msr = 0x80d \<or> msr = 0x80f \<or> 0x810 \<le> msr \<and> msr \<le> 0x828 \<or> msr = 0x82f \<or> msr = 0x830 \<or>
     0x832 \<le> msr \<and> msr \<le> 0x839 \<or> msr = 0x83e"

lemma bit_range_value_write1:
  assumes "i < 0x72" "0 \<le> i" "k < 8"
  shows "bit (range_value msr_bitmap_0000_write i) k \<longleftrightarrow> msr_write_intercepts (8 * i + k)"
proof -
  consider "0x0 \<le> i" "i \<le> 0x2" | "i = 0x3" | "0x4 \<le> i" "i \<le> 0x3f" | "0x40 \<le> i" "i \<le> 0x4e" | "0x4f \<le> i" "i \<le> 0x5e" | "i = 0x5f" | "0x60 \<le> i" "i \<le> 0x70" | "i = 0x71"
    using assms(1,2) by linarith
  then show ?thesis
  proof cases
    case 1
    then show ?thesis
      unfolding msr_write_intercepts_def msr_bitmap_0000_write_def using assms by (simp add: bit_table_bytes [OF \<open>k < 8\<close>])
  next
    case 2
    then show ?thesis
      unfolding msr_write_intercepts_def msr_bitmap_0000_write_def using assms by (simp add: bit_table_bytes [OF \<open>k < 8\<close>])
  next
    case 3
    then show ?thesis
      unfolding msr_write_intercepts_def msr_bitmap_0000_write_def using assms by (simp add: bit_table_bytes [OF \<open>k < 8\<close>])
  next
    case 4
    then show ?thesis
      unfolding msr_write_intercepts_def msr_bitmap_0000_write_def using assms by (simp add: bit_table_bytes [OF \<open>k < 8\<close>])
  next
    case 5
    then show ?thesis
      unfolding msr_write_intercepts_def msr_bitmap_0000_write_def using assms by (simp add: bit_table_bytes [OF \<open>k < 8\<close>])
  next
    case 6
    then show ?thesis
      unfolding msr_write_intercepts_def msr_bitmap_0000_write_def using assms by (simp add: bit_table_bytes [OF \<open>k < 8\<close>])
  next
    case 7
    then show ?thesis
      unfolding msr_write_intercepts_def msr_bitmap_0000_write_def using assms by (simp add: bit_table_bytes [OF \<open>k < 8\<close>])
  next
    case 8
    then show ?thesis
      unfolding msr_write_intercepts_def msr_bitmap_0000_write_def using assms by (simp add: bit_table_bytes [OF \<open>k < 8\<close>])
  qed
qed

lemma bit_range_value_write2:
  assumes "i < 0x400" "0x72 \<le> i" "k < 8"
  shows "bit (range_value msr_bitmap_0000_write i) k \<longleftrightarrow> msr_write_intercepts (8 * i + k)"
proof -
  consider "0x72 \<le> i" "i \<le> 0x100" | "i = 0x101" | "0x102 \<le> i" "i \<le> 0x104" | "i = 0x105" | "i = 0x106" | "i = 0x107" | "0x108 \<le> i" "i \<le> 0x1b1" | "0x1b2 \<le> i" "i \<le> 0x3ff"
    using assms(1,2) by linarith
  then show ?thesis
  proof cases
    case 1
    then show ?thesis
      unfolding msr_write_intercepts_def msr_bitmap_0000_write_def using assms by (simp add: bit_table_bytes [OF \<open>k < 8\<close>])
  next
    case 2
    then show ?thesis
      unfolding msr_write_intercepts_def msr_bitmap_0000_write_def using assms by (simp add: bit_table_bytes [OF \<open>k < 8\<close>])
  next
    case 3
    then show ?thesis
      unfolding msr_write_intercepts_def msr_bitmap_0000_write_def using assms by (simp add: bit_table_bytes [OF \<open>k < 8\<close>])
  next
    case 4
    then show ?thesis
      unfolding msr_write_intercepts_def msr_bitmap_0000_write_def using assms by (simp add: bit_table_bytes [OF \<open>k < 8\<close>])
  next
    case 5
    then show ?thesis
      unfolding msr_write_intercepts_def msr_bitmap_0000_write_def using assms by (simp add: bit_table_bytes [OF \<open>k < 8\<close>])
  next
    case 6
    then show ?thesis
      unfolding msr_write_intercepts_def msr_bitmap_0000_write_def using assms by (simp add: bit_table_bytes [OF \<open>k < 8\<close>])
  next
    case 7
    then show ?thesis
      unfolding msr_write_intercepts_def msr_bitmap_0000_write_def using assms by (simp add: bit_table_bytes [OF \<open>k < 8\<close>])
  next
    case 8
    then show ?thesis
      unfolding msr_write_intercepts_def msr_bitmap_0000_write_def using assms by (simp add: bit_table_bytes [OF \<open>k < 8\<close>])
  qed
qed

lemma bit_range_value_read:
  assumes "i < 0x400" "0 \<le> i" "k < 8"
  shows "bit (range_value msr_bitmap_0000_read i) k \<longleftrightarrow> msr_read_intercepts (8 * i + k)"
proof -
  consider "0x0 \<le> i" "i \<le> 0x4d" | "i = 0x4e" | "0x4f \<le> i" "i \<le> 0x5e" | "i = 0x5f" | "0x60 \<le> i" "i \<le> 0xff" | "i = 0x100" | "i = 0x101" | "0x102 \<le> i" "i \<le> 0x104" | "i = 0x105" | "i = 0x106" | "i = 0x107" | "0x108 \<le> i" "i \<le> 0x3ff"
    using assms(1,2) by linarith
  then show ?thesis
  proof cases
    case 1
    then show ?thesis
      unfolding msr_read_intercepts_def msr_bitmap_0000_read_def using assms by (simp add: bit_table_bytes [OF \<open>k < 8\<close>])
  next
    case 2
    then show ?thesis
      unfolding msr_read_intercepts_def msr_bitmap_0000_read_def using assms by (simp add: bit_table_bytes [OF \<open>k < 8\<close>])
  next
    case 3
    then show ?thesis
      unfolding msr_read_intercepts_def msr_bitmap_0000_read_def using assms by (simp add: bit_table_bytes [OF \<open>k < 8\<close>])
  next
    case 4
    then show ?thesis
      unfolding msr_read_intercepts_def msr_bitmap_0000_read_def using assms by (simp add: bit_table_bytes [OF \<open>k < 8\<close>])
  next
    case 5
    then show ?thesis
      unfolding msr_read_intercepts_def msr_bitmap_0000_read_def using assms by (simp add: bit_table_bytes [OF \<open>k < 8\<close>])
  next
    case 6
    then show ?thesis
      unfolding msr_read_intercepts_def msr_bitmap_0000_read_def using assms by (simp add: bit_table_bytes [OF \<open>k < 8\<close>])
  next
    case 7
    then show ?thesis
      unfolding msr_read_intercepts_def msr_bitmap_0000_read_def using assms by (simp add: bit_table_bytes [OF \<open>k < 8\<close>])
  next
    case 8
    then show ?thesis
      unfolding msr_read_intercepts_def msr_bitmap_0000_read_def using assms by (simp add: bit_table_bytes [OF \<open>k < 8\<close>])
  next
    case 9
    then show ?thesis
      unfolding msr_read_intercepts_def msr_bitmap_0000_read_def using assms by (simp add: bit_table_bytes [OF \<open>k < 8\<close>])
  next
    case 10
    then show ?thesis
      unfolding msr_read_intercepts_def msr_bitmap_0000_read_def using assms by (simp add: bit_table_bytes [OF \<open>k < 8\<close>])
  next
    case 11
    then show ?thesis
      unfolding msr_read_intercepts_def msr_bitmap_0000_read_def using assms by (simp add: bit_table_bytes [OF \<open>k < 8\<close>])
  next
    case 12
    then show ?thesis
      unfolding msr_read_intercepts_def msr_bitmap_0000_read_def using assms by (simp add: bit_table_bytes [OF \<open>k < 8\<close>])
  qed
qed

lemma bit_range_value_write:
  "i < 0x400 \<Longrightarrow> k < 8 \<Longrightarrow> bit (range_value msr_bitmap_0000_write i) k \<longleftrightarrow> msr_write_intercepts (8 * i + k)"
  using bit_range_value_write1 [of i k] bit_range_value_write2 [of i k] by (cases "i < 0x72") simp_all

text \<open>The six tables, one by one.\<close>

lemma msr_bitmap_tables:
  assumes "msr < 0x2000"
  shows "msr_intercepted (bmp_0000_write initial_msr_bitmap) msr \<longleftrightarrow> msr_write_intercepts msr"
    "msr_intercepted (bmp_0000_read initial_msr_bitmap) msr \<longleftrightarrow> msr_read_intercepts msr"
    "\<not> msr_intercepted (bmp_c000_write initial_msr_bitmap) msr"
    "\<not> msr_intercepted (bmp_c000_read initial_msr_bitmap) msr"
    "msr_intercepted (bmp_0000_write (x2apic_msr_bitmap initial_msr_bitmap)) msr \<longleftrightarrow>
       (if 0x800 \<le> msr \<and> msr \<le> 0x83f then msr = 0x830 else msr_write_intercepts msr)"
    "msr_intercepted (bmp_0000_read (x2apic_msr_bitmap initial_msr_bitmap)) msr \<longleftrightarrow>
       msr_read_intercepts msr \<and> \<not> (0x800 \<le> msr \<and> msr \<le> 0x83f)"
proof -
  define i k where "i = msr div 8" and "k = msr mod 8"
  have msr: "msr = 8 * i + k" and ik: "i < 0x400" "k < 8"
    using assms by (auto simp: i_def k_def)
  have split: "(8 * i + k) div 8 = i" "(8 * i + k) mod 8 = k"
    using ik by simp_all
  note sel = msr_intercepted_def msr split initial_msr_bitmap_def x2apic_msr_bitmap_def msr_bitmap.simps
  show "msr_intercepted (bmp_0000_write initial_msr_bitmap) msr \<longleftrightarrow> msr_write_intercepts msr"
    unfolding sel using ik by (simp add: nth_range_init bit_range_value_write)
  show "msr_intercepted (bmp_0000_read initial_msr_bitmap) msr \<longleftrightarrow> msr_read_intercepts msr"
    unfolding sel using ik by (simp add: nth_range_init bit_range_value_read)
  show "\<not> msr_intercepted (bmp_c000_write initial_msr_bitmap) msr"
    "\<not> msr_intercepted (bmp_c000_read initial_msr_bitmap) msr"
    unfolding sel using ik by (simp_all add: nth_range_init)
  have zone: "0x800 \<le> msr \<and> msr \<le> 0x83f \<longleftrightarrow> 0x100 \<le> i \<and> i \<le> 0x107" "msr = 0x830 \<longleftrightarrow> i = 0x106 \<and> k = 0"
    using ik unfolding msr by presburger+
  show "msr_intercepted (bmp_0000_write (x2apic_msr_bitmap initial_msr_bitmap)) msr \<longleftrightarrow>
       (if 0x800 \<le> msr \<and> msr \<le> 0x83f then msr = 0x830 else msr_write_intercepts msr)"
    unfolding zone unfolding sel
    using ik by (auto simp: bit_1_iff nth_range_init nth_list_update nth_memset_range bit_range_value_write)
  show "msr_intercepted (bmp_0000_read (x2apic_msr_bitmap initial_msr_bitmap)) msr \<longleftrightarrow>
       msr_read_intercepts msr \<and> \<not> (0x800 \<le> msr \<and> msr \<le> 0x83f)"
    unfolding zone unfolding sel
    using ik by (auto simp: nth_range_init nth_memset_range bit_range_value_read)
qed

text \<open>C31. Which accesses to model-specific registers the guest can not make without an exit: exactly the
  registers that the comments of the table name, among them writes to the PAT, the MTRRs and the APIC base;
  none of the registers from 0xc0000000 on; and once the hypervisor uses the x2APIC, of the 64 x2APIC
  registers only writes to the interrupt command register.\<close>

theorem msr_bitmap_intercepts:
  assumes "msr < 0x2000"
  shows "(msr_intercepted (bmp_0000_write initial_msr_bitmap) msr \<longleftrightarrow> msr_write_intercepts msr) \<and>
    (msr_intercepted (bmp_0000_read initial_msr_bitmap) msr \<longleftrightarrow> msr_read_intercepts msr) \<and>
    \<not> msr_intercepted (bmp_c000_write initial_msr_bitmap) msr \<and>
    \<not> msr_intercepted (bmp_c000_read initial_msr_bitmap) msr \<and>
    (msr_intercepted (bmp_0000_write (x2apic_msr_bitmap initial_msr_bitmap)) msr \<longleftrightarrow>
       (if 0x800 \<le> msr \<and> msr \<le> 0x83f then msr = 0x830 else msr_write_intercepts msr)) \<and>
    (msr_intercepted (bmp_0000_read (x2apic_msr_bitmap initial_msr_bitmap)) msr \<longleftrightarrow>
       msr_read_intercepts msr \<and> \<not> (0x800 \<le> msr \<and> msr \<le> 0x83f))"
  by (intro conjI msr_bitmap_tables [OF assms])

theorem msr_bitmap_intercepts_witness:
  "msr_intercepted (bmp_0000_write initial_msr_bitmap) 0x277 \<and>
   \<not> msr_intercepted (bmp_0000_write (x2apic_msr_bitmap initial_msr_bitmap)) 0x80b"
  using msr_bitmap_intercepts [of "0x277"] msr_bitmap_intercepts [of "0x80b"]
  by (simp add: msr_write_intercepts_def)

subsection \<open>Rights of a mapped region\<close>

lemma and_single_flag:
  fixes v :: u64
  shows "v AND 1 = 0 \<longleftrightarrow> \<not> bit v 0" "v AND 2 = 0 \<longleftrightarrow> \<not> bit v 1" "v AND 4 = 0 \<longleftrightarrow> \<not> bit v 2"
    "v AND 0x20 = 0 \<longleftrightarrow> \<not> bit v 5" "v AND 0x100 = 0 \<longleftrightarrow> \<not> bit v 8"
  using single_bit_and_zero_iff [of 0 v] single_bit_and_zero_iff [of 1 v] single_bit_and_zero_iff [of 2 v]
    single_bit_and_zero_iff [of 5 v] single_bit_and_zero_iff [of 8 v]
  by (simp_all add: push_bit_eq_mult)

lemma bit_ept_access_flags:
  "bit (ept_access_flags flags) n \<longleftrightarrow>
     n = 4 \<or> n = 5 \<or> (n = 0 \<and> bit flags 0) \<or> (n = 1 \<and> bit flags 1) \<or> (n = 2 \<and> bit flags 2)"
proof -
  have b: "bit (2 ^ j :: u64) n \<longleftrightarrow> n = j" if "j < 64" for j
    using that unfolding bit_exp_iff by auto
  have "(0x030 :: u64) = 2 ^ 4 OR 2 ^ 5"
    by simp
  then have "bit (0x030 :: u64) n \<longleftrightarrow> n = 4 \<or> n = 5"
    by (simp only: bit_or_iff b)
  moreover have "bit (1 :: u64) n \<longleftrightarrow> n = 0" "bit (2 :: u64) n \<longleftrightarrow> n = 1" "bit (4 :: u64) n \<longleftrightarrow> n = 2"
    using b [of 1] b [of 2] by (simp_all add: bit_1_iff)
  note bits = calculation this
  show ?thesis
    unfolding ept_access_flags_def Let_def and_single_flag
    by (cases "bit flags 0"; cases "bit flags 1"; cases "bit flags 2")
      (auto simp only: bits bit_or_iff if_True if_False not_True_eq_False not_False_eq_True)
qed

lemma ept_access_flags_in_mask: "ept_access_flags flags AND flag_mask = ept_access_flags flags"
  by (rule bit_word_eqI) (auto simp: bit_and_iff bit_ept_access_flags masks)

text \<open>
  What an EPT leaf grants: the translation of \<open>virt\<close> is in the frame of \<open>phys\<close>, the three rights are
  those of the region's flags, and bits 3 to 5 hold the memory type write-back (6).
\<close>

definition ept_leaf_grants :: "nat \<Rightarrow> (u64 \<Rightarrow> u64 \<Rightarrow> u64) \<Rightarrow> u64 \<Rightarrow> u64 \<Rightarrow> u64 \<Rightarrow> u64 \<Rightarrow> bool" where
  "ept_leaf_grants sh phys_of pte phys virt flags \<longleftrightarrow>
     phys_of pte virt = (phys AND BIT_MASK 51 sh) OR take_bit sh virt \<and>
     (bit pte 0 \<longleftrightarrow> bit flags 0) \<and> (bit pte 1 \<longleftrightarrow> bit flags 1) \<and> (bit pte 2 \<longleftrightarrow> bit flags 2) \<and>
     \<not> bit pte 3 \<and> bit pte 4 \<and> bit pte 5"

context terminal_level
begin

lemma ept_leaf: "ept_leaf_grants sh phys_of (term_of phys (ept_access_flags flags)) phys virt flags"
  unfolding ept_leaf_grants_def phys_of_term_of [OF ept_access_flags_in_mask]
    bit_term_of [OF ept_access_flags_in_mask] bit_ept_access_flags
  using sh_range by auto

end

text \<open>C32. A mapped memory region gives the guest exactly the rights its configuration grants: for every
  leaf size, the EPT entry made from the request translates an address to the frame of the request and the
  offset, is readable, writable and executable for exactly the flags set, and has the write-back type.
  The request names the communication page instead of the configured address for a communication region,
  and allows huge pages unless the configuration forbids them.\<close>

theorem vcpu_map_memory_region_rights:
  "let req = vcpu_map_memory_region comm mem;
       phys = (if bit (mem_flags mem) 5 then comm else mem_phys_start mem);
       acc = req_access req
   in req_phys req = phys \<and> req_size req = mem_size mem \<and> req_virt req = mem_virt_start mem \<and>
      (bit (req_paging req) 1 \<longleftrightarrow> \<not> bit (mem_flags mem) 8) \<and>
      ept_leaf_grants 12 x86_64_get_phys_l1 (x86_64_set_terminal_l1 phys acc) phys virt (mem_flags mem) \<and>
      ept_leaf_grants 21 x86_64_get_phys_l2 (x86_64_set_terminal_l2 phys acc) phys virt (mem_flags mem) \<and>
      ept_leaf_grants 30 x86_64_get_phys_l3 (x86_64_set_terminal_l3 phys acc) phys virt (mem_flags mem)"
  unfolding Let_def vcpu_map_memory_region_def and_single_flag paging_request.sel
  by (simp add: level1.ept_leaf level2.ept_leaf level3.ept_leaf bit_1_iff)

end
