(* ===== verification/Spy_Exit.thy ===== *)
theory Spy_Exit
  imports Spy_Vcpu
begin

text \<open>
  VM exits: the handlers of \<open>vmx.c\<close>, the dispatcher \<open>vcpu_handle_exit\<close>, and the way back to Linux,
  \<open>vcpu_deactivate_vmm\<close>. A handler's boolean result is \<open>False\<close> where the code falls through to
  \<open>panic_park\<close>; the text it prints before that is not modelled.
\<close>

subsection \<open>Events and exceptions\<close>

definition vmx_check_events :: "vmx_env \<Rightarrow> vcpu_ext \<Rightarrow> per_cpu \<Rightarrow> per_cpu" where
  "vmx_check_events env ext cpu = ext_check_events ext (vmx_preemption_timer_set_enable env False cpu)"

abbreviation (input) INTR_TYPE_NMI_INTR :: u64 where "INTR_TYPE_NMI_INTR \<equiv> 0x200"

definition INTR_TO_VECTORING_INFO_MASK :: u64 where
  "INTR_TO_VECTORING_INFO_MASK = push_bit 31 1 OR BIT_MASK 11 0"

text \<open>\<open>int NMI_VECTOR\<close> runs the NMI handler on this CPU, through \<open>nmi_entry\<close>.\<close>

definition raise_nmi :: "vmx_env \<Rightarrow> per_cpu \<Rightarrow> per_cpu" where
  "raise_nmi env cpu =
     (if vmx_state cpu = VMCS_READY then vmx_preemption_timer_set_enable env True cpu else cpu)"

definition vmx_handle_exception_nmi :: "vmx_env \<Rightarrow> vcpu_ext \<Rightarrow> per_cpu \<Rightarrow> per_cpu" where
  "vmx_handle_exception_nmi env ext cpu =
     (let intr_info = w32 (vmcs cpu VM_EXIT_INTR_INFO) in
      vmx_check_events env ext
        (if intr_info AND BIT_MASK 10 8 = INTR_TYPE_NMI_INTR
         then raise_nmi env (stat_inc SPY_CPU_STAT_VMEXITS_MANAGEMENT cpu)
         else
           (let cpu = stat_inc SPY_CPU_STAT_VMEXITS_EXCEPTION cpu;
                m = snd (vmcs_write64 env VM_ENTRY_INTR_INFO_FIELD
                           (w32 (intr_info AND INTR_TO_VECTORING_INFO_MASK)) (vmcs cpu));
                m = snd (vmcs_write64 env VM_ENTRY_EXCEPTION_ERROR_CODE
                           (w32 (m VM_EXIT_INTR_ERROR_CODE)) m)
            in cpu\<lparr>vmcs := m\<rparr>)))"

subsection \<open>Control registers\<close>

definition update_efer :: "vmx_env \<Rightarrow> per_cpu \<Rightarrow> per_cpu" where
  "update_efer env cpu =
     (let efer = vmcs cpu GUEST_IA32_EFER in
      if efer AND (EFER_LME OR EFER_LMA) \<noteq> EFER_LME then cpu
      else
        (let m = snd (vmcs_write64 env GUEST_IA32_EFER (efer OR EFER_LMA) (vmcs cpu));
             m = snd (vmcs_write64 env VM_ENTRY_CONTROLS
                        (w32 (w32 (m VM_ENTRY_CONTROLS) OR VM_ENTRY_IA32E_MODE)) m)
         in cpu\<lparr>vmcs := m\<rparr>))"

text \<open>
  The 16 register numbers of the exit qualification, from the processor's numbering to \<open>by_index\<close>;
  number 4 is the stack pointer, which the VMCS holds.
\<close>

definition cr_source :: "per_cpu \<Rightarrow> nat \<Rightarrow> u64" where
  "cr_source cpu reg = (if reg = 4 then vmcs cpu GUEST_RSP else guest_regs cpu ! (15 - reg))"

abbreviation (input) X86_INST_LEN_MOV_TO_CR :: u32 where "X86_INST_LEN_MOV_TO_CR \<equiv> 3"
abbreviation (input) X86_INST_LEN_XSETBV :: u32 where "X86_INST_LEN_XSETBV \<equiv> 3"

definition vmx_handle_cr :: "vmx_env \<Rightarrow> vmx_limits \<Rightarrow> per_cpu \<Rightarrow> bool \<times> per_cpu" where
  "vmx_handle_cr env lim cpu =
     (let exit_qualification = vmcs cpu EXIT_QUALIFICATION;
          cr = exit_qualification AND 0xf;
          reg = drop_bit 8 exit_qualification AND 0xf
      in if drop_bit 4 exit_qualification AND 3 = 0 \<and> (cr = 0 \<or> cr = 4) then
           (let val = cr_source cpu (unat reg);
                cpu = vcpu_skip_emulated_instruction env X86_INST_LEN_MOV_TO_CR cpu;
                cpu = cpu\<lparr>vmcs := snd (vmx_set_guest_cr env lim (if cr \<noteq> 0 then CR4_IDX else CR0_IDX) val (vmcs cpu))\<rparr>
            in (True, if cr = 0 \<and> val AND X86_CR0_PG \<noteq> 0 then update_efer env cpu else cpu))
         else (False, cpu))"

subsection \<open>APIC page and extended state\<close>

abbreviation (input) APIC_ACCESS_OFFSET_MASK :: u64 where "APIC_ACCESS_OFFSET_MASK \<equiv> 0xfff"
abbreviation (input) APIC_ACCESS_TYPE_MASK :: u64 where "APIC_ACCESS_TYPE_MASK \<equiv> 0xf000"
abbreviation (input) APIC_ACCESS_TYPE_LINEAR_READ :: u64 where "APIC_ACCESS_TYPE_LINEAR_READ \<equiv> 0"
abbreviation (input) APIC_ACCESS_TYPE_LINEAR_WRITE :: u64 where "APIC_ACCESS_TYPE_LINEAR_WRITE \<equiv> 0x1000"

definition vmx_handle_apic_access :: "vmx_env \<Rightarrow> vcpu_ext \<Rightarrow> per_cpu \<Rightarrow> bool \<times> per_cpu" where
  "vmx_handle_apic_access env ext cpu =
     (let qualification = vmcs cpu EXIT_QUALIFICATION;
          offset = ucast (qualification AND APIC_ACCESS_OFFSET_MASK) :: u32;
          is_write = (qualification AND APIC_ACCESS_TYPE_LINEAR_WRITE \<noteq> 0)
      in if qualification AND APIC_ACCESS_TYPE_MASK \<noteq> APIC_ACCESS_TYPE_LINEAR_READ \<and>
            qualification AND APIC_ACCESS_TYPE_MASK \<noteq> APIC_ACCESS_TYPE_LINEAR_WRITE then (False, cpu)
         else if offset AND 0x00f \<noteq> 0 then (False, cpu)
         else
           (case vcpu_get_guest_paging_structs cpu of
              (pg_structs, cpu) \<Rightarrow>
                (case ext_apic_mmio ext pg_structs (drop_bit 4 offset) is_write cpu of
                   (len, cpu) \<Rightarrow>
                     if len = 0 then (False, cpu)
                     else (True, vcpu_skip_emulated_instruction env len cpu))))"

text \<open>\<open>vmx_handle_xsetbv\<close>; on success the value goes to the processor's XCR0.\<close>

definition vmx_handle_xsetbv :: "vmx_env \<Rightarrow> vmx_limits \<Rightarrow> per_cpu \<Rightarrow> u64 option \<times> per_cpu" where
  "vmx_handle_xsetbv env lim cpu =
     (if vcpu_vendor_get_guest_cr4 lim (vmcs cpu) AND X86_CR4_OSXSAVE \<noteq> 0 \<and>
         reg_of cpu RAX AND 0x1 \<noteq> 0 \<and>
         reg_of cpu RAX AND ucast (NOT (cpuid_eax env 0x0d 0)) = 0 \<and>
         reg_of cpu RCX = 0 \<and> reg_of cpu RDX = 0
      then (Some (reg_of cpu RAX), vcpu_skip_emulated_instruction env X86_INST_LEN_XSETBV cpu)
      else (None, cpu))"

subsection \<open>The dispatcher\<close>

text \<open>
  How an exit ends: the guest goes on, possibly after a write of XCR0; the hypervisor is left; or the
  CPU is parked.
\<close>

datatype exit_action = Resume | Resume_Xcr0 u64 | Deactivate | Panic_Park

definition resume_if :: "bool \<times> per_cpu \<Rightarrow> exit_action \<times> per_cpu" where
  "resume_if r = (if fst r then (Resume, snd r) else (Panic_Park, snd r))"

abbreviation (input) EXIT_REASON_EXCEPTION_NMI :: u32 where "EXIT_REASON_EXCEPTION_NMI \<equiv> 0"
abbreviation (input) EXIT_REASON_PREEMPTION_TIMER :: u32 where "EXIT_REASON_PREEMPTION_TIMER \<equiv> 52"
abbreviation (input) EXIT_REASON_CPUID :: u32 where "EXIT_REASON_CPUID \<equiv> 10"
abbreviation (input) EXIT_REASON_VMCALL :: u32 where "EXIT_REASON_VMCALL \<equiv> 18"
abbreviation (input) EXIT_REASON_CR_ACCESS :: u32 where "EXIT_REASON_CR_ACCESS \<equiv> 28"
abbreviation (input) EXIT_REASON_MSR_READ :: u32 where "EXIT_REASON_MSR_READ \<equiv> 31"
abbreviation (input) EXIT_REASON_MSR_WRITE :: u32 where "EXIT_REASON_MSR_WRITE \<equiv> 32"
abbreviation (input) EXIT_REASON_APIC_ACCESS :: u32 where "EXIT_REASON_APIC_ACCESS \<equiv> 44"
abbreviation (input) EXIT_REASON_XSETBV :: u32 where "EXIT_REASON_XSETBV \<equiv> 55"
abbreviation (input) EXIT_REASON_IO_INSTRUCTION :: u32 where "EXIT_REASON_IO_INSTRUCTION \<equiv> 30"
abbreviation (input) EXIT_REASON_EPT_VIOLATION :: u32 where "EXIT_REASON_EPT_VIOLATION \<equiv> 48"

definition vcpu_handle_exit ::
  "vmx_env \<Rightarrow> vmx_limits \<Rightarrow> vcpu_ext \<Rightarrow> bool \<Rightarrow> per_cpu \<Rightarrow> exit_action \<times> per_cpu" where
  "vcpu_handle_exit env lim ext is_root cpu =
     (let reason = ucast (vmcs cpu VM_EXIT_REASON) :: u32;
          cpu = stat_inc SPY_CPU_STAT_VMEXITS_TOTAL cpu
      in if reason = EXIT_REASON_EXCEPTION_NMI then (Resume, vmx_handle_exception_nmi env ext cpu)
         else if reason = EXIT_REASON_PREEMPTION_TIMER then
           (Resume, vmx_check_events env ext (stat_inc SPY_CPU_STAT_VMEXITS_MANAGEMENT cpu))
         else if reason = EXIT_REASON_CPUID then (Resume, vcpu_handle_cpuid env lim is_root cpu)
         else if reason = EXIT_REASON_VMCALL then
           (case vcpu_handle_hypercall env ext cpu of
              (leave, cpu) \<Rightarrow> (if leave then Deactivate else Resume, cpu))
         else if reason = EXIT_REASON_CR_ACCESS then resume_if (vmx_handle_cr env lim (stat_inc SPY_CPU_STAT_VMEXITS_CR cpu))
         else if reason = EXIT_REASON_MSR_READ then
           resume_if (vcpu_handle_msr_read env ext (stat_inc SPY_CPU_STAT_VMEXITS_MSR_OTHER cpu))
         else if reason = EXIT_REASON_MSR_WRITE then
           (if reg_of cpu RCX = ucast MSR_IA32_PERF_GLOBAL_CTRL
            then (Resume, vcpu_skip_emulated_instruction env X86_INST_LEN_WRMSR
                            (stat_inc SPY_CPU_STAT_VMEXITS_MSR_OTHER cpu))
            else resume_if (vcpu_handle_msr_write env ext cpu))
         else if reason = EXIT_REASON_APIC_ACCESS then
           resume_if (vmx_handle_apic_access env ext (stat_inc SPY_CPU_STAT_VMEXITS_XAPIC cpu))
         else if reason = EXIT_REASON_XSETBV then
           (case vmx_handle_xsetbv env lim (stat_inc SPY_CPU_STAT_VMEXITS_XSETBV cpu) of
              (Some val, cpu) \<Rightarrow> (Resume_Xcr0 val, cpu)
            | (None, cpu) \<Rightarrow> (Panic_Park, cpu))
         else if reason = EXIT_REASON_IO_INSTRUCTION then
           resume_if (vcpu_handle_io_access env ext (stat_inc SPY_CPU_STAT_VMEXITS_PIO cpu))
         else if reason = EXIT_REASON_EPT_VIOLATION then
           resume_if (vcpu_handle_mmio_access env ext (stat_inc SPY_CPU_STAT_VMEXITS_MMIO cpu))
         else (Panic_Park, cpu))"

subsection \<open>Leaving the hypervisor\<close>

text \<open>
  \<open>vcpu_deactivate_vmm\<close> up to the call of \<open>arch_cpu_restore\<close>: the guest's state becomes the Linux
  state of the CPU again. The second part of the result are the MSR writes, the third the word that is
  pushed on the Linux stack, as address and value, for the final \<open>ret\<close>.
\<close>

definition vcpu_deactivate_vmm :: "per_cpu \<Rightarrow> per_cpu \<times> (u32 \<times> u64) list \<times> u64 \<times> u64" where
  "vcpu_deactivate_vmm cpu =
     (let m = vmcs cpu in
      (cpu\<lparr>linux_cr0 := m GUEST_CR0, linux_cr3 := m GUEST_CR3, linux_cr4 := m GUEST_CR4,
           linux_gdtr := \<lparr>dtr_limit = ucast (m GUEST_GDTR_LIMIT), dtr_base = m GUEST_GDTR_BASE\<rparr>,
           linux_idtr := \<lparr>dtr_limit = ucast (m GUEST_IDTR_LIMIT), dtr_base = m GUEST_IDTR_BASE\<rparr>,
           linux_cs := (linux_cs cpu)\<lparr>seg_selector := ucast (m GUEST_CS_SELECTOR)\<rparr>,
           linux_tss := (linux_tss cpu)\<lparr>seg_selector := ucast (m GUEST_TR_SELECTOR)\<rparr>,
           linux_efer := m GUEST_IA32_EFER,
           linux_fs := (linux_fs cpu)\<lparr>seg_base := m GUEST_FS_BASE, seg_selector := ucast (m GUEST_FS_SELECTOR)\<rparr>,
           linux_gs := (linux_gs cpu)\<lparr>seg_base := m GUEST_GS_BASE, seg_selector := ucast (m GUEST_GS_SELECTOR)\<rparr>,
           linux_ds := (linux_ds cpu)\<lparr>seg_selector := ucast (m GUEST_DS_SELECTOR)\<rparr>,
           linux_es := (linux_es cpu)\<lparr>seg_selector := ucast (m GUEST_ES_SELECTOR)\<rparr>\<rparr>,
       [(MSR_IA32_SYSENTER_CS, w32 (m GUEST_SYSENTER_CS)), (MSR_IA32_SYSENTER_EIP, m GUEST_SYSENTER_EIP),
        (MSR_IA32_SYSENTER_ESP, m GUEST_SYSENTER_ESP)],
       m GUEST_RSP - 8, m GUEST_RIP))"

subsection \<open>Control register exits\<close>

text \<open>The general registers in the order of the processor's encoding; 4, the stack pointer, is separate.\<close>

definition x86_register_order :: "nat list" where
  "x86_register_order = [RAX, RCX, RDX, RBX, 11, 10, RSI, RDI, 7, 6, 5, 4, 3, 2, 1, 0]"

lemma cr_source_order:
  assumes "r < 16" "r \<noteq> 4"
  shows "cr_source cpu r = reg_of cpu (x86_register_order ! r)"
proof -
  have "15 - r = x86_register_order ! r"
    using assms(1) by (auto simp: x86_register_order_def less_Suc_eq numeral_eq_Suc)
  then show ?thesis
    using assms(2) by (simp add: cr_source_def reg_of_def)
qed

lemma update_efer_all_ok:
  assumes "\<And>f. vmwrite_ok env f"
  shows "vmcs (update_efer env cpu) f =
    (let efer = vmcs cpu GUEST_IA32_EFER; enter = bit efer 8 \<and> \<not> bit efer 10 in
     if enter \<and> f = GUEST_IA32_EFER then efer OR EFER_LMA
     else if enter \<and> f = VM_ENTRY_CONTROLS then w32 (w32 (vmcs cpu f) OR VM_ENTRY_IA32E_MODE)
     else vmcs cpu f)"
proof -
  have "efer AND (EFER_LME OR EFER_LMA) = EFER_LME \<longleftrightarrow> bit efer 8 \<and> \<not> bit efer 10" for efer :: u64
  proof -
    have "EFER_LME = 2 ^ 8" "(EFER_LME OR EFER_LMA :: u64) = 2 ^ 8 OR 2 ^ 10"
      by simp_all
    moreover have "efer AND (2 ^ 8 OR 2 ^ 10) = 2 ^ 8 \<longleftrightarrow> (\<forall>n. bit efer n \<and> (n = 8 \<or> n = 10) \<longleftrightarrow> n = 8)"
    proof -
      have b: "bit (2 ^ 8 :: u64) n \<longleftrightarrow> n = 8" "bit (2 ^ 10 :: u64) n \<longleftrightarrow> n = 10" for n
        unfolding bit_exp_iff by auto
      have "efer AND (2 ^ 8 OR 2 ^ 10) = 2 ^ 8 \<longleftrightarrow> bit (efer AND (2 ^ 8 OR 2 ^ 10)) = bit (2 ^ 8 :: u64)"
        by (metis bit_word_eqI)
      then show ?thesis
        unfolding fun_eq_iff bit_and_iff bit_or_iff b .
    qed
    moreover have "(\<forall>n. bit efer n \<and> (n = 8 \<or> n = 10) \<longleftrightarrow> n = 8) \<longleftrightarrow> bit efer 8 \<and> \<not> bit efer 10"
    proof
      assume h: "\<forall>n. bit efer n \<and> (n = 8 \<or> n = 10) \<longleftrightarrow> n = 8"
      show "bit efer 8 \<and> \<not> bit efer 10"
        using h [rule_format, of 8] h [rule_format, of 10] by simp
    qed auto
    ultimately show ?thesis by simp
  qed
  then show ?thesis
    using assms by (auto simp: update_efer_def vmcs_write64_def Let_def)
qed

text \<open>One run of the handler on an access that it carries out.\<close>

definition cr_operand :: "per_cpu \<Rightarrow> nat \<Rightarrow> u64" where
  "cr_operand cpu r = (if r = 4 then vmcs cpu GUEST_RSP else reg_of cpu (x86_register_order ! r))"

lemma cr_source_operand: "r < 16 \<Longrightarrow> cr_source cpu r = cr_operand cpu r"
  using cr_source_order [of r cpu] by (cases "r = 4") (simp_all add: cr_operand_def cr_source_def)

lemma nibble_less: "unat (q AND 0xf :: u64) < 16"
proof -
  have "unat (q AND 0xf) \<le> unat (0xf :: u64)"
    unfolding word_le_nat_alt [symmetric] by (rule word_and_le1)
  then show ?thesis by simp
qed

lemma vmx_handle_cr_run:
  fixes lim cpu
  defines "q \<equiv> vmcs cpu EXIT_QUALIFICATION"
  assumes "\<And>f. vmwrite_ok env f" "drop_bit 4 q AND 3 = 0" "q AND 0xf = cr" "cr = 0 \<or> cr = 4"
  defines "val \<equiv> cr_operand cpu (unat (drop_bit 8 q AND 0xf))" and "efer \<equiv> vmcs cpu GUEST_IA32_EFER"
    and "idx \<equiv> if cr \<noteq> 0 then CR4_IDX else CR0_IDX"
  defines "enter \<equiv> cr = 0 \<and> bit val 31 \<and> bit efer 8 \<and> \<not> bit efer 10"
  shows "\<exists>m. vmx_handle_cr env lim cpu = (True, cpu\<lparr>vmcs := m\<rparr>) \<and>
    (\<forall>f. m f =
      (if enter \<and> f = GUEST_IA32_EFER then efer OR EFER_LMA
       else if enter \<and> f = VM_ENTRY_CONTROLS then w32 (w32 (vmcs cpu f) OR VM_ENTRY_IA32E_MODE)
       else case map_of (rev (guest_cr_writes lim idx val)) f of
         Some v \<Rightarrow> v | None \<Rightarrow> if f = GUEST_RIP then vmcs cpu GUEST_RIP + 3 else vmcs cpu f))"
proof -
  have pg: "val AND X86_CR0_PG \<noteq> 0 \<longleftrightarrow> bit val 31"
    using single_bit_and_zero_iff [of 31 val] by (simp add: push_bit_eq_mult)
  define c1 where "c1 = vcpu_skip_emulated_instruction env 3 cpu"
  define c2 where "c2 = c1\<lparr>vmcs := snd (vmx_set_guest_cr env lim idx val (vmcs c1))\<rparr>"
  define c3 where "c3 = (if cr = 0 \<and> bit val 31 then update_efer env c2 else c2)"
  have run: "vmx_handle_cr env lim cpu = (True, c3)"
    using assms(3-5) pg cr_source_operand [OF nibble_less]
    by (auto simp: vmx_handle_cr_def q_def [symmetric] val_def [symmetric] Let_def idx_def c3_def c2_def c1_def)
  have c1: "c1 = cpu\<lparr>vmcs := (vmcs cpu)(GUEST_RIP := vmcs cpu GUEST_RIP + 3)\<rparr>"
    using assms(2) by (simp add: c1_def vcpu_skip_emulated_instruction_def vmcs_write64_def)
  have c2: "vmcs c2 f = (case map_of (rev (guest_cr_writes lim idx val)) f of
      None \<Rightarrow> if f = GUEST_RIP then vmcs cpu GUEST_RIP + 3 else vmcs cpu f | Some v \<Rightarrow> v)" for f
    by (simp add: c2_def vmx_set_guest_cr_def vmcs_writes_all_ok [OF assms(2)] fold_writes_lookup c1 split: option.splits)
  have keep: "map_of (rev (guest_cr_writes lim idx val)) GUEST_IA32_EFER = None"
    "map_of (rev (guest_cr_writes lim idx val)) VM_ENTRY_CONTROLS = None"
    by (auto simp: guest_cr_writes_def Let_def)
  have "c3 = cpu\<lparr>vmcs := vmcs c3\<rparr>"
    by (simp add: c3_def c2_def c1 update_efer_def Let_def)
  moreover have "vmcs c3 f =
      (if enter \<and> f = GUEST_IA32_EFER then efer OR EFER_LMA
       else if enter \<and> f = VM_ENTRY_CONTROLS then w32 (w32 (vmcs cpu f) OR VM_ENTRY_IA32E_MODE)
       else vmcs c2 f)" for f
    unfolding c3_def
    by (auto simp: update_efer_all_ok [OF assms(2)] c2 keep enter_def efer_def Let_def)
  ultimately show ?thesis
    using run unfolding c2 by metis
qed


text \<open>A guest that turns on paging with \<open>mov rax, cr0\<close>, EFER.LME being set.\<close>

definition demo_long_guest :: per_cpu where
  "demo_long_guest = demo_cpu\<lparr>guest_regs := (replicate 16 0)[RAX := 0x80000011],
     vmcs := (\<lambda>_. 0)(GUEST_IA32_EFER := 0x100)\<rparr>"

text \<open>C30. An exit for an access to a control register, whatever its qualification says. A \<open>mov\<close> to CR0 or CR4 is
  carried out: the value is taken from the register the instruction names in the processor's numbering, where
  number 4 is the stack pointer, which the VMCS holds; the instruction is skipped; the guest reads back what it
  wrote, with VMXE in CR4; the register itself respects what VMX requires; the mask leaves to the guest
  exactly the bits that may be either 0 or 1; and a write of CR0 that turns paging on while EFER.LME is set and
  EFER.LMA is not turns on long mode, in EFER and in the VM-entry controls alike. Nothing turns it off again. No
  other field of the VMCS and nothing else of the CPU changes. Any other access is refused and changes nothing.\<close>

theorem vmx_handle_cr_effect:
  assumes "\<And>f. vmwrite_ok env f"
  shows "let q = vmcs cpu EXIT_QUALIFICATION; cr = q AND 0xf; val = cr_operand cpu (unat (drop_bit 8 q AND 0xf));
      efer = vmcs cpu GUEST_IA32_EFER; enter = cr = 0 \<and> bit val 31 \<and> bit efer 8 \<and> \<not> bit efer 10
    in if drop_bit 4 q AND 3 = 0 \<and> (cr = 0 \<or> cr = 4)
       then \<exists>m. vmx_handle_cr env lim cpu = (True, cpu\<lparr>vmcs := m\<rparr>) \<and>
         m GUEST_RIP = vmcs cpu GUEST_RIP + 3 \<and>
         (if cr = 0
          then m CR0_READ_SHADOW = val \<and> m GUEST_CR0 = (val AND cr_maybe1 lim ! 0) OR cr_required1 lim ! 0 \<and>
            m CR0_GUEST_HOST_MASK = cr_required1 lim ! 0 OR NOT (cr_maybe1 lim ! 0)
          else m CR4_READ_SHADOW = val OR X86_CR4_VMXE \<and>
            m GUEST_CR4 = ((val OR X86_CR4_VMXE) AND cr_maybe1 lim ! 1) OR cr_required1 lim ! 1 \<and>
            m CR4_GUEST_HOST_MASK = cr_required1 lim ! 1 OR NOT (cr_maybe1 lim ! 1)) \<and>
         m GUEST_IA32_EFER = (if enter then efer OR EFER_LMA else efer) \<and>
         (if enter then \<forall>n. bit (m VM_ENTRY_CONTROLS) n \<longleftrightarrow> n = 9 \<or> n < 32 \<and> bit (vmcs cpu VM_ENTRY_CONTROLS) n
          else m VM_ENTRY_CONTROLS = vmcs cpu VM_ENTRY_CONTROLS) \<and>
         (\<forall>f. f \<notin> {GUEST_RIP, GUEST_IA32_EFER, VM_ENTRY_CONTROLS} \<union>
             (if cr = 0 then {GUEST_CR0, CR0_READ_SHADOW, CR0_GUEST_HOST_MASK}
              else {GUEST_CR4, CR4_READ_SHADOW, CR4_GUEST_HOST_MASK}) \<longrightarrow> m f = vmcs cpu f)
       else vmx_handle_cr env lim cpu = (False, cpu)"
proof (cases "drop_bit 4 (vmcs cpu EXIT_QUALIFICATION) AND 3 = 0 \<and>
    (vmcs cpu EXIT_QUALIFICATION AND 0xf = 0 \<or> vmcs cpu EXIT_QUALIFICATION AND 0xf = 4)")
  case True
  have ia32e: "bit (w32 (w32 v OR VM_ENTRY_IA32E_MODE)) n \<longleftrightarrow> n = 9 \<or> n < 32 \<and> bit v n" for v n
  proof -
    have "bit (VM_ENTRY_IA32E_MODE :: u64) n \<longleftrightarrow> n = 9"
      using bit_exp_iff [where 'a = "64 word", of 9 n] by auto
    then show ?thesis
      unfolding w32_def bit_unsigned_iff bit_or_iff by auto
  qed
  let ?q = "vmcs cpu EXIT_QUALIFICATION" and ?efer = "vmcs cpu GUEST_IA32_EFER"
  let ?val = "cr_operand cpu (unat (drop_bit 8 ?q AND 0xf))"
  let ?enter = "?q AND 0xf = 0 \<and> bit ?val 31 \<and> bit ?efer 8 \<and> \<not> bit ?efer 10"
  obtain m where run: "vmx_handle_cr env lim cpu = (True, cpu\<lparr>vmcs := m\<rparr>)"
    and m: "\<And>f. m f =
      (if ?enter \<and> f = GUEST_IA32_EFER then ?efer OR EFER_LMA
       else if ?enter \<and> f = VM_ENTRY_CONTROLS then w32 (w32 (vmcs cpu f) OR VM_ENTRY_IA32E_MODE)
       else case map_of (rev (guest_cr_writes lim (if ?q AND 0xf \<noteq> 0 then CR4_IDX else CR0_IDX) ?val)) f of
         Some v \<Rightarrow> v | None \<Rightarrow> if f = GUEST_RIP then vmcs cpu GUEST_RIP + 3 else vmcs cpu f)"
    using vmx_handle_cr_run [OF assms conjunct1 [OF True] refl conjunct2 [OF True], of lim] by blast
  show ?thesis
    unfolding Let_def if_P [OF True]
    by (rule exI [of _ m], cases "vmcs cpu EXIT_QUALIFICATION AND 0xf = 0")
      (use True in \<open>simp_all add: run m guest_cr_writes_def Let_def ia32e\<close>)
next
  case False
  then show ?thesis
    unfolding Let_def if_not_P [OF False] by (auto simp: vmx_handle_cr_def Let_def)
qed

theorem vmx_handle_cr_effect_witness:
  "vmcs (snd (vmx_handle_cr demo_env demo_limits demo_long_guest)) GUEST_IA32_EFER = 0x500 \<and>
   bit (vmcs (snd (vmx_handle_cr demo_env demo_limits demo_long_guest)) VM_ENTRY_CONTROLS) 9"
proof -
  have ok: "vmwrite_ok demo_env f" for f
    by (simp add: demo_env_def)
  have demo: "vmcs demo_long_guest EXIT_QUALIFICATION = 0"
    "cr_operand demo_long_guest (unat (drop_bit 8 0 AND 0xf :: u64)) = 0x80000011"
    "vmcs demo_long_guest GUEST_IA32_EFER = 0x100"
    by (simp_all add: demo_long_guest_def cr_operand_def x86_register_order_def reg_of_def)
  show ?thesis
    using vmx_handle_cr_effect [OF ok, of demo_long_guest demo_limits] unfolding Let_def demo by auto
qed

subsection \<open>Statistics\<close>

lemma stats_simps [simp]:
  "stats (stat_inc k cpu) = (stats cpu)(k := stats cpu k + 1)"
  "stats (set_reg r v cpu) = stats cpu" "stats (set_rdmsr_value v cpu) = stats cpu"
  "stats (vcpu_skip_emulated_instruction env len cpu) = stats cpu"
  "stats (vcpu_vendor_set_guest_pat env v cpu) = stats cpu"
  by (simp_all add: stat_inc_def set_reg_def set_rdmsr_value_def vcpu_skip_emulated_instruction_def
      vcpu_vendor_set_guest_pat_def)

text \<open>The counters of MSR exits: every exit counts once in the total; a write of the PAT or of the
  MTRR default type counts once as an MSR exit, but a read of one of them counts twice, in the dispatcher
  and in the handler; no other counter moves.\<close>

theorem vcpu_msr_exit_counts:
  assumes "reg_of cpu RCX = 0x277 \<or> reg_of cpu RCX = 0x2ff"
    and "ucast (vmcs cpu VM_EXIT_REASON) = (31 :: u32) \<or> ucast (vmcs cpu VM_EXIT_REASON) = (32 :: u32)"
  shows "stats (snd (vcpu_handle_exit env lim ext is_root cpu)) n =
    stats cpu n +
      (if n = SPY_CPU_STAT_VMEXITS_TOTAL then 1
       else if n = SPY_CPU_STAT_VMEXITS_MSR_OTHER
       then (if ucast (vmcs cpu VM_EXIT_REASON) = (31 :: u32) then 2 else 1) else 0)"
proof -
  have read: "stats (snd (vcpu_handle_msr_read env ext c)) = (stats c)(10 := stats c 10 + 1)"
    if "reg_of c RCX = 0x277 \<or> reg_of c RCX = 0x2ff" for c
    using that by (auto simp: vcpu_handle_msr_read_def Let_def)
  have "write": "stats (snd (vcpu_handle_msr_write env ext c)) = (stats c)(10 := stats c 10 + 1)"
    if "reg_of c RCX = 0x277 \<or> reg_of c RCX = 0x2ff" for c
    using that by (auto simp: vcpu_handle_msr_write_def Let_def)
  have ri: "snd (resume_if r) = snd r" for r
    by (simp add: resume_if_def)
  show ?thesis
    using assms read "write"
    by (elim disjE) (simp_all add: vcpu_handle_exit_def Let_def ri)
qed

theorem vcpu_msr_exit_counts_witness:
  "\<forall>ext. stats (snd (vcpu_handle_exit demo_env demo_limits ext True
     (demo_guest\<lparr>vmcs := (\<lambda>_. 0)(VM_EXIT_REASON := 31)\<rparr>))) 10 = 2"
  using vcpu_msr_exit_counts [of "demo_guest\<lparr>vmcs := (\<lambda>_. 0)(VM_EXIT_REASON := 31)\<rparr>" demo_env demo_limits _ True 10]
  by (simp add: demo_guest_def demo_cpu_def reg_of_def)

subsection \<open>The way back to Linux\<close>

lemma ucast_small_u64 [simp]:
  "(ucast (ucast (x :: u16) :: u64) :: u16) = x"
  by (rule bit_word_eqI) (auto simp: bit_simps)

text \<open>Deactivating a CPU whose VMCS was just set up gives the Linux state back, up to VMXE in CR4, and the
  registers for \<open>sysenter\<close>, of which the first has 32 bits.\<close>

definition sysenter_msrs :: "(u32 \<Rightarrow> u64) \<Rightarrow> (u32 \<times> u64) list" where
  "sysenter_msrs msr =
     [(MSR_IA32_SYSENTER_CS, w32 (msr MSR_IA32_SYSENTER_CS)), (MSR_IA32_SYSENTER_EIP, msr MSR_IA32_SYSENTER_EIP),
      (MSR_IA32_SYSENTER_ESP, msr MSR_IA32_SYSENTER_ESP)]"

lemma w32_w32: "w32 (w32 v) = w32 v"
  by (rule bit_word_eqI) (auto simp: w32_def bit_simps)

lemma vcpu_handover:
  assumes "\<And>f. vmwrite_ok env f"
    and "linux_cr0 cpu AND cr_maybe1 lim ! 0 = linux_cr0 cpu" "linux_cr0 cpu OR cr_required1 lim ! 0 = linux_cr0 cpu"
    and "(linux_cr4 cpu OR X86_CR4_VMXE) AND cr_maybe1 lim ! 1 = linux_cr4 cpu OR X86_CR4_VMXE"
    and "(linux_cr4 cpu OR X86_CR4_VMXE) OR cr_required1 lim ! 1 = linux_cr4 cpu OR X86_CR4_VMXE"
  shows "\<exists>m. vmcs_setup env lim cpu = (True, cpu\<lparr>vmcs := m\<rparr>) \<and>
    vcpu_deactivate_vmm (cpu\<lparr>vmcs := m\<rparr>) =
      (cpu\<lparr>vmcs := m, linux_cr4 := linux_cr4 cpu OR X86_CR4_VMXE\<rparr>, sysenter_msrs (rdmsr env), linux_sp cpu + 6 * 8, linux_ip cpu)"
proof -
  let ?m = "fold (\<lambda>(f, v) m. m(f := v)) (host_writes env @ guest_writes env lim cpu @ control_writes env lim) (vmcs cpu)"
  have set_up: "vmcs_setup env lim cpu = (True, cpu\<lparr>vmcs := ?m\<rparr>)"
    by (simp add: vmcs_setup_def vmcs_writes_all_ok [OF assms(1)])
  have cr: "?m GUEST_CR0 = linux_cr0 cpu" "?m GUEST_CR3 = linux_cr3 cpu"
    "?m GUEST_CR4 = linux_cr4 cpu OR X86_CR4_VMXE" "?m GUEST_IA32_EFER = linux_efer cpu"
    "?m GUEST_RSP = linux_sp cpu + 56" "?m GUEST_RIP = linux_ip cpu"
    unfolding fold_writes_lookup write_lists Let_def
    using assms(2-5) by (simp_all add: seg_offsets)
  have tables: "?m GUEST_GDTR_LIMIT = ucast (dtr_limit (linux_gdtr cpu))" "?m GUEST_GDTR_BASE = dtr_base (linux_gdtr cpu)"
    "?m GUEST_IDTR_LIMIT = ucast (dtr_limit (linux_idtr cpu))" "?m GUEST_IDTR_BASE = dtr_base (linux_idtr cpu)"
    unfolding fold_writes_lookup write_lists Let_def by (simp_all add: seg_offsets)
  have segs: "?m GUEST_CS_SELECTOR = ucast (seg_selector (linux_cs cpu))"
    "?m GUEST_DS_SELECTOR = ucast (seg_selector (linux_ds cpu))" "?m GUEST_ES_SELECTOR = ucast (seg_selector (linux_es cpu))"
    "?m GUEST_FS_SELECTOR = ucast (seg_selector (linux_fs cpu))" "?m GUEST_GS_SELECTOR = ucast (seg_selector (linux_gs cpu))"
    "?m GUEST_TR_SELECTOR = ucast (seg_selector (linux_tss cpu))"
    "?m GUEST_FS_BASE = seg_base (linux_fs cpu)" "?m GUEST_GS_BASE = seg_base (linux_gs cpu)"
    unfolding fold_writes_lookup write_lists Let_def by (simp_all add: seg_offsets)
  have sysenter: "?m GUEST_SYSENTER_CS = w32 (rdmsr env MSR_IA32_SYSENTER_CS)"
    "?m GUEST_SYSENTER_EIP = rdmsr env MSR_IA32_SYSENTER_EIP" "?m GUEST_SYSENTER_ESP = rdmsr env MSR_IA32_SYSENTER_ESP"
    unfolding fold_writes_lookup write_lists Let_def by (simp_all add: seg_offsets)
  define m where "m = ?m"
  have "vcpu_deactivate_vmm (cpu\<lparr>vmcs := m\<rparr>) =
      (cpu\<lparr>vmcs := m, linux_cr4 := linux_cr4 cpu OR X86_CR4_VMXE\<rparr>, sysenter_msrs (rdmsr env), linux_sp cpu + 6 * 8, linux_ip cpu)"
    using cr tables segs sysenter unfolding m_def [symmetric]
    by (simp add: vcpu_deactivate_vmm_def sysenter_msrs_def w32_w32 Let_def)
  then show ?thesis
    using set_up unfolding m_def [symmetric] by blast
qed

text \<open>A CPU that \<open>vcpu_init\<close> set up, in the terms of the two functions that undo it.\<close>

lemma vmcs_setup_vmx_state:
  "vmcs_setup env lim (cpu\<lparr>vmx_state := st\<rparr>) = map_prod id (vmx_state_update (\<lambda>_. st)) (vmcs_setup env lim cpu)"
proof -
  have "guest_writes env lim (cpu\<lparr>vmx_state := st\<rparr>) = guest_writes env lim cpu"
    by (simp add: guest_writes_def Let_def)
  then show ?thesis
    by (simp add: vmcs_setup_def split: prod.split)
qed

lemma vcpu_init_success:
  assumes "vcpu_init env op lim cpu hw = (None, lim', cpu', hw')"
  shows "linux_cr4 cpu AND X86_CR4_VMXE = 0"
    "\<exists>m. cpu' = cpu\<lparr>vmx_state := VMCS_READY, vmcs := m\<rparr> \<and>
       vmcs_setup env lim' (cpu\<lparr>vmx_state := VMCS_READY\<rparr>) = (True, cpu\<lparr>vmx_state := VMCS_READY, vmcs := m\<rparr>)"
proof -
  show "linux_cr4 cpu AND X86_CR4_VMXE = 0"
    using assms by (cases "linux_cr4 cpu AND X86_CR4_VMXE = 0") (simp_all add: vcpu_init_def Let_def)
  have "\<exists>hw1. vcpu_init_vmx env op lim' cpu hw1 = (None, cpu', hw')"
    using assms unfolding vcpu_init_def Let_def by (auto split: if_splits prod.splits option.splits)
  then obtain hw1 where v: "vcpu_init_vmx env op lim' cpu hw1 = (None, cpu', hw')" by blast
  obtain m ok where m: "vmcs_setup env lim' cpu = (ok, cpu\<lparr>vmcs := m\<rparr>)"
    using vmcs_setup_keeps by (metis prod.collapse)
  have "ok \<and> cpu' = cpu\<lparr>vmx_state := VMCS_READY, vmcs := m\<rparr>"
    using v unfolding vcpu_init_vmx_def Let_def vmcs_setup_vmx_state m
    by (cases ok) (auto split: if_splits)
  then show "\<exists>m. cpu' = cpu\<lparr>vmx_state := VMCS_READY, vmcs := m\<rparr> \<and>
       vmcs_setup env lim' (cpu\<lparr>vmx_state := VMCS_READY\<rparr>) = (True, cpu\<lparr>vmx_state := VMCS_READY, vmcs := m\<rparr>)"
    unfolding vmcs_setup_vmx_state m by (intro exI [of _ m]) simp
qed

lemma vcpu_init_deactivate:
  assumes "vcpu_init env op lim cpu hw = (None, lim', cpu', hw')" "\<And>f. vmwrite_ok env f"
    and "linux_cr0 cpu AND cr_maybe1 lim' ! 0 = linux_cr0 cpu" "linux_cr0 cpu OR cr_required1 lim' ! 0 = linux_cr0 cpu"
    and "(linux_cr4 cpu OR X86_CR4_VMXE) AND cr_maybe1 lim' ! 1 = linux_cr4 cpu OR X86_CR4_VMXE"
    and "(linux_cr4 cpu OR X86_CR4_VMXE) OR cr_required1 lim' ! 1 = linux_cr4 cpu OR X86_CR4_VMXE"
  shows "\<exists>c m. vcpu_deactivate_vmm cpu' = (c, sysenter_msrs (rdmsr env), linux_sp cpu + 6 * 8, linux_ip cpu) \<and>
    (\<forall>hw. fst (vcpu_exit c hw) = cpu\<lparr>vmcs := m, vmx_state := VMXOFF\<rparr>)"
proof -
  let ?R = "cpu\<lparr>vmx_state := VMCS_READY\<rparr>"
  obtain m where m: "cpu' = ?R\<lparr>vmcs := m\<rparr>" "vmcs_setup env lim' ?R = (True, ?R\<lparr>vmcs := m\<rparr>)"
    using vcpu_init_success(2) [OF assms(1)] by blast
  have "linux_cr0 cpu = linux_cr0 ?R" "linux_cr4 cpu = linux_cr4 ?R"
    by simp_all
  note limits = assms(3-6) [unfolded this]
  obtain m' where h: "vmcs_setup env lim' ?R = (True, ?R\<lparr>vmcs := m'\<rparr>)"
    "vcpu_deactivate_vmm (?R\<lparr>vmcs := m'\<rparr>) =
      (?R\<lparr>vmcs := m', linux_cr4 := linux_cr4 ?R OR X86_CR4_VMXE\<rparr>, sysenter_msrs (rdmsr env), linux_sp ?R + 6 * 8, linux_ip ?R)"
    using vcpu_handover [OF assms(2) limits] by blast
  let ?c = "?R\<lparr>vmcs := m', linux_cr4 := linux_cr4 ?R OR X86_CR4_VMXE\<rparr>"
  have "?R\<lparr>vmcs := m'\<rparr> = ?R\<lparr>vmcs := m\<rparr>"
    by (metis h(1) m(2) prod.inject)
  then have "vcpu_deactivate_vmm cpu' = (?c, sysenter_msrs (rdmsr env), linux_sp cpu + 6 * 8, linux_ip cpu)"
    using h(2) m(1) by simp
  moreover have "fst (vcpu_exit ?c hw) = cpu\<lparr>vmcs := m', vmx_state := VMXOFF\<rparr>" for hw
    using word_and_not_disjoint(2) [OF vcpu_init_success(1) [OF assms(1)]]
    by (simp add: vcpu_exit_def vcpu_exit_mark_def vcpu_exit_leave_def)
  ultimately show ?thesis by blast
qed

lemma vcpu_exit_keeps_tables:
  "linux_gdtr (fst (vcpu_exit cpu hw)) = linux_gdtr cpu" "linux_tss (fst (vcpu_exit cpu hw)) = linux_tss cpu"
  by (simp_all add: vcpu_exit_def vcpu_exit_mark_def vcpu_exit_leave_def)

text \<open>Entering and leaving the hypervisor is transparent to Linux: if Linux's CR0 and CR4 are within
  what VMX allows (and it did not use VMX itself), a CPU whose VMCS was just set up and that is then
  deactivated has all its Linux state back - control registers, descriptor tables, segments, EFER - after
  \<open>vcpu_exit\<close>; it resumes at the original return address, pushed at the original stack slot.\<close>

theorem vcpu_handover_roundtrip:
  assumes "\<And>f. vmwrite_ok env f" "vmx_state cpu \<noteq> VMXOFF"
    and "linux_cr0 cpu AND cr_maybe1 lim ! 0 = linux_cr0 cpu" "linux_cr0 cpu OR cr_required1 lim ! 0 = linux_cr0 cpu"
    and "(linux_cr4 cpu OR X86_CR4_VMXE) AND cr_maybe1 lim ! 1 = linux_cr4 cpu OR X86_CR4_VMXE"
    and "(linux_cr4 cpu OR X86_CR4_VMXE) OR cr_required1 lim ! 1 = linux_cr4 cpu OR X86_CR4_VMXE"
    and "linux_cr4 cpu AND X86_CR4_VMXE = 0"
  shows "\<exists>m cpu' msrs. vmcs_setup env lim cpu = (True, cpu\<lparr>vmcs := m\<rparr>) \<and>
    vcpu_deactivate_vmm (cpu\<lparr>vmcs := m\<rparr>) = (cpu', msrs, linux_sp cpu + 6 * 8, linux_ip cpu) \<and>
    fst (vcpu_exit cpu' hw) = cpu\<lparr>vmcs := m, vmx_state := VMXOFF\<rparr>"
proof -
  have cr4: "(linux_cr4 cpu OR X86_CR4_VMXE) AND NOT X86_CR4_VMXE = linux_cr4 cpu"
    using assms(7) by (rule word_and_not_disjoint)
  obtain m where h: "vmcs_setup env lim cpu = (True, cpu\<lparr>vmcs := m\<rparr>)"
    "vcpu_deactivate_vmm (cpu\<lparr>vmcs := m\<rparr>) =
      (cpu\<lparr>vmcs := m, linux_cr4 := linux_cr4 cpu OR X86_CR4_VMXE\<rparr>, sysenter_msrs (rdmsr env), linux_sp cpu + 6 * 8, linux_ip cpu)"
    using vcpu_handover [OF assms(1,3-6)] by blast
  have "fst (vcpu_exit (cpu\<lparr>vmcs := m, linux_cr4 := linux_cr4 cpu OR X86_CR4_VMXE\<rparr>) hw) =
      cpu\<lparr>vmcs := m, vmx_state := VMXOFF\<rparr>"
    using assms(2) cr4 by (simp add: vcpu_exit_def vcpu_exit_mark_def vcpu_exit_leave_def)
  then show ?thesis
    using h by blast
qed

text \<open>The CPU of the example, just after the hypervisor was entered.\<close>

definition demo_entered :: per_cpu where
  "demo_entered = demo_cpu\<lparr>vmx_state := VMCS_READY\<rparr>"

theorem vcpu_handover_roundtrip_witness:
  "\<forall>hw. \<exists>m cpu' msrs. vcpu_deactivate_vmm (demo_entered\<lparr>vmcs := m\<rparr>) = (cpu', msrs, 0x8030, 0x9000) \<and>
     fst (vcpu_exit cpu' hw) = demo_entered\<lparr>vmcs := m, vmx_state := VMXOFF\<rparr>"
proof
  fix hw
  have ok: "vmwrite_ok demo_env f" for f
    by (simp add: demo_env_def)
  have "vmx_state demo_entered \<noteq> VMXOFF" "linux_cr0 demo_entered AND cr_maybe1 demo_limits ! 0 = linux_cr0 demo_entered"
    "linux_cr0 demo_entered OR cr_required1 demo_limits ! 0 = linux_cr0 demo_entered"
    "(linux_cr4 demo_entered OR X86_CR4_VMXE) AND cr_maybe1 demo_limits ! 1 = linux_cr4 demo_entered OR X86_CR4_VMXE"
    "(linux_cr4 demo_entered OR X86_CR4_VMXE) OR cr_required1 demo_limits ! 1 = linux_cr4 demo_entered OR X86_CR4_VMXE"
    "linux_cr4 demo_entered AND X86_CR4_VMXE = 0"
    by (simp_all add: demo_entered_def demo_cpu_def demo_limits_def)
  from vcpu_handover_roundtrip [OF ok this, of hw]
  show "\<exists>m cpu' msrs. vcpu_deactivate_vmm (demo_entered\<lparr>vmcs := m\<rparr>) = (cpu', msrs, 0x8030, 0x9000) \<and>
     fst (vcpu_exit cpu' hw) = demo_entered\<lparr>vmcs := m, vmx_state := VMXOFF\<rparr>"
    by (auto simp: demo_entered_def demo_cpu_def)
qed

end
