(* ===== verification/Spy_Iommu.thy ===== *)
theory Spy_Iommu
  imports Spy_Irte Spy_Ept Spy_Vcpu
begin

text \<open>
  DMA protection and the emulated remapping units of \<open>vtd.c\<close>: root and context entries, the memory
  regions and the domains of targets, the invalidation queues that the root target keeps writing to, and
  the start and the end of the units. The register interface, the invalidation queue of the hypervisor
  and the interrupt remapping table are those of \<open>Spy_Dmar\<close> and \<open>Spy_Irte\<close>.
\<close>

subsection \<open>Root and context entries\<close>

text \<open>
  The root table has 256 entries, one per bus; a present entry holds the physical address of a context
  table with 256 entries, one per device and function. \<open>ctx_tables\<close> maps the physical addresses of the
  pages allocated for context tables to their content. The split of a device id into bus and
  device-function belongs to the PCI headers, which are not part of the source: \<open>pci_bdf\<close>.
\<close>

record pci_bdf =
  pci_bus :: "u16 \<Rightarrow> nat"
  pci_devfn :: "u16 \<Rightarrow> nat"

definition bdf_ok :: "pci_bdf \<Rightarrow> bool" where
  "bdf_ok pc \<longleftrightarrow> (\<forall>b. pci_bus pc b < 256 \<and> pci_devfn pc b < 256) \<and>
     (\<forall>a b. pci_bus pc a = pci_bus pc b \<and> pci_devfn pc a = pci_devfn pc b \<longrightarrow> a = b)"

record ctx_sys =
  root_entry_table :: "vtd_entry list"
  ctx_tables :: "u64 \<Rightarrow> vtd_entry list option"

abbreviation (input) VTD_ROOT_PRESENT :: u64 where "VTD_ROOT_PRESENT \<equiv> 1"
abbreviation (input) VTD_CTX_PRESENT :: u64 where "VTD_CTX_PRESENT \<equiv> 1"
abbreviation (input) VTD_CTX_TTYPE_MLP_UNTRANS :: u64 where "VTD_CTX_TTYPE_MLP_UNTRANS \<equiv> 0"
abbreviation (input) VTD_CTX_AGAW_39 :: u64 where "VTD_CTX_AGAW_39 \<equiv> 1"
abbreviation (input) VTD_CTX_AGAW_48 :: u64 where "VTD_CTX_AGAW_48 \<equiv> 2"
abbreviation (input) VTD_IRTA_ADDR_MASK :: u64 where "VTD_IRTA_ADDR_MASK \<equiv> BIT_MASK 63 12"
abbreviation (input) VTD_CTX_DID_SHIFT :: nat where "VTD_CTX_DID_SHIFT \<equiv> 8"
abbreviation (input) VTD_PAGE_READ :: u64 where "VTD_PAGE_READ \<equiv> 0x1"
abbreviation (input) VTD_PAGE_WRITE :: u64 where "VTD_PAGE_WRITE \<equiv> 0x2"

definition vtd_context_entry :: "nat \<Rightarrow> u64 \<Rightarrow> u32 \<Rightarrow> vtd_entry" where
  "vtd_context_entry pt_levels pt_root_phys target_id =
     \<lparr>lo_word = VTD_CTX_PRESENT OR VTD_CTX_TTYPE_MLP_UNTRANS OR pt_root_phys,
      hi_word = (if pt_levels = 3 then VTD_CTX_AGAW_39 else VTD_CTX_AGAW_48) OR
        ucast (push_bit VTD_CTX_DID_SHIFT target_id)\<rparr>"

text \<open>
  The part of \<open>iommu_add_pci_device\<close> after the reservation; \<open>page\<close> is what \<open>page_alloc\<close> returns if it
  is called: the physical address and the content of the new page. \<open>Inl\<close> is \<open>goto error_nomem\<close>;
  \<open>None\<close> a present root entry without its table.
\<close>

definition ctx_store :: "nat \<Rightarrow> vtd_entry \<Rightarrow> u64 \<Rightarrow> vtd_entry list \<Rightarrow> ctx_sys \<Rightarrow> ctx_sys" where
  "ctx_store devfn e table_phys table c =
     c\<lparr>ctx_tables := (ctx_tables c)(table_phys \<mapsto> table[devfn := e])\<rparr>"

definition ctx_add :: "pci_bdf \<Rightarrow> (u64 \<times> vtd_entry list) option \<Rightarrow> vtd_entry \<Rightarrow> u16 \<Rightarrow> ctx_sys \<Rightarrow> (errno + ctx_sys) option" where
  "ctx_add pc page e bdf c =
     (let root_entry = root_entry_table c ! pci_bus pc bdf in
      if lo_word root_entry AND VTD_ROOT_PRESENT \<noteq> 0 then
        (let phys = lo_word root_entry AND PAGE_MASK in
         case ctx_tables c phys of
           None \<Rightarrow> None
         | Some table \<Rightarrow> Some (Inr (ctx_store (pci_devfn pc bdf) e phys table c)))
      else
        (case page of
           None \<Rightarrow> Some (Inl ENOMEM)
         | Some (phys, table) \<Rightarrow>
             Some (Inr (ctx_store (pci_devfn pc bdf) e phys table
               (c\<lparr>root_entry_table :=
                    (root_entry_table c)[pci_bus pc bdf := root_entry\<lparr>lo_word := VTD_ROOT_PRESENT OR phys\<rparr>]\<rparr>)))))"

text \<open>The part of \<open>iommu_remove_pci_device\<close> after the interrupts were freed.\<close>

definition ctx_remove :: "pci_bdf \<Rightarrow> u16 \<Rightarrow> ctx_sys \<Rightarrow> ctx_sys option" where
  "ctx_remove pc bdf c =
     (let root_entry = root_entry_table c ! pci_bus pc bdf; phys = lo_word root_entry AND PAGE_MASK in
      case ctx_tables c phys of
        None \<Rightarrow> None
      | Some table \<Rightarrow>
          (let e = table ! pci_devfn pc bdf;
               table = table[pci_devfn pc bdf := e\<lparr>lo_word := lo_word e AND NOT VTD_CTX_PRESENT\<rparr>]
           in if list_ex (\<lambda>e. lo_word e AND VTD_CTX_PRESENT \<noteq> 0) (take 256 table)
              then Some (c\<lparr>ctx_tables := (ctx_tables c)(phys \<mapsto> table)\<rparr>)
              else Some (c\<lparr>root_entry_table :=
                            (root_entry_table c)[pci_bus pc bdf :=
                               root_entry\<lparr>lo_word := lo_word root_entry AND NOT VTD_ROOT_PRESENT\<rparr>],
                           ctx_tables := (ctx_tables c)(phys := None)\<rparr>)))"

record pci_device_info =
  dev_bdf :: u16
  num_msi_vectors :: nat
  num_msix_vectors :: nat

text \<open>The two functions as a whole: the interrupt table, then the context.\<close>

definition iommu_add_pci_device ::
  "'h dmar_ops \<Rightarrow> pci_bdf \<Rightarrow> (u64 \<times> vtd_entry list) option \<Rightarrow> vtd_entry \<Rightarrow> pci_device_info \<Rightarrow>
     'h vtd_sys \<Rightarrow> ctx_sys \<Rightarrow> (errno option \<times> 'h vtd_sys \<times> ctx_sys) option" where
  "iommu_add_pci_device ops pc page e dev s c =
     (let max_vectors = max (num_msi_vectors dev) (num_msix_vectors dev) in
      case vtd_reserve_int_remap_region (irt s) (irt_limit s) (dev_bdf dev) max_vectors of
        (Inl err, _) \<Rightarrow> Some (Some err, s, c)
      | (Inr _, t) \<Rightarrow>
          (let s = s\<lparr>irt := t\<rparr> in
           case ctx_add pc page e (dev_bdf dev) c of
             None \<Rightarrow> None
           | Some (Inl err) \<Rightarrow>
               map_option (\<lambda>s. (Some err, s, c)) (vtd_free_int_remap_region ops (dev_bdf dev) max_vectors s)
           | Some (Inr c) \<Rightarrow> Some (None, s, c)))"

definition iommu_remove_pci_device ::
  "'h dmar_ops \<Rightarrow> pci_bdf \<Rightarrow> pci_device_info \<Rightarrow> 'h vtd_sys \<Rightarrow> ctx_sys \<Rightarrow> ('h vtd_sys \<times> ctx_sys) option" where
  "iommu_remove_pci_device ops pc dev s c =
     hbind (vtd_free_int_remap_region ops (dev_bdf dev) (max (num_msi_vectors dev) (num_msix_vectors dev)) s)
       (\<lambda>s. map_option (Pair s) (ctx_remove pc (dev_bdf dev) c))"

subsection \<open>Domains and memory\<close>

definition VTD_LINK_FLAGS :: u64 where
  "VTD_LINK_FLAGS = 0x1 OR 0x2"

definition vtd_set_next_pt :: "u64 \<Rightarrow> u64" where
  "vtd_set_next_pt next_pt = (next_pt AND BIT_MASK 51 12) OR VTD_PAGE_READ OR VTD_PAGE_WRITE"

definition iommu_map_memory_region :: "nat \<Rightarrow> spy_memory \<Rightarrow> errno + paging_request option" where
  "iommu_map_memory_region dmar_pt_levels mem =
     (if mem_flags mem AND SPY_MEM_DMA = 0 then Inr None
      else if mem_virt_start mem AND BIT_MASK 63 (12 + 9 * dmar_pt_levels) \<noteq> 0 then Inl E2BIG
      else
        (let acc = 0;
             acc = (if mem_flags mem AND SPY_MEM_READ \<noteq> 0 then acc OR 0x1 else acc);
             acc = (if mem_flags mem AND SPY_MEM_WRITE \<noteq> 0 then acc OR 0x2 else acc);
             paging_flags = PAGING_COHERENT OR PAGING_HUGE;
             paging_flags = (if mem_flags mem AND SPY_MEM_NO_HUGEPAGES \<noteq> 0
                             then paging_flags AND NOT PAGING_HUGE else paging_flags)
         in Inr (Some (Paging_Create (mem_phys_start mem) (mem_size mem) (mem_virt_start mem) acc paging_flags))))"

definition iommu_unmap_memory_region :: "spy_memory \<Rightarrow> paging_request option" where
  "iommu_unmap_memory_region mem =
     (if mem_flags mem AND SPY_MEM_DMA = 0 then None
      else Some (Paging_Destroy (mem_virt_start mem) (mem_size mem) PAGING_COHERENT))"

text \<open>
  \<open>vtd_target_init\<close>: the root page table and the interrupt regions of the target's I/O APICs. \<open>chips\<close> are
  its irqchips, with the result of \<open>ioapic_get_or_add_phys\<close> for each: an error or the number of pins. The
  page pool is the set \<open>used\<close> of allocated pages; \<open>page\<close> is what \<open>page_alloc\<close> answers.
\<close>

fun reserve_irqchips :: "(u16 \<times> (errno + nat)) list \<Rightarrow> 'h vtd_sys \<Rightarrow> errno option \<times> 'h vtd_sys" where
  "reserve_irqchips [] s = (None, s)"
| "reserve_irqchips ((chip_id, Inl err) # chips) s = (Some err, s)"
| "reserve_irqchips ((chip_id, Inr pins) # chips) s =
     (case vtd_reserve_int_remap_region (irt s) (irt_limit s) chip_id pins of
        (Inl err, t) \<Rightarrow> (Some err, s\<lparr>irt := t\<rparr>)
      | (Inr _, t) \<Rightarrow> reserve_irqchips chips (s\<lparr>irt := t\<rparr>))"

definition vtd_target_exit :: "u64 \<Rightarrow> u64 set \<Rightarrow> u64 set" where
  "vtd_target_exit root_table used = used - {root_table}"

definition vtd_target_init ::
  "u32 \<Rightarrow> u32 \<Rightarrow> u64 option \<Rightarrow> (u16 \<times> (errno + nat)) list \<Rightarrow> u64 set \<Rightarrow> 'h vtd_sys \<Rightarrow>
     errno option \<times> u64 set \<times> 'h vtd_sys" where
  "vtd_target_init dmar_num_did target_id page chips used s =
     (if target_id \<ge> dmar_num_did then (Some ERANGE, used, s)
      else case page of
        None \<Rightarrow> (Some ENOMEM, used, s)
      | Some root_table \<Rightarrow>
          (let used = insert root_table used in
           case reserve_irqchips chips s of
             (None, s) \<Rightarrow> (None, used, s)
           | (Some err, s) \<Rightarrow> (Some err, vtd_target_exit root_table used, s)))"

definition vtd_mmio_count_regions :: "nat \<Rightarrow> bool \<Rightarrow> nat" where
  "vtd_mmio_count_regions iommu_units is_root = (if is_root then iommu_units else 0)"

text \<open>No way out of the initialisation loses a page, and the exit gives back the one it took.\<close>

lemma vtd_target_pages:
  assumes "vtd_target_init n i page chips used s = (err, used', s')" "\<And>p. page = Some p \<Longrightarrow> p \<notin> used"
  shows "err \<noteq> None \<Longrightarrow> used' = used"
    "err = None \<Longrightarrow> \<exists>p. page = Some p \<and> used' = insert p used \<and> vtd_target_exit p used' = used"
  using assms
  by (auto simp: vtd_target_init_def vtd_target_exit_def Let_def split: if_splits option.splits prod.splits)

subsection \<open>The emulated remapping units of the root target\<close>

text \<open>
  Linux set the units up before the hypervisor took them over and keeps writing to them: its page of
  registers is trapped. \<open>vtd_emulation\<close> is what the hypervisor keeps per unit, with the user data of
  each remapping entry. Guest memory is a map from addresses to 32-bit words; \<open>guest_page addr write\<close>
  says whether \<open>paging_get_guest_pages\<close> maps the page, and the ivshmem functions are parameters.
\<close>

record vtd_irte_usage =
  use_device_id :: u16
  use_vector :: nat
  use_used :: bool

record vtd_emulation =
  em_irta :: u64
  irt_entries :: nat
  irte_map :: "vtd_irte_usage list"
  em_iqa :: u64
  em_iqh :: u16
  fault_event_regs :: "u32 list"

record 'h emu_sys =
  em_units :: "vtd_emulation list"
  em_vtd :: "'h vtd_sys"
  guest_mem :: "u64 \<Rightarrow> u32"

record 'h emu_ext =
  guest_page :: "u64 \<Rightarrow> bool \<Rightarrow> bool"
  is_ivshmem :: "u16 \<Rightarrow> bool"
  ivshmem_update_msix_vector :: "u16 \<Rightarrow> nat \<Rightarrow> 'h emu_sys \<Rightarrow> errno option \<times> 'h emu_sys"

definition load64 :: "(u64 \<Rightarrow> u32) \<Rightarrow> u64 \<Rightarrow> u64" where
  "load64 mem a = ucast (mem a) OR push_bit 32 (ucast (mem (a + 4)))"

definition load_vtd_entry :: "(u64 \<Rightarrow> u32) \<Rightarrow> u64 \<Rightarrow> vtd_entry" where
  "load_vtd_entry mem a = \<lparr>lo_word = load64 mem a, hi_word = load64 mem (a + 8)\<rparr>"

definition invalid_irq_msg :: apic_irq_message where
  "invalid_irq_msg = \<lparr>valid = False, msg_vector = 0, msg_delivery_mode = 0, msg_dest_logical = 0,
     msg_level_triggered = 0, msg_redir_hint = 0, msg_destination = 0\<rparr>"

definition irq_msg_of_irte :: "bool \<Rightarrow> u16 \<Rightarrow> vtd_irte \<Rightarrow> apic_irq_message" where
  "irq_msg_of_irte x2apic device_id irte =
     \<lparr>valid = irte_p irte \<and> irte_sid irte = device_id, msg_vector = irte_vector irte,
      msg_delivery_mode = irte_delivery_mode irte, msg_dest_logical = irte_dest_logical irte,
      msg_level_triggered = irte_level_triggered irte, msg_redir_hint = irte_redir_hint irte,
      msg_destination = (if \<not> x2apic then drop_bit 8 (irte_destination irte) else irte_destination irte)\<rparr>"

definition set_usage :: "nat \<Rightarrow> (vtd_irte_usage \<Rightarrow> vtd_irte_usage) \<Rightarrow> vtd_emulation \<Rightarrow> vtd_emulation" where
  "set_usage i f u = u\<lparr>irte_map := (irte_map u)[i := f (irte_map u ! i)]\<rparr>"

text \<open>The vector of a usage entry is a bit field of 10 bits.\<close>

definition iommu_get_remapped_root_int ::
  "(u64 \<Rightarrow> bool \<Rightarrow> bool) \<Rightarrow> (u64 \<Rightarrow> u32) \<Rightarrow> bool \<Rightarrow> u16 \<Rightarrow> nat \<Rightarrow> nat \<Rightarrow> vtd_emulation \<Rightarrow> apic_irq_message \<times> vtd_emulation" where
  "iommu_get_remapped_root_int page mem x2apic device_id vector remap_index u =
     (if remap_index \<ge> irt_entries u then (invalid_irq_msg, u)
      else
        (let u = set_usage remap_index (\<lambda>e. e\<lparr>use_used := False\<rparr>) u;
             irte_addr = (em_irta u AND VTD_IRTA_ADDR_MASK) + of_nat remap_index * 16
         in if \<not> page irte_addr False then (invalid_irq_msg, u)
            else
              (irq_msg_of_irte x2apic device_id \<lparr>raw0 = load64 mem irte_addr, raw1 = load64 mem (irte_addr + 8)\<rparr>,
               set_usage remap_index
                 (\<lambda>e. e\<lparr>use_device_id := device_id, use_vector := vector mod 1024, use_used := True\<rparr>) u)))"

text \<open>\<open>vtd_emulate_inv_int\<close>; the inner result is the error, if there is one.\<close>

definition vtd_emulate_inv_int ::
  "'h dmar_ops \<Rightarrow> apic_if \<Rightarrow> 'h emu_ext \<Rightarrow> nat \<Rightarrow> nat \<Rightarrow> 'h emu_sys \<Rightarrow> (errno option \<times> 'h emu_sys) option" where
  "vtd_emulate_inv_int ops ap ext unit_no index s =
     (let u = em_units s ! unit_no; usage = irte_map u ! index in
      if index \<ge> irt_entries u then Some (None, s)
      else if \<not> use_used usage then Some (None, s)
      else if is_ivshmem ext (use_device_id usage)
      then Some (ivshmem_update_msix_vector ext (use_device_id usage) (use_vector usage) s)
      else
        (case iommu_get_remapped_root_int (guest_page ext) (guest_mem s) (apic_x2apic ap)
            (use_device_id usage) (use_vector usage) index u of
           (irq_msg, u) \<Rightarrow>
             (let s = s\<lparr>em_units := (em_units s)[unit_no := u]\<rparr> in
              case iommu_map_interrupt ops ap (use_device_id usage) (use_vector usage) irq_msg (em_vtd s) of
                None \<Rightarrow> None
              | Some (Inl err, v) \<Rightarrow> Some (Some err, s\<lparr>em_vtd := v\<rparr>)
              | Some (Inr _, v) \<Rightarrow> Some (None, s\<lparr>em_vtd := v\<rparr>))))"

fun emulate_inv_ints ::
  "'h dmar_ops \<Rightarrow> apic_if \<Rightarrow> 'h emu_ext \<Rightarrow> nat \<Rightarrow> nat \<Rightarrow> nat \<Rightarrow> 'h emu_sys \<Rightarrow> (errno option \<times> 'h emu_sys) option" where
  "emulate_inv_ints ops ap ext unit_no n 0 s = Some (None, s)"
| "emulate_inv_ints ops ap ext unit_no n (Suc k) s =
     (case vtd_emulate_inv_int ops ap ext unit_no n s of
        None \<Rightarrow> None
      | Some (Some err, s) \<Rightarrow> Some (Some err, s)
      | Some (None, s) \<Rightarrow> emulate_inv_ints ops ap ext unit_no (n + 1) k s)"

definition VTD_INV_INT_IM_MASK :: u64 where "VTD_INV_INT_IM_MASK = BIT_MASK 31 27"
definition VTD_INV_INT_IIDX_MASK :: u64 where "VTD_INV_INT_IIDX_MASK = BIT_MASK 47 32"
abbreviation (input) VTD_INV_INT_IM_SHIFT :: nat where "VTD_INV_INT_IM_SHIFT \<equiv> 27"
abbreviation (input) VTD_REQ_INV_MASK :: u64 where "VTD_REQ_INV_MASK \<equiv> BIT_MASK 3 0"

definition vtd_emulate_qi_request ::
  "'h dmar_ops \<Rightarrow> apic_if \<Rightarrow> 'h emu_ext \<Rightarrow> nat \<Rightarrow> vtd_entry \<Rightarrow> 'h emu_sys \<Rightarrow> (errno option \<times> 'h emu_sys) option" where
  "vtd_emulate_qi_request ops ap ext unit_no inv_desc s =
     (let lo = lo_word inv_desc; hi = hi_word inv_desc in
      if lo AND VTD_REQ_INV_MASK = VTD_REQ_INV_INT then
        (if bit lo 4
         then emulate_inv_ints ops ap ext unit_no (unat (drop_bit VTD_INV_INT_IIDX_SHIFT (lo AND VTD_INV_INT_IIDX_MASK)))
                (2 ^ unat (drop_bit VTD_INV_INT_IM_SHIFT (lo AND VTD_INV_INT_IM_MASK))) s
         else emulate_inv_ints ops ap ext unit_no 0 (irt_entries (em_units s ! unit_no)) s)
      else if lo AND VTD_REQ_INV_MASK = VTD_REQ_INV_WAIT then
        (if bit lo 4 \<or> \<not> bit lo 5 then Some (Some EINVAL, s)
         else if \<not> guest_page ext hi True then Some (Some EINVAL, s)
         else Some (None, s\<lparr>guest_mem := (guest_mem s)
                ((hi AND PAGE_MASK) + (hi AND PAGE_OFFS_MASK AND NOT 3) := ucast (drop_bit VTD_INV_WAIT_SDATA_SHIFT lo))\<rparr>))
      else Some (Some EINVAL, s))"

text \<open>
  The queue loop of \<open>vtd_unit_access_handler\<close>. \<open>iqh\<close> is the head of the unit, which is not used by
  what the loop calls; \<open>tail\<close> the masked value that is written. The first result component says whether
  the loop reached the tail; otherwise the head stays at the entry that was refused.
\<close>

partial_function (option) iq_loop ::
  "(u16 \<Rightarrow> 's \<Rightarrow> (bool \<times> 's) option) \<Rightarrow> u64 \<Rightarrow> u16 \<Rightarrow> 's \<Rightarrow> (bool \<times> u16 \<times> 's) option" where
  "iq_loop body tail iqh s =
     (if ucast iqh = tail then Some (True, iqh, s)
      else (case body iqh s of
              None \<Rightarrow> None
            | Some (ok, s) \<Rightarrow>
                if ok then iq_loop body tail ((iqh + 16) AND 0xfff) s else Some (False, iqh, s)))"

declare iq_loop.simps [code]

definition iq_entry ::
  "'h dmar_ops \<Rightarrow> apic_if \<Rightarrow> 'h emu_ext \<Rightarrow> nat \<Rightarrow> u16 \<Rightarrow> 'h emu_sys \<Rightarrow> (bool \<times> 'h emu_sys) option" where
  "iq_entry ops ap ext unit_no iqh s =
     (let iqa = em_iqa (em_units s ! unit_no) in
      if \<not> guest_page ext iqa False then Some (False, s)
      else map_option (\<lambda>(err, s). (err = None, s))
             (vtd_emulate_qi_request ops ap ext unit_no
               (load_vtd_entry (guest_mem s) ((iqa AND PAGE_MASK) + ucast iqh)) s))"

text \<open>
  The result, the value read, and the new state. A queue entry that is refused and an access that the handler does
  not know both get \<open>MMIO_ERROR\<close>, which is \<open>MMIO_OTHER\<close> here; the messages printed before are left out.
\<close>

definition vtd_unit_access_handler ::
  "'h dmar_ops \<Rightarrow> apic_if \<Rightarrow> 'h emu_ext \<Rightarrow> nat \<Rightarrow> mmio_access \<Rightarrow> 'h emu_sys \<Rightarrow> (mmio_result \<times> u64 \<times> 'h emu_sys) option" where
  "vtd_unit_access_handler ops ap ext unit_no mmio s =
     (let u = em_units s ! unit_no; addr = mmio_address mmio in
      if addr = VTD_FSTS_REG \<and> \<not> mmio_is_write mmio then Some (MMIO_HANDLED, 0, s)
      else if VTD_FECTL_REG \<le> addr \<and> addr \<le> VTD_FEUADDR_REG then
        (let reg = unat ((addr - VTD_FECTL_REG) div 4) in
         if mmio_is_write mmio
         then Some (MMIO_HANDLED, mmio_value mmio,
                s\<lparr>em_units := (em_units s)[unit_no :=
                    u\<lparr>fault_event_regs := (fault_event_regs u)[reg := ucast (mmio_value mmio)]\<rparr>]\<rparr>)
         else Some (MMIO_HANDLED, ucast (fault_event_regs u ! reg), s))
      else if addr = VTD_IQT_REG \<and> mmio_is_write mmio then
        map_option
          (\<lambda>(ok, iqh, s). (if ok then MMIO_HANDLED else MMIO_OTHER, mmio_value mmio,
             s\<lparr>em_units := (em_units s)[unit_no := (em_units s ! unit_no)\<lparr>em_iqh := iqh\<rparr>]\<rparr>))
          (iq_loop (iq_entry ops ap ext unit_no) (mmio_value mmio AND VTD_IQT_QT_MASK AND PAGE_OFFS_MASK)
             (em_iqh u) s)
      else Some (MMIO_OTHER, mmio_value mmio, s))"

subsection \<open>The contexts refine a map from devices to domains\<close>

definition root_present :: "ctx_sys \<Rightarrow> nat \<Rightarrow> bool" where
  "root_present c b \<longleftrightarrow> lo_word (root_entry_table c ! b) AND VTD_ROOT_PRESENT \<noteq> 0"

definition root_addr :: "ctx_sys \<Rightarrow> nat \<Rightarrow> u64" where
  "root_addr c b = lo_word (root_entry_table c ! b) AND PAGE_MASK"

definition ctx_present :: "vtd_entry \<Rightarrow> bool" where
  "ctx_present e \<longleftrightarrow> lo_word e AND VTD_CTX_PRESENT \<noteq> 0"

text \<open>What the remapping hardware finds for a device.\<close>

definition ctx_lookup :: "pci_bdf \<Rightarrow> ctx_sys \<Rightarrow> u16 \<Rightarrow> vtd_entry option" where
  "ctx_lookup pc c bdf =
     (if \<not> root_present c (pci_bus pc bdf) then None
      else case ctx_tables c (root_addr c (pci_bus pc bdf)) of
        None \<Rightarrow> None
      | Some table \<Rightarrow>
          (let e = table ! pci_devfn pc bdf in if ctx_present e then Some e else None))"

text \<open>
  The tables are as the code keeps them: every present root entry has a table of its own, every table
  belongs to a bus, and none is empty - except possibly those in \<open>ex\<close>, while one is being filled.
\<close>

definition ctx_wf_except :: "u64 set \<Rightarrow> ctx_sys \<Rightarrow> bool" where
  "ctx_wf_except ex c \<longleftrightarrow> length (root_entry_table c) = 256 \<and>
     (\<forall>b < 256. root_present c b \<longrightarrow>
        (\<exists>t. ctx_tables c (root_addr c b) = Some t \<and> length t = 256)) \<and>
     (\<forall>b < 256. \<forall>b' < 256. root_present c b \<longrightarrow> root_present c b' \<longrightarrow> root_addr c b = root_addr c b' \<longrightarrow> b = b') \<and>
     (\<forall>p t. ctx_tables c p = Some t \<longrightarrow> (\<exists>b < 256. root_present c b \<and> root_addr c b = p) \<and>
        (p \<notin> ex \<longrightarrow> (\<exists>e \<in> set t. ctx_present e)))"

definition ctx_wf :: "ctx_sys \<Rightarrow> bool" where
  "ctx_wf c \<longleftrightarrow> ctx_wf_except {} c"

text \<open>A new page: aligned, not a context table already, and zeroed.\<close>

definition ctx_page_ok :: "ctx_sys \<Rightarrow> (u64 \<times> vtd_entry list) option \<Rightarrow> bool" where
  "ctx_page_ok c page \<longleftrightarrow>
     (case page of None \<Rightarrow> True
      | Some (p, t) \<Rightarrow> p AND PAGE_MASK = p \<and> ctx_tables c p = None \<and> t = replicate 256 \<lparr>lo_word = 0, hi_word = 0\<rparr>)"

datatype ctx_op = Ctx_Add "(u64 \<times> vtd_entry list) option" vtd_entry u16 | Ctx_Remove u16

fun ctx_step :: "pci_bdf \<Rightarrow> ctx_op \<Rightarrow> ctx_sys \<Rightarrow> (bool \<times> ctx_sys) option" where
  "ctx_step pc (Ctx_Add page e bdf) c =
     map_option (\<lambda>r. case r of Inl _ \<Rightarrow> (False, c) | Inr c \<Rightarrow> (True, c)) (ctx_add pc page e bdf c)"
| "ctx_step pc (Ctx_Remove bdf) c = map_option (Pair True) (ctx_remove pc bdf c)"

fun ctx_op_ok :: "pci_bdf \<Rightarrow> ctx_sys \<Rightarrow> ctx_op \<Rightarrow> bool" where
  "ctx_op_ok pc c (Ctx_Add page e bdf) \<longleftrightarrow> ctx_page_ok c page \<and> ctx_present e"
| "ctx_op_ok pc c (Ctx_Remove bdf) \<longleftrightarrow> ctx_lookup pc c bdf \<noteq> None"

fun ctx_spec :: "ctx_op \<Rightarrow> (u16 \<Rightarrow> vtd_entry option) \<Rightarrow> (u16 \<Rightarrow> vtd_entry option)" where
  "ctx_spec (Ctx_Add page e bdf) m = m(bdf \<mapsto> e)"
| "ctx_spec (Ctx_Remove bdf) m = m(bdf := None)"

lemma present_or_addr:
  assumes "p AND PAGE_MASK = p"
  shows "(VTD_ROOT_PRESENT OR p) AND VTD_ROOT_PRESENT \<noteq> 0" "(VTD_ROOT_PRESENT OR p) AND PAGE_MASK = p"
proof -
  have "(1 OR p) AND 1 = (1 :: u64)"
    by (rule bit_word_eqI) (auto simp: bit_simps bit_1_iff)
  then show "(VTD_ROOT_PRESENT OR p) AND VTD_ROOT_PRESENT \<noteq> 0"
    by simp
  have "(1 :: u64) AND PAGE_MASK = 0"
    by (simp add: PAGE_MASK_def)
  then show "(VTD_ROOT_PRESENT OR p) AND PAGE_MASK = p"
    using assms by (simp add: bit.conj_disj_distrib2)
qed

lemma clear_present: "(v AND NOT 1) AND 1 = (0 :: u64)"
  by (rule bit_word_eqI) (auto simp: bit_simps)

lemma ctx_wf_exceptD:
  assumes "ctx_wf_except ex c"
  shows "length (root_entry_table c) = 256"
    and "b < 256 \<Longrightarrow> root_present c b \<Longrightarrow> \<exists>t. ctx_tables c (root_addr c b) = Some t \<and> length t = 256"
    and "b < 256 \<Longrightarrow> b' < 256 \<Longrightarrow> root_present c b \<Longrightarrow> root_present c b' \<Longrightarrow> root_addr c b = root_addr c b' \<Longrightarrow> b = b'"
    and "ctx_tables c p = Some t \<Longrightarrow> \<exists>b < 256. root_present c b \<and> root_addr c b = p"
    and "ctx_tables c p = Some t \<Longrightarrow> p \<notin> ex \<Longrightarrow> \<exists>e \<in> set t. ctx_present e"
  using assms unfolding ctx_wf_except_def by blast+

lemma ctx_wf_exceptI:
  assumes "length (root_entry_table c) = 256"
    and "\<And>b. b < 256 \<Longrightarrow> root_present c b \<Longrightarrow> \<exists>t. ctx_tables c (root_addr c b) = Some t \<and> length t = 256"
    and "\<And>b b'. b < 256 \<Longrightarrow> b' < 256 \<Longrightarrow> root_present c b \<Longrightarrow> root_present c b' \<Longrightarrow> root_addr c b = root_addr c b' \<Longrightarrow> b = b'"
    and "\<And>p t. ctx_tables c p = Some t \<Longrightarrow> \<exists>b < 256. root_present c b \<and> root_addr c b = p"
    and "\<And>p t. ctx_tables c p = Some t \<Longrightarrow> p \<notin> ex \<Longrightarrow> \<exists>e \<in> set t. ctx_present e"
  shows "ctx_wf_except ex c"
  using assms unfolding ctx_wf_except_def by blast

lemma bdf_okD:
  assumes "bdf_ok pc"
  shows "pci_bus pc b < 256" "pci_devfn pc b < 256"
    and "pci_bus pc a = pci_bus pc b \<Longrightarrow> pci_devfn pc a = pci_devfn pc b \<Longrightarrow> a = b"
  using assms by (auto simp: bdf_ok_def)

lemma root_ctx_store [simp]:
  "root_present (ctx_store f e p t c) = root_present c" "root_addr (ctx_store f e p t c) = root_addr c"
  "root_entry_table (ctx_store f e p t c) = root_entry_table c"
  "ctx_tables (ctx_store f e p t c) = (ctx_tables c)(p \<mapsto> t[f := e])"
  by (auto simp: root_present_def root_addr_def ctx_store_def fun_eq_iff)

text \<open>Storing an entry in the table of a present bus.\<close>

lemma ctx_store_refines:
  assumes pc: "bdf_ok pc" and wf: "ctx_wf_except {root_addr c (pci_bus pc bdf)} c"
    and bus: "root_present c (pci_bus pc bdf)"
    and t: "ctx_tables c (root_addr c (pci_bus pc bdf)) = Some t" "length t = 256"
    and ne: "(\<exists>e' \<in> set (t[pci_devfn pc bdf := e]). ctx_present e')"
  defines "c' \<equiv> ctx_store (pci_devfn pc bdf) e (root_addr c (pci_bus pc bdf)) t c"
  shows "ctx_wf c'" and "ctx_lookup pc c' = (ctx_lookup pc c)(bdf := if ctx_present e then Some e else None)"
proof -
  let ?b = "pci_bus pc bdf" and ?f = "pci_devfn pc bdf"
  have sel: "root_present c' = root_present c" "root_addr c' = root_addr c"
    "root_entry_table c' = root_entry_table c" "ctx_tables c' = (ctx_tables c)(root_addr c ?b \<mapsto> t[?f := e])"
    by (simp_all add: c'_def)
  show "ctx_wf c'"
    unfolding ctx_wf_def
  proof (rule ctx_wf_exceptI; unfold sel)
    show "length (root_entry_table c) = 256"
      by (rule ctx_wf_exceptD(1) [OF wf])
  next
    fix b assume "b < 256" "root_present c b"
    then show "\<exists>s. ((ctx_tables c)(root_addr c ?b \<mapsto> t[?f := e])) (root_addr c b) = Some s \<and> length s = 256"
      using ctx_wf_exceptD(2) [OF wf, of b] t by auto
  next
    fix b b' assume "b < 256" "b' < 256" "root_present c b" "root_present c b'" "root_addr c b = root_addr c b'"
    then show "b = b'"
      by (rule ctx_wf_exceptD(3) [OF wf])
  next
    fix p s assume "((ctx_tables c)(root_addr c ?b \<mapsto> t[?f := e])) p = Some s"
    then show "\<exists>b<256. root_present c b \<and> root_addr c b = p"
      using ctx_wf_exceptD(4) [OF wf, of p] bus bdf_okD(1) [OF pc, of bdf]
      by (cases "p = root_addr c ?b") auto
  next
    fix p s assume "((ctx_tables c)(root_addr c ?b \<mapsto> t[?f := e])) p = Some s"
    then show "\<exists>e\<in>set s. ctx_present e"
      using ctx_wf_exceptD(5) [OF wf, of p] ne by (cases "p = root_addr c ?b") auto
  qed
  show "ctx_lookup pc c' = (ctx_lookup pc c)(bdf := if ctx_present e then Some e else None)"
  proof
    fix a
    show "ctx_lookup pc c' a = ((ctx_lookup pc c)(bdf := if ctx_present e then Some e else None)) a"
    proof (cases "pci_bus pc a = ?b")
      case True
      then show ?thesis
        using bdf_okD(3) [OF pc True] bus t bdf_okD(2) [OF pc, of bdf]
        by (cases "pci_devfn pc a = ?f") (auto simp: ctx_lookup_def sel)
    next
      case False
      then have "root_present c (pci_bus pc a) \<Longrightarrow> root_addr c (pci_bus pc a) \<noteq> root_addr c ?b"
        using ctx_wf_exceptD(3) [OF wf] bus bdf_okD(1) [OF pc] by blast
      then show ?thesis
        using False by (auto simp: ctx_lookup_def sel)
    qed
  qed
qed

text \<open>Hanging an empty table below a bus that had none.\<close>

definition ctx_install :: "nat \<Rightarrow> u64 \<Rightarrow> vtd_entry list \<Rightarrow> ctx_sys \<Rightarrow> ctx_sys" where
  "ctx_install b p t c =
     c\<lparr>root_entry_table := (root_entry_table c)[b := (root_entry_table c ! b)\<lparr>lo_word := VTD_ROOT_PRESENT OR p\<rparr>],
       ctx_tables := (ctx_tables c)(p \<mapsto> t)\<rparr>"

lemma ctx_install_empty:
  assumes wf: "ctx_wf c" and b: "b < 256" "\<not> root_present c b" and page: "ctx_page_ok c (Some (p, t))"
  defines "c' \<equiv> ctx_install b p t c"
  shows "ctx_wf_except {p} c'" and "bdf_ok pc \<Longrightarrow> ctx_lookup pc c' = ctx_lookup pc c"
    and "root_present c' b" and "root_addr c' b = p" and "ctx_tables c' p = Some t" and "length t = 256"
proof -
  have p: "p AND PAGE_MASK = p" "ctx_tables c p = None" "t = replicate 256 \<lparr>lo_word = 0, hi_word = 0\<rparr>"
    using page by (simp_all add: ctx_page_ok_def)
  note wf = wf [unfolded ctx_wf_def]
  have rp: "root_present c' i \<longleftrightarrow> (if i = b then True else root_present c i)"
    "root_addr c' i = (if i = b then p else root_addr c i)" if "i < 256" for i
    using that b(1) ctx_wf_exceptD(1) [OF wf] present_or_addr [OF p(1)]
    by (auto simp: c'_def ctx_install_def root_present_def root_addr_def nth_list_update)
  have tb: "ctx_tables c' = (ctx_tables c)(p \<mapsto> t)"
    by (simp add: c'_def ctx_install_def)
  have fresh: "root_addr c i \<noteq> p" if "i < 256" "root_present c i" for i
    using ctx_wf_exceptD(2) [OF wf that] p(2) by auto
  show t256: "length t = 256"
    using p(3) by simp
  show "root_present c' b" "root_addr c' b = p" "ctx_tables c' p = Some t"
    using rp [OF b(1)] by (simp_all add: tb)
  show "ctx_wf_except {p} c'"
  proof (rule ctx_wf_exceptI)
    show "length (root_entry_table c') = 256"
      using ctx_wf_exceptD(1) [OF wf] by (simp add: c'_def ctx_install_def)
  next
    fix i assume "i < 256" "root_present c' i"
    then show "\<exists>t. ctx_tables c' (root_addr c' i) = Some t \<and> length t = 256"
      using ctx_wf_exceptD(2) [OF wf, of i] fresh t256 by (auto simp: rp tb split: if_splits)
  next
    fix i j assume "i < 256" "j < 256" "root_present c' i" "root_present c' j" "root_addr c' i = root_addr c' j"
    then show "i = j"
      using ctx_wf_exceptD(3) [OF wf, of i j] fresh [of i] fresh [of j] by (auto simp: rp split: if_splits)
  next
    fix q s assume "ctx_tables c' q = Some s"
    then consider "q = p" | i where "i < 256" "root_present c i" "root_addr c i = q"
      using ctx_wf_exceptD(4) [OF wf, of q] by (auto simp: tb split: if_splits)
    then show "\<exists>i<256. root_present c' i \<and> root_addr c' i = q"
    proof cases
      case 1
      then show ?thesis
        using rp [OF b(1)] b(1) by auto
    next
      case (2 i)
      then show ?thesis
        using rp [of i] b(2) by (intro exI [of _ i]) auto
    qed
  next
    fix q s assume "ctx_tables c' q = Some s" "q \<notin> {p}"
    then show "\<exists>e\<in>set s. ctx_present e"
      using ctx_wf_exceptD(5) [OF wf, of q] by (simp add: tb)
  qed
  show "ctx_lookup pc c' = ctx_lookup pc c" if pc: "bdf_ok pc"
  proof
    fix a
    note bus = bdf_okD(1,2) [OF pc, of a]
    show "ctx_lookup pc c' a = ctx_lookup pc c a"
      using b(2) fresh [OF bus(1)] bus p(3)
      by (cases "pci_bus pc a = b") (auto simp: ctx_lookup_def rp tb ctx_present_def)
  qed
qed

lemma ctx_add_refines:
  assumes pc: "bdf_ok pc" and wf: "ctx_wf c" and page: "ctx_page_ok c page" and e: "ctx_present e"
  shows "ctx_add pc page e bdf c = Some (Inl ENOMEM) \<or>
    (\<exists>c'. ctx_add pc page e bdf c = Some (Inr c') \<and> ctx_wf c' \<and> ctx_lookup pc c' = (ctx_lookup pc c)(bdf \<mapsto> e))"
proof -
  let ?b = "pci_bus pc bdf" and ?f = "pci_devfn pc bdf"
  have some: "\<exists>e' \<in> set (t[?f := e]). ctx_present e'" if "length t = 256" for t
    using e that bdf_okD(2) [OF pc, of bdf] set_update_memI [of ?f t e] by auto
  show ?thesis
  proof (cases "root_present c ?b")
    case True
    obtain t where t: "ctx_tables c (root_addr c ?b) = Some t" "length t = 256"
      using ctx_wf_exceptD(2) [OF wf [unfolded ctx_wf_def] bdf_okD(1) [OF pc] True] by blast
    have "ctx_wf_except {root_addr c ?b} c"
      using wf by (auto simp: ctx_wf_def ctx_wf_except_def)
    from ctx_store_refines [OF pc this True t some [OF t(2)]] show ?thesis
      using True t e by (simp add: ctx_add_def Let_def root_present_def root_addr_def)
  next
    case False
    show ?thesis
    proof (cases page)
      case None
      then show ?thesis
        using False by (simp add: ctx_add_def Let_def root_present_def)
    next
      case (Some pt)
      obtain p t where pt: "pt = (p, t)"
        by (metis surj_pair)
      have page': "ctx_page_ok c (Some (p, t))"
        using page Some pt by simp
      note inst = ctx_install_empty [OF wf bdf_okD(1) [OF pc] False page']
      from ctx_store_refines [OF pc, of "ctx_install ?b p t c" bdf t e] inst pc some [OF inst(6)]
      have "ctx_wf (ctx_store ?f e p t (ctx_install ?b p t c))"
        "ctx_lookup pc (ctx_store ?f e p t (ctx_install ?b p t c)) = (ctx_lookup pc c)(bdf \<mapsto> e)"
        using e by simp_all
      moreover have "ctx_add pc page e bdf c = Some (Inr (ctx_store ?f e p t (ctx_install ?b p t c)))"
        using False Some pt by (simp add: ctx_add_def Let_def root_present_def ctx_store_def ctx_install_def)
      ultimately show ?thesis by blast
    qed
  qed
qed


text \<open>Taking the last entry of a bus away frees its table.\<close>

lemma ctx_uninstall:
  assumes pc: "bdf_ok pc" and wf: "ctx_wf c" and bus: "root_present c (pci_bus pc bdf)"
    and t: "ctx_tables c (root_addr c (pci_bus pc bdf)) = Some t" "length t = 256"
    and empty: "\<And>f. f < 256 \<Longrightarrow> f \<noteq> pci_devfn pc bdf \<Longrightarrow> \<not> ctx_present (t ! f)"
  defines "b \<equiv> pci_bus pc bdf"
  defines "c' \<equiv> c\<lparr>root_entry_table := (root_entry_table c)[b := (root_entry_table c ! b)
      \<lparr>lo_word := lo_word (root_entry_table c ! b) AND NOT VTD_ROOT_PRESENT\<rparr>],
    ctx_tables := (ctx_tables c)(root_addr c b := None)\<rparr>"
  shows "ctx_wf c'" and "ctx_lookup pc c' = (ctx_lookup pc c)(bdf := None)"
proof -
  note wf = wf [unfolded ctx_wf_def]
  have b: "b < 256" "root_present c b"
    using bdf_okD(1) [OF pc] bus by (simp_all add: b_def)
  have rp: "root_present c' i \<longleftrightarrow> i \<noteq> b \<and> root_present c i" if "i < 256" for i
    using that b(1) ctx_wf_exceptD(1) [OF wf] clear_present
    by (auto simp: c'_def root_present_def nth_list_update)
  have ra: "root_addr c' i = root_addr c i" if "i < 256" "i \<noteq> b" for i
    using that ctx_wf_exceptD(1) [OF wf] by (auto simp: c'_def root_addr_def nth_list_update)
  have tb: "ctx_tables c' = (ctx_tables c)(root_addr c b := None)"
    by (simp add: c'_def)
  have other: "root_addr c i \<noteq> root_addr c b" if "i < 256" "root_present c i" "i \<noteq> b" for i
    using ctx_wf_exceptD(3) [OF wf, of i b] that b by blast
  show "ctx_wf c'"
    unfolding ctx_wf_def
  proof (rule ctx_wf_exceptI)
    show "length (root_entry_table c') = 256"
      using ctx_wf_exceptD(1) [OF wf] by (simp add: c'_def)
  next
    fix i assume "i < 256" "root_present c' i"
    then show "\<exists>t. ctx_tables c' (root_addr c' i) = Some t \<and> length t = 256"
      using ctx_wf_exceptD(2) [OF wf, of i] other [of i] by (auto simp: rp ra tb)
  next
    fix i j assume "i < 256" "j < 256" "root_present c' i" "root_present c' j" "root_addr c' i = root_addr c' j"
    then show "i = j"
      using ctx_wf_exceptD(3) [OF wf, of i j] by (auto simp: rp ra)
  next
    fix q s assume "ctx_tables c' q = Some s"
    then obtain i where "i < 256" "root_present c i" "root_addr c i = q" "q \<noteq> root_addr c b"
      using ctx_wf_exceptD(4) [OF wf, of q] by (auto simp: tb split: if_splits)
    moreover from this have "i \<noteq> b"
      by auto
    ultimately show "\<exists>i<256. root_present c' i \<and> root_addr c' i = q"
      by (intro exI [of _ i]) (auto simp: rp ra)
  next
    fix q s assume "ctx_tables c' q = Some s" "q \<notin> {}"
    then show "\<exists>e\<in>set s. ctx_present e"
      using ctx_wf_exceptD(5) [OF wf, of q] by (simp add: tb split: if_splits)
  qed
  show "ctx_lookup pc c' = (ctx_lookup pc c)(bdf := None)"
  proof
    fix a
    note bus = bdf_okD(1,2) [OF pc, of a]
    show "ctx_lookup pc c' a = ((ctx_lookup pc c)(bdf := None)) a"
    proof (cases "pci_bus pc a = b")
      case True
      have "ctx_lookup pc c a = None" if "a \<noteq> bdf"
      proof -
        have "pci_devfn pc a \<noteq> pci_devfn pc bdf"
          using bdf_okD(3) [OF pc, of a bdf] that True by (auto simp: b_def)
        then show ?thesis
          using True t empty [OF bus(2)] by (simp add: ctx_lookup_def b_def Let_def)
      qed
      moreover have "ctx_lookup pc c' a = None"
        using True rp [OF b(1)] by (simp add: ctx_lookup_def)
      ultimately show ?thesis by simp
    next
      case False
      then have "a \<noteq> bdf" by (auto simp: b_def)
      then show ?thesis
        using False other [OF bus(1)] by (auto simp: ctx_lookup_def rp [OF bus(1)] ra [OF bus(1)] tb)
    qed
  qed
qed

lemma ctx_remove_refines:
  assumes pc: "bdf_ok pc" and wf: "ctx_wf c" and dev: "ctx_lookup pc c bdf \<noteq> None"
  shows "\<exists>c'. ctx_remove pc bdf c = Some c' \<and> ctx_wf c' \<and> ctx_lookup pc c' = (ctx_lookup pc c)(bdf := None)"
proof -
  let ?b = "pci_bus pc bdf" and ?f = "pci_devfn pc bdf"
  have bus: "root_present c ?b"
    using dev by (simp add: ctx_lookup_def split: if_splits)
  obtain t where t: "ctx_tables c (root_addr c ?b) = Some t" "length t = 256"
    using ctx_wf_exceptD(2) [OF wf [unfolded ctx_wf_def] bdf_okD(1) [OF pc] bus] by blast
  define e where "e = (t ! ?f)\<lparr>lo_word := lo_word (t ! ?f) AND NOT VTD_CTX_PRESENT\<rparr>"
  have e: "\<not> ctx_present e"
    using clear_present [of "lo_word (t ! ?f)"] by (simp add: e_def ctx_present_def)
  have f: "?f < length t"
    using bdf_okD(2) [OF pc] t by simp
  have run: "ctx_remove pc bdf c =
    (if \<exists>x \<in> set (t[?f := e]). ctx_present x then Some (ctx_store ?f e (root_addr c ?b) t c)
     else Some (c\<lparr>root_entry_table := (root_entry_table c)[?b := (root_entry_table c ! ?b)
         \<lparr>lo_word := lo_word (root_entry_table c ! ?b) AND NOT VTD_ROOT_PRESENT\<rparr>],
       ctx_tables := (ctx_tables c)(root_addr c ?b := None)\<rparr>))"
  proof -
    have whole: "take 256 (t[?f := e]) = t[?f := e]"
      using t(2) by simp
    show ?thesis
      unfolding ctx_remove_def Let_def root_addr_def [symmetric] t(1) option.case e_def [symmetric]
        whole list_ex_iff ctx_present_def ctx_store_def ..
  qed
  show ?thesis
  proof (cases "\<exists>x \<in> set (t[?f := e]). ctx_present x")
    case True
    have "ctx_wf_except {root_addr c ?b} c"
      using wf by (auto simp: ctx_wf_def ctx_wf_except_def)
    from ctx_store_refines [OF pc this bus t True] show ?thesis
      using run True e by auto
  next
    case False
    have "\<not> ctx_present (t ! i)" if "i < 256" "i \<noteq> ?f" for i
      using False that t(2) nth_mem [of i "t[?f := e]"] by (auto simp: nth_list_update)
    from ctx_uninstall [OF pc wf bus t this] show ?thesis
      using run False by auto
  qed
qed

text \<open>The PCI encoding of device ids: bus in the upper, device and function in the lower byte.\<close>

definition pci_std :: pci_bdf where
  "pci_std = \<lparr>pci_bus = \<lambda>b. unat (drop_bit 8 b), pci_devfn = \<lambda>b. unat (b AND 0xff)\<rparr>"

lemma pci_std_ok: "bdf_ok pci_std"
proof -
  have "unat (drop_bit 8 (b :: u16)) < 256" for b
  proof -
    have "unat b < 2 ^ LENGTH(16)"
      by (rule unsigned_less)
    then show ?thesis
      by (simp add: drop_bit_eq_div unat_div_distrib)
  qed
  moreover have "unat ((b :: u16) AND 0xff) < 256" for b
    by (rule unat_and_mask_less) simp
  moreover have "a = b" if "drop_bit 8 a = drop_bit 8 b" "a AND 0xff = b AND 0xff" for a b :: u16
  proof (rule bit_word_eqI)
    fix n assume "n < LENGTH(16)"
    have "(0xff :: u16) = mask 8"
      by (simp add: mask_eq_exp_minus_1)
    then have low: "take_bit 8 a = take_bit 8 b"
      using that(2) by (simp add: take_bit_eq_mask)
    show "bit a n \<longleftrightarrow> bit b n"
    proof (cases "n < 8")
      case True
      moreover have "bit (take_bit 8 a) n \<longleftrightarrow> bit (take_bit 8 b) n"
        by (simp only: low)
      ultimately show ?thesis
        by (simp add: bit_take_bit_iff)
    next
      case False
      moreover have "bit (drop_bit 8 a) (n - 8) \<longleftrightarrow> bit (drop_bit 8 b) (n - 8)"
        by (simp only: that(1))
      ultimately show ?thesis
        by (simp add: bit_drop_bit_eq)
    qed
  qed
  ultimately show ?thesis
    unfolding bdf_ok_def pci_std_def pci_bdf.simps word_unat_eq_iff [symmetric] by blast
qed

lemma ctx_step_refines:
  assumes "ctx_wf s" "ctx_op_ok pci_std s op"
  shows "\<exists>r s'. ctx_step pci_std op s = Some (r, s') \<and> ctx_wf s' \<and>
    ctx_lookup pci_std s' = (if r then ctx_spec op (ctx_lookup pci_std s) else ctx_lookup pci_std s)"
proof (cases op)
  case (Ctx_Add page e bdf)
  then have ok: "ctx_page_ok s page" "ctx_present e"
    using assms(2) by simp_all
  from ctx_add_refines [OF pci_std_ok assms(1) ok, of bdf] show ?thesis
  proof (elim disjE exE conjE)
    assume "ctx_add pci_std page e bdf s = Some (Inl ENOMEM)"
    then show ?thesis
      using Ctx_Add assms(1) by (intro exI [of _ False] exI [of _ s]) simp
  next
    fix c' assume "ctx_add pci_std page e bdf s = Some (Inr c')" "ctx_wf c'"
      "ctx_lookup pci_std c' = (ctx_lookup pci_std s)(bdf \<mapsto> e)"
    then show ?thesis
      using Ctx_Add by (intro exI [of _ True] exI [of _ c']) simp
  qed
next
  case (Ctx_Remove bdf)
  then have "ctx_lookup pci_std s bdf \<noteq> None"
    using assms(2) by simp
  from ctx_remove_refines [OF pci_std_ok assms(1) this] obtain c' where
    "ctx_remove pci_std bdf s = Some c'" "ctx_wf c'" "ctx_lookup pci_std c' = (ctx_lookup pci_std s)(bdf := None)"
    by blast
  then show ?thesis
    using Ctx_Remove by (intro exI [of _ True] exI [of _ c']) simp
qed

interpretation contexts: operation_refinement ctx_wf "ctx_op_ok pci_std" "ctx_step pci_std" "ctx_lookup pci_std" ctx_spec
  by unfold_locales (rule ctx_step_refines)

text \<open>C23. The device assignment of the remapping hardware is a map: through any sequence of added and removed
  devices, where additions may fail for lack of memory, the walk of root and context table finds for each
  device exactly the entry that was stored last and not removed - so no device ever reaches the page table
  of another target - and every context table left allocated belongs to a bus with a device.\<close>

theorem vtd_contexts_refine_map:
  assumes "ctx_wf c" "ops_ok (ctx_step pci_std) (ctx_op_ok pci_std) ops c"
  shows "\<exists>rs c'. run_ops (ctx_step pci_std) ops c = Some (rs, c') \<and> length rs = length ops \<and> ctx_wf c' \<and>
    ctx_lookup pci_std c' = spec_ops ctx_spec ops rs (ctx_lookup pci_std c)"
  using assms by (rule contexts.run_refines)

text \<open>
  A device comes and goes: interrupt entries and context together. Which device owns which entry is the
  relation \<open>same_owners\<close> keeps.
\<close>

definition same_owners :: "vtd_irte list \<Rightarrow> vtd_irte list \<Rightarrow> bool" where
  "same_owners t t' \<longleftrightarrow> (\<forall>i d. irte_owned (t' ! i) d \<longleftrightarrow> irte_owned (t ! i) d)"

lemma reserve_free_owners:
  assumes "vtd_sys_ok ops s" "vtd_find_int_remap_region (irt s) (irt_limit s) d = Inl ENOENT"
    and "vtd_reserve_int_remap_region (irt s) (irt_limit s) d len = (Inr b, t)"
  shows "\<exists>s'. vtd_free_int_remap_region ops d len (s\<lparr>irt := t\<rparr>) = Some s' \<and> same_owners (irt s) (irt s')"
proof (cases "len = 0")
  case True
  then have "t = irt s"
    using assms(3) by (simp add: vtd_reserve_int_remap_region_def)
  then show ?thesis
    using assms(2) by (simp add: vtd_free_int_remap_region_def same_owners_def)
next
  case False
  then show ?thesis
    using vtd_reserve_free_roundtrip [OF assms(1) _ assms(2,3)] by (auto simp: same_owners_def)
qed

text \<open>C24. The life of a device under the remapping units. Adding it either fails, with -E2BIG for want of
  interrupt entries or -ENOMEM for want of a page, and then no entry has changed hands and the context
  tables are untouched; or the units find its new context, and that of no other device has changed.
  Removing it afterwards returns, ends its DMA, and leaves every interrupt entry with its former owner.\<close>

theorem pci_device_lifecycle:
  assumes "vtd_sys_ok ops s" "vtd_find_int_remap_region (irt s) (irt_limit s) (dev_bdf dev) = Inl ENOENT"
    and "ctx_wf c" "ctx_page_ok c page" "ctx_present e"
  shows "case iommu_add_pci_device ops pci_std page e dev s c of
      None \<Rightarrow> False
    | Some (Some err, s', c') \<Rightarrow>
        c' = c \<and> same_owners (irt s) (irt s') \<and> (err = E2BIG \<or> err = ENOMEM \<and> page = None)
    | Some (None, s', c') \<Rightarrow> ctx_wf c' \<and> ctx_lookup pci_std c' = (ctx_lookup pci_std c)(dev_bdf dev \<mapsto> e) \<and>
        (\<exists>s'' c''. iommu_remove_pci_device ops pci_std dev s' c' = Some (s'', c'') \<and> ctx_wf c'' \<and>
           ctx_lookup pci_std c'' = (ctx_lookup pci_std c)(dev_bdf dev := None) \<and> same_owners (irt s) (irt s''))"
proof -
  let ?len = "max (num_msi_vectors dev) (num_msix_vectors dev)" and ?d = "dev_bdf dev"
  show ?thesis
  proof (cases "vtd_reserve_int_remap_region (irt s) (irt_limit s) ?d ?len")
    case (Pair r t)
    show ?thesis
    proof (cases r)
      case (Inl err)
      then have "err = E2BIG"
        using Pair by (auto simp: vtd_reserve_int_remap_region_def split: if_splits option.splits)
      then show ?thesis
        using Pair Inl by (simp add: iommu_add_pci_device_def Let_def same_owners_def)
    next
      case (Inr b)
      obtain s' where free: "vtd_free_int_remap_region ops ?d ?len (s\<lparr>irt := t\<rparr>) = Some s'" "same_owners (irt s) (irt s')"
        using reserve_free_owners [OF assms(1,2)] Pair Inr by blast
      from ctx_add_refines [OF pci_std_ok assms(3-5), of ?d] show ?thesis
      proof (elim disjE exE conjE)
        assume "ctx_add pci_std page e ?d c = Some (Inl ENOMEM)"
        then show ?thesis
          using Pair Inr free by (auto simp: iommu_add_pci_device_def Let_def ctx_add_def split: option.splits if_splits)
      next
        fix c' assume add: "ctx_add pci_std page e ?d c = Some (Inr c')" "ctx_wf c'"
          "ctx_lookup pci_std c' = (ctx_lookup pci_std c)(?d \<mapsto> e)"
        obtain c'' where "ctx_remove pci_std ?d c' = Some c''" "ctx_wf c''"
          "ctx_lookup pci_std c'' = (ctx_lookup pci_std c)(?d := None)"
          using ctx_remove_refines [OF pci_std_ok add(2), of ?d] add(3) by auto
        then show ?thesis
          using Pair Inr add free by (simp add: iommu_add_pci_device_def iommu_remove_pci_device_def hbind_def Let_def)
      qed
    qed
  qed
qed

text \<open>The empty tables of \<open>vtd_init\<close>.\<close>

definition empty_ctx_sys :: ctx_sys where
  "empty_ctx_sys = \<lparr>root_entry_table = replicate 256 \<lparr>lo_word = 0, hi_word = 0\<rparr>, ctx_tables = \<lambda>_. None\<rparr>"

lemma empty_ctx_sys_wf: "ctx_wf empty_ctx_sys"
  unfolding ctx_wf_def by (rule ctx_wf_exceptI) (simp_all add: empty_ctx_sys_def root_present_def)

theorem vtd_contexts_refine_map_witness:
  "\<exists>rs c'. run_ops (ctx_step pci_std)
     [Ctx_Add (Some (0x5000, replicate 256 \<lparr>lo_word = 0, hi_word = 0\<rparr>)) (vtd_context_entry 4 0x7000 2) 0x10] empty_ctx_sys =
       Some (rs, c') \<and> ctx_lookup pci_std c' = spec_ops ctx_spec
     [Ctx_Add (Some (0x5000, replicate 256 \<lparr>lo_word = 0, hi_word = 0\<rparr>)) (vtd_context_entry 4 0x7000 2) 0x10] rs (\<lambda>_. None)"
proof -
  have "ops_ok (ctx_step pci_std) (ctx_op_ok pci_std)
     [Ctx_Add (Some (0x5000, replicate 256 \<lparr>lo_word = 0, hi_word = 0\<rparr>)) (vtd_context_entry 4 0x7000 2) 0x10] empty_ctx_sys"
    by (auto simp: ctx_page_ok_def empty_ctx_sys_def PAGE_MASK_def ctx_present_def vtd_context_entry_def
        split: option.splits prod.splits)
  moreover have "ctx_lookup pci_std empty_ctx_sys = (\<lambda>_. None)"
    by (simp add: fun_eq_iff ctx_lookup_def root_present_def empty_ctx_sys_def pci_std_ok [unfolded bdf_ok_def])
  ultimately show ?thesis
    using vtd_contexts_refine_map [OF empty_ctx_sys_wf] by metis
qed

theorem pci_device_lifecycle_witness:
  "case iommu_add_pci_device (ideal_ops 0) pci_std (Some (0x5000, replicate 256 \<lparr>lo_word = 0, hi_word = 0\<rparr>))
      (vtd_context_entry 4 0x7000 2) \<lparr>dev_bdf = 0x10, num_msi_vectors = 1, num_msix_vectors = 3\<rparr>
      (demo_sys (replicate 8 free_irte)) empty_ctx_sys of
    Some (None, s', c') \<Rightarrow> ctx_lookup pci_std c' 0x10 = Some (vtd_context_entry 4 0x7000 2)
  | Some (Some err, s', c') \<Rightarrow> err = E2BIG
  | None \<Rightarrow> False"
proof -
  let ?s = "demo_sys (replicate 8 free_irte)" and ?dev = "\<lparr>dev_bdf = 0x10, num_msi_vectors = 1, num_msix_vectors = 3\<rparr>"
  have ok: "vtd_sys_ok (ideal_ops 0) ?s"
    by (rule demo_sys_ok) simp
  have none: "vtd_find_int_remap_region (irt ?s) (irt_limit ?s) (dev_bdf ?dev) = Inl ENOENT"
    by code_simp
  have page: "ctx_page_ok empty_ctx_sys (Some (0x5000, replicate 256 \<lparr>lo_word = 0, hi_word = 0\<rparr>))"
    and e: "ctx_present (vtd_context_entry 4 0x7000 2)"
    by (simp_all add: ctx_page_ok_def empty_ctx_sys_def PAGE_MASK_def ctx_present_def vtd_context_entry_def)
  show ?thesis
    using pci_device_lifecycle [OF ok none empty_ctx_sys_wf page e]
    by (auto split: option.splits prod.splits)
qed

subsection \<open>VT-d entries\<close>

lemma bit_VTD_LINK_FLAGS [masks]: "bit VTD_LINK_FLAGS n \<longleftrightarrow> n = 0 \<or> n = 1"
proof -
  have "VTD_LINK_FLAGS = mask 2"
    by (simp add: VTD_LINK_FLAGS_def mask_eq_exp_minus_1)
  then have "bit VTD_LINK_FLAGS n \<longleftrightarrow> bit (mask 2 :: u64) n"
    by (simp only:)
  also have "\<dots> \<longleftrightarrow> n = 0 \<or> n = 1"
    unfolding bit_mask_iff by auto
  finally show ?thesis .
qed

interpretation vtd_link: table_link VTD_LINK_FLAGS vtd_set_next_pt
  by unfold_locales (simp add: vtd_set_next_pt_def VTD_LINK_FLAGS_def or.assoc, auto simp: masks)

subsection \<open>The queue loop is a walk through the ring\<close>

text \<open>The entries from \<open>a\<close> to \<open>b\<close> in a ring of 256, and the loop as a fold over them.\<close>

definition ring :: "nat \<Rightarrow> nat \<Rightarrow> nat list" where
  "ring a b = map (\<lambda>i. (a + i) mod 256) [0..<(b + 256 - a) mod 256]"

fun run_heads :: "(u16 \<Rightarrow> 's \<Rightarrow> (bool \<times> 's) option) \<Rightarrow> nat list \<Rightarrow> nat \<Rightarrow> 's \<Rightarrow> (bool \<times> u16 \<times> 's) option" where
  "run_heads body [] fin s = Some (True, of_nat (16 * fin), s)"
| "run_heads body (a # as) fin s =
     (case body (of_nat (16 * a)) s of
        None \<Rightarrow> None
      | Some (True, s) \<Rightarrow> run_heads body as fin s
      | Some (False, s) \<Rightarrow> Some (False, of_nat (16 * a), s))"

lemma ring_self: "a < 256 \<Longrightarrow> ring a a = []"
  by (simp add: ring_def)

lemma ring_step:
  assumes "a < 256" "b < 256" "a \<noteq> b"
  shows "ring a b = a # ring ((a + 1) mod 256) b"
proof (rule nth_equalityI)
  have n: "(b + 256 - a) mod 256 = Suc ((b + 256 - (a + 1) mod 256) mod 256)"
  proof (cases "a = 255")
    case True
    then show ?thesis using assms by simp
  next
    case False
    then have "(a + 1) mod 256 = a + 1"
      using assms by simp
    moreover have "b + 256 - a = Suc (b + 256 - (a + 1))"
      using assms by simp
    moreover have "Suc ((b + 256 - (a + 1)) mod 256) \<noteq> 256"
      using assms by (cases "a < b") (auto simp: mod_if)
    ultimately show ?thesis
      by (simp add: mod_Suc)
  qed
  then show "length (ring a b) = length (a # ring ((a + 1) mod 256) b)"
    by (simp add: ring_def)
  fix i
  assume "i < length (ring a b)"
  then show "ring a b ! i = (a # ring ((a + 1) mod 256) b) ! i"
    using assms(1) n by (cases i) (simp_all add: ring_def mod_add_left_eq add.assoc mod_Suc_eq del: upt_Suc)
qed

lemma ring_length: "length (ring a b) < 256"
  by (simp add: ring_def)

lemma unat_head:
  assumes "a < 256"
  shows "unat (of_nat (16 * a) :: u16) = 16 * a" "unat (of_nat (16 * a) :: u64) = 16 * a"
  using assms by (simp_all add: unsigned_of_nat take_bit_eq_mod del: of_nat_mult)

lemma head_eq_tail:
  assumes "a < 256" "b < 256"
  shows "ucast (of_nat (16 * a) :: u16) = (of_nat (16 * b) :: u64) \<longleftrightarrow> a = b"
  using unat_head(1) [OF assms(1)] unat_head(2) [OF assms(2)] assms
  by (simp add: word_unat_eq_iff unsigned_ucast_eq take_bit_eq_mod del: of_nat_mult)

lemma head_next:
  assumes "a < 256"
  shows "((of_nat (16 * a) :: u16) + 16) AND 0xfff = of_nat (16 * ((a + 1) mod 256))"
proof -
  have "(0xfff :: u16) = mask 12"
    by (simp add: mask_eq_exp_minus_1)
  then have "((of_nat (16 * a) :: u16) + 16) AND 0xfff = take_bit 12 (of_nat (16 * a) + 16)"
    by (simp add: take_bit_eq_mask)
  moreover have "unat (take_bit 12 ((of_nat (16 * a) :: u16) + 16)) = (16 * a + 16) mod 4096"
    using assms unat_head(1) [OF assms]
    by (simp add: unsigned_take_bit_eq take_bit_eq_mod unat_word_ariths del: of_nat_mult)
  moreover have "(16 * a + 16) mod 4096 = 16 * ((a + 1) mod 256)"
    using mult_mod_right [of 16 "a + 1" 256] by (simp add: add.commute)
  moreover have "unat (of_nat (16 * ((a + 1) mod 256)) :: u16) = 16 * ((a + 1) mod 256)"
    by (rule unat_head(1)) simp
  ultimately show ?thesis
    by (metis word_unat_eq_iff)
qed

lemma iq_loop_ring:
  assumes "a < 256" "b < 256"
  shows "iq_loop body (of_nat (16 * b)) (of_nat (16 * a)) s = run_heads body (ring a b) b s"
  using assms
proof (induction "length (ring a b)" arbitrary: a s)
  case 0
  then have "a = b"
    using ring_step [of a b] by (cases "a = b") auto
  then show ?case
    using 0 by (simp add: iq_loop.simps [of _ _ _ s] ring_self head_eq_tail del: of_nat_mult)
next
  case (Suc n)
  have ab: "a \<noteq> b"
    using Suc.hyps(2) Suc.prems by (auto simp: ring_self)
  note step = ring_step [OF Suc.prems ab]
  have "n = length (ring ((a + 1) mod 256) b)"
    using Suc.hyps(2) step by simp
  from Suc.hyps(1) [OF this] Suc.prems ab show ?case
    unfolding step iq_loop.simps [of _ _ _ s]
    by (simp add: head_eq_tail head_next del: of_nat_mult split: option.splits prod.splits bool.splits)
qed


lemma tail_index:
  "v AND VTD_IQT_QT_MASK AND PAGE_OFFS_MASK = of_nat (16 * (unat (drop_bit 4 v) mod 256))"
proof -
  let ?x = "take_bit 8 (drop_bit 4 v)"
  have "unat ?x = unat (drop_bit 4 v) mod 256"
    unfolding unsigned_take_bit_eq by (simp add: take_bit_eq_mod)
  then have "of_nat (unat (drop_bit 4 v) mod 256) = ?x"
    by (metis of_nat_unat ucast_id)
  moreover have "push_bit 4 ?x = 16 * ?x"
    by (simp only: push_bit_eq_mult mult.commute) simp
  moreover have "v AND VTD_IQT_QT_MASK AND PAGE_OFFS_MASK = push_bit 4 ?x"
    by (rule bit_word_eqI) (auto simp: VTD_IQT_QT_MASK_def masks bit_simps)
  ultimately show ?thesis
    by (simp only: of_nat_mult of_nat_numeral)
qed

lemma run_heads_Some:
  assumes body: "\<And>h s. P s \<Longrightarrow> \<exists>ok s'. body h s = Some (ok, s') \<and> P s'"
  shows "P s \<Longrightarrow> \<exists>ok h s'. run_heads body as b s = Some (ok, h, s') \<and> P s'"
proof (induction as arbitrary: s)
  case Nil
  then show ?case by auto
next
  case (Cons a as)
  from body [OF Cons.prems, of "of_nat (16 * a)"] obtain ok s' where
    "body (of_nat (16 * a)) s = Some (ok, s')" "P s'" by blast
  then show ?case
    using Cons.IH [of s'] by (cases ok) auto
qed

subsection \<open>Serving a descriptor keeps the hardware's state in order\<close>

definition emu_ok :: "'h dmar_ops \<Rightarrow> 'h emu_ext \<Rightarrow> bool" where
  "emu_ok ops ext \<longleftrightarrow> (\<forall>d v s. vtd_sys_ok ops (em_vtd s) \<longrightarrow>
     vtd_sys_ok ops (em_vtd (snd (ivshmem_update_msix_vector ext d v s))))"

lemma iommu_map_interrupt_ok:
  assumes ok: "vtd_sys_ok ops s"
  shows "\<exists>r s'. iommu_map_interrupt ops ap d vector msg s = Some (r, s') \<and> vtd_sys_ok ops s'"
  using iommu_map_interrupt_result [OF ok] by blast

lemma vtd_emulate_inv_int_ok:
  assumes "emu_ok ops ext" "vtd_sys_ok ops (em_vtd s)"
  shows "\<exists>r s'. vtd_emulate_inv_int ops ap ext u i s = Some (r, s') \<and> vtd_sys_ok ops (em_vtd s')"
proof -
  have map: "\<exists>r v'. iommu_map_interrupt ops ap d vec msg (em_vtd s) = Some (r, v') \<and> vtd_sys_ok ops v'" for d vec msg
    using assms(2) by (rule iommu_map_interrupt_ok)
  have iv: "vtd_sys_ok ops (em_vtd (snd (ivshmem_update_msix_vector ext d v s)))" for d v
    using assms by (simp add: emu_ok_def)
  obtain msg unit where root: "iommu_get_remapped_root_int (guest_page ext) (guest_mem s) (apic_x2apic ap)
      (use_device_id (irte_map (em_units s ! u) ! i)) (use_vector (irte_map (em_units s ! u) ! i)) i (em_units s ! u)
      = (msg, unit)"
    by (metis surj_pair)
  from map [of "use_device_id (irte_map (em_units s ! u) ! i)" "use_vector (irte_map (em_units s ! u) ! i)" msg]
  obtain r v where "iommu_map_interrupt ops ap (use_device_id (irte_map (em_units s ! u) ! i))
      (use_vector (irte_map (em_units s ! u) ! i)) msg (em_vtd s) = Some (r, v)" "vtd_sys_ok ops v" by blast
  note run = this
  obtain r' s' where ivshmem: "ivshmem_update_msix_vector ext (use_device_id (irte_map (em_units s ! u) ! i))
      (use_vector (irte_map (em_units s ! u) ! i)) s = (r', s')" "vtd_sys_ok ops (em_vtd s')"
    using iv by (metis surj_pair snd_conv)
  consider "irt_entries (em_units s ! u) \<le> i \<or> \<not> use_used (irte_map (em_units s ! u) ! i)"
    | "\<not> irt_entries (em_units s ! u) \<le> i" "use_used (irte_map (em_units s ! u) ! i)"
      "is_ivshmem ext (use_device_id (irte_map (em_units s ! u) ! i))"
    | "\<not> irt_entries (em_units s ! u) \<le> i" "use_used (irte_map (em_units s ! u) ! i)"
      "\<not> is_ivshmem ext (use_device_id (irte_map (em_units s ! u) ! i))"
    by blast
  then show ?thesis
  proof cases
    case 1
    then show ?thesis using assms(2) by (auto simp: vtd_emulate_inv_int_def Let_def)
  next
    case 2
    then show ?thesis using ivshmem by (simp add: vtd_emulate_inv_int_def Let_def)
  next
    case 3
    then show ?thesis using run by (cases r) (simp_all add: vtd_emulate_inv_int_def Let_def root)
  qed
qed

lemma emulate_inv_ints_ok:
  assumes "emu_ok ops ext"
  shows "vtd_sys_ok ops (em_vtd s) \<Longrightarrow>
    \<exists>r s'. emulate_inv_ints ops ap ext u n k s = Some (r, s') \<and> vtd_sys_ok ops (em_vtd s')"
proof (induction k arbitrary: n s)
  case 0
  then show ?case by simp
next
  case (Suc k)
  from vtd_emulate_inv_int_ok [OF assms Suc.prems, of ap u n] obtain r s' where
    "vtd_emulate_inv_int ops ap ext u n s = Some (r, s')" "vtd_sys_ok ops (em_vtd s')" by blast
  then show ?case
    using Suc.IH [of s' "n + 1"] by (cases r) auto
qed

lemma iq_entry_ok:
  assumes "emu_ok ops ext" "vtd_sys_ok ops (em_vtd s)"
  shows "\<exists>ok s'. iq_entry ops ap ext u h s = Some (ok, s') \<and> vtd_sys_ok ops (em_vtd s')"
proof -
  have "\<exists>r s'. vtd_emulate_qi_request ops ap ext u d s = Some (r, s') \<and> vtd_sys_ok ops (em_vtd s')" for d
    using assms(2) emulate_inv_ints_ok [OF assms] unfolding vtd_emulate_qi_request_def Let_def
    by (auto split del: if_split split: if_split)
  then show ?thesis
    using assms(2) unfolding iq_entry_def Let_def by fastforce
qed

text \<open>C25. The emulated invalidation queue: whatever Linux writes to the tail register of a unit whose head
  is at a descriptor, the handler returns (the units of the hardware execute their own queues), after at
  most 255 descriptors. It serves exactly the descriptors from the head to the new tail, around the end
  of the page, in order; if all are accepted the head arrives at the tail, otherwise the access is an
  error and the head stays at the refused one.\<close>

theorem vtd_iq_emulation_serves_ring:
  assumes "em_iqh (em_units s ! u) = of_nat (16 * a)" "a < 256"
    and "mmio_address mmio = VTD_IQT_REG" "mmio_is_write mmio"
    and "emu_ok ops ext" "vtd_sys_ok ops (em_vtd s)"
  shows "let b = unat (drop_bit 4 (mmio_value mmio)) mod 256 in
    length (ring a b) \<le> 255 \<and>
    (\<exists>ok h s'. run_heads (iq_entry ops ap ext u) (ring a b) b s = Some (ok, h, s') \<and>
       vtd_sys_ok ops (em_vtd s') \<and>
       vtd_unit_access_handler ops ap ext u mmio s =
         Some (if ok then MMIO_HANDLED else MMIO_OTHER, mmio_value mmio,
               s'\<lparr>em_units := (em_units s')[u := (em_units s' ! u)\<lparr>em_iqh := h\<rparr>]\<rparr>))"
proof -
  let ?b = "unat (drop_bit 4 (mmio_value mmio)) mod 256"
  have loop: "iq_loop (iq_entry ops ap ext u) (mmio_value mmio AND VTD_IQT_QT_MASK AND PAGE_OFFS_MASK)
      (em_iqh (em_units s ! u)) s = run_heads (iq_entry ops ap ext u) (ring a ?b) ?b s"
    unfolding tail_index assms(1) by (rule iq_loop_ring [OF assms(2)]) simp
  obtain ok h s' where run: "run_heads (iq_entry ops ap ext u) (ring a ?b) ?b s = Some (ok, h, s')"
      "vtd_sys_ok ops (em_vtd s')"
    using run_heads_Some [of "\<lambda>s. vtd_sys_ok ops (em_vtd s)" "iq_entry ops ap ext u", OF iq_entry_ok [OF assms(5)] assms(6)]
    by blast
  have "vtd_unit_access_handler ops ap ext u mmio s =
         Some (if ok then MMIO_HANDLED else MMIO_OTHER, mmio_value mmio,
               s'\<lparr>em_units := (em_units s')[u := (em_units s' ! u)\<lparr>em_iqh := h\<rparr>]\<rparr>)"
    using assms(3,4) by (simp add: vtd_unit_access_handler_def Let_def loop run)
  with run ring_length [of a ?b] show ?thesis
    by (simp add: Let_def)
qed

text \<open>Two wait descriptors, in the last and the first entry of the queue page.\<close>

definition demo_emu :: "ideal_hw emu_sys" where
  "demo_emu = \<lparr>em_units = [\<lparr>em_irta = 0, irt_entries = 0, irte_map = [], em_iqa = 0x1000, em_iqh = 0xff0,
       fault_event_regs = [0, 0, 0, 0]\<rparr>],
     em_vtd = demo_sys (replicate 8 free_irte),
     guest_mem = (\<lambda>_. 0)(0x1ff0 := 0x25, 0x1ff4 := 7, 0x1ff8 := 0x5000,
       0x1000 := 0x25, 0x1004 := 8, 0x1008 := 0x6000)\<rparr>"

definition demo_emu_ext :: "ideal_hw emu_ext" where
  "demo_emu_ext = \<lparr>guest_page = \<lambda>_ _. True, is_ivshmem = \<lambda>_. False,
     ivshmem_update_msix_vector = \<lambda>_ _ s. (None, s)\<rparr>"

definition demo_tail_write :: mmio_access where
  "demo_tail_write = \<lparr>mmio_address = VTD_IQT_REG, mmio_size = 4, mmio_is_write = True, mmio_value = 0x10\<rparr>"

theorem vtd_iq_emulation_serves_ring_witness:
  "\<forall>ap. \<exists>s'. vtd_unit_access_handler (ideal_ops 0) ap demo_emu_ext 0 demo_tail_write demo_emu =
       Some (MMIO_HANDLED, 0x10, s') \<and>
     guest_mem s' 0x5000 = 7 \<and> guest_mem s' 0x6000 = 8 \<and> em_iqh (em_units s' ! 0) = 0x10"
proof
  fix ap
  have ok: "vtd_sys_ok (ideal_ops 0) (em_vtd demo_emu)"
    by (simp add: demo_emu_def demo_sys_ok)
  have ext: "emu_ok (ideal_ops 0) demo_emu_ext"
    by (simp add: emu_ok_def demo_emu_ext_def)
  have head: "em_iqh (em_units demo_emu ! 0) = of_nat (16 * 255)"
    by (simp add: demo_emu_def)
  have tail: "mmio_address demo_tail_write = VTD_IQT_REG" "mmio_is_write demo_tail_write"
    "mmio_value demo_tail_write = 0x10" "drop_bit 4 (0x10 :: u64) = 1"
    by (simp_all add: demo_tail_write_def)
  have index: "unat (drop_bit 4 (mmio_value demo_tail_write)) mod 256 = 1"
    by (simp add: tail)
  have ring: "ring 255 1 = [255, 0]"
    by (simp add: ring_step ring_self)
  define s1 where "s1 = demo_emu\<lparr>guest_mem := (guest_mem demo_emu)(0x5000 := 7)\<rparr>"
  define s2 where "s2 = s1\<lparr>guest_mem := (guest_mem s1)(0x6000 := 8)\<rparr>"
  have d1: "load_vtd_entry (guest_mem demo_emu) (0x1000 + ucast (of_nat (16 * 255) :: u16)) =
      \<lparr>lo_word = 0x700000025, hi_word = 0x5000\<rparr>"
    by (simp add: load_vtd_entry_def load64_def demo_emu_def)
  have d2: "load_vtd_entry (guest_mem s1) (0x1000 + ucast (of_nat (16 * 0) :: u16)) =
      \<lparr>lo_word = 0x800000025, hi_word = 0x6000\<rparr>"
    by (simp add: load_vtd_entry_def load64_def demo_emu_def s1_def)
  have iqa: "em_iqa (em_units demo_emu ! 0) = 0x1000" "em_iqa (em_units s1 ! 0) = 0x1000"
    "guest_page demo_emu_ext p w" "(0x1000 :: u64) AND PAGE_MASK = 0x1000" for p w
    by (simp_all add: demo_emu_def s1_def demo_emu_ext_def PAGE_MASK_def)
  have q1: "vtd_emulate_qi_request (ideal_ops 0) ap demo_emu_ext 0 \<lparr>lo_word = 0x700000025, hi_word = 0x5000\<rparr> demo_emu =
      Some (None, s1)"
    by (simp add: vtd_emulate_qi_request_def iqa s1_def BIT_MASK_def mask_eq_exp_minus_1 PAGE_MASK_def PAGE_OFFS_MASK_def)
  have q2: "vtd_emulate_qi_request (ideal_ops 0) ap demo_emu_ext 0 \<lparr>lo_word = 0x800000025, hi_word = 0x6000\<rparr> s1 =
      Some (None, s2)"
    by (simp add: vtd_emulate_qi_request_def iqa s2_def BIT_MASK_def mask_eq_exp_minus_1 PAGE_MASK_def PAGE_OFFS_MASK_def)
  have e1: "iq_entry (ideal_ops 0) ap demo_emu_ext 0 (of_nat (16 * 255)) demo_emu = Some (True, s1)"
    by (simp only: iq_entry_def Let_def iqa d1 q1) simp
  have e2: "iq_entry (ideal_ops 0) ap demo_emu_ext 0 (of_nat (16 * 0)) s1 = Some (True, s2)"
    by (simp only: iq_entry_def Let_def iqa d2 q2) simp
  have run: "run_heads (iq_entry (ideal_ops 0) ap demo_emu_ext 0) [255, 0] 1 demo_emu = Some (True, 0x10, s2)"
    by (simp only: run_heads.simps e1 e2 option.case prod.case bool.case) simp
  have "vtd_unit_access_handler (ideal_ops 0) ap demo_emu_ext 0 demo_tail_write demo_emu =
      Some (MMIO_HANDLED, 0x10,
        s2\<lparr>em_units := (em_units s2)[0 := (em_units s2 ! 0)\<lparr>em_iqh := 0x10\<rparr>]\<rparr>)"
    using vtd_iq_emulation_serves_ring [OF head _ tail(1,2) ext ok, of ap]
    unfolding index unfolding Let_def unfolding ring unfolding run unfolding tail(3) by auto
  then show "\<exists>s'. vtd_unit_access_handler (ideal_ops 0) ap demo_emu_ext 0 demo_tail_write demo_emu =
       Some (MMIO_HANDLED, 0x10, s') \<and>
     guest_mem s' 0x5000 = 7 \<and> guest_mem s' 0x6000 = 8 \<and> em_iqh (em_units s' ! 0) = 0x10"
    by (simp add: s2_def s1_def demo_emu_def)
qed

end
