(* ===== verification/Spy_Vtd_Init.thy ===== *)
theory Spy_Vtd_Init
  imports Spy_Iommu
begin

text \<open>
  The start and the end of the VT-d units in \<open>vtd.c\<close>: \<open>vtd_init\<close> probes the units and builds the
  state that all later operations rely on, \<open>vtd_init_ir_emulation\<close> takes over units on which Linux uses
  interrupt remapping, \<open>iommu_prepare_shutdown\<close> and \<open>vtd_restore_ir\<close> give them back. What the page
  allocator returns, the mapping of the register pages and the configuration are the record \<open>vtd_env\<close>.
\<close>

subsection \<open>What the start-up is given\<close>

record spy_iommu =
  iommu_is_intel :: bool
  iommu_base :: u64

text \<open>
  \<open>alloc_irt\<close> and \<open>alloc_usage\<close> are the content of pages from the pool, by their number;
  \<open>alloc_queues\<close> that of one page per unit; \<open>map_unit\<close> the result of mapping the registers of a unit.
\<close>

record vtd_env =
  interrupt_limit :: nat
  iommu_units :: "spy_iommu list"
  env_x2apic :: bool
  alloc_irt :: "nat \<Rightarrow> vtd_irte list option"
  alloc_usage :: "nat \<Rightarrow> vtd_irte_usage list option"
  alloc_remap :: "nat \<Rightarrow> u64 option"
  alloc_queues :: "nat \<Rightarrow> vtd_entry list list option"
  map_unit :: "nat \<Rightarrow> errno option"

record vtd_boot =
  boot_pt_levels :: nat
  boot_num_did :: u32
  boot_sllps :: u64
  boot_units :: "vtd_emulation list"
  boot_ir_emulation :: bool
  boot_regions :: "(u64 \<times> nat) list"

abbreviation (input) VTD_VER_REG :: u64 where "VTD_VER_REG \<equiv> 0x00"
abbreviation (input) VTD_ECAP_REG :: u64 where "VTD_ECAP_REG \<equiv> 0x10"
abbreviation (input) VTD_VER_MIN :: u64 where "VTD_VER_MIN \<equiv> 0x10"

definition VTD_IRTA_SIZE_MASK :: u64 where "VTD_IRTA_SIZE_MASK = BIT_MASK 3 0"
definition VTD_IQA_ADDR_MASK :: u64 where "VTD_IQA_ADDR_MASK = BIT_MASK 63 12"
definition VTD_CAP_NUM_DID_MASK :: u64 where "VTD_CAP_NUM_DID_MASK = BIT_MASK 2 0"
definition VTD_VER_MASK :: u64 where "VTD_VER_MASK = BIT_MASK 7 0"

subsection \<open>Taking over a unit that Linux uses\<close>

fun read_fault_regs :: "'h dmar_ops \<Rightarrow> u64 \<Rightarrow> nat \<Rightarrow> nat \<Rightarrow> 'h \<Rightarrow> u32 list \<times> 'h" where
  "read_fault_regs ops reg_base n 0 h = ([], h)"
| "read_fault_regs ops reg_base n (Suc k) h =
     (let (v, h) = mmio_read32 ops (reg_base + VTD_FECTL_REG + of_nat n * 4) h;
          (vs, h) = read_fault_regs ops reg_base (n + 1) k h
      in (v # vs, h))"

definition store_unit :: "nat \<Rightarrow> vtd_emulation \<Rightarrow> vtd_boot \<Rightarrow> vtd_boot" where
  "store_unit unit_no u st = st\<lparr>boot_units := (boot_units st)[unit_no := u]\<rparr>"

text \<open>
  \<open>vtd_init_ir_emulation\<close>. When no page is left the code also stores the null pointer into \<open>irte_map\<close>, which keeps
  its old value here; \<open>vtd_init\<close> fails then, and nothing reads the map of the unit.
\<close>

definition vtd_init_ir_emulation ::
  "'h dmar_ops \<Rightarrow> vtd_env \<Rightarrow> nat \<Rightarrow> u64 \<Rightarrow> vtd_boot \<Rightarrow> 'h \<Rightarrow> (errno option \<times> vtd_boot \<times> 'h) option" where
  "vtd_init_ir_emulation ops env unit_no reg_base st h =
     (let st = st\<lparr>boot_ir_emulation := True,
                  boot_regions := boot_regions st @ [(iommu_base (iommu_units env ! unit_no), unit_no)]\<rparr>;
          (irta, h) = mmio_read64 ops (reg_base + VTD_IRTA_REG) h;
          entries = 2 * 2 ^ unat (irta AND VTD_IRTA_SIZE_MASK);
          u = (boot_units st ! unit_no)\<lparr>em_irta := irta, irt_entries := entries\<rparr>
      in case alloc_usage env (unat (PAGE_ALIGN (of_nat (4 * entries)) div PAGE_SIZE)) of
           None \<Rightarrow> Some (Some ENOMEM, store_unit unit_no u st, h)
         | Some usage \<Rightarrow>
             (let (iqt, h) = mmio_read64 ops (reg_base + VTD_IQT_REG) h in
              hbind (poll (mmio_read64 ops (reg_base + VTD_IQH_REG)) (\<lambda>iqh. iqh = iqt) h) (\<lambda>h.
              let (iqa, h) = mmio_read64 ops (reg_base + VTD_IQA_REG) h;
                  u = u\<lparr>irte_map := usage, em_iqh := ucast iqt, em_iqa := iqa\<rparr>
              in if iqa AND NOT VTD_IQA_ADDR_MASK \<noteq> 0 then Some (Some EIO, store_unit unit_no u st, h)
                 else (let (regs, h) = read_fault_regs ops reg_base 0 4 h
                       in Some (None, store_unit unit_no (u\<lparr>fault_event_regs := regs\<rparr>) st, h)))))"

subsection \<open>Probing the units\<close>

text \<open>The page table levels a unit supports, 3 preferred.\<close>

definition unit_pt_levels :: "u64 \<Rightarrow> nat option" where
  "unit_pt_levels caps = (if bit caps 9 then Some 3 else if bit caps 10 then Some 4 else None)"

text \<open>The part of the loop body of \<open>vtd_init\<close> that deals with the controls that are already on.\<close>

definition vtd_take_over ::
  "'h dmar_ops \<Rightarrow> vtd_env \<Rightarrow> nat \<Rightarrow> u64 \<Rightarrow> u32 \<Rightarrow> vtd_boot \<Rightarrow> 'h \<Rightarrow> (errno option \<times> vtd_boot \<times> 'h) option" where
  "vtd_take_over ops env n reg_base ctrls st h =
     (if ctrls \<noteq> 0 then
        (if ctrls \<noteq> VTD_GCMD_IRE OR VTD_GCMD_QIE then Some (Some EBUSY, st, h)
         else vtd_init_ir_emulation ops env n reg_base st h)
      else if boot_ir_emulation st then Some (Some EIO, st, h)
      else Some (None, st, h))"

definition vtd_probe_unit ::
  "'h dmar_ops \<Rightarrow> vtd_env \<Rightarrow> u64 \<Rightarrow> nat \<Rightarrow> vtd_boot \<Rightarrow> 'h \<Rightarrow> (errno option \<times> vtd_boot \<times> 'h) option" where
  "vtd_probe_unit ops env dmar_base n st h =
     (let reg_base = dmar_base + of_nat n * DMAR_MMIO_SIZE in
      if \<not> iommu_is_intel (iommu_units env ! n) then Some (Some EINVAL, st, h)
      else case map_unit env n of
        Some err \<Rightarrow> Some (Some err, st, h)
      | None \<Rightarrow>
          (let (ver, h) = mmio_read64 ops (reg_base + VTD_VER_REG) h;
               version = ver AND VTD_VER_MASK
           in if version < VTD_VER_MIN \<or> version = 0xff then Some (Some EIO, st, h)
              else
                (let (caps, h) = mmio_read64 ops (reg_base + VTD_CAP_REG) h in
                 case unit_pt_levels caps of
                   None \<Rightarrow> Some (Some EIO, st, h)
                 | Some pt_levels \<Rightarrow>
                     (let st = st\<lparr>boot_sllps := boot_sllps st AND caps\<rparr> in
                      if boot_pt_levels st > 0 \<and> boot_pt_levels st \<noteq> pt_levels then Some (Some EIO, st, h)
                      else
                        (let st = st\<lparr>boot_pt_levels := pt_levels\<rparr>;
                             (ecaps, h) = mmio_read64 ops (reg_base + VTD_ECAP_REG) h
                         in if \<not> bit ecaps 1 \<or> \<not> bit ecaps 3 \<or> env_x2apic env \<and> \<not> bit ecaps 4
                            then Some (Some EIO, st, h)
                            else
                              (let (gsts, h) = mmio_read32 ops (reg_base + VTD_GSTS_REG) h in
                               hbind (vtd_take_over ops env n reg_base (gsts AND VTD_GSTS_USED_CTRLS) st h)
                                 (\<lambda>(err, st, h).
                                    case err of
                                      Some err \<Rightarrow> Some (Some err, st, h)
                                    | None \<Rightarrow>
                                        (let num_did = 2 ^ (4 + unat (caps AND VTD_CAP_NUM_DID_MASK) * 2)
                                         in Some (None, st\<lparr>boot_num_did := min num_did (boot_num_did st)\<rparr>, h)))))))))"

fun vtd_probe_units ::
  "'h dmar_ops \<Rightarrow> vtd_env \<Rightarrow> u64 \<Rightarrow> nat \<Rightarrow> nat \<Rightarrow> vtd_boot \<Rightarrow> 'h \<Rightarrow> (errno option \<times> vtd_boot \<times> 'h) option" where
  "vtd_probe_units ops env dmar_base n 0 st h = Some (None, st, h)"
| "vtd_probe_units ops env dmar_base n (Suc k) st h =
     hbind (vtd_probe_unit ops env dmar_base n st h)
       (\<lambda>(err, st, h). case err of
          Some err \<Rightarrow> Some (Some err, st, h)
        | None \<Rightarrow> vtd_probe_units ops env dmar_base (n + 1) k st h)"

subsection \<open>Start-up as a whole\<close>

text \<open>\<open>for (n = 0; (1UL << n) < limit; n++)\<close>, the logarithm rounded up.\<close>

function log2_roundup :: "nat \<Rightarrow> nat \<Rightarrow> nat" where
  "log2_roundup n limit = (if 2 ^ n < limit then log2_roundup (n + 1) limit else n)"
  by pat_completeness auto
termination
  by (relation "measure (\<lambda>(n, limit). limit - 2 ^ n)") (auto intro!: diff_less_mono2)

declare log2_roundup.simps [simp del]

text \<open>The page table format of the units, derived from the one of x86-64.\<close>

definition vtd_paging_of :: "(u64 \<Rightarrow> u64 \<Rightarrow> u64) \<Rightarrow> nat \<Rightarrow> u64 \<Rightarrow> paging list" where
  "vtd_paging_of get_phys_invalid pt_levels sllps =
     (let ps = map (\<lambda>p. p\<lparr>set_next_pt := Some vtd_set_next_pt\<rparr>)
                 (drop (4 - pt_levels) (x86_64_paging get_phys_invalid));
          ps = (if \<not> bit sllps 35 then ps[pt_levels - 3 := (ps ! (pt_levels - 3))\<lparr>page_size := 0\<rparr>] else ps)
      in if \<not> bit sllps 34 then ps[pt_levels - 2 := (ps ! (pt_levels - 2))\<lparr>page_size := 0\<rparr>] else ps)"

text \<open>
  The result: the error; the probed settings; and, when the units are known, the paging format and the
  state of the interrupt table and the queues. \<open>page\<close> and \<open>chips\<close> belong to the final
  \<open>vtd_target_init (&root_target)\<close>.
\<close>

definition vtd_init ::
  "'h dmar_ops \<Rightarrow> vtd_env \<Rightarrow> (u64 \<Rightarrow> u64 \<Rightarrow> u64) \<Rightarrow> u32 \<Rightarrow> u64 option \<Rightarrow> (u16 \<times> (errno + nat)) list \<Rightarrow> vtd_boot \<Rightarrow> 'h \<Rightarrow>
     (errno option \<times> vtd_boot \<times> nat \<times> (paging list \<times> 'h vtd_sys) option) option" where
  "vtd_init ops env get_phys_invalid root_id page chips st h =
     (let n = log2_roundup 0 (interrupt_limit env); units = length (iommu_units env) in
      if n \<ge> 16 then Some (Some EINVAL, st, 0, None)
      else case alloc_irt env (unat (PAGES (push_bit n 16))) of
        None \<Rightarrow> Some (Some ENOMEM, st, 0, None)
      | Some table \<Rightarrow>
          if units = 0 then Some (Some EINVAL, st, n, None)
          else (case alloc_remap env (units * unat (PAGES DMAR_MMIO_SIZE)) of
            None \<Rightarrow> Some (Some ENOMEM, st, n, None)
          | Some dmar_base \<Rightarrow>
              (case alloc_queues env units of
                 None \<Rightarrow> Some (Some ENOMEM, st, n, None)
               | Some queues \<Rightarrow>
                   hbind (vtd_probe_units ops env dmar_base 0 units st h)
                     (\<lambda>(err, st, h). case err of
                        Some err \<Rightarrow> Some (Some err, st, n, None)
                      | None \<Rightarrow>
                          (let s = \<lparr>irt = table, irt_limit = interrupt_limit env, dmar_units = units,
                                    dmar_reg_base = dmar_base, unit_inv_queue = queues, dmar_hw = h\<rparr>
                           in case vtd_target_init (boot_num_did st) root_id page chips {} s of
                                (err, _, s) \<Rightarrow>
                                  Some (err, st, n,
                                    Some (vtd_paging_of get_phys_invalid (boot_pt_levels st) (boot_sllps st), s)))))))"

text \<open>The static variables before the start.\<close>

definition boot_start :: "vtd_emulation list \<Rightarrow> vtd_boot" where
  "boot_start units = \<lparr>boot_pt_levels = 0, boot_num_did = - 1, boot_sllps = - 1, boot_units = units,
     boot_ir_emulation = False, boot_regions = []\<rparr>"

subsection \<open>Giving the units back\<close>

text \<open>
  The loop of \<open>vtd_restore_ir\<close>: wait descriptors are put into Linux's own queue until the head register
  of the unit is where Linux expects it.
\<close>

partial_function (option) restore_head ::
  "'h dmar_ops \<Rightarrow> u64 \<Rightarrow> u64 \<Rightarrow> vtd_entry list \<Rightarrow> 'h \<Rightarrow> (vtd_entry list \<times> 'h) option" where
  "restore_head ops reg_base iqh q h =
     (case mmio_read64 ops (reg_base + VTD_IQH_REG) h of
        (v, h) \<Rightarrow>
          if v = iqh then Some (q, h)
          else (case vtd_submit_iq_request ops reg_base None q h of
                  None \<Rightarrow> None
                | Some (q, h) \<Rightarrow> restore_head ops reg_base iqh q h))"

declare restore_head.simps [code]

definition restore_fault_regs :: "'h dmar_ops \<Rightarrow> u64 \<Rightarrow> u32 list \<Rightarrow> 'h \<Rightarrow> 'h" where
  "restore_fault_regs ops reg_base regs h =
     fold (\<lambda>n. mmio_write32 ops (reg_base + VTD_FECTL_REG + of_nat n * 4) (regs ! n)) [3, 2, 1, 0] h"

text \<open>\<open>root_queue\<close> is Linux's queue page, \<open>None\<close> when it can not be mapped.\<close>

definition vtd_restore_ir ::
  "'h dmar_ops \<Rightarrow> vtd_emulation \<Rightarrow> u64 \<Rightarrow> vtd_entry list \<Rightarrow> vtd_entry list option \<Rightarrow> 'h \<Rightarrow>
     (vtd_entry list \<times> vtd_entry list option \<times> 'h) option" where
  "vtd_restore_ir ops u reg_base inv_queue root_queue h =
     (let h = mmio_write64 ops (reg_base + VTD_IRTA_REG) (em_irta u) h in
      hbind (vtd_update_gcmd_reg ops reg_base VTD_GCMD_SIRTP True h) (\<lambda>h.
      hbind (vtd_submit_iq_request ops reg_base (Some inv_global_int) inv_queue h) (\<lambda>(inv_queue, h).
      hbind (vtd_update_gcmd_reg ops reg_base VTD_GCMD_QIE False h) (\<lambda>h.
      let h = mmio_write64 ops (reg_base + VTD_IQT_REG) 0 h;
          h = mmio_write64 ops (reg_base + VTD_IQA_REG) (em_iqa u) h in
      hbind (vtd_update_gcmd_reg ops reg_base VTD_GCMD_QIE True h) (\<lambda>h.
      hbind (case root_queue of
               None \<Rightarrow> Some (None, h)
             | Some q \<Rightarrow> map_option (\<lambda>(q, h). (Some q, h)) (restore_head ops reg_base (ucast (em_iqh u)) q h))
        (\<lambda>(root_queue, h).
      hbind (vtd_update_gcmd_reg ops reg_base VTD_GCMD_IRE True h) (\<lambda>h.
      let h = mmio_write32_field ops (reg_base + VTD_FECTL_REG) VTD_FECTL_IM 1 h
      in Some (inv_queue, root_queue, restore_fault_regs ops reg_base (fault_event_regs u) h)))))))) "

text \<open>
  The loop of \<open>iommu_prepare_shutdown\<close>: per unit the emulated state, the queue of the hypervisor and
  Linux's queue page. It does nothing when the units were never set up.
\<close>

fun shutdown_units ::
  "'h dmar_ops \<Rightarrow> bool \<Rightarrow> u64 \<Rightarrow> (vtd_emulation \<times> vtd_entry list \<times> vtd_entry list option) list \<Rightarrow> 'h \<Rightarrow> 'h option" where
  "shutdown_units ops ir_emulation reg_base [] h = Some h"
| "shutdown_units ops ir_emulation reg_base ((u, q, root_queue) # us) h =
     hbind (vtd_update_gcmd_reg ops reg_base VTD_GCMD_TE False h) (\<lambda>h.
     hbind (vtd_update_gcmd_reg ops reg_base VTD_GCMD_IRE False h) (\<lambda>h.
     hbind (if ir_emulation then map_option (\<lambda>(_, _, h). h) (vtd_restore_ir ops u reg_base q root_queue h)
            else vtd_update_gcmd_reg ops reg_base VTD_GCMD_QIE False h) (\<lambda>h.
     shutdown_units ops ir_emulation (reg_base + DMAR_MMIO_SIZE) us h)))"

definition iommu_prepare_shutdown ::
  "'h dmar_ops \<Rightarrow> bool \<Rightarrow> bool \<Rightarrow> u64 \<Rightarrow> (vtd_emulation \<times> vtd_entry list \<times> vtd_entry list option) list \<Rightarrow> 'h \<Rightarrow> 'h option" where
  "iommu_prepare_shutdown ops initialized ir_emulation dmar_base units h =
     (if initialized then shutdown_units ops ir_emulation dmar_base units h else Some h)"

subsection \<open>Sizes\<close>

lemma unat_PAGES:
  assumes "unat s < 2 ^ 63"
  shows "unat (PAGES s) = (unat s + 4095) div 4096"
proof -
  have "s + PAGE_SIZE - 1 = s + 4095"
    by simp
  moreover have "unat (s + 4095) = unat s + 4095"
    using assms by (simp add: unat_word_ariths)
  ultimately show ?thesis
    by (simp only: PAGES_def unat_div_distrib) simp
qed

lemma unat_times_page: "unat (a * PAGE_SIZE) = unat a * 4096 mod 2 ^ 64"
  by (simp add: unat_word_ariths)

lemma pages_cover:
  assumes "unat s < 2 ^ 63"
  shows "unat s \<le> unat (PAGES s) * 4096" "unat (PAGE_ALIGN s div PAGE_SIZE) = unat (PAGES s)"
proof -
  note p = unat_PAGES [OF assms]
  show "unat s \<le> unat (PAGES s) * 4096"
    unfolding p using div_mult_mod_eq [of "unat s + 4095" 4096] mod_less_divisor [of 4096 "unat s + 4095"]
    by linarith
  have "unat (PAGES s) * 4096 \<le> unat s + 4095"
    unfolding p by (rule div_times_less_eq_dividend)
  also have "unat s + 4095 < 2 ^ 64"
    by (rule less_le_trans [OF add_strict_right_mono [OF assms]]) simp
  finally have "unat (PAGE_ALIGN s) = unat (PAGES s) * 4096"
    unfolding PAGE_ALIGN_PAGES unat_times_page by (rule mod_less)
  moreover have "unat (PAGE_ALIGN s div PAGE_SIZE) = unat (PAGE_ALIGN s) div 4096"
    by (simp add: unat_div_distrib)
  ultimately show "unat (PAGE_ALIGN s div PAGE_SIZE) = unat (PAGES s)"
    by (metis div_mult_self_is_m zero_less_numeral)
qed

lemma log2_roundup_spec:
  "limit \<le> 2 ^ log2_roundup n limit \<and> n \<le> log2_roundup n limit \<and>
   (n < log2_roundup n limit \<longrightarrow> 2 ^ (log2_roundup n limit - 1) < limit)"
proof (induction n limit rule: log2_roundup.induct)
  case (1 n limit)
  show ?case
  proof (cases "2 ^ n < limit")
    case True
    note ih = 1 [OF True]
    have "log2_roundup n limit = log2_roundup (n + 1) limit"
      using True by (subst log2_roundup.simps) simp
    with ih True show ?thesis
      by (cases "n + 1 < log2_roundup (n + 1) limit") (auto simp: le_Suc_eq)
  next
    case False
    then have "log2_roundup n limit = n"
      by (subst log2_roundup.simps) simp
    with False show ?thesis by simp
  qed
qed

subsection \<open>A unit taken over\<close>

text \<open>
  What the emulation of a unit relies on: the queue is one page, every remapping entry has its usage
  record, none of them in use yet, and all shadow registers are there. The pages of the allocator are zero.
\<close>

definition usages_unused :: "vtd_emulation \<Rightarrow> bool" where
  "usages_unused u \<longleftrightarrow> irt_entries u \<le> length (irte_map u) \<and> (\<forall>e \<in> set (irte_map u). \<not> use_used e)"

definition unit_ready :: "vtd_emulation \<Rightarrow> bool" where
  "unit_ready u \<longleftrightarrow> em_iqa u AND PAGE_OFFS_MASK = 0 \<and> length (fault_event_regs u) = 4 \<and>
     2 \<le> irt_entries u \<and> irt_entries u \<le> 65536 \<and> usages_unused u"

definition env_pages_ok :: "vtd_env \<Rightarrow> bool" where
  "env_pages_ok env \<longleftrightarrow>
     (\<forall>k t. alloc_irt env k = Some t \<longrightarrow> length t = k * 256 \<and> (\<forall>e \<in> set t. \<not> irte_p e)) \<and>
     (\<forall>k t. alloc_usage env k = Some t \<longrightarrow> length t = k * 1024 \<and> (\<forall>e \<in> set t. \<not> use_used e)) \<and>
     (\<forall>k qs. alloc_queues env k = Some qs \<longrightarrow> length qs = k \<and> (\<forall>q \<in> set qs. length q = 256))"

lemma length_read_fault_regs: "length (fst (read_fault_regs ops base n k h)) = k"
  by (induction k arbitrary: n h) (simp_all add: case_prod_unfold Let_def)

lemma irt_entries_bounds:
  "(2 :: nat) \<le> 2 * 2 ^ unat (v AND VTD_IRTA_SIZE_MASK) \<and> (2 :: nat) * 2 ^ unat (v AND VTD_IRTA_SIZE_MASK) \<le> 65536"
proof -
  have "unat (v AND VTD_IRTA_SIZE_MASK) \<le> 15"
    using unat_and_BIT_MASK_low [of 3 v] by (simp add: VTD_IRTA_SIZE_MASK_def)
  then have "(2 :: nat) ^ unat (v AND VTD_IRTA_SIZE_MASK) \<le> 2 ^ 15"
    by (rule power_increasing) simp
  then show ?thesis by simp
qed

lemma iqa_page_aligned:
  assumes "v AND NOT VTD_IQA_ADDR_MASK = 0"
  shows "v AND PAGE_OFFS_MASK = 0"
proof -
  have "NOT VTD_IQA_ADDR_MASK = PAGE_OFFS_MASK"
    by (rule bit_word_eqI) (auto simp: VTD_IQA_ADDR_MASK_def masks bit_simps)
  with assms show ?thesis by simp
qed

lemma vtd_init_ir_emulation_ready:
  assumes run: "vtd_init_ir_emulation ops env n base st h = Some (None, st', h')"
    and pages: "env_pages_ok env"
  shows "\<exists>u. unit_ready u \<and> st' = st\<lparr>boot_ir_emulation := True,
      boot_regions := boot_regions st @ [(iommu_base (iommu_units env ! n), n)],
      boot_units := (boot_units st)[n := u]\<rparr>"
proof -
  obtain irta h1 where irta: "mmio_read64 ops (base + VTD_IRTA_REG) h = (irta, h1)" by fastforce
  define entries :: nat where "entries = 2 * 2 ^ unat (irta AND VTD_IRTA_SIZE_MASK)"
  define pages_needed where "pages_needed = unat (PAGE_ALIGN (of_nat (4 * entries)) div PAGE_SIZE)"
  obtain usage where usage: "alloc_usage env pages_needed = Some usage"
    using run by (auto simp: vtd_init_ir_emulation_def Let_def irta entries_def pages_needed_def
        split: option.splits)
  obtain iqt h2 where iqt: "mmio_read64 ops (base + VTD_IQT_REG) h1 = (iqt, h2)" by fastforce
  obtain h3 where polled: "poll (mmio_read64 ops (base + VTD_IQH_REG)) (\<lambda>iqh. iqh = iqt) h2 = Some h3"
    using run usage by (cases "poll (mmio_read64 ops (base + VTD_IQH_REG)) (\<lambda>iqh. iqh = iqt) h2")
      (auto simp: vtd_init_ir_emulation_def Let_def irta iqt entries_def pages_needed_def)
  obtain iqa h4 where iqa: "mmio_read64 ops (base + VTD_IQA_REG) h3 = (iqa, h4)" by fastforce
  obtain regs h5 where regs: "read_fault_regs ops base 0 4 h4 = (regs, h5)" by fastforce
  have aligned: "iqa AND NOT VTD_IQA_ADDR_MASK = 0"
    using run usage
    by (auto simp: vtd_init_ir_emulation_def Let_def irta iqt polled iqa entries_def pages_needed_def
        split: if_splits)
  define u where "u = (boot_units st ! n)\<lparr>em_irta := irta, irt_entries := entries, irte_map := usage,
      em_iqh := ucast iqt, em_iqa := iqa, fault_event_regs := regs\<rparr>"
  have st': "st' = st\<lparr>boot_ir_emulation := True,
      boot_regions := boot_regions st @ [(iommu_base (iommu_units env ! n), n)],
      boot_units := (boot_units st)[n := u]\<rparr>"
    using run usage aligned
    by (simp add: vtd_init_ir_emulation_def Let_def irta iqt polled iqa regs entries_def pages_needed_def
        store_unit_def u_def)
  have bounds: "2 \<le> entries" "entries \<le> 65536"
    using irt_entries_bounds [of irta] by (simp_all add: entries_def)
  have small: "unat (of_nat (4 * entries) :: u64) = 4 * entries"
    using bounds by (simp add: unsigned_of_nat take_bit_eq_mod del: of_nat_mult)
  have zero: "length usage = pages_needed * 1024" "\<forall>e \<in> set usage. \<not> use_used e"
    using pages usage by (simp_all add: env_pages_ok_def)
  have "4 * entries \<le> pages_needed * 4096"
    using pages_cover [of "of_nat (4 * entries)"] bounds unfolding small pages_needed_def by simp
  then have "entries \<le> length usage"
    using zero(1) by simp
  then have "unit_ready u"
    using zero(2) bounds iqa_page_aligned [OF aligned] length_read_fault_regs [of ops base 0 4 h4]
    by (simp add: unit_ready_def usages_unused_def u_def regs)
  with st' show ?thesis by blast
qed

subsection \<open>The invariant of the probing loop\<close>

text \<open>
  After the first \<open>n\<close> units: all are Intel units; their page table levels agree; and the units with
  emulated interrupt remapping are those from some index \<open>m\<close> on.
\<close>

definition emulated_from :: "vtd_env \<Rightarrow> nat \<Rightarrow> nat \<Rightarrow> vtd_boot \<Rightarrow> bool" where
  "emulated_from env m n st \<longleftrightarrow> m \<le> n \<and> (boot_ir_emulation st \<longleftrightarrow> m < n) \<and>
     boot_regions st = map (\<lambda>i. (iommu_base (iommu_units env ! i), i)) [m..<n] \<and>
     (\<forall>i. m \<le> i \<and> i < n \<longrightarrow> unit_ready (boot_units st ! i))"

definition boot_inv :: "vtd_env \<Rightarrow> nat \<Rightarrow> vtd_boot \<Rightarrow> bool" where
  "boot_inv env n st \<longleftrightarrow>
     (\<forall>i<n. iommu_is_intel (iommu_units env ! i)) \<and>
     (boot_pt_levels st = 3 \<or> boot_pt_levels st = 4 \<or> n = 0 \<and> boot_pt_levels st = 0) \<and>
     n \<le> length (boot_units st) \<and> length (iommu_units env) \<le> length (boot_units st) \<and>
     (\<exists>m. emulated_from env m n st)"

lemma vtd_take_over_inv:
  assumes run: "vtd_take_over ops env n base ctrls st h = Some (None, st', h')"
    and "emulated_from env m n st" "n < length (boot_units st)" "env_pages_ok env"
  shows "(\<exists>m. emulated_from env m (Suc n) st') \<and> length (boot_units st') = length (boot_units st) \<and>
    boot_pt_levels st' = boot_pt_levels st"
proof (cases "ctrls = 0")
  case True
  then have st: "st' = st" "\<not> boot_ir_emulation st"
    using run by (auto simp: vtd_take_over_def split: if_splits)
  then have "emulated_from env (Suc n) (Suc n) st"
    using assms(2) by (auto simp: emulated_from_def)
  with st show ?thesis by blast
next
  case False
  then have "vtd_init_ir_emulation ops env n base st h = Some (None, st', h')"
    using run by (auto simp: vtd_take_over_def split: if_splits)
  from vtd_init_ir_emulation_ready [OF this assms(4)] obtain u where
    u: "unit_ready u" and st': "st' = st\<lparr>boot_ir_emulation := True,
      boot_regions := boot_regions st @ [(iommu_base (iommu_units env ! n), n)],
      boot_units := (boot_units st)[n := u]\<rparr>" by blast
  have "emulated_from env m (Suc n) st'"
    using assms(2,3) u by (auto simp: emulated_from_def st' nth_list_update less_Suc_eq)
  then show ?thesis
    using st' by auto
qed

lemma vtd_probe_unit_inv:
  assumes run: "vtd_probe_unit ops env base n st h = Some (None, st', h')"
    and inv: "boot_inv env n st" and n: "n < length (iommu_units env)" and pages: "env_pages_ok env"
  shows "boot_inv env (Suc n) st'"
proof -
  obtain ver h1 where ver: "mmio_read64 ops (base + of_nat n * DMAR_MMIO_SIZE) h = (ver, h1)"
    by fastforce
  obtain caps h2 where caps: "mmio_read64 ops (base + of_nat n * DMAR_MMIO_SIZE + VTD_CAP_REG) h1 = (caps, h2)"
    by fastforce
  obtain ecaps h3 where ecaps: "mmio_read64 ops (base + of_nat n * DMAR_MMIO_SIZE + VTD_ECAP_REG) h2 = (ecaps, h3)"
    by fastforce
  obtain gsts h4 where gsts: "mmio_read32 ops (base + of_nat n * DMAR_MMIO_SIZE + VTD_GSTS_REG) h3 = (gsts, h4)"
    by fastforce
  obtain levels where levels: "unit_pt_levels caps = Some levels"
    and same: "boot_pt_levels st = 0 \<or> boot_pt_levels st = levels"
    and intel: "iommu_is_intel (iommu_units env ! n)" and map: "map_unit env n = None"
    using run by (auto simp: vtd_probe_unit_def Let_def ver caps split: option.splits if_splits)
  define st1 where "st1 = st\<lparr>boot_sllps := boot_sllps st AND caps, boot_pt_levels := levels\<rparr>"
  have same: "(0 < boot_pt_levels st \<and> boot_pt_levels st \<noteq> levels) = False"
    using same by simp
  obtain st2 h5 where over: "vtd_take_over ops env n (base + of_nat n * DMAR_MMIO_SIZE)
        (gsts AND VTD_GSTS_USED_CTRLS) st1 h4 = Some (None, st2, h5)"
    and st': "st' = st2\<lparr>boot_num_did := min (2 ^ (4 + unat (caps AND VTD_CAP_NUM_DID_MASK) * 2)) (boot_num_did st2)\<rparr>"
    using run
    by (simp add: vtd_probe_unit_def Let_def ver caps ecaps gsts levels intel map same
        st1_def [symmetric] hbind_def split: option.splits if_splits prod.splits)
  obtain m where m: "emulated_from env m n st"
    using inv by (auto simp: boot_inv_def)
  then have m1: "emulated_from env m n st1" "n < length (boot_units st1)"
    using inv n by (auto simp: emulated_from_def st1_def boot_inv_def)
  from vtd_take_over_inv [OF over m1 pages] obtain m' where
    m': "emulated_from env m' (Suc n) st2" "length (boot_units st2) = length (boot_units st1)"
      "boot_pt_levels st2 = boot_pt_levels st1" by blast
  have levels34: "levels = 3 \<or> levels = 4"
    using levels by (auto simp: unit_pt_levels_def split: if_splits)
  have "emulated_from env m' (Suc n) st'"
    using m'(1) by (simp add: emulated_from_def st')
  then show ?thesis
    using inv m'(2,3) levels34 intel n by (auto simp: boot_inv_def st' st1_def less_Suc_eq)
qed

lemma vtd_probe_units_inv:
  assumes pages: "env_pages_ok env"
  shows "vtd_probe_units ops env base n k st h = Some (None, st', h') \<Longrightarrow> boot_inv env n st \<Longrightarrow>
    n + k = length (iommu_units env) \<Longrightarrow> boot_inv env (n + k) st'"
proof (induction k arbitrary: n st h)
  case 0
  then show ?case by simp
next
  case (Suc k)
  obtain err st1 h1 where probe: "vtd_probe_unit ops env base n st h = Some (err, st1, h1)"
    using Suc.prems(1) by (auto simp: hbind_def split: option.splits)
  then have "err = None" and rest: "vtd_probe_units ops env base (n + 1) k st1 h1 = Some (None, st', h')"
    using Suc.prems(1) by (auto split: option.splits)
  with probe have "boot_inv env (Suc n) st1"
    using vtd_probe_unit_inv [OF _ Suc.prems(2) _ pages] Suc.prems(3) by simp
  then show ?case
    using Suc.IH [of "n + 1" st1 h1] rest Suc.prems(3) by simp
qed

lemma boot_inv_start:
  "length (iommu_units env) \<le> length units \<Longrightarrow> boot_inv env 0 (boot_start units)"
  by (auto simp: boot_inv_def boot_start_def emulated_from_def)

lemma vtd_paging_of_levels:
  assumes "levels = 3 \<or> levels = 4"
  shows "length (vtd_paging_of phys levels sllps) = levels \<and>
    (\<forall>p \<in> set (vtd_paging_of phys levels sllps). set_next_pt p = Some vtd_set_next_pt) \<and>
    map page_size (vtd_paging_of phys levels sllps) =
      drop (4 - levels) [0, if bit sllps 35 then 0x40000000 else 0, if bit sllps 34 then 0x200000 else 0, 0x1000]"
  using assms
  by (auto simp: vtd_paging_of_def x86_64_paging_def X86_64_PAGING_COMMON_def Let_def numeral_3_eq_3 numeral_2_eq_2)

lemma reserve_irqchips_keeps:
  "irt_limit s \<le> length (irt s) \<Longrightarrow> reserve_irqchips chips s = (err, s') \<Longrightarrow>
    \<exists>t. s' = s\<lparr>irt := t\<rparr> \<and> length t = length (irt s)"
proof (induction chips s arbitrary: err s' rule: reserve_irqchips.induct)
  case (1 s)
  then show ?case by (auto intro: exI [of _ "irt s"])
next
  case (2 chip_id e chips s)
  then show ?case by (auto intro: exI [of _ "irt s"])
next
  case (3 chip_id pins chips s)
  obtain r t where r: "vtd_reserve_int_remap_region (irt s) (irt_limit s) chip_id pins = (r, t)"
    by fastforce
  have len: "length t = length (irt s)"
    using r by (auto simp: vtd_reserve_int_remap_region_def assign_region_length split: if_splits option.splits)
  show ?case
  proof (cases r)
    case (Inl e)
    then show ?thesis using 3(3) r len by auto
  next
    case (Inr b)
    with 3(1) [OF r [symmetric] Inr, of err s'] 3(2,3) r len show ?thesis by auto
  qed
qed

text \<open>No usage record is in use after the start, in any unit.\<close>

lemma vtd_take_over_unused:
  assumes "vtd_take_over ops env n base ctrls st h = Some (None, st', h')" "env_pages_ok env"
    and "\<forall>u \<in> set (boot_units st). usages_unused u"
  shows "\<forall>u \<in> set (boot_units st'). usages_unused u"
proof (cases "ctrls = 0")
  case True
  then show ?thesis
    using assms by (auto simp: vtd_take_over_def split: if_splits)
next
  case False
  then have "vtd_init_ir_emulation ops env n base st h = Some (None, st', h')"
    using assms(1) by (auto simp: vtd_take_over_def split: if_splits)
  from vtd_init_ir_emulation_ready [OF this assms(2)] obtain u where
    "unit_ready u" "boot_units st' = (boot_units st)[n := u]" by auto
  then show ?thesis
    using assms(3) by (auto simp: unit_ready_def dest!: set_update_subset_insert [THEN subsetD])
qed

lemma vtd_probe_unit_unused:
  assumes "vtd_probe_unit ops env base n st h = Some (None, st', h')" "env_pages_ok env"
    and "\<forall>u \<in> set (boot_units st). usages_unused u"
  shows "\<forall>u \<in> set (boot_units st'). usages_unused u"
proof -
  obtain base' ctrls st1 h1 st2 h2 where
    over: "vtd_take_over ops env n base' ctrls st1 h1 = Some (None, st2, h2)"
      "boot_units st1 = boot_units st" "boot_units st' = boot_units st2"
    using assms(1) by (auto simp: vtd_probe_unit_def Let_def hbind_def split: option.splits if_splits prod.splits)
  from vtd_take_over_unused [OF over(1) assms(2)] assms(3) show ?thesis
    unfolding over(2,3) .
qed

lemma vtd_probe_units_unused:
  assumes "env_pages_ok env"
  shows "vtd_probe_units ops env base n k st h = Some (None, st', h') \<Longrightarrow>
    \<forall>u \<in> set (boot_units st). usages_unused u \<Longrightarrow> \<forall>u \<in> set (boot_units st'). usages_unused u"
proof (induction k arbitrary: n st h)
  case 0
  then show ?case by simp
next
  case (Suc k)
  obtain st1 h1 where probe: "vtd_probe_unit ops env base n st h = Some (None, st1, h1)"
    and rest: "vtd_probe_units ops env base (n + 1) k st1 h1 = Some (None, st', h')"
    using Suc.prems(1) by (auto simp: hbind_def split: option.splits)
  show ?case
    by (rule Suc.IH [OF rest vtd_probe_unit_unused [OF probe assms Suc.prems(2)]])
qed

text \<open>What a successful start leaves behind.\<close>

lemma vtd_init_result:
  assumes "vtd_init ops env get_phys_invalid root_id page chips (boot_start units) h =
      Some (None, st, n, Some (paging_levels, s))"
    and "env_pages_ok env" "length (iommu_units env) \<le> length units"
  shows "interrupt_limit env \<le> 2 ^ n \<and> n < 16 \<and> irt_limit s = interrupt_limit env \<and>
    irt_limit s \<le> length (irt s) \<and>
    dmar_units s = length (iommu_units env) \<and> 0 < dmar_units s \<and> queues_ok (dmar_units s) (unit_inv_queue s) \<and>
    (\<forall>i. i < dmar_units s \<longrightarrow> iommu_is_intel (iommu_units env ! i)) \<and>
    (boot_pt_levels st = 3 \<or> boot_pt_levels st = 4) \<and> length paging_levels = boot_pt_levels st \<and>
    (\<forall>p. p \<in> set paging_levels \<longrightarrow> set_next_pt p = Some vtd_set_next_pt) \<and>
    map page_size paging_levels = drop (4 - boot_pt_levels st)
      [0, if bit (boot_sllps st) 35 then 0x40000000 else 0, if bit (boot_sllps st) 34 then 0x200000 else 0, 0x1000] \<and>
    root_id < boot_num_did st \<and>
    (\<exists>m. emulated_from env m (dmar_units s) st) \<and>
    ((\<forall>u \<in> set units. usages_unused u) \<longrightarrow> (\<forall>u \<in> set (boot_units st). usages_unused u)) \<and>
    (\<exists>s0. reserve_irqchips chips s0 = (None, s) \<and> (\<forall>e \<in> set (irt s0). \<not> irte_p e) \<and>
       irt_limit s0 \<le> length (irt s0) \<and> queues_ok (dmar_units s0) (unit_inv_queue s0))"
proof -
  define k where "k = log2_roundup 0 (interrupt_limit env)"
  note spec = log2_roundup_spec [of "interrupt_limit env" 0, folded k_def]
  have k: "k < 16"
    using assms(1) by (auto simp: vtd_init_def Let_def k_def split: if_splits)
  obtain table where table: "alloc_irt env (unat (PAGES (push_bit k 16))) = Some table"
    using assms(1) by (auto simp: vtd_init_def Let_def k_def split: option.splits if_splits)
  obtain base queues where base: "alloc_remap env (length (iommu_units env) * unat (PAGES DMAR_MMIO_SIZE)) = Some base"
    and queues: "alloc_queues env (length (iommu_units env)) = Some queues"
    and units: "iommu_units env \<noteq> []"
    using assms(1) table k by (auto simp: vtd_init_def Let_def k_def split: option.splits if_splits)
  obtain err st1 h1 where probe: "vtd_probe_units ops env base 0 (length (iommu_units env)) (boot_start units) h =
      Some (err, st1, h1)"
    using assms(1) table base queues k units
    by (auto simp: vtd_init_def Let_def k_def [symmetric] hbind_def split: option.splits)
  define s0 where "s0 = \<lparr>irt = table, irt_limit = interrupt_limit env, dmar_units = length (iommu_units env),
      dmar_reg_base = base, unit_inv_queue = queues, dmar_hw = h1\<rparr>"
  obtain held where err: "err = None" and st: "st = st1" "n = k"
      "paging_levels = vtd_paging_of get_phys_invalid (boot_pt_levels st1) (boot_sllps st1)"
    and init: "vtd_target_init (boot_num_did st1) root_id page chips {} s0 = (None, held, s)"
    using assms(1) table base queues k units probe
    by (auto simp: vtd_init_def Let_def k_def [symmetric] s0_def split: option.splits prod.splits)
  have inv: "boot_inv env (length (iommu_units env)) st"
    using vtd_probe_units_inv [OF assms(2), of ops base 0 "length (iommu_units env)"] probe err st
      boot_inv_start [OF assms(3)] by simp
  then have levels: "boot_pt_levels st = 3 \<or> boot_pt_levels st = 4"
    using units by (auto simp: boot_inv_def)
  have size: "unat (push_bit k 16 :: u64) = 16 * 2 ^ k"
  proof -
    have "(2 :: nat) ^ k \<le> 2 ^ 15"
      using k by (intro power_increasing) simp_all
    then show ?thesis
      unfolding unsigned_push_bit_eq by (simp add: push_bit_eq_mult take_bit_nat_eq_self)
  qed
  have zero: "length table = unat (PAGES (push_bit k 16)) * 256" "\<forall>e \<in> set table. \<not> irte_p e"
    using assms(2) table by (simp_all add: env_pages_ok_def)
  have "16 * 2 ^ k \<le> unat (PAGES (push_bit k 16)) * 4096"
  proof -
    have "(2 :: nat) ^ k \<le> 2 ^ 15"
      using k by (intro power_increasing) simp_all
    then show ?thesis
      using pages_cover(1) [of "push_bit k 16"] size by simp
  qed
  then have limit: "irt_limit s0 \<le> length (irt s0)"
    using spec zero(1) by (simp add: s0_def)
  have chips: "reserve_irqchips chips s0 = (None, s)" and did: "root_id < boot_num_did st1"
    using init by (auto simp: vtd_target_init_def Let_def split: if_splits option.splits prod.splits)
  obtain t where t: "s = s0\<lparr>irt := t\<rparr>" "length t = length (irt s0)"
    using reserve_irqchips_keeps [OF limit chips] by blast
  have queues_ok: "queues_ok (dmar_units s0) (unit_inv_queue s0)"
    using queues assms(2) by (auto simp: s0_def queues_ok_def env_pages_ok_def)
  have unused: "\<forall>u \<in> set (boot_units st). usages_unused u" if "\<forall>u \<in> set units. usages_unused u"
    using vtd_probe_units_unused [OF assms(2), of ops base 0 "length (iommu_units env)"] probe err st(1) that
    by (simp add: boot_start_def)
  have start: "\<exists>s0. reserve_irqchips chips s0 = (None, s) \<and> (\<forall>e \<in> set (irt s0). \<not> irte_p e) \<and>
      irt_limit s0 \<le> length (irt s0) \<and> queues_ok (dmar_units s0) (unit_inv_queue s0)"
    using chips zero(2) limit queues_ok by (intro exI [of _ s0]) (simp add: s0_def)
  show ?thesis
    using spec k t limit did inv levels units queues assms(2) vtd_paging_of_levels [OF levels, of get_phys_invalid "boot_sllps st"]
      start unused queues_ok
    by (intro conjI) (auto simp: s0_def st queues_ok_def env_pages_ok_def boot_inv_def)
qed

text \<open>C26. What a successful start of VT-d guarantees to everything that follows, when the page allocator
  hands out whole zeroed pages: the size of the remapping table is below \<open>2 ^ 16\<close> and its allocated pages cover
  the interrupt limit, each unit has a queue page of 256 entries, so that the state is well-formed for all
  later operations; all units are Intel units with one number of levels (3 or 4), for which the page table
  format is the one of x86-64 with the units' link entries and with large pages only where all units
  have them; the root target's domain id is below the number of domains; and the units with emulated interrupt
  remapping, in order, are those from some index on, each registered with its register page, a queue of
  one page, an unused usage record for each of its 2 to 65536 entries and its four shadow registers.\<close>

theorem vtd_init_establishes:
  assumes "vtd_init ops env get_phys_invalid root_id page chips (boot_start units) h =
      Some (None, st, n, Some (paging_levels, s))"
    and "env_pages_ok env" "length (iommu_units env) \<le> length units"
  shows "interrupt_limit env \<le> 2 ^ n \<and> n < 16 \<and> irt_limit s = interrupt_limit env \<and>
    irt_limit s \<le> length (irt s) \<and>
    dmar_units s = length (iommu_units env) \<and> 0 < dmar_units s \<and> queues_ok (dmar_units s) (unit_inv_queue s) \<and>
    (\<forall>i. i < dmar_units s \<longrightarrow> iommu_is_intel (iommu_units env ! i)) \<and>
    (boot_pt_levels st = 3 \<or> boot_pt_levels st = 4) \<and> length paging_levels = boot_pt_levels st \<and>
    (\<forall>p. p \<in> set paging_levels \<longrightarrow> set_next_pt p = Some vtd_set_next_pt) \<and>
    map page_size paging_levels = drop (4 - boot_pt_levels st)
      [0, if bit (boot_sllps st) 35 then 0x40000000 else 0, if bit (boot_sllps st) 34 then 0x200000 else 0, 0x1000] \<and>
    root_id < boot_num_did st \<and>
    (\<exists>m. emulated_from env m (dmar_units s) st)"
  using vtd_init_result [OF assms] by (elim conjE) (intro conjI; assumption)

text \<open>One unit that Linux uses, with 16 remapping entries and its queue at 0x7000.\<close>

definition demo_boot_reg :: "u64 \<Rightarrow> u64" where
  "demo_boot_reg a = (if a = 0 then 0x10 else if a = VTD_CAP_REG then 0x400000200
     else if a = VTD_ECAP_REG then 0x0a else if a = VTD_IRTA_REG then 0x5003
     else if a = VTD_IQT_REG \<or> a = VTD_IQH_REG then 0x40 else if a = VTD_IQA_REG then 0x7000 else 0)"

definition demo_boot_ops :: "unit dmar_ops" where
  "demo_boot_ops = \<lparr>mmio_read32 = \<lambda>a h. (if a = VTD_GSTS_REG then 0x06000000 else 0, h),
     mmio_read64 = \<lambda>a h. (demo_boot_reg a, h), mmio_write32 = \<lambda>a v h. h, mmio_write64 = \<lambda>a v h. h,
     mmio_read32_field = \<lambda>a m h. (0, h), mmio_read64_field = \<lambda>a m h. (0, h),
     mmio_write32_field = \<lambda>a m v h. h, mmio_write64_field = \<lambda>a m v h. h,
     iq_clear = \<lambda>h. h, iq_completed = \<lambda>h. (True, h), iq_completed_phys = 0\<rparr>"

definition demo_usage :: vtd_irte_usage where
  "demo_usage = \<lparr>use_device_id = 0, use_vector = 0, use_used = False\<rparr>"

definition demo_boot_env :: vtd_env where
  "demo_boot_env = \<lparr>interrupt_limit = 8, iommu_units = [\<lparr>iommu_is_intel = True, iommu_base = 0xfed90000\<rparr>],
     env_x2apic = False, alloc_irt = \<lambda>k. Some (replicate (k * 256) free_irte),
     alloc_usage = \<lambda>k. Some (replicate (k * 1024) demo_usage), alloc_remap = \<lambda>k. Some 0,
     alloc_queues = \<lambda>k. Some (replicate k (replicate 256 inv_global_int)), map_unit = \<lambda>n. None\<rparr>"

definition demo_boot_unit :: vtd_emulation where
  "demo_boot_unit = \<lparr>em_irta = 0, irt_entries = 0, irte_map = [], em_iqa = 0, em_iqh = 0, fault_event_regs = []\<rparr>"

lemma demo_boot_run:
  "case vtd_init demo_boot_ops demo_boot_env (\<lambda>_ _. 0) 0 (Some 0x9000) [] (boot_start [demo_boot_unit]) () of
     Some (None, st, n, Some (ps, s)) \<Rightarrow> boot_ir_emulation st \<and> dmar_units s = 1 \<and> boot_pt_levels st = 3
   | _ \<Rightarrow> False"
  by code_simp

lemma demo_boot_pages: "env_pages_ok demo_boot_env"
  by (simp add: env_pages_ok_def demo_boot_env_def demo_usage_def irte_p_def free_irte_def)

theorem vtd_init_establishes_witness:
  "\<exists>st n ps s. vtd_init demo_boot_ops demo_boot_env (\<lambda>_ _. 0) 0 (Some 0x9000) [] (boot_start [demo_boot_unit]) () =
     Some (None, st, n, Some (ps, s)) \<and>
     irt_limit s \<le> length (irt s) \<and> queues_ok 1 (unit_inv_queue s) \<and> unit_ready (boot_units st ! 0)"
proof -
  obtain st n ps s where
    run: "vtd_init demo_boot_ops demo_boot_env (\<lambda>_ _. 0) 0 (Some 0x9000) [] (boot_start [demo_boot_unit]) () =
      Some (None, st, n, Some (ps, s))" and on: "boot_ir_emulation st" "dmar_units s = 1"
    using demo_boot_run by (auto split: option.splits prod.splits)
  have pages: "env_pages_ok demo_boot_env"
    by (rule demo_boot_pages)
  have len: "length (iommu_units demo_boot_env) \<le> length [demo_boot_unit]"
    by (simp add: demo_boot_env_def)
  from vtd_init_establishes [OF run pages len] obtain m where
    "irt_limit s \<le> length (irt s)" "queues_ok 1 (unit_inv_queue s)" "emulated_from demo_boot_env m 1 st"
    unfolding on(2) by blast
  with run on(1) show ?thesis
    by (auto simp: emulated_from_def)
qed

text \<open>
  \<open>vtd_init\<close> means to refuse units of which only some have interrupt remapping on, but it compares
  with the units before only: if the first unit is off and a later one on, the start succeeds.
\<close>

lemma vtd_init_mixed_units:
  "case vtd_init
      (demo_boot_ops\<lparr>mmio_read64 := \<lambda>a h. (demo_boot_reg (a AND 0x3fff), h),
         mmio_read32 := \<lambda>a h. (if a = 0x4000 + VTD_GSTS_REG then 0x06000000 else 0, h)\<rparr>)
      (demo_boot_env\<lparr>iommu_units := [\<lparr>iommu_is_intel = True, iommu_base = 0xfed90000\<rparr>,
         \<lparr>iommu_is_intel = True, iommu_base = 0xfed91000\<rparr>]\<rparr>)
      (\<lambda>_ _. 0) 0 (Some 0x9000) [] (boot_start [demo_boot_unit, demo_boot_unit]) () of
     Some (None, st, n, Some (ps, s)) \<Rightarrow> boot_ir_emulation st \<and> map snd (boot_regions st) = [1]
   | _ \<Rightarrow> False"
  by code_simp

subsection \<open>The way back to Linux\<close>

text \<open>
  What \<open>vtd_restore_ir\<close> relies on, as the VT-d specification documents it. A command that sets a table pointer, or
  switches queue, remapping or translation on or off, is written with the other controls as the status register showed
  them; sooner or later the status shows the bit of the command. For the one-shot commands it shows nothing else.
\<close>

definition unit_commands :: "(u32 \<times> bool) set" where
  "unit_commands = {(VTD_GCMD_SIRTP, True), (VTD_GCMD_SRTP, True), (VTD_GCMD_QIE, True), (VTD_GCMD_QIE, False),
     (VTD_GCMD_IRE, True), (VTD_GCMD_IRE, False), (VTD_GCMD_TE, True)}"

definition commands_answer :: "'h dmar_ops \<Rightarrow> u64 \<Rightarrow> bool" where
  "commands_answer ops base \<longleftrightarrow>
     (\<forall>(msk, on) \<in> unit_commands. \<forall>h s h1. mmio_read32 ops (base + VTD_GSTS_REG) h = (s, h1) \<longrightarrow>
        answers (mmio_read32 ops (base + VTD_GSTS_REG)) (\<lambda>s. s AND msk = (if on then msk else 0))
          (mmio_write32 ops (base + VTD_GCMD_REG)
            (if on then (s AND VTD_GSTS_USED_CTRLS) OR msk else (s AND VTD_GSTS_USED_CTRLS) AND NOT msk) h1))"

text \<open>
  \<open>idle h t\<close>: in state \<open>h\<close> the queue is on and empty, with head and tail at \<open>t\<close>. A queue that was seen off,
  whose tail was set to 0 and that is seen on after the command is idle at 0: the unit resets the head.
\<close>

definition queue_starts :: "'h dmar_ops \<Rightarrow> u64 \<Rightarrow> ('h \<Rightarrow> nat \<Rightarrow> bool) \<Rightarrow> bool" where
  "queue_starts ops base idle \<longleftrightarrow>
     (\<forall>h s h1 a s1 h2 v k s2 h3.
        mmio_read32 ops (base + VTD_GSTS_REG) h = (s, h1) \<longrightarrow> s AND VTD_GCMD_QIE = 0 \<longrightarrow>
        mmio_read32 ops (base + VTD_GSTS_REG)
          (mmio_write64 ops (base + VTD_IQA_REG) a (mmio_write64 ops (base + VTD_IQT_REG) 0 h1)) = (s1, h2) \<longrightarrow>
        v AND VTD_GCMD_QIE = VTD_GCMD_QIE \<longrightarrow>
        mmio_read32 ops (base + VTD_GSTS_REG)
          (after_reads (mmio_read32 ops (base + VTD_GSTS_REG)) k (mmio_write32 ops (base + VTD_GCMD_REG) v h2)) =
          (s2, h3) \<longrightarrow>
        s2 AND VTD_GCMD_QIE = VTD_GCMD_QIE \<longrightarrow> idle h3 0)"

text \<open>
  In an idle state the head and the tail register show the index. When the tail is moved, nothing is said
  of the registers until the completion of the wait descriptor was read, however long that takes; then the queue is
  idle at the new tail.
\<close>

definition queue_works :: "'h dmar_ops \<Rightarrow> u64 \<Rightarrow> ('h \<Rightarrow> nat \<Rightarrow> bool) \<Rightarrow> bool" where
  "queue_works ops base idle \<longleftrightarrow>
     (\<forall>h t. idle h t \<longrightarrow> t < 256 \<and>
        (\<exists>h'. mmio_read64 ops (base + VTD_IQH_REG) h = (of_nat (16 * t), h') \<and> idle h' t) \<and>
        (\<exists>h1. mmio_read64_field ops (base + VTD_IQT_REG) VTD_IQT_QT_MASK (iq_clear ops h) = (of_nat t, h1) \<and>
           (\<forall>t' k h'. t' < 256 \<longrightarrow>
              iq_completed ops (after_reads (iq_completed ops) k
                (mmio_write64_field ops (base + VTD_IQT_REG) VTD_IQT_QT_MASK (of_nat t') h1)) = (True, h') \<longrightarrow>
              idle h' t')))"

lemma index_word: "n < 256 \<Longrightarrow> unat (ucast (of_nat n :: u64) :: u32) = n"
  by (simp add: unsigned_ucast_eq unsigned_of_nat take_bit_nat_eq_self)

lemma submit_wait_step:
  assumes hw: "queue_works ops base idle" "iq_answers ops" and h: "idle h n" and q: "length q = 256"
  shows "\<exists>h'. vtd_submit_iq_request ops base None q h = Some (q[n := inv_wait ops], h') \<and> idle h' ((n + 1) mod 256)"
proof -
  have n: "n < 256"
    using hw(1) h unfolding queue_works_def by blast
  let ?t = "(n + 1) mod 256"
  obtain h1 where tail: "mmio_read64_field ops (base + VTD_IQT_REG) VTD_IQT_QT_MASK (iq_clear ops h) = (of_nat n, h1)"
    and moved: "\<forall>t' k h'. t' < 256 \<longrightarrow>
      iq_completed ops (after_reads (iq_completed ops) k
        (mmio_write64_field ops (base + VTD_IQT_REG) VTD_IQT_QT_MASK (of_nat t') h1)) = (True, h') \<longrightarrow> idle h' t'"
    using hw(1) h unfolding queue_works_def by blast
  let ?w = "mmio_write64_field ops (base + VTD_IQT_REG) VTD_IQT_QT_MASK (of_nat ?t) h1"
  have "\<exists>h'. poll (iq_completed ops) (\<lambda>done. done) ?w = Some h'"
    using hw(2) unfolding iq_answers_def by (blast intro: poll_returns)
  then obtain h' where h': "poll (iq_completed ops) (\<lambda>done. done) ?w = Some h'" by blast
  from poll_result [OF h'] obtain k where "iq_completed ops (after_reads (iq_completed ops) k ?w) = (True, h')"
    by auto
  then have "idle h' ?t"
    using moved by simp
  moreover have "unat (ucast (of_nat n :: u64) :: u32) = n"
    by (rule index_word [OF n])
  ultimately show ?thesis
    using tail n q h' by (simp add: vtd_submit_iq_request_def inv_queue_write_Some)
qed

lemma restore_head_run:
  assumes hw: "queue_works ops base idle" "iq_answers ops" and g: "g < 256"
  shows "idle h n \<Longrightarrow> n \<le> g \<Longrightarrow> length q = 256 \<Longrightarrow>
    \<exists>h'. restore_head ops base (of_nat (16 * g)) q h =
       Some (take n q @ replicate (g - n) (inv_wait ops) @ drop g q, h')"
proof (induction "g - n" arbitrary: n q h)
  case 0
  have n: "n = g"
    using 0 by simp
  obtain h1 where "mmio_read64 ops (base + VTD_IQH_REG) h = (of_nat (16 * n), h1)"
    using hw(1) 0(2) unfolding queue_works_def by blast
  then show ?case
    using n by (subst restore_head.simps) simp
next
  case (Suc m)
  have n: "n < g" "(n + 1) mod 256 = n + 1" "n < length q"
    using Suc g by auto
  obtain h1 where rd: "mmio_read64 ops (base + VTD_IQH_REG) h = (of_nat (16 * n), h1)" "idle h1 n"
    using hw(1) Suc.prems(1) unfolding queue_works_def by blast
  have differ: "(of_nat (16 * n) :: u64) \<noteq> of_nat (16 * g)"
    using n(1) g unat_head(2) [of n] unat_head(2) [of g] by (metis less_trans mult_cancel1 nat_neq_iff zero_neq_numeral)
  obtain h2 where sub: "vtd_submit_iq_request ops base None q h1 = Some (q[n := inv_wait ops], h2)" "idle h2 (n + 1)"
    using submit_wait_step [OF hw rd(2) Suc.prems(3)] unfolding n(2) by blast
  have "m = g - (n + 1)" "n + 1 \<le> g" "length (q[n := inv_wait ops]) = 256"
    using Suc.hyps(2) n(1) Suc.prems(3) by auto
  from Suc.hyps(1) [OF this(1) sub(2) this(2,3)] obtain h' where
    "restore_head ops base (of_nat (16 * g)) (q[n := inv_wait ops]) h2 =
       Some (take (n + 1) (q[n := inv_wait ops]) @ replicate (g - (n + 1)) (inv_wait ops) @
         drop g (q[n := inv_wait ops]), h')" by blast
  moreover have "take (n + 1) (q[n := inv_wait ops]) @ replicate (g - (n + 1)) (inv_wait ops) @
      drop g (q[n := inv_wait ops]) = take n q @ replicate (g - n) (inv_wait ops) @ drop g q"
    using n(1,3) by (simp add: take_Suc_conv_app_nth replicate_Suc [symmetric] Suc_diff_Suc del: replicate_Suc)
  ultimately show ?case
    using rd(1) differ sub(1) by (subst restore_head.simps) simp
qed

lemma vtd_update_gcmd_reg_run:
  assumes "commands_answer ops base" "(msk, on) \<in> unit_commands"
    and "mmio_read32 ops (base + VTD_GSTS_REG) h = (s, h1)"
  defines "v \<equiv> if on then (s AND VTD_GSTS_USED_CTRLS) OR msk else (s AND VTD_GSTS_USED_CTRLS) AND NOT msk"
  shows "\<exists>h' k s'. vtd_update_gcmd_reg ops base msk on h = Some h' \<and>
    mmio_read32 ops (base + VTD_GSTS_REG) (after_reads (mmio_read32 ops (base + VTD_GSTS_REG)) k
      (mmio_write32 ops (base + VTD_GCMD_REG) v h1)) = (s', h') \<and> s' AND msk = (if on then msk else 0)"
  by (rule vtd_update_gcmd_reg_spec [OF assms(3)])
    (use assms(1-3) in \<open>auto simp: commands_answer_def v_def\<close>)

lemma vtd_update_gcmd_reg_returns:
  assumes "commands_answer ops base" "(msk, on) \<in> unit_commands"
  shows "\<exists>h'. vtd_update_gcmd_reg ops base msk on h = Some h'"
proof -
  obtain s h1 where "mmio_read32 ops (base + VTD_GSTS_REG) h = (s, h1)" by fastforce
  from vtd_update_gcmd_reg_run [OF assms this] show ?thesis by blast
qed

text \<open>Switching the queue off and on again, with a new base, makes it idle at 0.\<close>

lemma queue_restart:
  assumes "commands_answer ops base" "queue_starts ops base idle"
  shows "\<exists>h1 h2. vtd_update_gcmd_reg ops base VTD_GCMD_QIE False h = Some h1 \<and>
    vtd_update_gcmd_reg ops base VTD_GCMD_QIE True
      (mmio_write64 ops (base + VTD_IQA_REG) a (mmio_write64 ops (base + VTD_IQT_REG) 0 h1)) = Some h2 \<and> idle h2 0"
proof -
  obtain s h0 where r: "mmio_read32 ops (base + VTD_GSTS_REG) h = (s, h0)" by fastforce
  have off: "(VTD_GCMD_QIE, False) \<in> unit_commands" and on: "(VTD_GCMD_QIE, True) \<in> unit_commands"
    by (simp_all add: unit_commands_def)
  obtain h1 g s1 where h1: "vtd_update_gcmd_reg ops base VTD_GCMD_QIE False h = Some h1"
    "mmio_read32 ops (base + VTD_GSTS_REG) g = (s1, h1)" "s1 AND VTD_GCMD_QIE = 0"
    using vtd_update_gcmd_reg_run [OF assms(1) off r] by auto
  let ?w = "mmio_write64 ops (base + VTD_IQA_REG) a (mmio_write64 ops (base + VTD_IQT_REG) 0 h1)"
  obtain s2 h2 where r2: "mmio_read32 ops (base + VTD_GSTS_REG) ?w = (s2, h2)" by fastforce
  let ?v = "(s2 AND VTD_GSTS_USED_CTRLS) OR VTD_GCMD_QIE"
  obtain h3 k s3 where h3: "vtd_update_gcmd_reg ops base VTD_GCMD_QIE True ?w = Some h3"
    "mmio_read32 ops (base + VTD_GSTS_REG) (after_reads (mmio_read32 ops (base + VTD_GSTS_REG)) k
      (mmio_write32 ops (base + VTD_GCMD_REG) ?v h2)) = (s3, h3)" "s3 AND VTD_GCMD_QIE = VTD_GCMD_QIE"
    using vtd_update_gcmd_reg_run [OF assms(1) on r2] by auto
  have "?v AND VTD_GCMD_QIE = VTD_GCMD_QIE"
    by (rule bit_word_eqI) (auto simp: bit_and_iff bit_or_iff)
  from assms(2) [unfolded queue_starts_def, rule_format, OF h1(2,3) r2 this h3(2,3)] h1(1) h3(1) show ?thesis
    by blast
qed

text \<open>C27. Giving a unit back to Linux ends: with a unit that answers commands, executes its queue and resets
  the head when the queue is switched on - each after any delay -, \<open>vtd_restore_ir\<close> returns, whether or not Linux's queue
  page can be mapped. The queue of the hypervisor keeps its 256 entries; and what is overwritten in Linux's
  queue is exactly the entries below the head that Linux last saw, each by a wait descriptor.\<close>

theorem vtd_restore_ir_returns:
  assumes "commands_answer ops base" "iq_answers ops" "iq_tail_in_queue ops"
    and "queue_starts ops base idle" "queue_works ops base idle"
    and "em_iqh u = of_nat (16 * g)" "g < 256" "length q = 256" "\<forall>rq. root_queue = Some rq \<longrightarrow> length rq = 256"
  shows "\<exists>q' h'. vtd_restore_ir ops u base q root_queue h =
      Some (q', map_option (\<lambda>rq. replicate g (inv_wait ops) @ drop g rq) root_queue, h') \<and> length q' = 256"
proof -
  note gcmd = vtd_update_gcmd_reg_returns [OF assms(1)]
  define h0 where "h0 = mmio_write64 ops (base + VTD_IRTA_REG) (em_irta u) h"
  obtain h1 where h1: "vtd_update_gcmd_reg ops base VTD_GCMD_SIRTP True h0 = Some h1"
    using gcmd [of VTD_GCMD_SIRTP True h0] by (auto simp: unit_commands_def)
  obtain q' h2 where h2: "vtd_submit_iq_request ops base (Some inv_global_int) q h1 = Some (q', h2)" "length q' = 256"
    using submit_Some [OF assms(2,3,8)] by blast
  obtain h3 h5 where h3: "vtd_update_gcmd_reg ops base VTD_GCMD_QIE False h2 = Some h3"
    and h5: "vtd_update_gcmd_reg ops base VTD_GCMD_QIE True
      (mmio_write64 ops (base + VTD_IQA_REG) (em_iqa u) (mmio_write64 ops (base + VTD_IQT_REG) 0 h3)) = Some h5"
    and idle: "idle h5 0"
    using queue_restart [OF assms(1,4)] by blast
  have iqh: "(ucast (em_iqh u) :: u64) = of_nat (16 * g)"
    using unat_head [OF assms(7)] unfolding assms(6)
    by (metis head_eq_tail [OF assms(7,7)])
  obtain h6 where h6: "(case root_queue of
        None \<Rightarrow> Some (None, h5)
      | Some rq \<Rightarrow> map_option (\<lambda>(q, h). (Some q, h)) (restore_head ops base (ucast (em_iqh u)) rq h5)) =
      Some (map_option (\<lambda>rq. replicate g (inv_wait ops) @ drop g rq) root_queue, h6)"
  proof (cases root_queue)
    case None
    then show ?thesis using that by simp
  next
    case (Some rq)
    then show ?thesis
      using restore_head_run [OF assms(5,2,7) idle, of rq] assms(9) that unfolding iqh by auto
  qed
  obtain h7 where h7: "vtd_update_gcmd_reg ops base VTD_GCMD_IRE True h6 = Some h7"
    using gcmd [of VTD_GCMD_IRE True h6] by (auto simp: unit_commands_def)
  show ?thesis
    using h2(2) by (simp add: vtd_restore_ir_def Let_def h0_def [symmetric] h1 h2(1) h3 h5 h6 h7)
qed

text \<open>
  A unit that takes its time: a command is carried out at the second read of the status register after it, the
  queue at the first read of the completion word, which still shows the old value. The one-shot bits stay
  set once a table pointer was taken, and switching the queue on resets its head.
\<close>

record slow_hw =
  slow_status :: u32
  slow_command :: "u32 option"
  slow_busy :: bool
  slow_head :: u8
  slow_tail :: u8
  slow_moved :: bool
  slow_completed :: bool

definition slow_execute :: "u32 \<Rightarrow> slow_hw \<Rightarrow> slow_hw" where
  "slow_execute c h =
     (let h' = h\<lparr>slow_command := None, slow_status :=
          (c AND VTD_GSTS_USED_CTRLS) OR ((slow_status h OR c) AND (VTD_GCMD_SIRTP OR VTD_GCMD_SRTP))\<rparr>
      in if bit c 26 \<and> \<not> bit (slow_status h) 26 then h'\<lparr>slow_head := 0, slow_moved := slow_tail h \<noteq> 0\<rparr> else h')"

definition slow_gsts :: "slow_hw \<Rightarrow> u32 \<times> slow_hw" where
  "slow_gsts h =
     (case slow_command h of
        None \<Rightarrow> (slow_status h, h)
      | Some c \<Rightarrow> (if slow_busy h then (slow_status h, h\<lparr>slow_busy := False\<rparr>)
                  else let h' = slow_execute c h in (slow_status h', h')))"

definition slow_ops :: "slow_hw dmar_ops" where
  "slow_ops =
     \<lparr>mmio_read32 = \<lambda>a h. if a = VTD_GSTS_REG then slow_gsts h else (0, h),
      mmio_read64 = \<lambda>a h. (if a = VTD_IQH_REG then of_nat (16 * unat (slow_head h)) else 0, h),
      mmio_write32 = \<lambda>a v h. if a = VTD_GCMD_REG then h\<lparr>slow_command := Some v, slow_busy := True\<rparr> else h,
      mmio_write64 = \<lambda>a v h. if a = VTD_IQT_REG then h\<lparr>slow_tail := ucast (drop_bit 4 v)\<rparr> else h,
      mmio_read32_field = \<lambda>a m h. (0, h),
      mmio_read64_field = \<lambda>a m h. (of_nat (unat (slow_tail h)), h),
      mmio_write32_field = \<lambda>a m v h. h,
      mmio_write64_field = \<lambda>a m v h. h\<lparr>slow_tail := ucast v, slow_moved := True\<rparr>,
      iq_clear = \<lambda>h. h\<lparr>slow_completed := False\<rparr>,
      iq_completed = \<lambda>h. (slow_completed h,
        if slow_moved h then h\<lparr>slow_head := slow_tail h, slow_moved := False, slow_completed := True\<rparr> else h),
      iq_completed_phys = 0x1000\<rparr>"

definition slow_idle :: "slow_hw \<Rightarrow> nat \<Rightarrow> bool" where
  "slow_idle h t \<longleftrightarrow> unat (slow_head h) = t \<and> slow_tail h = slow_head h \<and> \<not> slow_moved h"

lemma single_bit32: "k < 32 \<Longrightarrow> c = push_bit k (1 :: u32) \<Longrightarrow> bit c n \<longleftrightarrow> n = k"
  by (auto simp: bit_simps)

lemma control_bits:
  "bit VTD_GCMD_SIRTP n \<longleftrightarrow> n = 24" "bit VTD_GCMD_IRE n \<longleftrightarrow> n = 25" "bit VTD_GCMD_QIE n \<longleftrightarrow> n = 26"
  "bit VTD_GCMD_SRTP n \<longleftrightarrow> n = 30" "bit VTD_GCMD_TE n \<longleftrightarrow> n = 31"
  by (rule single_bit32; simp)+

lemma used_bits: "bit VTD_GSTS_USED_CTRLS n \<longleftrightarrow> n = 25 \<or> n = 26 \<or> n = 31"
  unfolding VTD_GSTS_USED_CTRLS_def bit_or_iff control_bits by blast

lemma slow_status_execute:
  "bit (slow_status (slow_execute c h)) n \<longleftrightarrow>
     bit c n \<and> (n = 25 \<or> n = 26 \<or> n = 31) \<or> (bit (slow_status h) n \<or> bit c n) \<and> (n = 24 \<or> n = 30)"
proof -
  have "slow_status (slow_execute c h) =
      (c AND VTD_GSTS_USED_CTRLS) OR ((slow_status h OR c) AND (VTD_GCMD_SIRTP OR VTD_GCMD_SRTP))"
    by (simp add: slow_execute_def Let_def)
  then show ?thesis
    by (simp only: bit_and_iff bit_or_iff used_bits control_bits)
qed

lemma slow_commands: "commands_answer slow_ops 0"
proof -
  have key: "answers slow_gsts (\<lambda>s. s AND msk = (if on then msk else 0)) (h1\<lparr>slow_command := Some v, slow_busy := True\<rparr>)"
    if c: "(msk, on) \<in> unit_commands"
      and v: "v = (if on then (s AND VTD_GSTS_USED_CTRLS) OR msk else (s AND VTD_GSTS_USED_CTRLS) AND NOT msk)" for msk on s h1 v
  proof -
    let ?h = "h1\<lparr>slow_command := Some v, slow_busy := False\<rparr>"
    have "slow_status (slow_execute v ?h) AND msk = (if on then msk else 0)"
    proof (rule bit_word_eqI)
      fix n
      show "bit (slow_status (slow_execute v ?h) AND msk) n \<longleftrightarrow> bit (if on then msk else 0) n"
        using c unfolding v unit_commands_def
        by (elim insertE emptyE; elim Pair_inject; simp only: if_True if_False bit_and_iff bit_or_iff bit_not_iff
            slow_status_execute control_bits used_bits bit_0_eq bot_apply bot_bool_def simp_thms; auto)
    qed
    then show ?thesis
      unfolding answers_def after_reads_def
      by (intro exI [of _ 1]) (simp add: slow_gsts_def Let_def)
  qed
  have rd: "mmio_read32 slow_ops (0 + VTD_GSTS_REG) = slow_gsts"
    by (simp add: slow_ops_def fun_eq_iff)
  have wr: "mmio_write32 slow_ops (0 + VTD_GCMD_REG) v h = h\<lparr>slow_command := Some v, slow_busy := True\<rparr>" for v h
    by (simp add: slow_ops_def)
  show ?thesis
    unfolding commands_answer_def rd wr by clarify (rule key, assumption, rule refl)
qed

lemma slow_iq: "iq_answers slow_ops" "iq_tail_in_queue slow_ops"
proof -
  show "iq_answers slow_ops"
    unfolding iq_answers_def answers_def after_reads_def by (intro allI exI [of _ 1]) (simp add: slow_ops_def)
  have "unat (x :: u8) < 256" for x
    using unsigned_less [where 'a = nat, of x] by simp
  then have small: "unat (ucast (of_nat (unat x) :: u64) :: u32) < 256" for x :: u8
    by (simp only: index_word)
  have "mmio_read64_field slow_ops a m h = (of_nat (unat (slow_tail h)), h)" for a m h
    by (simp add: slow_ops_def)
  then show "iq_tail_in_queue slow_ops"
    unfolding iq_tail_in_queue_def iq_tail_def using small by (simp only: fst_conv) blast
qed

text \<open>Whether the queue is off, or idle at 0.\<close>

definition slow_fresh :: "slow_hw \<Rightarrow> bool" where
  "slow_fresh h \<longleftrightarrow> slow_tail h = 0 \<and> (bit (slow_status h) 26 \<longrightarrow> slow_head h = 0 \<and> \<not> slow_moved h)"

lemma slow_gsts_fresh: "slow_fresh h \<Longrightarrow> slow_fresh (snd (slow_gsts h))"
proof -
  have "slow_fresh (slow_execute c h)" if "slow_fresh h" for c h
    using that slow_status_execute [of c h 26] by (auto simp: slow_fresh_def slow_execute_def Let_def)
  then show "slow_fresh h \<Longrightarrow> slow_fresh (snd (slow_gsts h))"
    by (auto simp: slow_gsts_def slow_fresh_def Let_def split: option.splits)
qed

lemma slow_gsts_status: "slow_gsts h = (s, h') \<Longrightarrow> slow_status h' = s"
  by (auto simp: slow_gsts_def Let_def split: option.splits if_splits)

lemma slow_starts: "queue_starts slow_ops 0 slow_idle"
proof -
  have off: "s AND VTD_GCMD_QIE = 0 \<Longrightarrow> \<not> bit s 26" "s AND VTD_GCMD_QIE = VTD_GCMD_QIE \<Longrightarrow> bit s 26" for s
    using control_bits(3) [of 26] by (metis bit_0_eq bit_and_iff bot_apply bot_bool_def)+
  have "slow_idle h3 0"
    if "slow_gsts h = (s, h1)" "s AND VTD_GCMD_QIE = 0"
      and "slow_gsts (h1\<lparr>slow_tail := 0\<rparr>) = (s1, h2)"
      and "slow_gsts (after_reads slow_gsts k (h2\<lparr>slow_command := Some v, slow_busy := True\<rparr>)) = (s2, h3)"
      and "s2 AND VTD_GCMD_QIE = VTD_GCMD_QIE" for h s h1 s1 h2 k v s2 h3
  proof -
    have "slow_fresh (h1\<lparr>slow_tail := 0\<rparr>)"
      using slow_gsts_status [OF that(1)] off(1) [OF that(2)] by (simp add: slow_fresh_def)
    from slow_gsts_fresh [OF this] have "slow_fresh (h2\<lparr>slow_command := Some v, slow_busy := True\<rparr>)"
      using that(3) by (simp add: slow_fresh_def)
    then have "slow_fresh (after_reads slow_gsts k (h2\<lparr>slow_command := Some v, slow_busy := True\<rparr>))"
      unfolding after_reads_def by (induction k) (simp_all add: slow_gsts_fresh)
    from slow_gsts_fresh [OF this] show ?thesis
      using that(4) slow_gsts_status [OF that(4)] off(2) [OF that(5)] by (simp add: slow_fresh_def slow_idle_def)
  qed
  then show ?thesis
    unfolding queue_starts_def by (simp add: slow_ops_def)
qed

lemma slow_works: "queue_works slow_ops 0 slow_idle"
proof -
  have small: "unat (x :: u8) < 256" for x
    using unsigned_less [where 'a = nat, of x] by simp
  have moved: "slow_idle h' t'"
    if "iq_completed slow_ops (after_reads (iq_completed slow_ops) k
        (h\<lparr>slow_tail := of_nat t', slow_moved := True, slow_completed := False\<rparr>)) = (True, h')" "t' < 256" for h t' k h'
  proof -
    let ?w = "h\<lparr>slow_tail := of_nat t', slow_moved := True, slow_completed := False\<rparr>"
    let ?d = "h\<lparr>slow_tail := of_nat t', slow_head := of_nat t', slow_moved := False, slow_completed := True\<rparr>"
    have "after_reads (iq_completed slow_ops) k ?w = (if k = 0 then ?w else ?d)"
      unfolding after_reads_def by (induction k) (simp_all add: slow_ops_def)
    then have "h' = ?d"
      using that(1) by (cases "k = 0") (simp_all add: slow_ops_def)
    then show ?thesis
      using that(2) by (simp add: slow_idle_def unsigned_of_nat take_bit_nat_eq_self)
  qed
  have cast: "ucast (of_nat t' :: u64) = (of_nat t' :: u8)" for t'
    by (rule bit_word_eqI) (auto simp: bit_simps)
  show ?thesis
    unfolding queue_works_def
  proof (intro allI impI conjI)
    fix h t
    assume idle: "slow_idle h t"
    then show "t < 256"
      using small by (auto simp: slow_idle_def)
    show "\<exists>h'. mmio_read64 slow_ops (0 + VTD_IQH_REG) h = (of_nat (16 * t), h') \<and> slow_idle h' t"
      using idle by (auto simp: slow_ops_def slow_idle_def)
    have "mmio_read64_field slow_ops (0 + VTD_IQT_REG) VTD_IQT_QT_MASK (iq_clear slow_ops h) =
        (of_nat t, h\<lparr>slow_completed := False\<rparr>)"
      using idle by (auto simp: slow_ops_def slow_idle_def)
    moreover have "mmio_write64_field slow_ops (0 + VTD_IQT_REG) VTD_IQT_QT_MASK (of_nat t') (h\<lparr>slow_completed := False\<rparr>) =
        h\<lparr>slow_tail := of_nat t', slow_moved := True, slow_completed := False\<rparr>" for t'
      by (simp add: slow_ops_def cast)
    ultimately show "\<exists>h1. mmio_read64_field slow_ops (0 + VTD_IQT_REG) VTD_IQT_QT_MASK (iq_clear slow_ops h) = (of_nat t, h1) \<and>
      (\<forall>t' k h'. t' < 256 \<longrightarrow>
        iq_completed slow_ops (after_reads (iq_completed slow_ops) k
          (mmio_write64_field slow_ops (0 + VTD_IQT_REG) VTD_IQT_QT_MASK (of_nat t') h1)) = (True, h') \<longrightarrow> slow_idle h' t')"
      using moved by (intro exI [of _ "h\<lparr>slow_completed := False\<rparr>"]) auto
  qed
qed

theorem vtd_restore_ir_returns_witness:
  "\<exists>q h. vtd_restore_ir slow_ops (demo_boot_unit\<lparr>em_iqh := 0x20\<rparr>) 0 (replicate 256 inv_global_int)
       (Some (replicate 256 inv_global_iotlb))
       \<lparr>slow_status = VTD_GCMD_QIE, slow_command = None, slow_busy = False, slow_head = 7, slow_tail = 7,
        slow_moved = False, slow_completed = False\<rparr> =
     Some (q, Some (replicate 2 (inv_wait slow_ops) @ replicate 254 inv_global_iotlb), h) \<and> length q = 256"
  using vtd_restore_ir_returns [OF slow_commands slow_iq slow_starts slow_works,
      of "demo_boot_unit\<lparr>em_iqh := 0x20\<rparr>" 2 "replicate 256 inv_global_int" "Some (replicate 256 inv_global_iotlb)"]
  by simp

end
