(* ===== verification/Spy_Setup.thy ===== *)
theory Spy_Setup
  imports Spy_Exit Spy_Ept Spy_Pio
begin

text \<open>
  The set-up of a CPU: \<open>setup.c\<close>, with \<open>vcpu_early_init\<close> of \<open>vcpu.c\<close>. \<open>arch_init_early\<close> fills the
  interrupt descriptor table, \<open>arch_cpu_init\<close> takes a CPU over from Linux and \<open>arch_cpu_restore\<close> gives
  it back.

  The processor is the record \<open>cpu_state\<close>: selectors, the base of the task segment, the descriptor table
  registers, CR3, the model-specific registers, and the part that \<open>vcpu_init\<close> works on. The instruction
  \<open>ltr\<close> faults on a descriptor that is not an available task segment: \<open>None\<close>, like an access outside
  an array. Other selector loads are taken not to fault. Memory that Linux owns (its descriptor table and
  its stack) is read through \<open>linux_mem\<close>, the APIC functions and page mappings are parameters.
\<close>

subsection \<open>The interrupt descriptor table\<close>

abbreviation (input) IDT_PRESENT_INT :: u64 where "IDT_PRESENT_INT \<equiv> 0x00008e00"
abbreviation (input) NUM_IDT_DESC :: nat where "NUM_IDT_DESC \<equiv> 256"
abbreviation (input) NUM_EXCP_DESC :: nat where "NUM_EXCP_DESC \<equiv> 20"
abbreviation (input) IRQ_DESC_START :: nat where "IRQ_DESC_START \<equiv> 32"
abbreviation (input) NMI_VECTOR :: nat where "NMI_VECTOR \<equiv> 2"
abbreviation (input) GDT_DESC_CODE :: nat where "GDT_DESC_CODE \<equiv> 1"
abbreviation (input) GDT_DESC_TSS :: nat where "GDT_DESC_TSS \<equiv> 2"
abbreviation (input) NUM_GDT_DESC :: nat where "NUM_GDT_DESC \<equiv> 16"

definition set_idt_int_gate :: "nat \<Rightarrow> u64 \<Rightarrow> u32 list \<Rightarrow> u32 list option" where
  "set_idt_int_gate vector entry idt =
     (case array_set idt (vector * 4) (ucast ((entry AND 0xffff) OR push_bit 16 (of_nat (GDT_DESC_CODE * 8)))) of
        None \<Rightarrow> None
      | Some idt \<Rightarrow>
     (case array_set idt (vector * 4 + 1) (ucast (IDT_PRESENT_INT OR (entry AND 0xffff0000))) of
        None \<Rightarrow> None
      | Some idt \<Rightarrow> array_set idt (vector * 4 + 2) (ucast (drop_bit 32 entry))))"

text \<open>The two loops of \<open>arch_init_early\<close>, over the vectors still to come.\<close>

fun set_exception_gates :: "nat list \<Rightarrow> u64 \<Rightarrow> u32 list \<Rightarrow> u32 list option" where
  "set_exception_gates [] entry idt = Some idt"
| "set_exception_gates (vector # vs) entry idt =
     (if vector = NMI_VECTOR \<or> vector = 15 then set_exception_gates vs entry idt
      else case set_idt_int_gate vector entry idt of
        None \<Rightarrow> None
      | Some idt \<Rightarrow> set_exception_gates vs (entry + 16) idt)"

fun set_irq_gates :: "nat list \<Rightarrow> u64 \<Rightarrow> u32 list \<Rightarrow> u32 list option" where
  "set_irq_gates [] entry idt = Some idt"
| "set_irq_gates (vector # vs) entry idt =
     (case set_idt_int_gate vector entry idt of
        None \<Rightarrow> None
      | Some idt \<Rightarrow> set_irq_gates vs entry idt)"

subsection \<open>Early initialisation\<close>

text \<open>
  What the start-up is given: addresses of code and pages, the results of \<open>apic_init\<close>, \<open>page_alloc\<close> and
  \<open>paging_create\<close>, and the processor's features.
\<close>

record early_env =
  early_vmx :: vmx_env
  exception_entries :: u64
  nmi_entry :: u64
  irq_entry :: u64
  apic_init :: "errno option"
  using_x2apic :: bool
  early_phys_invalid :: "u64 \<Rightarrow> u64 \<Rightarrow> u64"
  alloc_io_bitmap :: bool
  early_paging_create :: "paging_request \<Rightarrow> errno option"
  apic_access_page_phys :: u64
  early_xapic_base :: u64
  i8042_cmd_reg :: u32
  pm_timer_address :: nat
  parking_code_phys :: u64

record early_state =
  cache_line_size :: u64
  idt :: "u32 list"
  early_limits :: vmx_limits
  ept_paging :: "paging list"
  early_msr_bitmap :: msr_bitmap
  root_target :: pio_target

definition vcpu_early_init :: "early_env \<Rightarrow> early_state \<Rightarrow> (errno option \<times> early_state) option" where
  "vcpu_early_init ee s =
     (case vcpu_vendor_early_init (early_vmx ee) (early_phys_invalid ee) (using_x2apic ee)
             (early_limits s) (early_msr_bitmap s) of
        (Some e, lim, _) \<Rightarrow> Some (Some e, s\<lparr>early_limits := lim\<rparr>)
      | (None, lim, None) \<Rightarrow> None
      | (None, lim, Some (ept, bmp)) \<Rightarrow>
          (let s = s\<lparr>early_limits := lim, ept_paging := ept, early_msr_bitmap := bmp\<rparr> in
           case vcpu_target_init (alloc_io_bitmap ee)
                  (early_paging_create ee (vcpu_vendor_target_init (apic_access_page_phys ee) (early_xapic_base ee)))
                  2 (i8042_cmd_reg ee) (pm_timer_address ee) (root_target s) None of
             None \<Rightarrow> None
           | Some (Inl e, root, _) \<Rightarrow> Some (Some e, s\<lparr>root_target := root\<rparr>)
           | Some (Inr _, root, _) \<Rightarrow>
               Some (early_paging_create ee
                       (Paging_Create (parking_code_phys ee) PAGE_SIZE 0 (PAGE_READONLY_FLAGS OR PAGE_FLAG_US)
                          (PAGING_NON_COHERENT OR 0)),
                     s\<lparr>root_target := root\<rparr>)))"

definition arch_init_early :: "early_env \<Rightarrow> early_state \<Rightarrow> (errno option \<times> early_state) option" where
  "arch_init_early ee s =
     (let s = s\<lparr>cache_line_size := drop_bit 5 (ucast (cpuid_ebx (early_vmx ee) 1 0 AND 0xff00))\<rparr> in
      case apic_init ee of
        Some err \<Rightarrow> Some (Some err, s)
      | None \<Rightarrow>
     (case set_exception_gates [0..<NUM_EXCP_DESC] (exception_entries ee) (idt s) of
        None \<Rightarrow> None
      | Some t \<Rightarrow>
     (case set_idt_int_gate NMI_VECTOR (nmi_entry ee) t of
        None \<Rightarrow> None
      | Some t \<Rightarrow>
     (case set_irq_gates [IRQ_DESC_START..<NUM_IDT_DESC] (irq_entry ee) t of
        None \<Rightarrow> None
      | Some t \<Rightarrow> vcpu_early_init ee (s\<lparr>idt := t\<rparr>)))))"

subsection \<open>Segment descriptors\<close>

abbreviation (input) DESC_TSS_BUSY :: u64 where "DESC_TSS_BUSY \<equiv> push_bit (9 + 32) 1"
abbreviation (input) DESC_PRESENT :: u64 where "DESC_PRESENT \<equiv> push_bit (15 + 32) 1"
abbreviation (input) DESC_CODE_DATA :: u64 where "DESC_CODE_DATA \<equiv> push_bit (12 + 32) 1"
abbreviation (input) DESC_PAGE_GRAN :: u64 where "DESC_PAGE_GRAN \<equiv> push_bit (23 + 32) 1"

text \<open>\<open>mem\<close> reads a quadword; the two quadwords of a descriptor are 8 bytes apart.\<close>

definition read_descriptor :: "(u64 \<Rightarrow> u64) \<Rightarrow> u64 \<Rightarrow> segment \<Rightarrow> segment" where
  "read_descriptor mem table seg =
     (let a = table + ucast (seg_selector seg AND 0xfff8); desc0 = mem a; desc1 = mem (a + 8) in
      if desc0 AND DESC_PRESENT \<noteq> 0 then
        (let base = (drop_bit 16 desc0 AND 0xffffff) OR (drop_bit 32 desc0 AND 0xff000000);
             limit = ucast ((desc0 AND 0xffff) OR (drop_bit 32 desc0 AND 0xf0000)) :: u32
         in seg\<lparr>seg_base := (if desc0 AND DESC_CODE_DATA = 0 then base OR push_bit 32 desc1 else base),
                seg_limit := (if desc0 AND DESC_PAGE_GRAN \<noteq> 0 then push_bit 12 limit OR 0xfff else limit),
                seg_access_rights := ucast (drop_bit 40 desc0 AND 0xf0ff)\<rparr>)
      else seg\<lparr>seg_base := 0, seg_limit := 0, seg_access_rights := 0x10000\<rparr>)"

subsection \<open>The processor\<close>

record cpu_state =
  st_cs :: u16
  st_ds :: u16
  st_es :: u16
  st_fs :: u16
  st_gs :: u16
  st_ss :: u16
  st_tr :: u16
  st_tr_base :: u64
  st_gdtr :: desc_table_reg
  st_idtr :: desc_table_reg
  st_cr3 :: u64
  st_msr :: "u32 \<Rightarrow> u64"
  st_vmx :: vmx_hw

abbreviation (input) MSR_EFER :: u32 where "MSR_EFER \<equiv> 0xc0000080"
abbreviation (input) MSR_FS_BASE :: u32 where "MSR_FS_BASE \<equiv> 0xc0000100"
abbreviation (input) MSR_KERNEL_GS_BASE :: u32 where "MSR_KERNEL_GS_BASE \<equiv> 0xc0000102"
abbreviation (input) PAT_HOST_VALUE :: u64 where "PAT_HOST_VALUE \<equiv> 0x070106"

definition write_msr :: "u32 \<Rightarrow> u64 \<Rightarrow> cpu_state \<Rightarrow> cpu_state" where
  "write_msr r v h = h\<lparr>st_msr := (st_msr h)(r := v)\<rparr>"

definition write_cr0 :: "u64 \<Rightarrow> cpu_state \<Rightarrow> cpu_state" where
  "write_cr0 v h = h\<lparr>st_vmx := (st_vmx h)\<lparr>hw_cr0 := v\<rparr>\<rparr>"

definition write_cr4 :: "u64 \<Rightarrow> cpu_state \<Rightarrow> cpu_state" where
  "write_cr4 v h = h\<lparr>st_vmx := (st_vmx h)\<lparr>hw_cr4 := v\<rparr>\<rparr>"

text \<open>
  Loading \<open>fs\<close> or \<open>gs\<close> also changes the base of the segment, in a way that depends on the descriptor
  and the processor: \<open>new_base\<close>.
\<close>

definition load_fs :: "(u16 \<Rightarrow> u64 \<Rightarrow> u64) \<Rightarrow> u16 \<Rightarrow> cpu_state \<Rightarrow> cpu_state" where
  "load_fs new_base sel h = write_msr MSR_FS_BASE (new_base sel (st_msr h MSR_FS_BASE)) (h\<lparr>st_fs := sel\<rparr>)"

definition load_gs :: "(u16 \<Rightarrow> u64 \<Rightarrow> u64) \<Rightarrow> u16 \<Rightarrow> cpu_state \<Rightarrow> cpu_state" where
  "load_gs new_base sel h = write_msr MSR_GS_BASE (new_base sel (st_msr h MSR_GS_BASE)) (h\<lparr>st_gs := sel\<rparr>)"

definition swapgs :: "cpu_state \<Rightarrow> cpu_state" where
  "swapgs h = write_msr MSR_GS_BASE (st_msr h MSR_KERNEL_GS_BASE)
     (write_msr MSR_KERNEL_GS_BASE (st_msr h MSR_GS_BASE) h)"

definition tss_base :: "u64 \<Rightarrow> u64 \<Rightarrow> u64" where
  "tss_base d0 d1 = (drop_bit 16 d0 AND 0xffffff) OR (drop_bit 32 d0 AND 0xff000000) OR push_bit 32 d1"

text \<open>
  \<open>ltr\<close> on the descriptor table \<open>gdt\<close> of the hypervisor, at address \<open>gdt_addr\<close>: the selector must name
  a whole descriptor of the table, other than the first, that is present, a system descriptor and an
  available 64-bit task segment; the processor marks it busy.
\<close>

definition ltr :: "u64 \<Rightarrow> u16 \<Rightarrow> u64 list \<Rightarrow> cpu_state \<Rightarrow> (u64 list \<times> cpu_state) option" where
  "ltr gdt_addr sel gdt h =
     (let idx = unat sel div 8 in
      if bit sel 2 \<or> idx = 0 \<or> dtr_base (st_gdtr h) \<noteq> gdt_addr \<or> unat (dtr_limit (st_gdtr h)) < idx * 8 + 15
      then None
      else case (array_get gdt idx, array_get gdt (idx + 1)) of
        (Some d0, Some d1) \<Rightarrow>
          (if d0 AND 0x00009f0000000000 = 0x0000890000000000
           then Some (gdt[idx := d0 OR DESC_TSS_BUSY], h\<lparr>st_tr := sel, st_tr_base := tss_base d0 d1\<rparr>)
           else None)
      | _ \<Rightarrow> None)"

subsection \<open>Taking a CPU over and giving it back\<close>

text \<open>The static table \<open>gdt\<close>.\<close>

definition initial_gdt :: "u64 list" where
  "initial_gdt = [0, 0x00af9b000000ffff, 0x0000890000000000, 0] @ replicate 12 0"

record cpu_data =
  cd_cpu :: per_cpu
  initialized :: bool
  linux_reg :: "u64 list"

record setup_env =
  se_vmx :: vmx_env
  se_ops :: vmx_ops
  gdt_addr :: u64
  idt_addr :: u64
  linux_mem :: "u64 \<Rightarrow> u64"
  new_base :: "u16 \<Rightarrow> u64 \<Rightarrow> u64"
  root_table_phys :: u64
  apic_cpu_init :: "errno option"

text \<open>
  The registers as \<open>vcpu_init\<close> reads them: \<open>vmcs_setup\<close> runs after CR0 and CR4 have been set to their
  values for the hypervisor.
\<close>

definition host_vmx_env :: "vmx_env \<Rightarrow> cpu_state \<Rightarrow> vmx_env" where
  "host_vmx_env env h =
     env\<lparr>rdmsr := st_msr h, read_cr0 := X86_CR0_HOST_STATE, read_cr3 := st_cr3 h,
         read_cr4 := X86_CR4_PAE OR X86_CR4_VMXE OR
           (if bit (cpuid_ecx env 1 0) 26 then X86_CR4_OSXSAVE else 0),
         gdtr_base := dtr_base (st_gdtr h), idtr_base := dtr_base (st_idtr h)\<rparr>"

text \<open>The reads of the segments, up to the instruction pointer; \<open>base\<close> replaces the base of a descriptor.\<close>

definition save_segments :: "setup_env \<Rightarrow> cpu_state \<Rightarrow> per_cpu \<Rightarrow> per_cpu" where
  "save_segments se h cpu =
     (let rd = (\<lambda>sel seg. read_descriptor (linux_mem se) (dtr_base (linux_gdtr cpu)) (seg\<lparr>seg_selector := sel\<rparr>)) in
      cpu\<lparr>linux_cs := rd (st_cs h) (linux_cs cpu),
          linux_ds := rd (st_ds h) (linux_ds cpu),
          linux_es := rd (st_es h) (linux_es cpu),
          linux_fs := (rd (st_fs h) (linux_fs cpu))\<lparr>seg_base := st_msr h MSR_FS_BASE\<rparr>,
          linux_gs := (rd (st_gs h) (linux_gs cpu))\<lparr>seg_base := st_msr h MSR_GS_BASE\<rparr>,
          linux_ip := linux_mem se (linux_sp cpu + 48)\<rparr>)"

definition save_control :: "cpu_state \<Rightarrow> per_cpu \<Rightarrow> per_cpu" where
  "save_control h cpu =
     cpu\<lparr>linux_cr0 := hw_cr0 (st_vmx h), linux_cr4 := hw_cr4 (st_vmx h), linux_cr3 := st_cr3 h,
         pat := st_msr h MSR_IA32_PAT, mtrr_def_type := st_msr h MSR_IA32_MTRR_DEF_TYPE,
         linux_efer := st_msr h MSR_EFER\<rparr>"

definition arch_cpu_init ::
  "setup_env \<Rightarrow> vmx_limits \<Rightarrow> u64 list \<Rightarrow> cpu_data \<Rightarrow> cpu_state \<Rightarrow>
     (errno option \<times> vmx_limits \<times> u64 list \<times> cpu_data \<times> cpu_state) option" where
  "arch_cpu_init se lim gdt cd h =
     (let cpu = (cd_cpu cd)\<lparr>linux_gdtr := st_gdtr h\<rparr>;
          cpu = cpu\<lparr>linux_tss := read_descriptor (linux_mem se) (dtr_base (linux_gdtr cpu))
                      ((linux_tss cpu)\<lparr>seg_selector := st_tr h\<rparr>)\<rparr> in
      if NUM_GDT_DESC \<le> unat (seg_selector (linux_tss cpu)) div 8
      then Some (Some EINVAL, lim, gdt, cd\<lparr>cd_cpu := cpu\<rparr>, h)
      else
        (let cpu = save_segments se h cpu;
             cd = cd\<lparr>linux_reg := map (\<lambda>n. linux_mem se (linux_sp cpu + 8 * of_nat n)) [0..<6]\<rparr>;
             h = h\<lparr>st_gdtr := \<lparr>dtr_limit = of_nat (NUM_GDT_DESC * 8 - 1), dtr_base = gdt_addr se\<rparr>,
                   st_cs := of_nat (GDT_DESC_CODE * 8)\<rparr>;
             cpu = cpu\<lparr>linux_idtr := st_idtr h\<rparr>;
             h = h\<lparr>st_idtr := \<lparr>dtr_limit = of_nat (NUM_IDT_DESC * 16 - 1), dtr_base = idt_addr se\<rparr>,
                   st_es := 0, st_ds := 0, st_ss := 0\<rparr>
         in case array_get gdt GDT_DESC_TSS of
              None \<Rightarrow> None
            | Some d \<Rightarrow>
           (case ltr (gdt_addr se) (of_nat (GDT_DESC_TSS * 8)) (gdt[GDT_DESC_TSS := d AND NOT DESC_TSS_BUSY]) h of
              None \<Rightarrow> None
            | Some (gdt, h) \<Rightarrow>
                (let cpu = save_control h cpu;
                     h = write_msr MSR_IA32_PAT PAT_HOST_VALUE (h\<lparr>st_cr3 := root_table_phys se\<rparr>);
                     cd = cd\<lparr>initialized := True\<rparr>
                 in case apic_cpu_init se of
                      Some err \<Rightarrow> Some (Some err, lim, gdt, cd\<lparr>cd_cpu := cpu\<rparr>, h)
                    | None \<Rightarrow>
                        (case vcpu_init (host_vmx_env (se_vmx se) h) (se_ops se) lim cpu (st_vmx h) of
                           (err, lim, cpu, hw) \<Rightarrow>
                             Some (err, lim, gdt, cd\<lparr>cd_cpu := cpu\<rparr>, h\<lparr>st_vmx := hw\<rparr>))))))"

definition restore_control :: "per_cpu \<Rightarrow> cpu_state \<Rightarrow> cpu_state" where
  "restore_control cpu h =
     (let h = write_msr MSR_EFER (linux_efer cpu) (write_msr MSR_IA32_PAT (pat cpu) h);
          h = write_cr4 (linux_cr4 cpu) (write_cr0 (linux_cr0 cpu) h)
      in h\<lparr>st_cr3 := linux_cr3 cpu\<rparr>)"

definition restore_segments :: "setup_env \<Rightarrow> per_cpu \<Rightarrow> cpu_state \<Rightarrow> cpu_state" where
  "restore_segments se cpu h =
     (let h = h\<lparr>st_gdtr := linux_gdtr cpu, st_idtr := linux_idtr cpu, st_cs := seg_selector (linux_cs cpu),
                st_ds := seg_selector (linux_ds cpu), st_es := seg_selector (linux_es cpu)\<rparr>;
          h = load_fs (new_base se) (seg_selector (linux_fs cpu)) h;
          h = swapgs (load_gs (new_base se) (seg_selector (linux_gs cpu)) (swapgs h));
          h = write_msr MSR_FS_BASE (seg_base (linux_fs cpu)) h
      in write_msr MSR_GS_BASE (seg_base (linux_gs cpu)) h)"

definition arch_cpu_restore ::
  "setup_env \<Rightarrow> u64 list \<Rightarrow> cpu_data \<Rightarrow> cpu_state \<Rightarrow> (u64 list \<times> cpu_data \<times> cpu_state) option" where
  "arch_cpu_restore se gdt cd h =
     (if \<not> initialized cd then Some (gdt, cd, h)
      else
        (let (cpu, hw) = vcpu_exit (cd_cpu cd) (st_vmx h);
             h = restore_control cpu (h\<lparr>st_vmx := hw\<rparr>);
             linux_gdt = (\<lambda>i. linux_mem se (dtr_base (linux_gdtr cpu) + 8 * of_nat i));
             tss_idx = unat (seg_selector (linux_tss cpu)) div 8
         in case array_set gdt tss_idx (linux_gdt tss_idx AND NOT DESC_TSS_BUSY) of
              None \<Rightarrow> None
            | Some gdt \<Rightarrow>
           (case array_set gdt (tss_idx + 1) (linux_gdt (tss_idx + 1)) of
              None \<Rightarrow> None
            | Some gdt \<Rightarrow>
           (case ltr (gdt_addr se) (seg_selector (linux_tss cpu)) gdt h of
              None \<Rightarrow> None
            | Some (gdt, h) \<Rightarrow> Some (gdt, cd\<lparr>cd_cpu := cpu\<rparr>, restore_segments se cpu h)))))"


subsection \<open>Gates\<close>

text \<open>
  A table of gates as a client sees it: \<open>put\<close> installs an entry point for a vector, \<open>gate\<close> is what the
  processor finds. Installing a list of entry points is a map update.
\<close>

fun put_all :: "(nat \<Rightarrow> u64 \<Rightarrow> 't \<Rightarrow> 't option) \<Rightarrow> (nat \<times> u64) list \<Rightarrow> 't \<Rightarrow> 't option" where
  "put_all put [] t = Some t"
| "put_all put ((v, e) # ps) t = (case put v e t of None \<Rightarrow> None | Some t \<Rightarrow> put_all put ps t)"

locale gate_table =
  fixes put :: "nat \<Rightarrow> u64 \<Rightarrow> 't \<Rightarrow> 't option"
    and gate :: "'t \<Rightarrow> nat \<Rightarrow> 'g option"
    and mk :: "u64 \<Rightarrow> 'g"
    and ok :: "'t \<Rightarrow> bool"
    and vectors :: nat
  assumes put_ok: "ok t \<Longrightarrow> v < vectors \<Longrightarrow>
    \<exists>t'. put v e t = Some t' \<and> ok t' \<and> gate t' = (gate t)(v \<mapsto> mk e)"
begin

lemma put_all_ok:
  "ok t \<Longrightarrow> list_all (\<lambda>(v, e). v < vectors) ps \<Longrightarrow>
    \<exists>t'. put_all put ps t = Some t' \<and> ok t' \<and>
      gate t' = gate t ++ map_of (rev (map (\<lambda>(v, e). (v, mk e)) ps))"
proof (induction ps arbitrary: t)
  case (Cons p ps)
  obtain v e where p: "p = (v, e)" by fastforce
  obtain t1 where t1: "put v e t = Some t1" "ok t1" "gate t1 = (gate t)(v \<mapsto> mk e)"
    using put_ok [OF Cons.prems(1), of v e] Cons.prems(2) by (auto simp: p)
  obtain t' where t': "put_all put ps t1 = Some t'" "ok t'"
    "gate t' = gate t1 ++ map_of (rev (map (\<lambda>(v, e). (v, mk e)) ps))"
    using Cons.IH [OF t1(2)] Cons.prems(2) by auto
  show ?case
    using t' by (simp add: p t1)
qed simp

text \<open>With distinct vectors the order does not matter: every entry is found.\<close>

corollary put_all_distinct:
  assumes "ok t" "list_all (\<lambda>(v, e). v < vectors) ps" "distinct (map fst ps)" "put_all put ps t = Some t'"
  shows "ok t'" "\<And>v e. (v, e) \<in> set ps \<Longrightarrow> gate t' v = Some (mk e)"
    "\<And>v. v \<notin> fst ` set ps \<Longrightarrow> gate t' v = gate t v"
proof -
  let ?qs = "rev (map (\<lambda>(v, e). (v, mk e)) ps)"
  have g: "ok t'" "gate t' = gate t ++ map_of ?qs"
    using put_all_ok [OF assms(1,2)] assms(4) by auto
  show "ok t'"
    by (rule g(1))
  have keys: "map fst ?qs = rev (map fst ps)"
    by (simp add: rev_map comp_def case_prod_unfold)
  show "gate t' v = Some (mk e)" if "(v, e) \<in> set ps" for v e
  proof -
    have "distinct (map fst ?qs)"
      using assms(3) by (simp only: keys distinct_rev)
    moreover have "(v, mk e) \<in> set ?qs"
      using that by force
    ultimately have "map_of ?qs v = Some (mk e)"
      by simp
    then show ?thesis
      by (simp add: g(2))
  qed
  show "gate t' v = gate t v" if "v \<notin> fst ` set ps" for v
  proof -
    have "map_of ?qs v = None"
      using that by (auto simp: map_of_eq_None_iff image_iff)
    then show ?thesis
      by (simp add: g(2) map_add_dom_app_simps(3) domIff)
  qed
qed

end

text \<open>What the processor finds for a vector: selector, attributes and offset of a present gate.\<close>

definition idt_gate :: "u32 list \<Rightarrow> nat \<Rightarrow> (u16 \<times> u16 \<times> u64) option" where
  "idt_gate t v =
     (if v < NUM_IDT_DESC \<and> bit (t ! (4 * v + 1)) 15
      then Some (ucast (drop_bit 16 (t ! (4 * v))), ucast (t ! (4 * v + 1)),
                 (ucast (t ! (4 * v)) AND 0xffff) OR (ucast (t ! (4 * v + 1)) AND 0xffff0000) OR
                 push_bit 32 (ucast (t ! (4 * v + 2))))
      else None)"

definition idt_ok :: "u32 list \<Rightarrow> bool" where
  "idt_ok t \<longleftrightarrow> length t = NUM_IDT_DESC * 4"

lemma low16_mask: "(0xffff :: u64) = mask 16" "(0xffff0000 :: u64) = push_bit 16 (mask 16)"
  by (simp_all add: mask_eq_exp_minus_1)

lemma gate_words:
  fixes e :: u64
  defines "w0 \<equiv> ucast ((e AND 0xffff) OR push_bit 16 (of_nat (GDT_DESC_CODE * 8))) :: u32"
    and "w1 \<equiv> ucast (IDT_PRESENT_INT OR (e AND 0xffff0000)) :: u32"
    and "w2 \<equiv> ucast (drop_bit 32 e) :: u32"
  shows "(ucast (drop_bit 16 w0) :: u16) = 8" "(ucast w1 :: u16) = 0x8e00" "bit w1 15"
    "(ucast w0 AND 0xffff) OR (ucast w1 AND 0xffff0000) OR push_bit 32 (ucast w2) = e"
proof -
  have c: "bit (8 :: int) n \<longleftrightarrow> n = 3" "bit (524288 :: int) n \<longleftrightarrow> n = 19"
    "bit (32768 :: int) n \<longleftrightarrow> n = 15" for n
    using bit_exp_iff [where 'a = int, of 3 n] bit_exp_iff [where 'a = int, of 19 n]
      bit_exp_iff [where 'a = int, of 15 n] by auto
  have attr: "(0x8e00 :: u64) = push_bit 9 (mask 3) OR push_bit 15 1" "(0x8e00 :: u16) = push_bit 9 (mask 3) OR push_bit 15 1"
    by (simp_all add: mask_eq_exp_minus_1)
  show "(ucast (drop_bit 16 w0) :: u16) = 8"
    unfolding w0_def low16_mask by (rule bit_word_eqI) (auto simp: bit_simps c)
  show "(ucast w1 :: u16) = 0x8e00"
    unfolding w1_def low16_mask attr by (rule bit_word_eqI) (auto simp: bit_simps c)
  show "bit w1 15"
    unfolding w1_def low16_mask attr by (simp add: bit_simps)
  show "(ucast w0 AND 0xffff) OR (ucast w1 AND 0xffff0000) OR push_bit 32 (ucast w2) = e"
    unfolding w0_def w1_def w2_def low16_mask attr
    by (rule bit_word_eqI, rename_tac n, case_tac "32 \<le> n") (auto simp: bit_simps c)
qed

interpretation idt_gates: gate_table set_idt_int_gate idt_gate "\<lambda>e. (8, 0x8e00, e)" idt_ok 256
proof unfold_locales
  fix t :: "u32 list" and v :: nat and e :: u64
  assume t: "idt_ok t" "v < 256"
  define t' where "t' = t[v * 4 := ucast ((e AND 0xffff) OR push_bit 16 (of_nat (GDT_DESC_CODE * 8))),
    v * 4 + 1 := ucast (IDT_PRESENT_INT OR (e AND 0xffff0000)), v * 4 + 2 := ucast (drop_bit 32 e)]"
  have "set_idt_int_gate v e t = Some t'"
    using t by (simp add: set_idt_int_gate_def t'_def idt_ok_def)
  moreover have "idt_ok t'"
    using t by (simp add: t'_def idt_ok_def)
  moreover have "idt_gate t' u = (if u = v then Some (8, 0x8e00, e) else idt_gate t u)" for u
  proof (cases "u = v")
    case True
    have "t' ! (4 * v) = ucast ((e AND 0xffff) OR push_bit 16 (of_nat (GDT_DESC_CODE * 8)))"
      "t' ! (4 * v + 1) = ucast (IDT_PRESENT_INT OR (e AND 0xffff0000))"
      "t' ! (4 * v + 2) = ucast (drop_bit 32 e)"
      using t by (simp_all add: t'_def idt_ok_def mult.commute)
    then show ?thesis
      using t(2) gate_words [of e] unfolding True idt_gate_def by (simp only: if_True simp_thms)
  next
    case False
    then have "t' ! (4 * u) = t ! (4 * u)" "t' ! (4 * u + 1) = t ! (4 * u + 1)" "t' ! (4 * u + 2) = t ! (4 * u + 2)"
      unfolding t'_def by (simp_all add: nth_list_update_neq)
    then show ?thesis
      using False by (simp add: idt_gate_def)
  qed
  ultimately show "\<exists>t'. set_idt_int_gate v e t = Some t' \<and> idt_ok t' \<and> idt_gate t' = (idt_gate t)(v \<mapsto> (8, 0x8e00, e))"
    by (auto simp: fun_eq_iff)
qed


subsection \<open>The table after the early initialisation\<close>

text \<open>The vectors of the stubs behind \<open>exception_entries\<close> in \<open>entry.S\<close>, 16 bytes each, in their order.\<close>

definition exception_stub_vectors :: "nat list" where
  "exception_stub_vectors = [0, 1] @ [3..<8] @ [8, 9] @ [10..<15] @ [16, 17, 18, 19]"

definition early_gates :: "early_env \<Rightarrow> (nat \<times> u64) list" where
  "early_gates ee =
     zip exception_stub_vectors (map (\<lambda>k. exception_entries ee + 16 * of_nat k) [0..<18]) @
     (NMI_VECTOR, nmi_entry ee) # map (\<lambda>v. (v, irq_entry ee)) [IRQ_DESC_START..<NUM_IDT_DESC]"

lemma put_all_append:
  "put_all put (ps @ qs) t = (case put_all put ps t of None \<Rightarrow> None | Some t \<Rightarrow> put_all put qs t)"
  by (induction ps arbitrary: t) (auto split: option.splits)

lemma set_irq_gates_put_all: "set_irq_gates vs e t = put_all set_idt_int_gate (map (\<lambda>v. (v, e)) vs) t"
  by (induction vs arbitrary: t) (simp_all split: option.splits)

lemma upt_20: "[0..<20] = [0, 1, 2, 3, 4, 5, 6, 7, 8, 9, 10, 11, 12, 13, 14, 15, 16, 17, 18, 19 :: nat]"
  by (simp add: upt_conv_Cons)

lemma stub_vectors: "exception_stub_vectors = [0, 1, 3, 4, 5, 6, 7, 8, 9, 10, 11, 12, 13, 14, 16, 17, 18, 19]"
  by (simp add: exception_stub_vectors_def upt_conv_Cons)

lemma upt_18: "[0..<18] = [0, 1, 2, 3, 4, 5, 6, 7, 8, 9, 10, 11, 12, 13, 14, 15, 16, 17 :: nat]"
  by (simp add: upt_conv_Cons)

text \<open>The loop of the source, which skips two vectors and advances the address, is that list.\<close>

lemma set_exception_gates_put_all:
  "set_exception_gates [0..<NUM_EXCP_DESC] e t =
     put_all set_idt_int_gate (zip exception_stub_vectors (map (\<lambda>k. e + 16 * of_nat k) [0..<18])) t"
  unfolding upt_20 stub_vectors upt_18 by (simp add: add.assoc cong: option.case_cong)

lemma early_gates_keys:
  "map fst (early_gates ee) = exception_stub_vectors @ 2 # [32..<256]"
  "distinct (map fst (early_gates ee))" "list_all (\<lambda>(v, e). v < 256) (early_gates ee)"
proof -
  show k: "map fst (early_gates ee) = exception_stub_vectors @ 2 # [32..<256]"
    by (simp add: early_gates_def comp_def stub_vectors)
  show "distinct (map fst (early_gates ee))"
    unfolding k by (simp add: stub_vectors)
  have "list_all (\<lambda>v. v < 256) (map fst (early_gates ee))"
    unfolding k by (auto simp: stub_vectors list_all_iff)
  then show "list_all (\<lambda>(v, e). v < 256) (early_gates ee)"
    by (simp add: list_all_iff case_prod_unfold)
qed

lemma early_gates_members:
  "k < 18 \<Longrightarrow> (exception_stub_vectors ! k, exception_entries ee + 16 * of_nat k) \<in> set (early_gates ee)"
  "(2, nmi_entry ee) \<in> set (early_gates ee)"
  "32 \<le> v \<and> v < 256 \<Longrightarrow> (v, irq_entry ee) \<in> set (early_gates ee)"
proof -
  let ?z = "zip exception_stub_vectors (map (\<lambda>k. exception_entries ee + 16 * of_nat k) [0..<18])"
  show "(2, nmi_entry ee) \<in> set (early_gates ee)"
    by (simp add: early_gates_def)
  show "(exception_stub_vectors ! k, exception_entries ee + 16 * of_nat k) \<in> set (early_gates ee)" if "k < 18"
  proof -
    have len: "length exception_stub_vectors = 18"
      by (simp add: stub_vectors)
    have "?z ! k = (exception_stub_vectors ! k, exception_entries ee + 16 * of_nat k)"
      using that len by (simp add: nth_append)
    then show ?thesis
      unfolding early_gates_def using nth_mem [of k ?z] that len by simp
  qed
  show "(v, irq_entry ee) \<in> set (early_gates ee)" if "32 \<le> v \<and> v < 256"
  proof -
    have "(v, irq_entry ee) \<in> set (map (\<lambda>v. (v, irq_entry ee)) [32..<256])"
      unfolding set_map set_upt using that by (intro image_eqI [of _ _ v]) simp_all
    then show ?thesis
      unfolding early_gates_def set_append list.set(2) by blast
  qed
qed

lemma arch_init_early_put_all:
  assumes "apic_init ee = None"
  shows "arch_init_early ee s =
    (case put_all set_idt_int_gate (early_gates ee) (idt s) of
       None \<Rightarrow> None
     | Some t \<Rightarrow> vcpu_early_init ee
         (s\<lparr>cache_line_size := drop_bit 5 (ucast (cpuid_ebx (early_vmx ee) 1 0 AND 0xff00)), idt := t\<rparr>))"
proof -
  have keep: "idt (s\<lparr>cache_line_size := c\<rparr>) = idt s" for c
    by simp
  show ?thesis
    unfolding arch_init_early_def early_gates_def put_all_append put_all.simps set_exception_gates_put_all
      set_irq_gates_put_all Let_def assms option.case
    by (auto simp only: option.case keep option.inject
        option.distinct split: option.split)
qed

lemma arch_init_early_gates:
  assumes "apic_init ee = None" "idt_ok (idt s)"
  shows "\<exists>t. arch_init_early ee s =
      vcpu_early_init ee (s\<lparr>cache_line_size := drop_bit 5 (ucast (cpuid_ebx (early_vmx ee) 1 0 AND 0xff00)), idt := t\<rparr>) \<and>
    (\<forall>(v, e) \<in> set (early_gates ee). idt_gate t v = Some (8, 0x8e00, e)) \<and>
    (\<forall>v. v \<notin> set (exception_stub_vectors @ 2 # [32..<256]) \<longrightarrow> idt_gate t v = idt_gate (idt s) v)"
proof -
  obtain t where t: "put_all set_idt_int_gate (early_gates ee) (idt s) = Some t"
    using idt_gates.put_all_ok [OF assms(2) early_gates_keys(3)] by blast
  note found = idt_gates.put_all_distinct [OF assms(2) early_gates_keys(3,2) t]
  have keys: "fst ` set (early_gates ee) = set (exception_stub_vectors @ 2 # [32..<256])"
    by (metis early_gates_keys(1) list.set_map)
  have "arch_init_early ee s =
      vcpu_early_init ee (s\<lparr>cache_line_size := drop_bit 5 (ucast (cpuid_ebx (early_vmx ee) 1 0 AND 0xff00)), idt := t\<rparr>)"
    using arch_init_early_put_all [OF assms(1), of s] t by simp
  moreover have "\<forall>(v, e) \<in> set (early_gates ee). idt_gate t v = Some (8, 0x8e00, e)"
    using found(2) by blast
  ultimately show ?thesis
    using found(3) unfolding keys by blast
qed

text \<open>The root target's permissions: as for another target, except that nobody else gives up a port.\<close>

lemma vcpu_target_init_root:
  assumes "list_all pio_ok (pio_regions target)" "unat cmd_reg < 65536" "pm_timer + 4 \<le> 65536"
  shows "\<exists>target'. vcpu_target_init True None 2 cmd_reg pm_timer target None = Some (OK, target', None) \<and>
    (\<forall>p. byte_bit (io_bitmap target') p \<longleftrightarrow>
      p < 65536 \<and> (in_pios p (pio_regions target) \<longrightarrow> p = unat cmd_reg) \<and>
      \<not> (pm_timer \<noteq> 0 \<and> pm_timer \<le> p \<and> p < pm_timer + 4))"
proof -
  define root :: pio_target where "root = target\<lparr>io_bitmap := replicate 8192 0\<rparr>"
  have "length (io_bitmap root) = 8192"
    by (simp add: root_def)
  then obtain target' root' where r:
    "vcpu_target_init True None 2 cmd_reg pm_timer target (Some root) = Some (OK, target', Some root')"
    "\<forall>p. byte_bit (io_bitmap target') p \<longleftrightarrow>
      p < 65536 \<and> (in_pios p (pio_regions target) \<longrightarrow> p = unat cmd_reg) \<and>
      \<not> (pm_timer \<noteq> 0 \<and> pm_timer \<le> p \<and> p < pm_timer + 4)"
    using vcpu_target_init_result [OF assms, of root] by blast
  have "vcpu_target_init True None 2 cmd_reg pm_timer target None = Some (OK, target', None)"
    using r(1) unfolding vcpu_target_init_def by (auto split: option.splits if_splits)
  then show ?thesis
    using r(2) by blast
qed

lemma vcpu_early_init_result:
  assumes "list_all pio_ok (pio_regions (root_target s))" "unat (i8042_cmd_reg ee) < 65536"
    and "pm_timer_address ee + 4 \<le> 65536"
  shows "\<exists>r s'. vcpu_early_init ee s = Some (r, s') \<and> idt s' = idt s \<and>
    (r = None \<longrightarrow> (\<forall>p. byte_bit (io_bitmap (root_target s')) p \<longleftrightarrow>
      p < 65536 \<and> (in_pios p (pio_regions (root_target s)) \<longrightarrow> p = unat (i8042_cmd_reg ee)) \<and>
      \<not> (pm_timer_address ee \<noteq> 0 \<and> pm_timer_address ee \<le> p \<and> p < pm_timer_address ee + 4)))"
proof -
  let ?v = "early_paging_create ee (vcpu_vendor_target_init (apic_access_page_phys ee) (early_xapic_base ee))"
  let ?t = "vcpu_target_init (alloc_io_bitmap ee) ?v 2 (i8042_cmd_reg ee) (pm_timer_address ee) (root_target s) None"
  obtain target' where ok: "vcpu_target_init True None 2 (i8042_cmd_reg ee) (pm_timer_address ee) (root_target s) None =
      Some (OK, target', None)"
    "\<forall>p. byte_bit (io_bitmap target') p \<longleftrightarrow>
      p < 65536 \<and> (in_pios p (pio_regions (root_target s)) \<longrightarrow> p = unat (i8042_cmd_reg ee)) \<and>
      \<not> (pm_timer_address ee \<noteq> 0 \<and> pm_timer_address ee \<le> p \<and> p < pm_timer_address ee + 4)"
    using vcpu_target_init_root [OF assms] by blast
  have "(\<exists>e. ?t = Some (Inl e, root_target s, None)) \<or> ?t = Some (OK, target', None)"
    using ok(1) by (cases "alloc_io_bitmap ee"; cases ?v) (auto simp: vcpu_target_init_def)
  moreover obtain f lim where "vmx_check_features (early_vmx ee) (early_limits s) = (f, lim)"
    by fastforce
  ultimately show ?thesis
    using ok(2) by (cases f) (auto simp: vcpu_early_init_def vcpu_vendor_early_init_def Let_def)
qed


subsection \<open>Saving and restoring Linux\<close>

text \<open>
  What Linux sees of a CPU: the selectors of \<open>cs\<close>, \<open>ds\<close>, \<open>es\<close>, \<open>fs\<close>, \<open>gs\<close> and the task register, the base
  of the task segment, the descriptor tables, CR0, CR3, CR4, PAT, EFER and the bases of \<open>fs\<close> and \<open>gs\<close>;
  and the same, read from the fields in which the hypervisor keeps it. The rest of the state is not saved;
  \<open>not_restored\<close>, below, says what becomes of it.
\<close>

definition linux_view :: "cpu_state \<Rightarrow> u16 list \<times> u64 \<times> desc_table_reg \<times> desc_table_reg \<times> u64 list" where
  "linux_view h =
     ([st_cs h, st_ds h, st_es h, st_fs h, st_gs h, st_tr h], st_tr_base h, st_gdtr h, st_idtr h,
      [hw_cr0 (st_vmx h), st_cr3 h, hw_cr4 (st_vmx h), st_msr h MSR_IA32_PAT, st_msr h MSR_EFER,
       st_msr h MSR_FS_BASE, st_msr h MSR_GS_BASE])"

text \<open>
  What \<open>arch_cpu_restore\<close>, run in state \<open>k\<close>, does not bring back: the selector of \<open>ss\<close> and the other model-specific
  registers stay as they are, but for the base that \<open>swapgs\<close> exchanges with that of \<open>gs\<close>: it becomes what
  loading the selector of \<open>gs\<close> makes of it.
\<close>

definition not_restored :: "setup_env \<Rightarrow> cpu_state \<Rightarrow> cpu_state \<Rightarrow> bool" where
  "not_restored se k k' \<longleftrightarrow>
     st_ss k' = st_ss k \<and>
     st_msr k' MSR_KERNEL_GS_BASE = new_base se (st_gs k') (st_msr k MSR_KERNEL_GS_BASE) \<and>
     (\<forall>r. r \<noteq> MSR_IA32_PAT \<and> r \<noteq> MSR_EFER \<and> r \<noteq> MSR_FS_BASE \<and> r \<noteq> MSR_GS_BASE \<and> r \<noteq> MSR_KERNEL_GS_BASE \<longrightarrow>
        st_msr k' r = st_msr k r) \<and>
     hw_feature_control (st_vmx k') = hw_feature_control (st_vmx k) \<and>
     hw_perf_global_ctrl (st_vmx k') = hw_perf_global_ctrl (st_vmx k)"

text \<open>What \<open>arch_cpu_init\<close> changes of it. (FEATURE_CONTROL and PERF_GLOBAL_CTRL are fields of \<open>vmx_hw\<close>.)\<close>

definition init_leaves :: "setup_env \<Rightarrow> cpu_state \<Rightarrow> cpu_state \<Rightarrow> bool" where
  "init_leaves se h h' \<longleftrightarrow>
     st_ss h' = 0 \<and> st_msr h' = (st_msr h)(MSR_IA32_PAT := PAT_HOST_VALUE) \<and>
     hw_feature_control (st_vmx h') \<in> {hw_feature_control (st_vmx h), hw_feature_control (st_vmx h) OR 0x5} \<and>
     hw_perf_global_ctrl (st_vmx h') =
       (if apic_cpu_init se = None \<and> cpuid_eax (se_vmx se) 0x0a 0 AND 0xff > 0 then 0
        else hw_perf_global_ctrl (st_vmx h))"

definition linux_tss_at :: "setup_env \<Rightarrow> desc_table_reg \<Rightarrow> u16 \<Rightarrow> u64 \<times> u64" where
  "linux_tss_at se g sel =
     (let i = unat sel div 8 in
      (linux_mem se (dtr_base g + 8 * of_nat i), linux_mem se (dtr_base g + 8 * of_nat (i + 1))))"

definition saved_view :: "setup_env \<Rightarrow> per_cpu \<Rightarrow> u16 list \<times> u64 \<times> desc_table_reg \<times> desc_table_reg \<times> u64 list" where
  "saved_view se cpu =
     (map seg_selector [linux_cs cpu, linux_ds cpu, linux_es cpu, linux_fs cpu, linux_gs cpu, linux_tss cpu],
      case_prod tss_base (linux_tss_at se (linux_gdtr cpu) (seg_selector (linux_tss cpu))),
      linux_gdtr cpu, linux_idtr cpu,
      [linux_cr0 cpu, linux_cr3 cpu, linux_cr4 cpu, pat cpu, linux_efer cpu,
       seg_base (linux_fs cpu), seg_base (linux_gs cpu)])"

text \<open>
  The table of the hypervisor as every CPU may rely on it, and what a Linux CPU satisfies: its task
  register names a present task segment of its descriptor table, and holds its base.
\<close>

definition gdt_ok :: "u64 list \<Rightarrow> bool" where
  "gdt_ok gdt \<longleftrightarrow> length gdt = NUM_GDT_DESC \<and> gdt ! GDT_DESC_CODE = initial_gdt ! GDT_DESC_CODE \<and>
     (gdt ! GDT_DESC_TSS AND NOT DESC_TSS_BUSY) = 0x0000890000000000 \<and> gdt ! 3 = 0"

definition tss_type_ok :: "u64 \<Rightarrow> bool" where
  "tss_type_ok d \<longleftrightarrow> (d AND NOT DESC_TSS_BUSY) AND 0x00009f0000000000 = 0x0000890000000000"

definition linux_tr_ok :: "setup_env \<Rightarrow> desc_table_reg \<Rightarrow> u16 \<Rightarrow> bool" where
  "linux_tr_ok se g sel \<longleftrightarrow> \<not> bit sel 2 \<and> 4 \<le> unat sel div 8 \<and> unat sel div 8 < 15 \<and>
     tss_type_ok (fst (linux_tss_at se g sel))"

lemma initial_gdt_ok: "gdt_ok initial_gdt"
  by (simp add: gdt_ok_def initial_gdt_def)

lemma gdt_okD:
  assumes "gdt_ok gdt"
  shows "length gdt = 16" "gdt ! 1 = initial_gdt ! 1" "(gdt ! 2 AND NOT DESC_TSS_BUSY) = 0x0000890000000000" "gdt ! 3 = 0"
  using assms by (auto simp: gdt_ok_def)

lemma ltr_Some:
  assumes "\<not> bit sel 2" "0 < unat sel div 8" "unat sel div 8 < 15" "length gdt = 16"
    and "st_gdtr h = \<lparr>dtr_limit = of_nat (NUM_GDT_DESC * 8 - 1), dtr_base = ga\<rparr>"
    and "gdt ! (unat sel div 8) AND 0x00009f0000000000 = 0x0000890000000000"
  shows "ltr ga sel gdt h =
    Some (gdt[unat sel div 8 := gdt ! (unat sel div 8) OR DESC_TSS_BUSY],
          h\<lparr>st_tr := sel, st_tr_base := tss_base (gdt ! (unat sel div 8)) (gdt ! (unat sel div 8 + 1))\<rparr>)"
  using assms by (simp add: ltr_def Let_def)

lemma tss_base_busy: "tss_base (d AND NOT DESC_TSS_BUSY) e = tss_base d e"
proof -
  have c: "(0xffffff :: u64) = mask 24" "(0xff000000 :: u64) = push_bit 24 (mask 8)"
    by (simp_all add: mask_eq_exp_minus_1)
  have b: "bit (d AND NOT DESC_TSS_BUSY) n \<longleftrightarrow> bit d n \<and> n \<noteq> 41" for n
    unfolding bit_and_iff bit_not_iff bit_push_bit_iff bit_1_iff by (auto dest: bit_imp_le_length)
  have "tss_base d' e = tss_base d e" if "\<And>n. bit d' n \<longleftrightarrow> bit d n \<and> n \<noteq> 41" for d'
    unfolding tss_base_def c by (rule bit_word_eqI) (auto simp: bit_simps that)
  then show ?thesis
    using b by blast
qed

lemma busy_again: "((d OR DESC_TSS_BUSY) AND NOT DESC_TSS_BUSY) = d AND NOT (DESC_TSS_BUSY :: u64)"
  by (rule bit_word_eqI) (simp only: bit_simps, blast)

text \<open>What \<open>vcpu_init\<close> changes of the CPU's data; it leaves the off state only without VMXE in CR4.\<close>

definition only_vmx_fields :: "per_cpu \<Rightarrow> per_cpu \<Rightarrow> bool" where
  "only_vmx_fields cpu cpu' \<longleftrightarrow> (\<exists>m st. cpu' = cpu\<lparr>vmcs := m, vmx_state := st\<rparr>)"

lemma only_vmx_fields_intros:
  "only_vmx_fields cpu cpu" "only_vmx_fields cpu (cpu\<lparr>vmx_state := st\<rparr>)"
  "only_vmx_fields cpu (cpu\<lparr>vmx_state := st, vmcs := m\<rparr>)"
  "only_vmx_fields cpu (cpu\<lparr>vmx_state := st, vmcs := m, vmx_state := st'\<rparr>)"
proof -
  have "cpu = cpu\<lparr>vmcs := vmcs cpu, vmx_state := vmx_state cpu\<rparr>"
    "cpu\<lparr>vmx_state := st\<rparr> = cpu\<lparr>vmcs := vmcs cpu, vmx_state := st\<rparr>"
    "cpu\<lparr>vmx_state := st, vmcs := m\<rparr> = cpu\<lparr>vmcs := m, vmx_state := st\<rparr>"
    "cpu\<lparr>vmx_state := st, vmcs := m, vmx_state := st'\<rparr> = cpu\<lparr>vmcs := m, vmx_state := st'\<rparr>"
    by simp_all
  then show "only_vmx_fields cpu cpu" "only_vmx_fields cpu (cpu\<lparr>vmx_state := st\<rparr>)"
    "only_vmx_fields cpu (cpu\<lparr>vmx_state := st, vmcs := m\<rparr>)"
    "only_vmx_fields cpu (cpu\<lparr>vmx_state := st, vmcs := m, vmx_state := st'\<rparr>)"
    unfolding only_vmx_fields_def by metis+
qed

lemma vcpu_init_vmx_keeps:
  assumes "vcpu_init_vmx env op lim cpu hw = (e, c, h)"
  shows "only_vmx_fields cpu c"
proof -
  obtain ok d where vs: "vmcs_setup env lim (cpu\<lparr>vmx_state := VMXON\<rparr>) = (ok, d)" by fastforce
  then obtain m where d: "d = cpu\<lparr>vmx_state := VMXON, vmcs := m\<rparr>"
    using vmcs_setup_keeps by metis
  have "c = cpu \<or> c = cpu\<lparr>vmx_state := VMXON\<rparr> \<or> c = d \<or> c = d\<lparr>vmx_state := VMCS_READY\<rparr>"
    using assms unfolding vcpu_init_vmx_def Let_def vs by (cases ok) (auto split: if_splits)
  then show ?thesis
    unfolding d by (elim disjE) (simp_all only: only_vmx_fields_intros)
qed

lemma vcpu_init_keeps:
  assumes "vcpu_init env op lim cpu hw = (r, lim', cpu', hw')"
  shows "only_vmx_fields cpu cpu'" "vmx_state cpu' = vmx_state cpu \<or> linux_cr4 cpu AND X86_CR4_VMXE = 0"
proof -
  define hw1 where "hw1 = (if cpuid_eax env 0x0a 0 AND 0xff > 0 then hw\<lparr>hw_perf_global_ctrl := 0\<rparr> else hw)"
  define hw2 where "hw2 = (if hw_feature_control hw1 AND 0x5 \<noteq> 0x5
    then hw1\<lparr>hw_feature_control := hw_feature_control hw1 OR 0x5\<rparr> else hw1)"
  have "case vcpu_init env op lim cpu hw of (r, lim', cpu', hw') \<Rightarrow> only_vmx_fields cpu cpu'"
    unfolding vcpu_init_def hw1_def [symmetric] Let_def hw2_def [symmetric]
    by (simp add: only_vmx_fields_intros split: prod.splits option.splits) (blast intro: vcpu_init_vmx_keeps)
  then show "only_vmx_fields cpu cpu'"
    using assms by simp
  show "vmx_state cpu' = vmx_state cpu \<or> linux_cr4 cpu AND X86_CR4_VMXE = 0"
    using assms by (cases "linux_cr4 cpu AND X86_CR4_VMXE = 0") (simp_all add: vcpu_init_def Let_def)
qed

lemma vcpu_init_vmx_msrs:
  assumes "vcpu_init_vmx env op lim cpu hw = (e, c, h)"
  shows "hw_feature_control h = hw_feature_control hw" "hw_perf_global_ctrl h = hw_perf_global_ctrl hw"
  using assms by (auto simp: vcpu_init_vmx_def Let_def split: if_splits prod.splits bool.splits)

lemma vcpu_init_msrs:
  assumes "vcpu_init env op lim cpu hw = (r, lim', cpu', hw')"
  shows "hw_feature_control hw' \<in> {hw_feature_control hw, hw_feature_control hw OR 0x5}"
    "hw_perf_global_ctrl hw' = (if cpuid_eax env 0x0a 0 AND 0xff > 0 then 0 else hw_perf_global_ctrl hw)"
proof -
  define hw1 where "hw1 = (if cpuid_eax env 0x0a 0 AND 0xff > 0 then hw\<lparr>hw_perf_global_ctrl := 0\<rparr> else hw)"
  have hw1: "hw_feature_control hw1 = hw_feature_control hw"
    "hw_perf_global_ctrl hw1 = (if cpuid_eax env 0x0a 0 AND 0xff > 0 then 0 else hw_perf_global_ctrl hw)"
    by (simp_all add: hw1_def)
  have "hw_feature_control hw' \<in> {hw_feature_control hw1, hw_feature_control hw1 OR 0x5} \<and>
    hw_perf_global_ctrl hw' = hw_perf_global_ctrl hw1"
    using assms unfolding vcpu_init_def hw1_def [symmetric] Let_def
    by (auto split: if_splits option.splits prod.splits dest: vcpu_init_vmx_msrs)
  then show "hw_feature_control hw' \<in> {hw_feature_control hw, hw_feature_control hw OR 0x5}"
    "hw_perf_global_ctrl hw' = (if cpuid_eax env 0x0a 0 AND 0xff > 0 then 0 else hw_perf_global_ctrl hw)"
    unfolding hw1 by blast+
qed


text \<open>What \<open>arch_cpu_init\<close> keeps of Linux, and that it is Linux's view of the CPU.\<close>

definition taken_over :: "setup_env \<Rightarrow> cpu_state \<Rightarrow> per_cpu \<Rightarrow> per_cpu" where
  "taken_over se h cpu =
     (let cpu = cpu\<lparr>linux_gdtr := st_gdtr h,
            linux_tss := read_descriptor (linux_mem se) (dtr_base (st_gdtr h)) ((linux_tss cpu)\<lparr>seg_selector := st_tr h\<rparr>)\<rparr>
      in save_control h ((save_segments se h cpu)\<lparr>linux_idtr := st_idtr h\<rparr>))"

lemma read_descriptor_selector [simp]: "seg_selector (read_descriptor mem t seg) = seg_selector seg"
  by (simp add: read_descriptor_def Let_def)

lemma saved_view_taken_over:
  assumes "st_tr_base h = case_prod tss_base (linux_tss_at se (st_gdtr h) (st_tr h))"
  shows "saved_view se (taken_over se h cpu) = linux_view h"
  using assms by (simp add: saved_view_def linux_view_def taken_over_def save_control_def save_segments_def Let_def)

lemma taken_over_simps [simp]:
  "vmx_state (taken_over se h cpu) = vmx_state cpu" "linux_gdtr (taken_over se h cpu) = st_gdtr h"
  "seg_selector (linux_tss (taken_over se h cpu)) = st_tr h"
  "linux_cr0 (taken_over se h cpu) = hw_cr0 (st_vmx h)" "linux_cr4 (taken_over se h cpu) = hw_cr4 (st_vmx h)"
  "linux_sp (taken_over se h cpu) = linux_sp cpu" "linux_ip (taken_over se h cpu) = linux_mem se (linux_sp cpu + 48)"
  by (simp_all add: taken_over_def save_control_def save_segments_def Let_def)

lemma gdt_ok_init:
  assumes "gdt_ok gdt"
  shows "st_gdtr h = \<lparr>dtr_limit = 127, dtr_base = ga\<rparr> \<Longrightarrow>
      ltr ga 16 (gdt[2 := gdt ! 2 AND NOT DESC_TSS_BUSY]) h =
        Some (gdt[2 := 0x00008b0000000000], h\<lparr>st_tr := 16, st_tr_base := 0\<rparr>)"
    "gdt_ok (gdt[2 := 0x00008b0000000000])"
proof -
  note g = gdt_okD [OF assms]
  show "ltr ga 16 (gdt[2 := gdt ! 2 AND NOT DESC_TSS_BUSY]) h =
      Some (gdt[2 := 0x00008b0000000000], h\<lparr>st_tr := 16, st_tr_base := 0\<rparr>)"
    if "st_gdtr h = \<lparr>dtr_limit = 127, dtr_base = ga\<rparr>"
    unfolding g(3) using that by (simp add: ltr_def Let_def g(1,4) tss_base_def)
  show "gdt_ok (gdt[2 := 0x00008b0000000000])"
    using g by (simp add: gdt_ok_def)
qed

lemma arch_cpu_init_result:
  assumes "gdt_ok gdt" "unat (st_tr h) div 8 < 16"
  shows "\<exists>r lim' gdt' cd' h'. arch_cpu_init se lim gdt cd h = Some (r, lim', gdt', cd', h') \<and>
    initialized cd' \<and> gdt_ok gdt' \<and> only_vmx_fields (taken_over se h (cd_cpu cd)) (cd_cpu cd') \<and>
    (vmx_state (cd_cpu cd') = vmx_state (cd_cpu cd) \<or> hw_cr4 (st_vmx h) AND X86_CR4_VMXE = 0) \<and>
    st_gdtr h' = \<lparr>dtr_limit = 127, dtr_base = gdt_addr se\<rparr> \<and> st_idtr h' = \<lparr>dtr_limit = 4095, dtr_base = idt_addr se\<rparr> \<and>
    init_leaves se h h' \<and>
    (r = None \<longrightarrow> (\<exists>k hw hw'. st_msr k = st_msr h' \<and> vcpu_init (host_vmx_env (se_vmx se) k) (se_ops se) lim (taken_over se h (cd_cpu cd)) hw =
      (None, lim', cd_cpu cd', hw')))"
proof -
  let ?cpu = "taken_over se h (cd_cpu cd)"
  define h2 where "h2 = write_msr MSR_IA32_PAT PAT_HOST_VALUE
    (h\<lparr>st_gdtr := \<lparr>dtr_limit = 127, dtr_base = gdt_addr se\<rparr>, st_cs := 8,
       st_idtr := \<lparr>dtr_limit = 4095, dtr_base = idt_addr se\<rparr>, st_es := 0, st_ds := 0, st_ss := 0,
       st_tr := 16, st_tr_base := 0, st_cr3 := root_table_phys se\<rparr>)"
  define cd1 where "cd1 = cd\<lparr>linux_reg := map (\<lambda>n. linux_mem se (linux_sp (cd_cpu cd) + 8 * of_nat n)) [0..<6],
    initialized := True\<rparr>"
  have run: "arch_cpu_init se lim gdt cd h =
    (case apic_cpu_init se of
       Some err \<Rightarrow> Some (Some err, lim, gdt[2 := 0x00008b0000000000], cd1\<lparr>cd_cpu := ?cpu\<rparr>, h2)
     | None \<Rightarrow>
         (case vcpu_init (host_vmx_env (se_vmx se) h2) (se_ops se) lim ?cpu (st_vmx h2) of
            (err, lim, cpu, hw) \<Rightarrow>
              Some (err, lim, gdt[2 := 0x00008b0000000000], cd1\<lparr>cd_cpu := cpu\<rparr>, h2\<lparr>st_vmx := hw\<rparr>)))"
    using assms(2) gdt_okD(1) [OF assms(1)] gdt_ok_init(1) [OF assms(1)]
    by (cases "apic_cpu_init se")
      (simp_all add: arch_cpu_init_def h2_def cd1_def taken_over_def save_control_def
        save_segments_def write_msr_def Let_def)
  have regs: "st_gdtr h2 = \<lparr>dtr_limit = 127, dtr_base = gdt_addr se\<rparr>"
    "st_idtr h2 = \<lparr>dtr_limit = 4095, dtr_base = idt_addr se\<rparr>" "initialized cd1"
    "st_ss h2 = 0" "st_msr h2 = (st_msr h)(MSR_IA32_PAT := PAT_HOST_VALUE)" "st_vmx h2 = st_vmx h"
    by (simp_all add: h2_def write_msr_def cd1_def)
  obtain r lim' cpu' hw' where vi:
    "vcpu_init (host_vmx_env (se_vmx se) h2) (se_ops se) lim ?cpu (st_vmx h2) = (r, lim', cpu', hw')"
    by (metis prod_cases4)
  show ?thesis
  proof (cases "apic_cpu_init se")
    case None
    have "cpuid_eax (host_vmx_env (se_vmx se) h2) = cpuid_eax (se_vmx se)"
      by (simp add: host_vmx_env_def)
    then have leaves: "init_leaves se h (h2\<lparr>st_vmx := hw'\<rparr>)"
      using vcpu_init_msrs [OF vi] regs(4-6) None by (simp add: init_leaves_def)
    show ?thesis
      using None run vi vcpu_init_keeps [OF vi] regs(1-3) leaves gdt_ok_init(2) [OF assms(1)] by auto
  next
    case (Some err)
    then show ?thesis
      using run regs gdt_ok_init(2) [OF assms(1)] by (auto simp: only_vmx_fields_intros init_leaves_def)
  qed
qed


lemma restore_gdt:
  assumes "gdt_ok gdt" "linux_tr_ok se g sel" "st_gdtr h = \<lparr>dtr_limit = 127, dtr_base = ga\<rparr>"
    and "linux_tss_at se g sel = (d0, d1)"
  defines "i \<equiv> unat sel div 8"
  defines "gdt' \<equiv> gdt[i := d0 AND NOT DESC_TSS_BUSY, i + 1 := d1]"
  shows "ltr ga sel gdt' h =
      Some (gdt'[i := (d0 AND NOT DESC_TSS_BUSY) OR DESC_TSS_BUSY], h\<lparr>st_tr := sel, st_tr_base := tss_base d0 d1\<rparr>)"
    "gdt_ok (gdt'[i := (d0 AND NOT DESC_TSS_BUSY) OR DESC_TSS_BUSY])"
proof -
  have i: "4 \<le> i" "i < 15" "\<not> bit sel 2" "(d0 AND NOT DESC_TSS_BUSY) AND 0x00009f0000000000 = 0x0000890000000000"
    using assms(2,4) by (auto simp: linux_tr_ok_def i_def tss_type_ok_def)
  have nth: "length gdt' = 16" "gdt' ! i = d0 AND NOT DESC_TSS_BUSY" "gdt' ! (i + 1) = d1"
    using i gdt_okD(1) [OF assms(1)] by (simp_all add: gdt'_def)
  have "ltr ga sel gdt' h =
    Some (gdt'[i := gdt' ! i OR DESC_TSS_BUSY], h\<lparr>st_tr := sel, st_tr_base := tss_base (gdt' ! i) (gdt' ! (i + 1))\<rparr>)"
    unfolding i_def using i assms(3) nth by (intro ltr_Some) (simp_all add: i_def [symmetric])
  then show "ltr ga sel gdt' h =
      Some (gdt'[i := (d0 AND NOT DESC_TSS_BUSY) OR DESC_TSS_BUSY], h\<lparr>st_tr := sel, st_tr_base := tss_base d0 d1\<rparr>)"
    unfolding nth tss_base_busy .
  show "gdt_ok (gdt'[i := (d0 AND NOT DESC_TSS_BUSY) OR DESC_TSS_BUSY])"
    using i gdt_okD [OF assms(1)] by (simp add: gdt_ok_def gdt'_def)
qed

lemma linux_view_restored:
  assumes "linux_tss_at se (linux_gdtr cpu) (seg_selector (linux_tss cpu)) = (d0, d1)"
  shows "linux_view (restore_segments se cpu
      ((restore_control cpu h)\<lparr>st_tr := seg_selector (linux_tss cpu), st_tr_base := tss_base d0 d1\<rparr>)) =
    saved_view se cpu"
  using assms
  by (simp add: linux_view_def saved_view_def restore_segments_def restore_control_def write_msr_def
      write_cr0_def write_cr4_def load_fs_def load_gs_def swapgs_def Let_def)

lemma not_restored_segments:
  assumes "hw_feature_control hw = hw_feature_control (st_vmx h)" "hw_perf_global_ctrl hw = hw_perf_global_ctrl (st_vmx h)"
  shows "not_restored se h (restore_segments se cpu ((restore_control cpu (h\<lparr>st_vmx := hw\<rparr>))\<lparr>st_tr := t, st_tr_base := b\<rparr>))"
  using assms
  by (simp add: not_restored_def restore_segments_def restore_control_def write_msr_def
      write_cr0_def write_cr4_def load_fs_def load_gs_def swapgs_def Let_def)

lemma arch_cpu_restore_result:
  assumes "initialized cd" "gdt_ok gdt" "st_gdtr h = \<lparr>dtr_limit = 127, dtr_base = gdt_addr se\<rparr>"
    and "linux_tr_ok se (linux_gdtr (cd_cpu cd)) (seg_selector (linux_tss (cd_cpu cd)))"
  defines "cpu \<equiv> fst (vcpu_exit (cd_cpu cd) (st_vmx h))"
  shows "\<exists>gdt' h'. arch_cpu_restore se gdt cd h = Some (gdt', cd\<lparr>cd_cpu := cpu\<rparr>, h') \<and>
    gdt_ok gdt' \<and> linux_view h' = saved_view se cpu \<and> not_restored se h h'"
proof -
  obtain hw where ve: "vcpu_exit (cd_cpu cd) (st_vmx h) = (cpu, hw)"
    by (metis cpu_def prod.collapse)
  have keep: "linux_gdtr cpu = linux_gdtr (cd_cpu cd)" "linux_tss cpu = linux_tss (cd_cpu cd)"
    by (simp_all add: cpu_def vcpu_exit_def vcpu_exit_leave_def vcpu_exit_mark_def)
  let ?sel = "seg_selector (linux_tss cpu)"
  let ?h = "restore_control cpu (h\<lparr>st_vmx := hw\<rparr>)"
  obtain d0 d1 where d: "linux_tss_at se (linux_gdtr cpu) ?sel = (d0, d1)" by fastforce
  then have d': "linux_mem se (dtr_base (linux_gdtr cpu) + 8 * of_nat (unat ?sel div 8)) = d0"
    "linux_mem se (dtr_base (linux_gdtr cpu) + 8 * of_nat (unat ?sel div 8 + 1)) = d1"
    by (auto simp: linux_tss_at_def Let_def)
  have tr: "linux_tr_ok se (linux_gdtr cpu) ?sel" and i: "unat ?sel div 8 < 15"
    using assms(4) by (auto simp: keep linux_tr_ok_def)
  have "st_gdtr ?h = \<lparr>dtr_limit = 127, dtr_base = gdt_addr se\<rparr>"
    using assms(3) by (simp add: restore_control_def write_msr_def write_cr0_def write_cr4_def Let_def)
  note r = restore_gdt(1) [OF assms(2) tr this d] and g = restore_gdt(2) [OF assms(2) tr this d]
  have len: "length gdt = 16"
    by (rule gdt_okD(1) [OF assms(2)])
  have set1: "array_set gdt (unat ?sel div 8) v = Some (gdt[unat ?sel div 8 := v])"
    "array_set (gdt[unat ?sel div 8 := v]) (unat ?sel div 8 + 1) w =
      Some (gdt[unat ?sel div 8 := v, unat ?sel div 8 + 1 := w])" for v w
    using i len by simp_all
  have hw: "hw_feature_control hw = hw_feature_control (st_vmx h)" "hw_perf_global_ctrl hw = hw_perf_global_ctrl (st_vmx h)"
    using ve by (auto simp: vcpu_exit_def vcpu_exit_leave_def split: if_splits)
  show ?thesis
    unfolding arch_cpu_restore_def Let_def ve prod.case
    using assms(1) not_restored_segments [OF hw] linux_view_restored [OF d, of "h\<lparr>st_vmx := hw\<rparr>"] g
    by (simp only: d' set1 r option.case prod.case if_False not_True_eq_False) blast
qed

text \<open>A task register that names the last entry of the table is accepted by \<open>arch_cpu_init\<close>, but its second
  half is then written beyond the table.\<close>

lemma arch_cpu_restore_last_entry:
  assumes "gdt_ok gdt" "unat (st_tr h) div 8 = 15" "length g = 16"
  shows "\<exists>r lim' gdt' cd' h'. arch_cpu_init se lim gdt cd h = Some (r, lim', gdt', cd', h') \<and>
    arch_cpu_restore se g cd' k = None"
proof -
  have "unat (st_tr h) div 8 < 16"
    using assms(2) by simp
  then obtain r lim' gdt' cd' h' where init: "arch_cpu_init se lim gdt cd h = Some (r, lim', gdt', cd', h')"
    "initialized cd'" "only_vmx_fields (taken_over se h (cd_cpu cd)) (cd_cpu cd')"
    using arch_cpu_init_result [OF assms(1)] by blast
  have "seg_selector (linux_tss (fst (vcpu_exit (cd_cpu cd') (st_vmx k)))) = st_tr h"
    using init(3) by (auto simp: only_vmx_fields_def vcpu_exit_def vcpu_exit_leave_def vcpu_exit_mark_def)
  then have "arch_cpu_restore se g cd' k = None"
    using init(2) assms(2,3) by (auto simp: arch_cpu_restore_def Let_def split: prod.splits)
  then show ?thesis
    using init(1) by blast
qed


lemma vcpu_exit_view:
  assumes "only_vmx_fields cpu cpu'" "vmx_state cpu' = VMXOFF \<or> linux_cr4 cpu AND X86_CR4_VMXE = 0"
  shows "saved_view se (fst (vcpu_exit cpu' hw)) = saved_view se cpu"
proof -
  have "linux_cr4 cpu AND NOT X86_CR4_VMXE = linux_cr4 cpu" if "linux_cr4 cpu AND X86_CR4_VMXE = 0"
    using that by (rule word_and_not_disjoint)
  then show ?thesis
    using assms by (auto simp: only_vmx_fields_def saved_view_def vcpu_exit_def vcpu_exit_leave_def vcpu_exit_mark_def)
qed

text \<open>C16. What the interrupt descriptor table holds after \<open>arch_init_early\<close>. The exceptions 0 to 19, but for the
  NMI and the reserved vector 15, lead to a stub of their own in \<open>entry.S\<close>, in the order in which the stubs lie
  there; the NMI leads to the NMI entry; the vectors from 32 on share the interrupt entry. All these gates
  have the code selector of the hypervisor and the attributes of a present interrupt gate; the vectors 15 and
  20 to 31 have no gate. The function returns whatever the allocators answer, and when it succeeds
  the root target may access exactly the ports of its list other than the i8042 command port, and
  the PM timer.\<close>

theorem arch_init_early_establishes:
  assumes "apic_init ee = None" "idt s = replicate 1024 0"
    and "list_all pio_ok (pio_regions (root_target s))" "unat (i8042_cmd_reg ee) < 65536"
    and "pm_timer_address ee + 4 \<le> 65536"
  shows "\<exists>r s'. arch_init_early ee s = Some (r, s') \<and>
    exception_stub_vectors = [0, 1, 3, 4, 5, 6, 7, 8, 9, 10, 11, 12, 13, 14, 16, 17, 18, 19] \<and>
    (\<forall>k < 18. idt_gate (idt s') (exception_stub_vectors ! k) = Some (8, 0x8e00, exception_entries ee + 16 * of_nat k)) \<and>
    idt_gate (idt s') 2 = Some (8, 0x8e00, nmi_entry ee) \<and>
    (\<forall>v. 32 \<le> v \<and> v < 256 \<longrightarrow> idt_gate (idt s') v = Some (8, 0x8e00, irq_entry ee)) \<and>
    (\<forall>v. v = 15 \<or> 20 \<le> v \<and> v < 32 \<longrightarrow> idt_gate (idt s') v = None) \<and>
    (r = None \<longrightarrow> (\<forall>p. byte_bit (io_bitmap (root_target s')) p \<longleftrightarrow>
      p < 65536 \<and> (in_pios p (pio_regions (root_target s)) \<longrightarrow> p = unat (i8042_cmd_reg ee)) \<and>
      \<not> (pm_timer_address ee \<noteq> 0 \<and> pm_timer_address ee \<le> p \<and> p < pm_timer_address ee + 4)))"
proof -
  have "idt_ok (idt s)"
    by (simp add: assms(2) idt_ok_def)
  then obtain t where t: "arch_init_early ee s = vcpu_early_init ee
      (s\<lparr>cache_line_size := drop_bit 5 (ucast (cpuid_ebx (early_vmx ee) 1 0 AND 0xff00)), idt := t\<rparr>)"
    "\<forall>(v, e) \<in> set (early_gates ee). idt_gate t v = Some (8, 0x8e00, e)"
    "\<forall>v. v \<notin> set (exception_stub_vectors @ 2 # [32..<256]) \<longrightarrow> idt_gate t v = idt_gate (idt s) v"
    using arch_init_early_gates [OF assms(1)] by blast
  define s1 where "s1 = s\<lparr>cache_line_size := drop_bit 5 (ucast (cpuid_ebx (early_vmx ee) 1 0 AND 0xff00)), idt := t\<rparr>"
  have s1: "root_target s1 = root_target s" "idt s1 = t"
    by (simp_all add: s1_def)
  obtain r s' where e: "arch_init_early ee s = Some (r, s')" "idt s' = t"
    "r = None \<longrightarrow> (\<forall>p. byte_bit (io_bitmap (root_target s')) p \<longleftrightarrow>
      p < 65536 \<and> (in_pios p (pio_regions (root_target s)) \<longrightarrow> p = unat (i8042_cmd_reg ee)) \<and>
      \<not> (pm_timer_address ee \<noteq> 0 \<and> pm_timer_address ee \<le> p \<and> p < pm_timer_address ee + 4))"
    using vcpu_early_init_result [of s1 ee] assms(3-5) unfolding t(1) s1_def [symmetric] s1 by blast
  have gate: "idt_gate t v = Some (8, 0x8e00, a)" if "(v, a) \<in> set (early_gates ee)" for v a
    using t(2) that by blast
  note gates = early_gates_members(1) [THEN gate] early_gates_members(2) [THEN gate] early_gates_members(3) [THEN gate]
  have "idt_gate (idt s) v = None" if "v = 15 \<or> 20 \<le> v \<and> v < 32" for v
    using that by (auto simp: idt_gate_def assms(2))
  then have absent: "\<forall>v. v = 15 \<or> 20 \<le> v \<and> v < 32 \<longrightarrow> idt_gate t v = None"
    using t(3) by (auto simp: stub_vectors)
  then show ?thesis
    using e gates absent stub_vectors by blast
qed

text \<open>C20. What \<open>arch_cpu_init\<close> saves of a Linux CPU is enough for \<open>arch_cpu_restore\<close>, provided that Linux's task
  register names an entry from 4 to 14 of its descriptor table that is a present task segment: however the
  initialisation ends (also when the APIC or VMX refuses), and whatever registers the processor holds
  by then - as long as it is on the hypervisor's descriptor table, which other CPUs may have used
  meanwhile -, the restore faults nowhere and Linux finds its selectors other than \<open>ss\<close>, task segment, descriptor
  tables, control registers, PAT, EFER and the bases of \<open>fs\<close> and \<open>gs\<close> as they were. Both keep the shared descriptor
  table usable for the next CPU. The rest is pinned as well: the initialisation clears \<open>ss\<close> and, if the processor has
  counters, PERF_GLOBAL_CTRL, may lock VMX on in FEATURE_CONTROL and changes no other register but PAT; the restore
  touches none of them, so that \<open>ss\<close> and the counters stay off, and puts KERNEL_GS_BASE to what loading
  the selector of \<open>gs\<close> makes of it.\<close>

theorem arch_cpu_init_restore_roundtrip:
  assumes "gdt_ok gdt" "vmx_state (cd_cpu cd) = VMXOFF" "linux_tr_ok se (st_gdtr h) (st_tr h)"
    and "st_tr_base h = case_prod tss_base (linux_tss_at se (st_gdtr h) (st_tr h))"
  shows "\<exists>r lim' gdt' cd' h'. arch_cpu_init se lim gdt cd h = Some (r, lim', gdt', cd', h') \<and> gdt_ok gdt' \<and>
    init_leaves se h h' \<and>
    (\<forall>g k. gdt_ok g \<and> st_gdtr k = st_gdtr h' \<longrightarrow>
      (\<exists>g' cd'' k'. arch_cpu_restore se g cd' k = Some (g', cd'', k') \<and> gdt_ok g' \<and>
        linux_view k' = linux_view h \<and> not_restored se k k'))"
proof -
  let ?T = "taken_over se h (cd_cpu cd)"
  have "unat (st_tr h) div 8 < 16"
    using assms(3) by (simp add: linux_tr_ok_def)
  then obtain r lim' gdt' cd' h' where i: "arch_cpu_init se lim gdt cd h = Some (r, lim', gdt', cd', h')"
    "initialized cd'" "gdt_ok gdt'" "only_vmx_fields ?T (cd_cpu cd')"
    "vmx_state (cd_cpu cd') = vmx_state (cd_cpu cd) \<or> hw_cr4 (st_vmx h) AND X86_CR4_VMXE = 0"
    "st_gdtr h' = \<lparr>dtr_limit = 127, dtr_base = gdt_addr se\<rparr>" "init_leaves se h h'"
    using arch_cpu_init_result [OF assms(1)] by blast
  have tr: "linux_tr_ok se (linux_gdtr (cd_cpu cd')) (seg_selector (linux_tss (cd_cpu cd')))"
    using assms(3) i(4) by (auto simp: only_vmx_fields_def)
  have view: "saved_view se (fst (vcpu_exit (cd_cpu cd') hw)) = linux_view h" for hw
    using vcpu_exit_view [OF i(4)] i(5) assms(2) saved_view_taken_over [OF assms(4)] by simp
  have "\<exists>g' cd'' k'. arch_cpu_restore se g cd' k = Some (g', cd'', k') \<and> gdt_ok g' \<and>
      linux_view k' = linux_view h \<and> not_restored se k k'"
    if "gdt_ok g" "st_gdtr k = st_gdtr h'" for g k
    using arch_cpu_restore_result [OF i(2) that(1) _ tr, of k] that(2) i(6) view by auto
  then show ?thesis
    using i(1,3,7) by blast
qed


subsection \<open>The layout of a descriptor\<close>

lemma desc_limit:
  fixes d :: u64
  defines "L \<equiv> (ucast ((d AND 0xffff) OR (drop_bit 32 d AND 0xf0000)) :: u32)"
  shows "unat L = unat (take_bit 16 d) + 2 ^ 16 * unat (take_bit 4 (drop_bit 48 d))"
    "unat (push_bit 12 L OR 0xfff) = 4096 * unat L + 4095"
proof -
  have m: "(0xffff :: u64) = mask 16" "(0xf0000 :: u64) = push_bit 16 (mask 4)"
    by (simp_all add: mask_eq_exp_minus_1)
  have "L = push_bit 16 (ucast (take_bit 4 (drop_bit 48 d))) OR ucast (take_bit 16 d)"
    unfolding L_def m by (rule bit_word_eqI, rename_tac n, case_tac "16 \<le> n") (auto simp: bit_simps)
  moreover have "unat (take_bit 4 (drop_bit 48 d)) < 2 ^ 4" "unat (take_bit 16 d) < 2 ^ 16"
    unfolding unsigned_take_bit_eq by (rule take_bit_nat_less_exp)+
  moreover from this have "unat (ucast (take_bit 4 (drop_bit 48 d)) :: u32) = unat (take_bit 4 (drop_bit 48 d))"
    "unat (ucast (take_bit 16 d) :: u32) = unat (take_bit 16 d)"
    by (simp_all add: unsigned_ucast_eq take_bit_nat_eq_self)
  ultimately show L: "unat L = unat (take_bit 16 d) + 2 ^ 16 * unat (take_bit 4 (drop_bit 48 d))"
    by (simp add: unat_push_or)
  have "unat L < 2 ^ 20"
    using L \<open>unat (take_bit 4 (drop_bit 48 d)) < 2 ^ 4\<close> \<open>unat (take_bit 16 d) < 2 ^ 16\<close> by simp
  then show "unat (push_bit 12 L OR 0xfff) = 4096 * unat L + 4095"
    by (subst unat_push_or) simp_all
qed

lemma desc_base:
  fixes d0 d1 :: u64
  defines "b \<equiv> (drop_bit 16 d0 AND 0xffffff) OR (drop_bit 32 d0 AND 0xff000000)"
  shows "bit b n \<longleftrightarrow> (if n < 24 then bit d0 (16 + n) else n < 32 \<and> bit d0 (32 + n))"
    "bit (b OR push_bit 32 d1) n \<longleftrightarrow>
      (if n < 24 then bit d0 (16 + n) else if n < 32 then bit d0 (32 + n) else n < 64 \<and> bit d1 (n - 32))"
proof -
  have m: "(0xffffff :: u64) = mask 24" "(0xff000000 :: u64) = push_bit 24 (mask 8)"
    by (simp_all add: mask_eq_exp_minus_1)
  show b: "bit b n \<longleftrightarrow> (if n < 24 then bit d0 (16 + n) else n < 32 \<and> bit d0 (32 + n))"
    unfolding b_def m by (auto simp: bit_simps)
  show "bit (b OR push_bit 32 d1) n \<longleftrightarrow>
      (if n < 24 then bit d0 (16 + n) else if n < 32 then bit d0 (32 + n) else n < 64 \<and> bit d1 (n - 32))"
    unfolding bit_or_iff b by (auto simp: bit_simps)
qed

lemma desc_access_rights:
  "bit (ucast (drop_bit 40 (d :: u64) AND 0xf0ff) :: u32) n \<longleftrightarrow> (n < 8 \<or> 12 \<le> n \<and> n < 16) \<and> bit d (40 + n)"
proof -
  have m: "(0xf0ff :: u64) = mask 8 OR push_bit 12 (mask 4)"
    by (simp add: mask_eq_exp_minus_1)
  show ?thesis
    unfolding m by (auto simp: bit_simps)
qed

text \<open>\<open>read_descriptor\<close> reassembles a segment from the pieces in which a descriptor holds it: the base
  from bits 16 to 39 and 56 to 63, with the upper half from the second quadword for system descriptors
  only; the limit from bits 0 to 15 and 48 to 51, in units of pages with all offset bits set if the
  granularity bit is set, which never wraps; the access byte and the flags, with the bits of the limit
  between them cleared. An absent descriptor gives an unusable segment.\<close>

theorem read_descriptor_layout:
  fixes mem :: "u64 \<Rightarrow> u64" and seg :: segment and table :: u64
  defines "s \<equiv> read_descriptor mem table seg"
    and "d0 \<equiv> mem (table + ucast (seg_selector seg AND 0xfff8))"
    and "d1 \<equiv> mem (table + ucast (seg_selector seg AND 0xfff8) + 8)"
  defines "limit \<equiv> unat (take_bit 16 d0) + 2 ^ 16 * unat (take_bit 4 (drop_bit 48 d0))"
  shows "seg_selector s = seg_selector seg \<and>
    (if bit d0 47 then
      (\<forall>n. bit (seg_base s) n \<longleftrightarrow>
        (if n < 24 then bit d0 (16 + n) else if n < 32 then bit d0 (32 + n) else n < 64 \<and> \<not> bit d0 44 \<and> bit d1 (n - 32))) \<and>
      unat (seg_limit s) = (if bit d0 55 then 4096 * limit + 4095 else limit) \<and>
      (\<forall>n. bit (seg_access_rights s) n \<longleftrightarrow> (n < 8 \<or> 12 \<le> n \<and> n < 16) \<and> bit d0 (40 + n))
     else seg_base s = 0 \<and> seg_limit s = 0 \<and> seg_access_rights s = 0x10000)"
proof (cases "bit d0 47")
  case False
  then have "d0 AND DESC_PRESENT = 0"
    using single_bit_and_zero_iff [of 47 d0] by simp
  then show ?thesis
    using False by (simp add: s_def read_descriptor_def Let_def d0_def [symmetric])
next
  case True
  have flags: "d0 AND DESC_PRESENT \<noteq> 0" "d0 AND DESC_CODE_DATA = 0 \<longleftrightarrow> \<not> bit d0 44"
    "d0 AND DESC_PAGE_GRAN \<noteq> 0 \<longleftrightarrow> bit d0 55"
    using True single_bit_and_zero_iff [of 47 d0] single_bit_and_zero_iff [of 44 d0] single_bit_and_zero_iff [of 55 d0]
    by simp_all
  let ?base = "(drop_bit 16 d0 AND 0xffffff) OR (drop_bit 32 d0 AND 0xff000000)"
  let ?limit = "ucast ((d0 AND 0xffff) OR (drop_bit 32 d0 AND 0xf0000)) :: u32"
  have fields: "seg_selector s = seg_selector seg"
    "seg_base s = (if bit d0 44 then ?base else ?base OR push_bit 32 d1)"
    "seg_limit s = (if bit d0 55 then push_bit 12 ?limit OR 0xfff else ?limit)"
    "seg_access_rights s = ucast (drop_bit 40 d0 AND 0xf0ff)"
    using flags(1) unfolding s_def read_descriptor_def Let_def d0_def [symmetric] d1_def [symmetric] flags(2,3)
    by simp_all
  have "bit (seg_base s) n \<longleftrightarrow>
      (if n < 24 then bit d0 (16 + n) else if n < 32 then bit d0 (32 + n) else n < 64 \<and> \<not> bit d0 44 \<and> bit d1 (n - 32))" for n
    by (cases "bit d0 44"; simp only: fields desc_base if_True if_False simp_thms; auto)
  moreover have "unat (seg_limit s) = (if bit d0 55 then 4096 * limit + 4095 else limit)"
    unfolding fields limit_def desc_limit(1) [symmetric] using desc_limit(2) [of d0]
    by (cases "bit d0 55") (simp_all only: if_True if_False)
  moreover have "bit (seg_access_rights s) n \<longleftrightarrow> (n < 8 \<or> 12 \<le> n \<and> n < 16) \<and> bit d0 (40 + n)" for n
    unfolding fields by (rule desc_access_rights)
  ultimately show ?thesis
    using True fields(1) by (simp only: if_True) blast
qed


subsection \<open>Examples\<close>

text \<open>A start-up whose allocations succeed, with one port region for the root target.\<close>

definition demo_early_env :: early_env where
  "demo_early_env =
     \<lparr>early_vmx = demo_env, exception_entries = 0xfffffff0f0001000, nmi_entry = 0xfffffff0f0001200,
      irq_entry = 0xfffffff0f0001240, apic_init = None, using_x2apic = False,
      early_phys_invalid = \<lambda>_ _. 0, alloc_io_bitmap = True, early_paging_create = \<lambda>_. None,
      apic_access_page_phys = 0x40000, early_xapic_base = 0xfee00000, i8042_cmd_reg = 0x64,
      pm_timer_address = 0x608, parking_code_phys = 0x50000\<rparr>"

definition demo_early_state :: early_state where
  "demo_early_state =
     \<lparr>cache_line_size = 0, idt = replicate 1024 0, early_limits = demo_limits, ept_paging = [],
      early_msr_bitmap = initial_msr_bitmap, root_target = demo_pio_root\<rparr>"

theorem arch_init_early_establishes_witness:
  "\<exists>r s'. arch_init_early demo_early_env demo_early_state = Some (r, s') \<and>
     idt_gate (idt s') 14 = Some (8, 0x8e00, 0xfffffff0f00010d0) \<and>
     idt_gate (idt s') 200 = Some (8, 0x8e00, 0xfffffff0f0001240)"
proof -
  obtain r s' where w: "arch_init_early demo_early_env demo_early_state = Some (r, s')"
    "\<forall>k < 18. idt_gate (idt s') (exception_stub_vectors ! k) =
       Some (8, 0x8e00, exception_entries demo_early_env + 16 * of_nat k)"
    "\<forall>v. 32 \<le> v \<and> v < 256 \<longrightarrow> idt_gate (idt s') v = Some (8, 0x8e00, irq_entry demo_early_env)"
    using arch_init_early_establishes [of demo_early_env demo_early_state]
    by (auto simp: demo_early_env_def demo_early_state_def demo_pio_root_def pio_ok_def)
  have "exception_stub_vectors ! 13 = 14"
    by (simp add: stub_vectors)
  then show ?thesis
    using w(1) w(2) [rule_format, of 13] w(3) [rule_format, of 200] by (auto simp: demo_early_env_def)
qed

text \<open>A Linux CPU whose task segment is the ninth descriptor of its table, and busy.\<close>

definition demo_setup_env :: setup_env where
  "demo_setup_env =
     \<lparr>se_vmx = demo_env, se_ops = \<lparr>vmxon_ok = True, vmclear_ok = True, vmptrld_ok = True\<rparr>,
      gdt_addr = 0xfffffff0f0010000, idt_addr = 0xfffffff0f0011000,
      linux_mem = (\<lambda>a. if a = 0xA040 then 0x00008b345678206f else if a = 0xA048 then 0xffff8880
        else if a = 0xA010 then 0x00af9b000000ffff else if a = 0x8030 then 0x9000 else 0),
      new_base = \<lambda>_ _. 0, root_table_phys = 0x3a000000, apic_cpu_init = None\<rparr>"

text \<open>Its model-specific registers are those of a processor that offers what the hypervisor asks for.\<close>

definition demo_msr :: "u32 \<Rightarrow> u64" where
  "demo_msr =
     (\<lambda>r. if r = MSR_IA32_PAT then 0x0007040600070406 else if r = MSR_EFER then 0xd01
       else if r = MSR_FS_BASE then 0x7f00 else if r = MSR_GS_BASE then 0xffff888100000000
       else if r = MSR_IA32_VMX_BASIC then 0x00d8100000000000
       else if r = MSR_IA32_VMX_CR0_FIXED0 then 0x80000021 else if r = MSR_IA32_VMX_CR0_FIXED1 then 0xffffffff
       else if r = MSR_IA32_VMX_CR4_FIXED0 then 0x2000 else if r = MSR_IA32_VMX_CR4_FIXED1 then 0x3727ff
       else if r = MSR_IA32_VMX_TRUE_PROCBASED_CTLS then 0 else 0xffffffffffffffff)"

definition demo_host :: cpu_state where
  "demo_host =
     \<lparr>st_cs = 0x10, st_ds = 0, st_es = 0, st_fs = 0, st_gs = 0, st_ss = 0x18, st_tr = 0x40,
      st_tr_base = 0xffff888000345678, st_gdtr = \<lparr>dtr_limit = 0x7f, dtr_base = 0xA000\<rparr>,
      st_idtr = \<lparr>dtr_limit = 0xfff, dtr_base = 0xB000\<rparr>, st_cr3 = 0x1000, st_msr = demo_msr,
      st_vmx = \<lparr>vmx_on = False, vmcs_current = False, hw_cr0 = 0x80050033, hw_cr4 = 0x6f0,
        hw_feature_control = 5, hw_perf_global_ctrl = 0\<rparr>\<rparr>"

definition demo_cd :: cpu_data where
  "demo_cd = \<lparr>cd_cpu = demo_cpu, initialized = False, linux_reg = []\<rparr>"

definition demo_boot_limits :: vmx_limits where
  "demo_boot_limits = \<lparr>cr_maybe1 = [0, 0], cr_required1 = [0, 0], secondary_exec_addon = 0\<rparr>"

lemma demo_host_tss:
  "linux_tr_ok demo_setup_env (st_gdtr demo_host) (st_tr demo_host)"
  "st_tr_base demo_host =
     case_prod tss_base (linux_tss_at demo_setup_env (st_gdtr demo_host) (st_tr demo_host))"
  "vmx_state (cd_cpu demo_cd) = VMXOFF"
  by code_simp+

theorem arch_cpu_init_restore_roundtrip_witness:
  "\<exists>r lim' gdt' cd' h' g' cd'' k'.
     arch_cpu_init demo_setup_env demo_boot_limits initial_gdt demo_cd demo_host = Some (r, lim', gdt', cd', h') \<and>
     arch_cpu_restore demo_setup_env gdt' cd' h' = Some (g', cd'', k') \<and> linux_view k' = linux_view demo_host \<and>
     st_ss k' = 0 \<and> st_msr k' MSR_KERNEL_GS_BASE = 0"
proof -
  obtain r lim' gdt' cd' h' where init:
    "arch_cpu_init demo_setup_env demo_boot_limits initial_gdt demo_cd demo_host = Some (r, lim', gdt', cd', h')" "gdt_ok gdt'"
    "init_leaves demo_setup_env demo_host h'"
    "\<forall>g k. gdt_ok g \<and> st_gdtr k = st_gdtr h' \<longrightarrow>
      (\<exists>g' cd'' k'. arch_cpu_restore demo_setup_env g cd' k = Some (g', cd'', k') \<and> gdt_ok g' \<and>
        linux_view k' = linux_view demo_host \<and> not_restored demo_setup_env k k')"
    using arch_cpu_init_restore_roundtrip [OF initial_gdt_ok demo_host_tss(3,1,2), of demo_boot_limits] by blast
  from init(4) [rule_format, of gdt' h'] init(2) obtain g' cd'' k' where
    r: "arch_cpu_restore demo_setup_env gdt' cd' h' = Some (g', cd'', k')" "linux_view k' = linux_view demo_host"
    "not_restored demo_setup_env h' k'"
    by blast
  have "st_ss k' = 0" "st_msr k' MSR_KERNEL_GS_BASE = 0"
    using r(3) init(3) by (simp_all add: not_restored_def init_leaves_def demo_setup_env_def)
  then show ?thesis
    using init(1) r(1,2) by blast
qed

lemma demo_init_succeeds:
  "case arch_cpu_init demo_setup_env demo_boot_limits initial_gdt demo_cd demo_host of
     Some (None, lim, _) \<Rightarrow> lim = \<lparr>cr_maybe1 = [0x9fffffff, 0x3727ff], cr_required1 = [0x30, 0x2000], secondary_exec_addon = 0\<rparr> | _ \<Rightarrow> False"
  by code_simp

end
