(* ===== verification/Spy_Comm.thy ===== *)
theory Spy_Comm
  imports Spy_Vcpu
begin

text \<open>
  The interface between the hypervisor and a target: the communication region (\<open>spy/hypercall.h\<close>) and
  the inline functions of \<open>asm/spy_hypercall.h\<close> that both sides compile in.

  \<open>spy_send_msg_to_target\<close> and \<open>spy_send_reply_from_target\<close> are two stores each, with a fence between
  them. They are modelled as the list of their stores, and the two sides interleave at every store and
  every poll. The functions do not poll themselves; the discipline of the callers, who are not part of
  the source, is the one the interface is made for: the hypervisor sends a message and waits for the
  reply, the target waits for a message and replies to it. The console in the header of the region is
  declared elsewhere and left out.
\<close>

subsection \<open>The communication region\<close>

record spy_comm_region =
  comm_signature :: string
  comm_revision :: u16
  comm_target_state :: u32
  msg_to_target :: u32
  reply_from_target :: u32
  comm_flags :: u32
  pci_mmconfig_base :: u64
  comm_pm_timer_address :: u16
  num_cpus :: u16
  tsc_khz :: u32
  apic_khz :: u32

abbreviation (input) SPY_MSG_NONE :: u32 where "SPY_MSG_NONE \<equiv> 0"

definition spy_send_msg_to_target :: "u32 \<Rightarrow> (spy_comm_region \<Rightarrow> spy_comm_region) list" where
  "spy_send_msg_to_target msg =
     [\<lambda>c. c\<lparr>reply_from_target := SPY_MSG_NONE\<rparr>, \<lambda>c. c\<lparr>msg_to_target := msg\<rparr>]"

definition spy_send_reply_from_target :: "u32 \<Rightarrow> (spy_comm_region \<Rightarrow> spy_comm_region) list" where
  "spy_send_reply_from_target reply =
     [\<lambda>c. c\<lparr>msg_to_target := SPY_MSG_NONE\<rparr>, \<lambda>c. c\<lparr>reply_from_target := reply\<rparr>]"

subsection \<open>Messages and replies\<close>

text \<open>Where each side is; the stores still to come are part of the position.\<close>

datatype hv_phase = Hv_Idle | Hv_Sending "(spy_comm_region \<Rightarrow> spy_comm_region) list" | Hv_Waiting

datatype tg_phase = Tg_Waiting | Tg_Handling u32 | Tg_Replying "(spy_comm_region \<Rightarrow> spy_comm_region) list"

text \<open>
  The last four fields record what was sent and received: the messages the hypervisor sent and the target
  received, the replies the target sent and the hypervisor received.
\<close>

record comm_sys =
  region :: spy_comm_region
  hv :: hv_phase
  tg :: tg_phase
  sent :: "u32 list"
  received :: "u32 list"
  replies :: "u32 list"
  answers :: "u32 list"

inductive comm_step :: "comm_sys \<Rightarrow> comm_sys \<Rightarrow> bool" where
  hv_send: "hv s = Hv_Idle \<Longrightarrow> msg \<noteq> SPY_MSG_NONE \<Longrightarrow>
    comm_step s (s\<lparr>hv := Hv_Sending (spy_send_msg_to_target msg), sent := sent s @ [msg]\<rparr>)"
| hv_store: "hv s = Hv_Sending (st # sts) \<Longrightarrow>
    comm_step s (s\<lparr>region := st (region s), hv := (if sts = [] then Hv_Waiting else Hv_Sending sts)\<rparr>)"
| hv_poll: "hv s = Hv_Waiting \<Longrightarrow> reply_from_target (region s) \<noteq> SPY_MSG_NONE \<Longrightarrow>
    comm_step s (s\<lparr>hv := Hv_Idle, answers := answers s @ [reply_from_target (region s)]\<rparr>)"
| tg_poll: "tg s = Tg_Waiting \<Longrightarrow> msg_to_target (region s) \<noteq> SPY_MSG_NONE \<Longrightarrow>
    comm_step s (s\<lparr>tg := Tg_Handling (msg_to_target (region s)), received := received s @ [msg_to_target (region s)]\<rparr>)"
| tg_reply: "tg s = Tg_Handling msg \<Longrightarrow> reply \<noteq> SPY_MSG_NONE \<Longrightarrow>
    comm_step s (s\<lparr>tg := Tg_Replying (spy_send_reply_from_target reply), replies := replies s @ [reply]\<rparr>)"
| tg_store: "tg s = Tg_Replying (st # sts) \<Longrightarrow>
    comm_step s (s\<lparr>region := st (region s), tg := (if sts = [] then Tg_Waiting else Tg_Replying sts)\<rparr>)"

definition comm_start :: "comm_sys \<Rightarrow> bool" where
  "comm_start s \<longleftrightarrow> msg_to_target (region s) = SPY_MSG_NONE \<and> hv s = Hv_Idle \<and> tg s = Tg_Waiting \<and>
     sent s = [] \<and> received s = [] \<and> replies s = [] \<and> answers s = []"

text \<open>The positions both sides can be in together, with what the region holds there.\<close>

inductive comm_inv :: "comm_sys \<Rightarrow> bool" where
  idle: "hv s = Hv_Idle \<Longrightarrow> tg s = Tg_Waiting \<Longrightarrow> msg_to_target (region s) = 0 \<Longrightarrow>
    sent s = received s \<Longrightarrow> replies s = answers s \<Longrightarrow> length (received s) = length (replies s) \<Longrightarrow> comm_inv s"
| sending: "hv s = Hv_Sending (spy_send_msg_to_target m) \<Longrightarrow> m \<noteq> 0 \<Longrightarrow> tg s = Tg_Waiting \<Longrightarrow>
    msg_to_target (region s) = 0 \<Longrightarrow>
    sent s = received s @ [m] \<Longrightarrow> replies s = answers s \<Longrightarrow> length (received s) = length (replies s) \<Longrightarrow> comm_inv s"
| cleared: "hv s = Hv_Sending [\<lambda>c. c\<lparr>msg_to_target := m\<rparr>] \<Longrightarrow> m \<noteq> 0 \<Longrightarrow> tg s = Tg_Waiting \<Longrightarrow>
    msg_to_target (region s) = 0 \<Longrightarrow> reply_from_target (region s) = 0 \<Longrightarrow>
    sent s = received s @ [m] \<Longrightarrow> replies s = answers s \<Longrightarrow> length (received s) = length (replies s) \<Longrightarrow> comm_inv s"
| posted: "hv s = Hv_Waiting \<Longrightarrow> tg s = Tg_Waiting \<Longrightarrow> msg_to_target (region s) = m \<Longrightarrow> m \<noteq> 0 \<Longrightarrow>
    reply_from_target (region s) = 0 \<Longrightarrow>
    sent s = received s @ [m] \<Longrightarrow> replies s = answers s \<Longrightarrow> length (received s) = length (replies s) \<Longrightarrow> comm_inv s"
| handling: "hv s = Hv_Waiting \<Longrightarrow> tg s = Tg_Handling m \<Longrightarrow> reply_from_target (region s) = 0 \<Longrightarrow>
    sent s = received s \<Longrightarrow> replies s = answers s \<Longrightarrow> length (received s) = length (replies s) + 1 \<Longrightarrow> comm_inv s"
| replying: "hv s = Hv_Waiting \<Longrightarrow> tg s = Tg_Replying (spy_send_reply_from_target r) \<Longrightarrow> r \<noteq> 0 \<Longrightarrow>
    reply_from_target (region s) = 0 \<Longrightarrow>
    sent s = received s \<Longrightarrow> replies s = answers s @ [r] \<Longrightarrow> length (received s) = length (replies s) \<Longrightarrow> comm_inv s"
| taken: "hv s = Hv_Waiting \<Longrightarrow> tg s = Tg_Replying [\<lambda>c. c\<lparr>reply_from_target := r\<rparr>] \<Longrightarrow> r \<noteq> 0 \<Longrightarrow>
    msg_to_target (region s) = 0 \<Longrightarrow> reply_from_target (region s) = 0 \<Longrightarrow>
    sent s = received s \<Longrightarrow> replies s = answers s @ [r] \<Longrightarrow> length (received s) = length (replies s) \<Longrightarrow> comm_inv s"
| replied: "hv s = Hv_Waiting \<Longrightarrow> tg s = Tg_Waiting \<Longrightarrow> msg_to_target (region s) = 0 \<Longrightarrow>
    reply_from_target (region s) = r \<Longrightarrow> r \<noteq> 0 \<Longrightarrow>
    sent s = received s \<Longrightarrow> replies s = answers s @ [r] \<Longrightarrow> length (received s) = length (replies s) \<Longrightarrow> comm_inv s"

text \<open>Each step moves from one position to the next.\<close>

lemma comm_step_inv:
  assumes "comm_step s s'" "comm_inv s"
  shows "comm_inv s'"
  using assms(1)
proof cases
  case (hv_send msg)
  from assms(2) show ?thesis
    by cases (use hv_send in \<open>auto intro!: comm_inv.sending [of _ msg]\<close>)
next
  case (hv_store st sts)
  from assms(2) show ?thesis
    by cases (use hv_store in \<open>auto simp: spy_send_msg_to_target_def intro: comm_inv.cleared comm_inv.posted\<close>)
next
  case hv_poll
  from assms(2) show ?thesis
    by cases (use hv_poll in \<open>auto intro!: comm_inv.idle\<close>)
next
  case tg_poll
  from assms(2) show ?thesis
    by cases (use tg_poll in \<open>auto intro!: comm_inv.handling\<close>)
next
  case (tg_reply msg reply)
  from assms(2) show ?thesis
    by cases (use tg_reply in \<open>auto intro!: comm_inv.replying [of _ reply]\<close>)
next
  case (tg_store st sts)
  from assms(2) show ?thesis
    by cases (use tg_store in \<open>auto simp: spy_send_reply_from_target_def intro: comm_inv.taken comm_inv.replied\<close>)
qed

interpretation comm_protocol: transition_system comm_start comm_step comm_inv
  by unfold_locales (auto simp: comm_start_def intro: comm_inv.idle comm_step_inv)

lemma comm_inv_live:
  assumes "comm_inv s"
  shows "\<exists>s'. comm_step s s'"
proof -
  have one: "(1 :: u32) \<noteq> SPY_MSG_NONE"
    by simp
  from assms show ?thesis
  proof cases
    case idle
    from comm_step.hv_send [OF idle(1) one] show ?thesis ..
  next
    case (sending m)
    from comm_step.hv_store [OF sending(1) [unfolded spy_send_msg_to_target_def]] show ?thesis ..
  next
    case (cleared m)
    from comm_step.hv_store [OF cleared(1)] show ?thesis ..
  next
    case (posted m)
    from comm_step.tg_poll [OF posted(2)] posted(3,4) show ?thesis by blast
  next
    case (handling m)
    from comm_step.tg_reply [OF handling(2) one] show ?thesis ..
  next
    case (replying r)
    from comm_step.tg_store [OF replying(2) [unfolded spy_send_reply_from_target_def]] show ?thesis ..
  next
    case (taken r)
    from comm_step.tg_store [OF taken(2)] show ?thesis ..
  next
    case (replied r)
    from comm_step.hv_poll [OF replied(1)] replied(4,5) show ?thesis by blast
  qed
qed

text \<open>C11. The communication region loses, repeats and invents nothing: in every interleaving of the two sides
  the target has received exactly the messages sent, in their order, up to the one under way; the
  hypervisor has received exactly the replies, in their order, up to the one under way, each in answer to
  the message of its number; at most one message is unanswered; and neither side waits for ever, because
  some store, poll or reply is always possible.\<close>

theorem comm_region_exchange:
  assumes "comm_start s0" "comm_step\<^sup>*\<^sup>* s0 s"
  shows "(sent s = received s \<or> (\<exists>m. sent s = received s @ [m])) \<and>
    (replies s = answers s \<or> (\<exists>r. replies s = answers s @ [r])) \<and>
    length (answers s) \<le> length (replies s) \<and> length (replies s) \<le> length (received s) \<and>
    length (sent s) \<le> length (answers s) + 1 \<and> (\<exists>s'. comm_step s s')"
proof -
  have inv: "comm_inv s"
    by (rule comm_protocol.reachable_inv [OF assms])
  then have "(sent s = received s \<or> (\<exists>m. sent s = received s @ [m])) \<and>
    (replies s = answers s \<or> (\<exists>r. replies s = answers s @ [r])) \<and>
    length (answers s) \<le> length (replies s) \<and> length (replies s) \<le> length (received s) \<and>
    length (sent s) \<le> length (answers s) + 1"
    by cases auto
  then show ?thesis
    using comm_inv_live [OF inv] by blast
qed

definition demo_region :: spy_comm_region where
  "demo_region = \<lparr>comm_signature = ''SPYCOM'', comm_revision = 2, comm_target_state = 0, msg_to_target = 0,
     reply_from_target = 3, comm_flags = 0, pci_mmconfig_base = 0, comm_pm_timer_address = 0, num_cpus = 1,
     tsc_khz = 0, apic_khz = 0\<rparr>"

definition demo_comm :: comm_sys where
  "demo_comm = \<lparr>region = demo_region, hv = Hv_Idle, tg = Tg_Waiting, sent = [], received = [], replies = [], answers = []\<rparr>"

text \<open>A shutdown request is sent while the reply of an earlier exchange is still in the region.\<close>

theorem comm_region_exchange_witness:
  "\<exists>s. comm_step\<^sup>*\<^sup>* demo_comm s \<and> sent s = [1] \<and> length (answers s) \<le> length (replies s)"
proof -
  have start: "comm_start demo_comm"
    by (simp add: comm_start_def demo_comm_def demo_region_def)
  let ?s = "demo_comm\<lparr>hv := Hv_Sending (spy_send_msg_to_target 1), sent := [1]\<rparr>"
  have step: "comm_step demo_comm ?s"
    using comm_step.hv_send [of demo_comm 1] by (simp add: demo_comm_def)
  show ?thesis
    using comm_region_exchange [OF start r_into_rtranclp [of comm_step, OF step]] r_into_rtranclp [of comm_step, OF step]
    by (intro exI [of _ ?s]) simp
qed

subsection \<open>Hypercalls\<close>

text \<open>
  \<open>spy_call\<close> and its variants: the registers the guest has when it executes the instruction
  \<open>SPY_CALL_CODE\<close> selects, and the result read from \<open>eax\<close>. Moving the 32-bit number into the register
  clears its upper half.
\<close>

datatype call_insn = Vmcall | Vmmcall

definition SPY_CALL_CODE :: "u8 \<Rightarrow> call_insn" where
  "SPY_CALL_CODE use_vmcall = (if use_vmcall = 1 then Vmcall else Vmmcall)"

definition SPY_CALL_RESULT :: "per_cpu \<Rightarrow> u32" where
  "SPY_CALL_RESULT cpu = ucast (reg_of cpu RAX)"

definition spy_call :: "u32 \<Rightarrow> per_cpu \<Rightarrow> per_cpu" where
  "spy_call num cpu = set_reg RAX (ucast num) cpu"

definition spy_call_arg1 :: "u32 \<Rightarrow> u64 \<Rightarrow> per_cpu \<Rightarrow> per_cpu" where
  "spy_call_arg1 num arg1 cpu = set_reg RDI arg1 (set_reg RAX (ucast num) cpu)"

definition spy_call_arg2 :: "u32 \<Rightarrow> u64 \<Rightarrow> u64 \<Rightarrow> per_cpu \<Rightarrow> per_cpu" where
  "spy_call_arg2 num arg1 arg2 cpu = set_reg RSI arg2 (set_reg RDI arg1 (set_reg RAX (ucast num) cpu))"

lemma hypercall_denied_set_reg [simp]: "hypercall_denied (set_reg r v cpu) = hypercall_denied cpu"
  by (simp add: hypercall_denied_def vcpu_long_mode_def vcpu_vendor_get_efer_def vcpu_vendor_get_cs_attr_def
      vcpu_vendor_get_rflags_def set_reg_def)

lemma vcpu_long_mode_set_reg [simp]: "vcpu_long_mode (set_reg r v cpu) = vcpu_long_mode cpu"
  by (simp add: vcpu_long_mode_def vcpu_vendor_get_efer_def vcpu_vendor_get_cs_attr_def set_reg_def)

lemma SPY_CALL_RESULT_set [simp]: "regs_ok cpu \<Longrightarrow> SPY_CALL_RESULT (set_reg RAX v cpu) = ucast v"
  by (simp add: SPY_CALL_RESULT_def reg_set_reg)

lemma spy_call_arg2_regs:
  assumes "regs_ok cpu"
  shows "regs_ok (spy_call_arg2 num a b cpu)" "reg_of (spy_call_arg2 num a b cpu) RAX = ucast num"
    "reg_of (spy_call_arg2 num a b cpu) RDI = a" "reg_of (spy_call_arg2 num a b cpu) RSI = b"
    "hypercall_denied (spy_call_arg2 num a b cpu) = hypercall_denied cpu"
    "vcpu_long_mode (spy_call_arg2 num a b cpu) = vcpu_long_mode cpu"
  using assms by (simp_all add: spy_call_arg2_def reg_set_reg)

text \<open>The inline functions of a target and the exit handler of the hypervisor fit together: in 64-bit
  kernel code, \<open>hypercall\<close> gets exactly the number and the arguments that were passed to the function -
  in compatibility mode the low halves of the arguments -, and the function returns the low 32 bits of what
  \<open>hypercall\<close> returns; for unprivileged code \<open>hypercall\<close> is not reached and the function returns -EPERM.\<close>

theorem spy_call_reaches_hypercall:
  assumes "regs_ok cpu" "\<And>c a b s. regs_ok s \<Longrightarrow> regs_ok (snd (ext_hypercall ext c a b s))"
  shows "let guest = spy_call_arg2 num arg1 arg2 cpu;
       arg = (\<lambda>v. if vcpu_long_mode cpu then v else take_bit 32 v);
       after = vcpu_skip_emulated_instruction env X86_INST_LEN_HYPERCALL guest;
       call = ext_hypercall ext (ucast num) (arg arg1) (arg arg2) after;
       exit = vcpu_handle_hypercall env ext guest
   in SPY_CALL_RESULT (snd exit) = (if hypercall_denied cpu then - 1 else ucast (fst call)) \<and>
      (\<not> hypercall_denied cpu \<longrightarrow> fst exit = (num = 0 \<and> fst call = 0) \<and> snd exit = set_reg RAX (fst call) (snd call))"
proof -
  let ?guest = "spy_call_arg2 num arg1 arg2 cpu"
  let ?after = "vcpu_skip_emulated_instruction env X86_INST_LEN_HYPERCALL ?guest"
  define arg where "arg = (\<lambda>v :: u64. if vcpu_long_mode cpu then v else take_bit 32 v)"
  note r = spy_call_arg2_regs [OF assms(1), of num arg1 arg2]
  have mask: "v AND (if vcpu_long_mode cpu then - 1 else 0xffffffff) = arg v" for v
    by (simp add: arg_def and_ffffffff)
  obtain res after where call: "ext_hypercall ext (ucast num) (arg arg1) (arg arg2) ?after = (res, after)" by fastforce
  have ok: "regs_ok ?after"
    using r(1) by simp
  have "regs_ok after"
    using assms(2) [OF ok, of "ucast num" "arg arg1" "arg arg2"] by (simp add: call)
  moreover have "(ucast num :: u64) = 0 \<longleftrightarrow> num = 0"
    by (metis ucast_0 ucast_u32_u64)
  moreover have "vcpu_handle_hypercall env ext ?guest =
      (if hypercall_denied cpu then (False, set_reg RAX (- 1) ?after)
       else (ucast num = SPY_HC_DISABLE \<and> res = 0, set_reg RAX res after))"
    by (simp add: vcpu_handle_hypercall_def Let_def r(2,5,6) r(3,4) [simplified] mask call)
  moreover have "(ucast (- 1 :: u64) :: u32) = - 1"
    by (rule bit_word_eqI) (simp add: bit_simps)
  ultimately show ?thesis
    unfolding Let_def arg_def [symmetric] call using ok by auto
qed

text \<open>A dispatcher that adds its arguments, called by 64-bit kernel code.\<close>

definition demo_vcpu_ext :: vcpu_ext where
  "demo_vcpu_ext =
     \<lparr>ext_hypercall = \<lambda>c a b s. (c + a + b, s), ext_pci_config = \<lambda>_ _ _ s. (0, s),
      ext_i8042 = \<lambda>_ _ _ s. (0, s),
      ext_mmio_parse = \<lambda>_ _ _. \<lparr>inst_len = 0, access_size = 0, in_reg_num = 0,
         reg_preserve_mask = 0, out_val = 0\<rparr>,
      ext_mmio_access = \<lambda>_ s. (MMIO_UNHANDLED, 0, s), ext_x2apic_read = \<lambda>s. s, ext_x2apic_write = \<lambda>s. (True, s),
      ext_apic_mmio = \<lambda>_ _ _ s. (0, s), ext_check_events = \<lambda>s. s\<rparr>"

definition demo_kernel_guest :: per_cpu where
  "demo_kernel_guest = demo_cpu\<lparr>vmcs := (\<lambda>_. 0)(GUEST_IA32_EFER := 0x500, GUEST_CS_AR_BYTES := 0xa09b)\<rparr>"

theorem spy_call_reaches_hypercall_witness:
  "SPY_CALL_RESULT (snd (vcpu_handle_hypercall demo_env demo_vcpu_ext
     (spy_call_arg2 8 0x100000000 0x41 demo_kernel_guest))) = 0x49"
proof -
  have ok: "regs_ok demo_kernel_guest"
    by (simp add: regs_ok_def demo_kernel_guest_def demo_cpu_def)
  have keep: "regs_ok s \<Longrightarrow> regs_ok (snd (ext_hypercall demo_vcpu_ext c a b s))" for c a b s
    by (simp add: demo_vcpu_ext_def)
  have mode: "\<not> hypercall_denied demo_kernel_guest" "vcpu_long_mode demo_kernel_guest"
    by code_simp+
  show ?thesis
    using spy_call_reaches_hypercall [OF ok, of demo_vcpu_ext 8 "0x100000000" "0x41" demo_env, OF keep] mode
      spy_call_arg2_regs(1) [OF ok, of 8 "0x100000000" "0x41"]
    by (simp add: Let_def demo_vcpu_ext_def)
qed

end
