(* ===== verification/Spy_Layout.thy ===== *)
theory Spy_Layout
  imports Spy_Bitops
begin

text \<open>
  The layout of the structures that the program shares with the processor, with assembly code, with Linux
  and with its tools: the declarations of the headers as values of a type \<open>ctype\<close>, and the rules by which
  the compiler lays them out (x86-64: a scalar is aligned to its size). Types whose headers are not in the
  repository are parameters.
\<close>

subsection \<open>Layout rules\<close>

text \<open>
  \<open>CAligned\<close> is a member with \<open>__attribute__((aligned(n)))\<close>; \<open>CStruct packed n\<close> a structure that is packed
  or not, itself aligned to at least \<open>n\<close>.
\<close>

datatype ctype =
    CScalar nat
  | CArray ctype nat
  | CAligned nat ctype
  | CStruct bool nat "(string \<times> ctype) list"
  | CUnion "(string \<times> ctype) list"

definition round_up :: "nat \<Rightarrow> nat \<Rightarrow> nat" where
  "round_up n a = (n + a - 1) div a * a"

fun alignof :: "ctype \<Rightarrow> nat" and alignof_members :: "(string \<times> ctype) list \<Rightarrow> nat" where
  "alignof (CScalar n) = n"
| "alignof (CArray t n) = alignof t"
| "alignof (CAligned a t) = max a (alignof t)"
| "alignof (CStruct packed a fs) = (if packed then a else max a (alignof_members fs))"
| "alignof (CUnion fs) = alignof_members fs"
| "alignof_members [] = 1"
| "alignof_members ((f, t) # fs) = max (alignof t) (alignof_members fs)"

text \<open>Where the next member starts: packed members have no padding.\<close>

definition place :: "bool \<Rightarrow> nat \<Rightarrow> ctype \<Rightarrow> nat" where
  "place packed ofs t = (if packed then ofs else round_up ofs (alignof t))"

fun sizeof :: "ctype \<Rightarrow> nat" and struct_end :: "bool \<Rightarrow> nat \<Rightarrow> (string \<times> ctype) list \<Rightarrow> nat"
  and union_size :: "(string \<times> ctype) list \<Rightarrow> nat" where
  "sizeof (CScalar n) = n"
| "sizeof (CArray t n) = n * sizeof t"
| "sizeof (CAligned a t) = sizeof t"
| "sizeof (CStruct packed a fs) = round_up (struct_end packed 0 fs) (alignof (CStruct packed a fs))"
| "sizeof (CUnion fs) = round_up (union_size fs) (alignof_members fs)"
| "struct_end packed ofs [] = ofs"
| "struct_end packed ofs ((f, t) # fs) = struct_end packed (place packed ofs t + sizeof t) fs"
| "union_size [] = 0"
| "union_size ((f, t) # fs) = max (sizeof t) (union_size fs)"

fun member_offsets :: "bool \<Rightarrow> nat \<Rightarrow> (string \<times> ctype) list \<Rightarrow> (string \<times> nat \<times> ctype) list" where
  "member_offsets packed ofs [] = []"
| "member_offsets packed ofs ((f, t) # fs) =
     (f, place packed ofs t, t) # member_offsets packed (place packed ofs t + sizeof t) fs"

fun members :: "ctype \<Rightarrow> (string \<times> nat \<times> ctype) list" where
  "members (CStruct packed a fs) = member_offsets packed 0 fs"
| "members (CUnion fs) = map (\<lambda>(f, t). (f, 0, t)) fs"
| "members (CAligned a t) = members t"
| "members _ = []"

text \<open>\<open>offsetof\<close> along a path of member names; also the type found there.\<close>

fun offsetof :: "ctype \<Rightarrow> string list \<Rightarrow> (nat \<times> ctype) option" where
  "offsetof t [] = Some (0, t)"
| "offsetof t (f # fs) =
     (case map_of (members t) f of
        None \<Rightarrow> None
      | Some (ofs, u) \<Rightarrow> map_option (\<lambda>(ofs', v). (ofs + ofs', v)) (offsetof u fs))"

text \<open>Sizes and alignments are positive, and alignments powers of two.\<close>

fun ctype_ok :: "ctype \<Rightarrow> bool" and members_ok :: "(string \<times> ctype) list \<Rightarrow> bool" where
  "ctype_ok (CScalar n) \<longleftrightarrow> n \<in> {1, 2, 4, 8}"
| "ctype_ok (CArray t n) \<longleftrightarrow> ctype_ok t \<and> (case t of CAligned _ _ \<Rightarrow> False | _ \<Rightarrow> True)"
| "ctype_ok (CAligned a t) \<longleftrightarrow> ctype_ok t \<and> 0 < a"
| "ctype_ok (CStruct packed a fs) \<longleftrightarrow> members_ok fs \<and> 0 < a"
| "ctype_ok (CUnion fs) \<longleftrightarrow> members_ok fs"
| "members_ok [] = True"
| "members_ok ((f, t) # fs) \<longleftrightarrow> ctype_ok t \<and> members_ok fs"

lemma round_up_bounds:
  assumes "0 < a"
  shows "n \<le> round_up n a" "round_up n a < n + a"
proof -
  have "(n + a - 1) div a * a + (n + a - 1) mod a = n + a - 1"
    by (rule div_mult_mod_eq)
  moreover have "(n + a - 1) mod a < a"
    using assms by simp
  ultimately show "n \<le> round_up n a" "round_up n a < n + a"
    unfolding round_up_def using assms by linarith+
qed

lemma round_up_dvd: "a dvd round_up n a"
  by (simp add: round_up_def)

lemma round_up_self:
  assumes "0 < a" "a dvd n"
  shows "round_up n a = n"
proof -
  obtain k where n: "n = a * k"
    using assms(2) by (elim dvdE)
  have "a dvd round_up n a - n"
    using assms(2) round_up_dvd by (rule dvd_diff_nat [rotated])
  moreover have "round_up n a - n < a"
    using round_up_bounds [OF assms(1), of n] by linarith
  ultimately have "round_up n a - n = 0"
    by (metis dvd_imp_le not_le zero_less_iff_neq_zero)
  then show ?thesis
    using round_up_bounds(1) [OF assms(1), of n] by linarith
qed

lemma alignof_pos:
  "ctype_ok t \<Longrightarrow> 0 < alignof t" "members_ok fs \<Longrightarrow> 0 < alignof_members fs"
  by (induction t and fs rule: alignof_alignof_members.induct) auto

lemma place_ge: "ctype_ok t \<Longrightarrow> ofs \<le> place packed ofs t"
  using round_up_bounds(1) [OF alignof_pos(1)] by (simp add: place_def)

text \<open>Members lie one behind the other.\<close>

lemma struct_end_ge: "members_ok fs \<Longrightarrow> ofs \<le> struct_end packed ofs fs"
proof (induction fs arbitrary: ofs)
  case (Cons p fs)
  then obtain f t where p: "p = (f, t)" "ctype_ok t" "members_ok fs"
    by (cases p) auto
  have "ofs \<le> place packed ofs t"
    using place_ge [OF p(2)] .
  also have "\<dots> \<le> struct_end packed (place packed ofs t + sizeof t) fs"
    using Cons.IH [OF p(3), of "place packed ofs t + sizeof t"] by linarith
  finally show ?case
    by (simp add: p(1))
qed simp

lemma member_offsets_bounds:
  assumes "members_ok fs" "(f, o1, t) \<in> set (member_offsets packed ofs fs)"
  shows "ofs \<le> o1" "o1 + sizeof t \<le> struct_end packed ofs fs" "ctype_ok t" "\<not> packed \<Longrightarrow> alignof t dvd o1"
proof -
  have "ofs \<le> o1 \<and> o1 + sizeof t \<le> struct_end packed ofs fs \<and> ctype_ok t \<and> (\<not> packed \<longrightarrow> alignof t dvd o1)"
    using assms
  proof (induction fs arbitrary: ofs)
    case (Cons p fs)
    obtain g u where p: "p = (g, u)" "ctype_ok u" "members_ok fs"
      using Cons.prems(1) by (cases p) auto
    let ?o = "place packed ofs u"
    have ge: "ofs \<le> ?o"
      using place_ge [OF p(2)] .
    show ?case
    proof (cases "(f, o1, t) \<in> set (member_offsets packed (?o + sizeof u) fs)")
      case True
      then show ?thesis
        using Cons.IH [OF p(3) True] ge by (simp add: p(1))
    next
      case False
      then have "o1 = ?o" "t = u"
        using Cons.prems(2) by (auto simp: p(1))
      moreover have "\<not> packed \<longrightarrow> alignof u dvd ?o"
        by (simp add: place_def round_up_dvd)
      ultimately show ?thesis
        using ge p(2) struct_end_ge [OF p(3), of "?o + sizeof u" packed] by (simp add: p(1))
    qed
  qed simp
  then show "ofs \<le> o1" "o1 + sizeof t \<le> struct_end packed ofs fs" "ctype_ok t" "\<not> packed \<Longrightarrow> alignof t dvd o1"
    by simp_all
qed

lemma member_offsets_apart:
  assumes "members_ok fs" "i < j" "j < length fs"
    and "member_offsets packed ofs fs ! i = (f, o1, t)" "member_offsets packed ofs fs ! j = (g, o2, u)"
  shows "o1 + sizeof t \<le> o2"
  using assms
proof (induction fs arbitrary: ofs i j)
  case (Cons p fs)
  obtain h v where p: "p = (h, v)" "ctype_ok v" "members_ok fs"
    using Cons.prems(1) by (cases p) auto
  have len: "length (member_offsets packed o' fs) = length fs" for o'
    by (induction fs arbitrary: o') auto
  obtain j' where j: "j = Suc j'"
    using Cons.prems(2) by (cases j) auto
  show ?case
  proof (cases i)
    case 0
    have "(g, o2, u) \<in> set (member_offsets packed (place packed ofs v + sizeof v) fs)"
      using Cons.prems(3,5) len nth_mem [of j' "member_offsets packed (place packed ofs v + sizeof v) fs"] by (simp add: p j)
    then show ?thesis
      using member_offsets_bounds(1) [OF p(3)] Cons.prems(4) 0 by (fastforce simp: p)
  next
    case (Suc i')
    then show ?thesis
      using Cons.IH [OF p(3), of i' j' "place packed ofs v + sizeof v"] Cons.prems(2-5) by (simp add: p j)
  qed
qed simp

lemma length_member_offsets [simp]: "length (member_offsets packed ofs fs) = length fs"
  by (induction fs arbitrary: ofs) auto

text \<open>The layout rules never make two members of a structure overlap.\<close>

lemma struct_layout_rules:
  fixes packed :: bool and a :: nat and fs :: "(string \<times> ctype) list"
  defines "S \<equiv> CStruct packed a fs"
  assumes "ctype_ok S" "j < length fs" "members S ! j = (g, o2, u)"
  shows "o2 + sizeof u \<le> sizeof S \<and> (packed \<or> alignof u dvd o2) \<and> alignof S dvd sizeof S \<and>
    (\<forall>i f o1 t. i < j \<and> members S ! i = (f, o1, t) \<longrightarrow> o1 + sizeof t \<le> o2)"
proof -
  have ok: "members_ok fs" and pos: "0 < alignof S"
    using assms(2) alignof_pos(1) [of S] by (simp_all add: S_def)
  have "(g, o2, u) \<in> set (member_offsets packed 0 fs)"
    using assms(3,4) nth_mem [of j "member_offsets packed 0 fs"] by (simp add: S_def)
  note b = member_offsets_bounds [OF ok this]
  have "struct_end packed 0 fs \<le> sizeof S"
    using round_up_bounds(1) [OF pos] by (simp add: S_def)
  moreover have "alignof S dvd sizeof S"
    by (simp add: S_def round_up_dvd)
  moreover have "o1 + sizeof t \<le> o2" if "i < j" "members S ! i = (f, o1, t)" for i f o1 t
    using member_offsets_apart [OF ok that(1) assms(3)] that(2) assms(4) by (simp add: S_def)
  ultimately show ?thesis
    using b by (meson le_trans)
qed

subsection \<open>Structures of the hypervisor\<close>

abbreviation (input) u8_t :: ctype where "u8_t \<equiv> CScalar 1"
abbreviation (input) u16_t :: ctype where "u16_t \<equiv> CScalar 2"
abbreviation (input) u32_t :: ctype where "u32_t \<equiv> CScalar 4"
abbreviation (input) u64_t :: ctype where "u64_t \<equiv> CScalar 8"
abbreviation (input) int_t :: ctype where "int_t \<equiv> CScalar 4"
abbreviation (input) bool_t :: ctype where "bool_t \<equiv> CScalar 1"
abbreviation (input) pointer_t :: ctype where "pointer_t \<equiv> CScalar 8"
abbreviation (input) PAGE_BYTES :: nat where "PAGE_BYTES \<equiv> 4096"

definition registers_t :: ctype where
  "registers_t = CUnion
     [(''named'', CStruct False 1
         [(''r15'', u64_t), (''r14'', u64_t), (''r13'', u64_t), (''r12'', u64_t), (''r11'', u64_t), (''r10'', u64_t),
          (''r9'', u64_t), (''r8'', u64_t), (''rdi'', u64_t), (''rsi'', u64_t), (''rbp'', u64_t), (''unused'', u64_t),
          (''rbx'', u64_t), (''rdx'', u64_t), (''rcx'', u64_t), (''rax'', u64_t)]),
      (''by_index'', CArray u64_t 16)]"

definition desc_table_reg_t :: ctype where
  "desc_table_reg_t = CStruct True 1 [(''limit'', u16_t), (''base'', u64_t)]"

definition segment_t :: ctype where
  "segment_t = CStruct False 1 [(''base'', u64_t), (''limit'', u32_t), (''access_rights'', u32_t), (''selector'', u16_t)]"

definition spinlock_t :: ctype where
  "spinlock_t = CStruct False 1 [(''owner'', u16_t), (''next'', u16_t)]"

definition paging_structures_t :: ctype where
  "paging_structures_t = CStruct False 1 [(''hv_paging'', bool_t), (''root_paging'', pointer_t), (''root_table'', pointer_t)]"

text \<open>The two bit fields of the first word are one 32-bit unit.\<close>

definition vmcs_t :: ctype where
  "vmcs_t = CStruct True 1
     [(''revision_id'', u32_t), (''abort_indicator'', u32_t), (''data'', CArray u64_t ((PAGE_BYTES - 4 - 4) div 8))]"

abbreviation (input) SPY_GENERIC_CPU_STATS :: nat where "SPY_GENERIC_CPU_STATS \<equiv> 4"

definition arch_public_percpu_fields :: "(string \<times> ctype) list" where
  "arch_public_percpu_fields =
     [(''apic_id'', u32_t), (''control_lock'', spinlock_t), (''wait_for_sipi'', bool_t), (''init_signaled'', bool_t),
      (''sipi_vector'', int_t), (''update_cat'', bool_t)]"

definition public_per_cpu_t :: ctype where
  "public_per_cpu_t = CStruct False PAGE_BYTES
     ([(''root_table_page'', CAligned PAGE_BYTES (CArray u8_t PAGE_BYTES)), (''cpu_id'', u32_t), (''target'', pointer_t),
       (''stats'', CArray u32_t (SPY_GENERIC_CPU_STATS + 8)), (''shutdown_state'', int_t), (''failed'', bool_t),
       (''suspend_cpu'', bool_t), (''cpu_suspended'', bool_t), (''flush_vcpu_caches'', bool_t)] @
      arch_public_percpu_fields)"

text \<open>\<open>struct vmcb\<close> is declared in a header that is not in the repository.\<close>

definition svm_part_t :: "ctype \<Rightarrow> ctype" where
  "svm_part_t vmcb = CStruct False 1 [(''vmcb'', CAligned PAGE_BYTES vmcb),
     (''host_state'', CAligned PAGE_BYTES (CArray u8_t PAGE_BYTES))]"

text \<open>The vendor's pages: two for VMX, and at most two for SVM.\<close>

definition vendor_t :: "ctype \<Rightarrow> ctype" where
  "vendor_t vmcb = CUnion
     [(''vmx'', CStruct False 1 [(''vmxon_region'', CAligned PAGE_BYTES vmcs_t), (''vmcs'', CAligned PAGE_BYTES vmcs_t)]),
      (''svm'', svm_part_t vmcb)]"

definition arch_linux_fields :: "(string \<times> ctype) list" where
  "arch_linux_fields =
     [(''linux_sp'', u64_t), (''linux_gdtr'', desc_table_reg_t), (''linux_idtr'', desc_table_reg_t),
      (''linux_reg'', CArray u64_t 6), (''linux_ip'', u64_t), (''linux_cr0'', u64_t), (''linux_cr3'', u64_t),
      (''linux_cr4'', u64_t), (''linux_cs'', segment_t), (''linux_ds'', segment_t), (''linux_es'', segment_t),
      (''linux_fs'', segment_t), (''linux_gs'', segment_t), (''linux_tss'', segment_t), (''linux_efer'', u64_t),
      (''pat'', u64_t), (''mtrr_def_type'', u64_t), (''pdpte'', CArray u64_t 4),
      (''completion'', CUnion [(''vtd_iq_completed'', u32_t), (''amd_iommu_sem'', u64_t)]),
      (''initialized'', bool_t), (''vendor_state'', CUnion [(''vmx_state'', int_t), (''svm_state'', int_t)]),
      (''num_clear_apic_irqs'', u32_t)]"

definition arch_percpu_fields :: "ctype \<Rightarrow> (string \<times> ctype) list" where
  "arch_percpu_fields vmcb = arch_linux_fields @ [(''vendor'', vendor_t vmcb)]"

definition stack_area_t :: ctype where
  "stack_area_t = CUnion
     [(''stack'', CArray u8_t PAGE_BYTES),
      (''regs_area'', CStruct False 1
         [(''__fill'', CArray u8_t (PAGE_BYTES - sizeof registers_t)), (''guest_regs'', registers_t)])]"

definition per_cpu_t :: "ctype \<Rightarrow> ctype" where
  "per_cpu_t vmcb = CStruct False PAGE_BYTES
     ([(''stack_area'', stack_area_t), (''pg_structs'', paging_structures_t)] @
      arch_percpu_fields vmcb @ [(''public'', public_per_cpu_t)])"

text \<open>A \<open>vmcb\<close> that fits its page, as the processor demands.\<close>

definition vmcb_ok :: "ctype \<Rightarrow> bool" where
  "vmcb_ok vmcb \<longleftrightarrow> ctype_ok vmcb \<and> sizeof vmcb \<le> PAGE_BYTES \<and> alignof vmcb \<le> PAGE_BYTES"

lemma alignof_svm:
  assumes "vmcb_ok v"
  shows "alignof (CAligned PAGE_BYTES v) = PAGE_BYTES" "round_up (sizeof v) PAGE_BYTES \<le> PAGE_BYTES"
proof -
  show "alignof (CAligned PAGE_BYTES v) = PAGE_BYTES"
    using assms by (simp add: vmcb_ok_def)
  have "sizeof v + PAGE_BYTES - 1 < 2 * PAGE_BYTES"
    using assms by (simp add: vmcb_ok_def)
  then have "(sizeof v + PAGE_BYTES - 1) div PAGE_BYTES < 2"
    by (simp add: div_less_iff_less_mult)
  then have "(sizeof v + PAGE_BYTES - 1) div PAGE_BYTES \<le> 1"
    by simp
  then show "round_up (sizeof v) PAGE_BYTES \<le> PAGE_BYTES"
    unfolding round_up_def using mult_le_mono1 by fastforce
qed

lemma svm_part:
  assumes "vmcb_ok v"
  shows "sizeof (svm_part_t v) \<le> 2 * PAGE_BYTES" "alignof (svm_part_t v) = PAGE_BYTES"
proof -
  let ?R = "round_up (sizeof v) PAGE_BYTES"
  show al: "alignof (svm_part_t v) = PAGE_BYTES"
    using assms by (simp add: svm_part_t_def vmcb_ok_def)
  have "PAGE_BYTES dvd ?R + PAGE_BYTES"
    using round_up_dvd [of PAGE_BYTES "sizeof v"] by simp
  then have "round_up (?R + PAGE_BYTES) PAGE_BYTES = ?R + PAGE_BYTES"
    by (intro round_up_self) simp_all
  moreover have "round_up 0 (max PAGE_BYTES (alignof v)) = 0"
    by (simp add: round_up_def div_eq_0_iff max_def)
  ultimately have "sizeof (svm_part_t v) = ?R + PAGE_BYTES"
    using al by (simp add: svm_part_t_def place_def)
  then show "sizeof (svm_part_t v) \<le> 2 * PAGE_BYTES"
    using alignof_svm(2) [OF assms] by simp
qed

lemma vendor:
  assumes "vmcb_ok v"
  shows "sizeof (vendor_t v) = 2 * PAGE_BYTES" "alignof (vendor_t v) = PAGE_BYTES"
proof -
  have vmx: "sizeof (CStruct False 1 [(''vmxon_region'', CAligned PAGE_BYTES vmcs_t), (''vmcs'', CAligned PAGE_BYTES vmcs_t)]) = 2 * PAGE_BYTES"
    "alignof (CStruct False 1 [(''vmxon_region'', CAligned PAGE_BYTES vmcs_t), (''vmcs'', CAligned PAGE_BYTES vmcs_t)]) = PAGE_BYTES"
    by (simp_all add: vmcs_t_def place_def round_up_def)
  show al: "alignof (vendor_t v) = PAGE_BYTES"
    unfolding vendor_t_def alignof.simps(5) alignof_members.simps vmx(2) svm_part(2) [OF assms] by simp
  have "sizeof (vendor_t v) = round_up (2 * PAGE_BYTES) PAGE_BYTES"
    using svm_part(1) [OF assms] al unfolding vendor_t_def sizeof.simps(5) alignof.simps(5) union_size.simps vmx(1)
    by (simp add: max_def)
  then show "sizeof (vendor_t v) = 2 * PAGE_BYTES"
    by (simp add: round_up_def)
qed

lemma public_per_cpu: "sizeof public_per_cpu_t = 2 * PAGE_BYTES" "alignof public_per_cpu_t = PAGE_BYTES"
  by (simp_all add: public_per_cpu_t_def arch_public_percpu_fields_def spinlock_t_def place_def round_up_def numeral_2_eq_2 [symmetric])

lemma struct_end_append: "struct_end packed ofs (fs @ gs) = struct_end packed (struct_end packed ofs fs) gs"
  by (induction fs arbitrary: ofs) auto

lemma member_offsets_append:
  "member_offsets packed ofs (fs @ gs) = member_offsets packed ofs fs @ member_offsets packed (struct_end packed ofs fs) gs"
  by (induction fs arbitrary: ofs) auto

lemma alignof_members_ge: "1 \<le> alignof_members fs"
  by (induction fs) auto

lemma alignof_members_append: "alignof_members (fs @ gs) = max (alignof_members fs) (alignof_members gs)"
  using alignof_members_ge [of gs] by (induction fs) auto

text \<open>The members in front of the vendor's pages.\<close>

definition per_cpu_head :: "(string \<times> ctype) list" where
  "per_cpu_head = [(''stack_area'', stack_area_t), (''pg_structs'', paging_structures_t)] @ arch_linux_fields"

lemma per_cpu_head:
  "struct_end False 0 per_cpu_head = 4452" "alignof_members per_cpu_head = 8"
  "map_of (member_offsets False 0 per_cpu_head) ''linux_sp'' = Some (4120, u64_t)"
  "map_of (member_offsets False 0 per_cpu_head) ''stack_area'' = Some (0, stack_area_t)"
  "map_of (member_offsets False 0 per_cpu_head) ''linux_reg'' = Some (4152, CArray u64_t 6)"
  "map_of (member_offsets False 0 per_cpu_head) ''vendor'' = None"
  "map_of (member_offsets False 0 per_cpu_head) ''public'' = None"
  by (simp_all add: per_cpu_head_def stack_area_t_def registers_t_def paging_structures_t_def arch_linux_fields_def
      desc_table_reg_t_def segment_t_def place_def round_up_def numeral_2_eq_2 [symmetric])

lemma per_cpu_tail:
  assumes "vmcb_ok v"
  shows "members (per_cpu_t v) = member_offsets False 0 per_cpu_head @
      [(''vendor'', 2 * PAGE_BYTES, vendor_t v), (''public'', 4 * PAGE_BYTES, public_per_cpu_t)]"
    "sizeof (per_cpu_t v) = 6 * PAGE_BYTES" "alignof (per_cpu_t v) = PAGE_BYTES"
proof -
  have fields: "per_cpu_t v = CStruct False PAGE_BYTES (per_cpu_head @ [(''vendor'', vendor_t v), (''public'', public_per_cpu_t)])"
    by (simp add: per_cpu_t_def per_cpu_head_def arch_percpu_fields_def)
  have tail: "place False 4452 (vendor_t v) = 2 * PAGE_BYTES"
    "place False (2 * PAGE_BYTES + sizeof (vendor_t v)) public_per_cpu_t = 4 * PAGE_BYTES"
    by (simp_all add: place_def vendor [OF assms] public_per_cpu round_up_def)
  show al: "alignof (per_cpu_t v) = PAGE_BYTES"
    unfolding fields by (simp add: alignof_members_append per_cpu_head vendor [OF assms] public_per_cpu)
  show "members (per_cpu_t v) = member_offsets False 0 per_cpu_head @
      [(''vendor'', 2 * PAGE_BYTES, vendor_t v), (''public'', 4 * PAGE_BYTES, public_per_cpu_t)]"
    unfolding fields using tail by (simp add: member_offsets_append per_cpu_head)
  have "sizeof (per_cpu_t v) = round_up (4 * PAGE_BYTES + 2 * PAGE_BYTES) PAGE_BYTES"
    using tail al unfolding fields sizeof.simps by (simp add: struct_end_append per_cpu_head public_per_cpu)
  then show "sizeof (per_cpu_t v) = 6 * PAGE_BYTES"
    by (simp add: round_up_def)
qed

text \<open>The registers of the structure are, by name, the elements of its array.\<close>

definition register_names :: "string list" where
  "register_names = [''r15'', ''r14'', ''r13'', ''r12'', ''r11'', ''r10'', ''r9'', ''r8'', ''rdi'', ''rsi'', ''rbp'', ''unused'',
     ''rbx'', ''rdx'', ''rcx'', ''rax'']"

lemma public_layout:
  "offsetof public_per_cpu_t [''cpu_id''] = Some (PAGE_BYTES, u32_t)"
  "offsetof public_per_cpu_t [''target''] = Some (PAGE_BYTES + 8, pointer_t)"
  by (simp_all add: public_per_cpu_t_def place_def round_up_def)

lemma registers_layout:
  "sizeof registers_t = 128"
  "map (\<lambda>r. offsetof registers_t [''named'', r]) register_names = map (\<lambda>i. Some (8 * i, u64_t)) [0..<16]"
  by (simp_all add: registers_t_def register_names_def place_def round_up_def upt_rec)

lemma per_cpu_layout_facts:
  assumes "vmcb_ok vmcb"
  shows "sizeof (per_cpu_t vmcb) = 6 * PAGE_BYTES \<and>
    offsetof (per_cpu_t vmcb) [''stack_area'', ''stack''] = Some (0, CArray u8_t PAGE_BYTES) \<and>
    map (\<lambda>r. offsetof (per_cpu_t vmcb) [''stack_area'', ''regs_area'', ''guest_regs'', ''named'', r]) register_names =
      map (\<lambda>i. Some (PAGE_BYTES - 16 * 8 + 8 * i, u64_t)) [0..<16] \<and>
    offsetof (per_cpu_t vmcb) [''linux_sp''] = Some (4120, u64_t) \<and>
    offsetof (per_cpu_t vmcb) [''linux_reg''] = Some (4152, CArray u64_t 6) \<and>
    offsetof (per_cpu_t vmcb) [''vendor'', ''vmx'', ''vmxon_region''] = Some (2 * PAGE_BYTES, CAligned PAGE_BYTES vmcs_t) \<and>
    offsetof (per_cpu_t vmcb) [''vendor'', ''vmx'', ''vmcs''] = Some (3 * PAGE_BYTES, CAligned PAGE_BYTES vmcs_t) \<and>
    sizeof vmcs_t = PAGE_BYTES \<and>
    offsetof (per_cpu_t vmcb) [''public''] = Some (4 * PAGE_BYTES, public_per_cpu_t) \<and>
    offsetof (per_cpu_t vmcb) [''public'', ''root_table_page''] = Some (4 * PAGE_BYTES, CAligned PAGE_BYTES (CArray u8_t PAGE_BYTES))"
proof -
  note m = per_cpu_tail(1) [OF assms]
  have top: "map_of (members (per_cpu_t vmcb)) ''stack_area'' = Some (0, stack_area_t)"
    "map_of (members (per_cpu_t vmcb)) ''linux_sp'' = Some (4120, u64_t)"
    "map_of (members (per_cpu_t vmcb)) ''linux_reg'' = Some (4152, CArray u64_t 6)"
    "map_of (members (per_cpu_t vmcb)) ''vendor'' = Some (2 * PAGE_BYTES, vendor_t vmcb)"
    "map_of (members (per_cpu_t vmcb)) ''public'' = Some (4 * PAGE_BYTES, public_per_cpu_t)"
    unfolding m map_of_append by (simp_all add: per_cpu_head map_add_def)
  have "offsetof stack_area_t [''stack''] = Some (0, CArray u8_t PAGE_BYTES)"
    "map_of (members stack_area_t) ''regs_area'' = Some (0, CStruct False 1
       [(''__fill'', CArray u8_t (PAGE_BYTES - sizeof registers_t)), (''guest_regs'', registers_t)])"
    "alignof registers_t = 8"
    by (simp_all add: stack_area_t_def registers_t_def)
  note stack = this
  have regs: "offsetof (per_cpu_t vmcb) [''stack_area'', ''regs_area'', ''guest_regs'', ''named'', r] =
      map_option (\<lambda>(o2, t). (PAGE_BYTES - 16 * 8 + o2, t)) (offsetof registers_t [''named'', r])" for r
    using registers_layout(1) stack(3)
    by (simp add: top stack(2) place_def round_up_def option.map_comp comp_def case_prod_unfold
        cong: option.case_cong split: option.splits)
  have "map (\<lambda>r. offsetof (per_cpu_t vmcb) [''stack_area'', ''regs_area'', ''guest_regs'', ''named'', r]) register_names =
      map (\<lambda>i. Some (PAGE_BYTES - 16 * 8 + 8 * i, u64_t)) [0..<16]"
    unfolding regs using arg_cong [OF registers_layout(2), of "map (map_option (\<lambda>(o2, t). (PAGE_BYTES - 16 * 8 + o2, t)))"]
    by (simp only: map_map comp_def option.map prod.case)
  moreover have "offsetof (vendor_t vmcb) [''vmx'', ''vmxon_region''] = Some (0, CAligned PAGE_BYTES vmcs_t)"
    "offsetof (vendor_t vmcb) [''vmx'', ''vmcs''] = Some (PAGE_BYTES, CAligned PAGE_BYTES vmcs_t)"
    "sizeof vmcs_t = PAGE_BYTES"
    by (simp_all add: vendor_t_def vmcs_t_def place_def round_up_def)
  moreover have "offsetof public_per_cpu_t [''root_table_page''] = Some (0, CAligned PAGE_BYTES (CArray u8_t PAGE_BYTES))"
    by (simp add: public_per_cpu_t_def place_def round_up_def)
  ultimately show ?thesis
    using per_cpu_tail(2) [OF assms] stack(1) by (simp add: top)
qed

text \<open>C22. The layout of \<open>struct per_cpu\<close> that the assembly code and the processor rely on, whatever
  \<open>struct vmcb\<close> is, as long as it fits its page: the stack is at the start and a page long, and the
  registers that \<open>vmx_vmexit\<close> pushes are its last 16 quadwords, in the order of the structure; VMXON region,
  VMCS and the public part with its page table are page-aligned pages; regions follow each other at a
  multiple of the page size. The offsets that the build generates for the assembly are these.\<close>

theorem per_cpu_layout:
  assumes "vmcb_ok vmcb"
  shows "sizeof (per_cpu_t vmcb) = 6 * PAGE_BYTES \<and>
    offsetof (per_cpu_t vmcb) [''stack_area'', ''stack''] = Some (0, CArray u8_t PAGE_BYTES) \<and>
    map (\<lambda>r. offsetof (per_cpu_t vmcb) [''stack_area'', ''regs_area'', ''guest_regs'', ''named'', r]) register_names =
      map (\<lambda>i. Some (PAGE_BYTES - 16 * 8 + 8 * i, u64_t)) [0..<16] \<and>
    offsetof (per_cpu_t vmcb) [''linux_sp''] = Some (4120, u64_t) \<and>
    offsetof (per_cpu_t vmcb) [''linux_reg''] = Some (4152, CArray u64_t 6) \<and>
    offsetof (per_cpu_t vmcb) [''vendor'', ''vmx'', ''vmxon_region''] = Some (2 * PAGE_BYTES, CAligned PAGE_BYTES vmcs_t) \<and>
    offsetof (per_cpu_t vmcb) [''vendor'', ''vmx'', ''vmcs''] = Some (3 * PAGE_BYTES, CAligned PAGE_BYTES vmcs_t) \<and>
    sizeof vmcs_t = PAGE_BYTES \<and>
    offsetof (per_cpu_t vmcb) [''public''] = Some (4 * PAGE_BYTES, public_per_cpu_t) \<and>
    offsetof (per_cpu_t vmcb) [''public'', ''root_table_page''] = Some (4 * PAGE_BYTES, CAligned PAGE_BYTES (CArray u8_t PAGE_BYTES))"
  by (rule per_cpu_layout_facts [OF assms])

definition demo_vmcb :: ctype where
  "demo_vmcb = CArray u8_t PAGE_BYTES"

lemma demo_vmcb_ok: "vmcb_ok demo_vmcb"
  by (simp add: vmcb_ok_def demo_vmcb_def)

theorem per_cpu_layout_witness:
  "offsetof (per_cpu_t demo_vmcb) [''vendor'', ''vmx'', ''vmcs''] = Some (0x3000, CAligned PAGE_BYTES vmcs_t)"
  using per_cpu_layout [OF demo_vmcb_ok] by simp

subsection \<open>Formats shared with Linux, its tools and the targets\<close>

abbreviation (input) SPY_TARGET_NAME_MAXLEN :: nat where "SPY_TARGET_NAME_MAXLEN \<equiv> 31"
abbreviation (input) SPY_TARGET_ID_NAMELEN :: nat where "SPY_TARGET_ID_NAMELEN \<equiv> 32"
abbreviation (input) SPY_TARGET_DESC_SIGNATURE :: string where "SPY_TARGET_DESC_SIGNATURE \<equiv> ''JHTARGET''"
abbreviation (input) COMM_REGION_MAGIC :: string where "COMM_REGION_MAGIC \<equiv> ''SPYCOMM''"

definition spy_target_desc_t :: ctype where
  "spy_target_desc_t = CStruct True 1
     [(''signature'', CArray u8_t 6), (''revision'', u16_t), (''name'', CArray u8_t (SPY_TARGET_NAME_MAXLEN + 1)),
      (''id'', u32_t), (''flags'', u32_t), (''cpu_set_size'', u32_t), (''num_memory_regions'', u32_t),
      (''num_cache_regions'', u32_t), (''cpu_reset_address'', u64_t), (''msg_reply_timeout'', u64_t)]"

definition spy_cache_t :: ctype where
  "spy_cache_t = CStruct True 1
     [(''start'', u32_t), (''size'', u32_t), (''type'', u8_t), (''padding'', u8_t), (''flags'', u16_t)]"

definition spy_irqchip_t :: ctype where
  "spy_irqchip_t = CStruct True 1
     [(''address'', u64_t), (''id'', u32_t), (''pin_base'', u32_t), (''pin_bitmap'', CArray u32_t 4)]"

definition spy_memory_t :: ctype where
  "spy_memory_t = CStruct True 1
     [(''phys_start'', u64_t), (''virt_start'', u64_t), (''size'', u64_t), (''flags'', u64_t)]"

definition spy_system_t :: ctype where
  "spy_system_t = CStruct True 1
     [(''signature'', CArray u8_t 6), (''revision'', u16_t), (''flags'', u32_t), (''hypervisor_memory'', spy_memory_t),
      (''root_target'', spy_target_desc_t)]"

definition spy_target_create_t :: ctype where
  "spy_target_create_t = CStruct False 1 [(''config_address'', u64_t), (''config_size'', u32_t), (''padding'', u32_t)]"

definition spy_preload_image_t :: ctype where
  "spy_preload_image_t = CStruct False 1 [(''source_address'', u64_t), (''size'', u64_t), (''target_address'', u64_t)]"

definition spy_target_id_t :: ctype where
  "spy_target_id_t = CStruct False 1 [(''id'', int_t), (''name'', CArray u8_t SPY_TARGET_ID_NAMELEN)]"

definition spy_target_load_t :: ctype where
  "spy_target_load_t = CStruct False 1
     [(''target_id'', spy_target_id_t), (''num_preload_images'', u32_t), (''padding'', u32_t),
      (''image'', spy_preload_image_t)]"

text \<open>The communication region; \<open>struct spy_console\<close> is declared in a header that is not in the repository.\<close>

definition comm_region_generic_header :: "ctype \<Rightarrow> (string \<times> ctype) list" where
  "comm_region_generic_header console =
     [(''signature'', CArray u8_t 6), (''revision'', u16_t), (''target_state'', u32_t), (''msg_to_target'', u32_t),
      (''reply_from_target'', u32_t), (''flags'', u32_t), (''console'', console), (''pci_mmconfig_base'', u64_t)]"

definition spy_comm_region_t :: "ctype \<Rightarrow> ctype" where
  "spy_comm_region_t console = CStruct True 1
     (comm_region_generic_header console @ [(''pm_timer_address'', u16_t), (''num_cpus'', u16_t), (''tsc_khz'', u32_t),
      (''apic_khz'', u32_t)])"

text \<open>A packed structure is its members, one behind the other.\<close>

lemma struct_end_packed: "struct_end True ofs fs = ofs + sum_list (map (\<lambda>(f, t). sizeof t) fs)"
  by (induction fs arbitrary: ofs) (auto simp: place_def)

lemma packed_layout:
  "sizeof (CStruct True 1 fs) = sum_list (map (\<lambda>(f, t). sizeof t) fs)"
  "map (\<lambda>(f, o1, t). o1) (members (CStruct True 1 fs)) =
     map (\<lambda>i. sum_list (map (\<lambda>(f, t). sizeof t) (take i fs))) [0..<length fs]"
proof -
  show "sizeof (CStruct True 1 fs) = sum_list (map (\<lambda>(f, t). sizeof t) fs)"
    by (simp add: struct_end_packed round_up_def)
  have "map (\<lambda>(f, o1, t). o1) (member_offsets True ofs fs) =
      map (\<lambda>i. ofs + sum_list (map (\<lambda>(f, t). sizeof t) (take i fs))) [0..<length fs]" for ofs
  proof (induction fs arbitrary: ofs)
    case (Cons p fs)
    then show ?case
      by (cases p) (simp add: place_def upt_conv_Cons map_Suc_upt [symmetric] comp_def add.assoc del: upt_Suc)
  qed simp
  from this [of 0] show "map (\<lambda>(f, o1, t). o1) (members (CStruct True 1 fs)) =
     map (\<lambda>i. sum_list (map (\<lambda>(f, t). sizeof t) (take i fs))) [0..<length fs]"
    by simp
qed

lemmas format_defs = spy_target_desc_t_def spy_cache_t_def spy_irqchip_t_def spy_memory_t_def spy_system_t_def
  spy_target_create_t_def spy_preload_image_t_def spy_target_id_t_def spy_target_load_t_def

lemma format_sizes:
  "sizeof spy_target_desc_t = 76" "sizeof spy_cache_t = 12" "sizeof spy_irqchip_t = 32" "sizeof spy_memory_t = 32"
  "sizeof spy_system_t = 120" "sizeof spy_target_create_t = 16" "sizeof spy_preload_image_t = 24"
  "sizeof spy_target_id_t = 36" "sizeof spy_target_load_t = 72"
  by (simp_all add: format_defs place_def round_up_def numeral_2_eq_2 [symmetric])

lemma desc_table_reg_format: "sizeof desc_table_reg_t = 10" "offsetof desc_table_reg_t [''base''] = Some (2, u64_t)"
  by (simp_all add: desc_table_reg_t_def place_def round_up_def numeral_2_eq_2 [symmetric])

lemma comm_region_format:
  "offsetof (spy_comm_region_t console) [''msg_to_target''] = Some (12, u32_t)"
  "offsetof (spy_comm_region_t console) [''reply_from_target''] = Some (16, u32_t)"
  "sizeof (spy_comm_region_t console) = sizeof console + 44"
  by (simp_all add: spy_comm_region_t_def comm_region_generic_header_def place_def round_up_def numeral_2_eq_2 [symmetric])

text \<open>The signatures are longer than the fields that are to hold them.\<close>

lemma signatures_do_not_fit:
  "offsetof spy_target_desc_t [''signature''] = Some (0, CArray u8_t 6)" "length SPY_TARGET_DESC_SIGNATURE = 8"
  "offsetof (spy_comm_region_t console) [''signature''] = Some (0, CArray u8_t 6)" "length COMM_REGION_MAGIC = 7"
  by (simp_all add: spy_target_desc_t_def spy_comm_region_t_def comm_region_generic_header_def place_def)

subsection \<open>Access to members\<close>

text \<open>Memory is a function from addresses to bytes; scalars are stored with the low byte first.\<close>

fun load_scalar :: "(nat \<Rightarrow> u8) \<Rightarrow> nat \<Rightarrow> nat \<Rightarrow> nat" where
  "load_scalar mm a 0 = 0"
| "load_scalar mm a (Suc n) = unat (mm a) + 256 * load_scalar mm (Suc a) n"

fun store_scalar :: "nat \<Rightarrow> nat \<Rightarrow> nat \<Rightarrow> (nat \<Rightarrow> u8) \<Rightarrow> nat \<Rightarrow> u8" where
  "store_scalar a 0 v mm = mm"
| "store_scalar a (Suc n) v mm = store_scalar (Suc a) n (v div 256) (mm(a := of_nat v))"

lemma store_elsewhere: "x < a \<or> a + n \<le> x \<Longrightarrow> store_scalar a n v mm x = mm x"
  by (induction a n v mm rule: store_scalar.induct) auto

lemma load_cong: "(\<And>x. a \<le> x \<Longrightarrow> x < a + n \<Longrightarrow> mm x = mm' x) \<Longrightarrow> load_scalar mm a n = load_scalar mm' a n"
  by (induction mm a n rule: load_scalar.induct) (auto intro!: arg_cong2 [of _ _ _ _ "(+)"])

lemma load_store_other: "b + k \<le> a \<or> a + n \<le> b \<Longrightarrow> load_scalar (store_scalar a n v mm) b k = load_scalar mm b k"
  by (intro load_cong store_elsewhere) auto

lemma load_store_same: "load_scalar (store_scalar a n v mm) a n = v mod 256 ^ n"
proof (induction a n v mm rule: store_scalar.induct)
  case (2 a n v mm)
  have "store_scalar (Suc a) n (v div 256) (mm(a := of_nat v)) a = of_nat v"
    by (simp add: store_elsewhere)
  then show ?case
    using 2 by (simp add: unsigned_of_nat take_bit_eq_mod mod_mult2_eq del: fun_upd_apply)
qed simp

text \<open>Members of a structure are independent variables: a store to one scalar member, at the place where
  the layout rules put it, is what a load of that member reads back, cut to its size, and changes no
  other scalar member - for packed structures and others, wherever the structure lies.\<close>

lemma member_store_load:
  assumes "ctype_ok (CStruct packed a fs)" "i < length fs" "j < length fs"
    and "members (CStruct packed a fs) ! i = (f, o1, CScalar n)" "members (CStruct packed a fs) ! j = (g, o2, CScalar k)"
  shows "load_scalar (store_scalar (base + o1) n v mm) (base + o2) k =
    (if i = j then v mod 256 ^ n else load_scalar mm (base + o2) k)"
proof -
  have ok: "members_ok fs"
    using assms(1) by simp
  consider "i = j" | "i < j" | "j < i"
    by linarith
  then show ?thesis
  proof cases
    case 1
    then show ?thesis
      using assms(4,5) load_store_same by simp
  next
    case 2
    then have "o1 + n \<le> o2"
      using member_offsets_apart [OF ok 2 assms(3), of packed 0] assms(4,5) by simp
    then show ?thesis
      using 2 by (simp add: load_store_other)
  next
    case 3
    then have "o2 + k \<le> o1"
      using member_offsets_apart [OF ok 3 assms(2), of packed 0] assms(4,5) by simp
    then show ?thesis
      using 3 by (simp add: load_store_other)
  qed
qed

subsection \<open>All structures\<close>

definition program_structures :: "ctype \<Rightarrow> ctype \<Rightarrow> ctype list" where
  "program_structures vmcb console =
     [desc_table_reg_t, segment_t, spinlock_t, paging_structures_t, vmcs_t, public_per_cpu_t, svm_part_t vmcb,
      per_cpu_t vmcb, spy_target_desc_t, spy_cache_t, spy_irqchip_t, spy_memory_t, spy_system_t,
      spy_target_create_t, spy_preload_image_t, spy_target_id_t, spy_target_load_t, spy_comm_region_t console]"

lemma members_ok_append: "members_ok (fs @ gs) \<longleftrightarrow> members_ok fs \<and> members_ok gs"
  by (induction fs) auto

lemma program_structures_ok:
  assumes "ctype_ok vmcb" "ctype_ok console" "S \<in> set (program_structures vmcb console)"
  shows "ctype_ok S"
  using assms by (auto simp: program_structures_def format_defs desc_table_reg_t_def segment_t_def spinlock_t_def
      paging_structures_t_def vmcs_t_def public_per_cpu_t_def arch_public_percpu_fields_def svm_part_t_def per_cpu_t_def
      stack_area_t_def registers_t_def arch_percpu_fields_def arch_linux_fields_def vendor_t_def spy_comm_region_t_def
      comm_region_generic_header_def members_ok_append)

text \<open>In no structure of the program do two members overlap: every member lies within the
  structure, behind the one before it, at a multiple of its alignment unless the structure is packed; the
  size of the structure is a multiple of its own alignment, so that the elements of an array of structures
  are aligned as well; and a store to a scalar member leaves every other scalar member as it was.\<close>

theorem struct_layout_sound:
  assumes "ctype_ok vmcb" "ctype_ok console" "CStruct packed a fs \<in> set (program_structures vmcb console)"
    and "j < length fs" "members (CStruct packed a fs) ! j = (g, o2, u)"
  shows "let S = CStruct packed a fs in
    o2 + sizeof u \<le> sizeof S \<and> (packed \<or> alignof u dvd o2) \<and> alignof S dvd sizeof S \<and>
    (\<forall>i f o1 t. i < j \<and> members S ! i = (f, o1, t) \<longrightarrow> o1 + sizeof t \<le> o2) \<and>
    (\<forall>i f o1 n k v base mm. i < length fs \<and> i \<noteq> j \<and> members S ! i = (f, o1, CScalar n) \<and> u = CScalar k \<longrightarrow>
       load_scalar (store_scalar (base + o1) n v mm) (base + o2) k = load_scalar mm (base + o2) k)"
proof -
  note ok = program_structures_ok [OF assms(1-3)]
  show ?thesis
    using struct_layout_rules [OF ok assms(4,5)] member_store_load [OF ok _ assms(4)] assms(5)
    unfolding Let_def by (intro conjI) auto
qed

text \<open>The last member of \<open>struct spy_target_load\<close>, behind four bytes of padding.\<close>

theorem struct_layout_sound_witness:
  "members spy_target_load_t ! 3 = (''image'', 48, spy_preload_image_t) \<and> 8 dvd (48 :: nat) \<and> 48 + 24 \<le> sizeof spy_target_load_t"
proof -
  let ?fs = "[(''target_id'', spy_target_id_t), (''num_preload_images'', u32_t), (''padding'', u32_t),
      (''image'', spy_preload_image_t)]"
  have at: "members (CStruct False 1 ?fs) ! 3 = (''image'', 48, spy_preload_image_t)"
    by (simp add: spy_target_id_t_def spy_preload_image_t_def place_def round_up_def)
  have "CStruct False 1 ?fs \<in> set (program_structures u8_t u8_t)"
    by (simp add: program_structures_def spy_target_load_t_def)
  from struct_layout_sound [OF _ _ this _ at] at show ?thesis
    by (simp add: Let_def spy_target_load_t_def spy_preload_image_t_def spy_target_id_t_def place_def round_up_def)
qed

subsection \<open>The formats, byte by byte\<close>



end
