(* ===== verification/Spy_Percpu.thy ===== *)
theory Spy_Percpu
  imports Spy_Paging Spy_Layout
begin

text \<open>
  The memory of a CPU: the regions of \<open>struct per_cpu\<close> in the page pool (\<open>spy/percpu.h\<close>, \<open>asm/percpu.h\<close>),
  their second, private mapping at \<open>LOCAL_CPU_BASE\<close>, and the stack switches between the two.
\<close>

subsection \<open>Layout and accessors\<close>

text \<open>
  Where the per-CPU regions are: the address of \<open>__page_pool\<close>, and the size and offsets that the build
  generates for the assembly code, which are those of \<open>per_cpu_t\<close>.
\<close>

record percpu_layout =
  page_pool :: u64
  sizeof_per_cpu :: u64
  PERCPU_LINUX_SP :: u64
  percpu_public_offset :: u64
  vmxon_region_offset :: u64
  vmcs_offset :: u64

definition spy_layout :: "u64 \<Rightarrow> percpu_layout" where
  "spy_layout pool =
     \<lparr>page_pool = pool, sizeof_per_cpu = 6 * PAGE_SIZE, PERCPU_LINUX_SP = 4120, percpu_public_offset = 4 * PAGE_SIZE,
      vmxon_region_offset = 2 * PAGE_SIZE, vmcs_offset = 3 * PAGE_SIZE\<rparr>"

lemma spy_layout_offsets:
  assumes "vmcb_ok vmcb"
  shows "unat (sizeof_per_cpu (spy_layout pool)) = sizeof (per_cpu_t vmcb)"
    "map_option fst (offsetof (per_cpu_t vmcb) [''linux_sp'']) = Some (unat (PERCPU_LINUX_SP (spy_layout pool)))"
    "map_option fst (offsetof (per_cpu_t vmcb) [''public'']) = Some (unat (percpu_public_offset (spy_layout pool)))"
    "map_option fst (offsetof (per_cpu_t vmcb) [''vendor'', ''vmx'', ''vmxon_region'']) =
      Some (unat (vmxon_region_offset (spy_layout pool)))"
    "map_option fst (offsetof (per_cpu_t vmcb) [''vendor'', ''vmx'', ''vmcs'']) = Some (unat (vmcs_offset (spy_layout pool)))"
  using per_cpu_layout_facts [OF assms] by (simp_all add: spy_layout_def)

abbreviation (input) STACK_SIZE :: u64 where "STACK_SIZE \<equiv> PAGE_SIZE"
abbreviation (input) TEMPORARY_MAPPING_BASE :: u64 where "TEMPORARY_MAPPING_BASE \<equiv> 0x0000008000000000"
abbreviation (input) NUM_TEMPORARY_PAGES :: u64 where "NUM_TEMPORARY_PAGES \<equiv> 16"

definition LOCAL_CPU_BASE :: u64 where
  "LOCAL_CPU_BASE = TEMPORARY_MAPPING_BASE + NUM_TEMPORARY_PAGES * PAGE_SIZE"

definition percpu_addr :: "percpu_layout \<Rightarrow> u32 \<Rightarrow> u64" where
  "percpu_addr l cpu = page_pool l + ucast cpu * sizeof_per_cpu l"

definition public_per_cpu :: "percpu_layout \<Rightarrow> u32 \<Rightarrow> u64" where
  "public_per_cpu l cpu = percpu_addr l cpu + percpu_public_offset l"

definition this_cpu_data :: u64 where
  "this_cpu_data = LOCAL_CPU_BASE"

definition this_cpu_public :: "percpu_layout \<Rightarrow> u64" where
  "this_cpu_public l = this_cpu_data + percpu_public_offset l"

text \<open>Reads of the public part of this CPU, at the offsets of \<open>cpu_id\<close> and \<open>target\<close>.\<close>

definition this_cpu_id :: "percpu_layout \<Rightarrow> (u64 \<Rightarrow> u32) \<Rightarrow> u32" where
  "this_cpu_id l ld32 = ld32 (this_cpu_public l + PAGE_SIZE)"

definition this_target :: "percpu_layout \<Rightarrow> (u64 \<Rightarrow> u64) \<Rightarrow> u64" where
  "this_target l ld64 = ld64 (this_cpu_public l + (PAGE_SIZE + 8))"

text \<open>The stack is the first field; the guest's registers are its last 16 quadwords.\<close>

definition PERCPU_STACK_END :: u64 where
  "PERCPU_STACK_END = STACK_SIZE"

definition guest_regs_offset :: u64 where
  "guest_regs_offset = STACK_SIZE - 16 * 8"

text \<open>
  The stack switches of \<open>arch_cpu_activate_vmm\<close>, to the private mapping, and of \<open>vcpu_handle_hypercall\<close>,
  back to the common one.
\<close>

definition to_private_stack :: "percpu_layout \<Rightarrow> u32 \<Rightarrow> u64 \<Rightarrow> u64" where
  "to_private_stack l cpu rsp = rsp + (LOCAL_CPU_BASE - percpu_addr l cpu)"

definition to_common_stack :: "percpu_layout \<Rightarrow> u32 \<Rightarrow> u64 \<Rightarrow> u64" where
  "to_common_stack l cpu rsp = rsp - (LOCAL_CPU_BASE - percpu_addr l cpu)"

subsection \<open>Per-CPU regions\<close>

lemma percpu_addr_unat:
  assumes "unat (page_pool l) + n * unat (sizeof_per_cpu l) \<le> 2 ^ 64" "c < n" "x < unat (sizeof_per_cpu l)" "n \<le> 2 ^ 32"
  shows "unat (percpu_addr l (of_nat c) + of_nat x) = unat (page_pool l) + c * unat (sizeof_per_cpu l) + x"
proof -
  have "(c + 1) * unat (sizeof_per_cpu l) \<le> n * unat (sizeof_per_cpu l)"
    using assms(2) by (intro mult_le_mono1) simp
  then have fits: "unat (page_pool l) + c * unat (sizeof_per_cpu l) + x < 2 ^ 64"
    using assms(1,3) by simp
  have "ucast (of_nat c :: u32) = (of_nat c :: u64)"
    using assms(2,4) by (simp add: word_unat_eq_iff unsigned_ucast_eq unsigned_of_nat take_bit_nat_eq_self)
  then have "percpu_addr l (of_nat c) + of_nat x =
      (of_nat (unat (page_pool l) + c * unat (sizeof_per_cpu l) + x) :: u64)"
    by (simp add: percpu_addr_def)
  then show ?thesis
    using fits by (simp add: unsigned_of_nat take_bit_nat_eq_self del: of_nat_add of_nat_mult)
qed

lemma private_stack:
  "to_private_stack l cpu (percpu_addr l cpu + x) = this_cpu_data + x"
  "to_common_stack l cpu (this_cpu_data + x) = percpu_addr l cpu + x"
  by (simp_all add: to_private_stack_def to_common_stack_def this_cpu_data_def)


text \<open>The per-CPU regions do not overlap: as long as the pool that holds them fits the address space,
  two offsets within the regions of two CPUs never give the same address.\<close>

theorem percpu_regions_disjoint:
  assumes "unat (page_pool l) + n * unat (sizeof_per_cpu l) \<le> 2 ^ 64" "n \<le> 2 ^ 32" "c < n" "c' < n"
    and "x < unat (sizeof_per_cpu l)" "x' < unat (sizeof_per_cpu l)"
    and "percpu_addr l (of_nat c) + of_nat x = percpu_addr l (of_nat c') + of_nat x'"
  shows "c = c' \<and> x = x'"
proof -
  let ?z = "unat (sizeof_per_cpu l)"
  have "c * ?z + x = c' * ?z + x'"
    using assms(7) percpu_addr_unat [OF assms(1,3,5,2)] percpu_addr_unat [OF assms(1,4,6,2)] by simp
  then have "(c * ?z + x) div ?z = (c' * ?z + x') div ?z" "(c * ?z + x) mod ?z = (c' * ?z + x') mod ?z"
    by simp_all
  then show ?thesis
    using assms(5,6) by simp
qed

text \<open>\<open>per_cpu(this_cpu_id())\<close> is this CPU's own region: on a CPU whose private mapping shows its region,
  and whose \<open>cpu_id\<close> holds its number, both ways to reach the CPU's data give the same memory, so that the
  structures whose physical addresses are computed from the common mapping are those that the CPU uses.\<close>

theorem this_cpu_region:
  fixes ld32 :: "u64 \<Rightarrow> u32"
  assumes "\<And>x. unat x < unat (sizeof_per_cpu (spy_layout pool)) \<Longrightarrow>
      ld32 (this_cpu_data + x) = ld32 (percpu_addr (spy_layout pool) c + x)"
    and "ld32 (public_per_cpu (spy_layout pool) c + PAGE_SIZE) = c"
    and "unat x < unat (sizeof_per_cpu (spy_layout pool))"
  shows "this_cpu_id (spy_layout pool) ld32 = c \<and>
    ld32 (percpu_addr (spy_layout pool) (this_cpu_id (spy_layout pool) ld32) + x) = ld32 (this_cpu_data + x)"
proof -
  have "ld32 (this_cpu_data + 5 * PAGE_SIZE) = ld32 (percpu_addr (spy_layout pool) c + 5 * PAGE_SIZE)"
    by (rule assms(1)) (simp add: spy_layout_def)
  then have "this_cpu_id (spy_layout pool) ld32 = c"
    using assms(2) by (simp add: this_cpu_id_def this_cpu_public_def public_per_cpu_def spy_layout_def add.assoc)
  then show ?thesis
    using assms(1,3) by simp
qed

subsection \<open>Examples\<close>

definition demo_layout :: percpu_layout where
  "demo_layout = spy_layout 0xfffffff0f0100000"

theorem percpu_regions_disjoint_witness:
  "percpu_addr demo_layout (of_nat 3) + of_nat 0x5fff \<noteq> percpu_addr demo_layout (of_nat 4) + of_nat 0"
proof
  assume "percpu_addr demo_layout (of_nat 3) + of_nat 0x5fff = percpu_addr demo_layout (of_nat 4) + of_nat 0"
  from percpu_regions_disjoint [OF _ _ _ _ _ _ this, of 16] show False
    by (simp add: demo_layout_def spy_layout_def)
qed

text \<open>A memory in which the private mapping is that of CPU 3.\<close>

definition demo_ld32 :: "u64 \<Rightarrow> u32" where
  "demo_ld32 a = (if a = this_cpu_data + 0x5000 \<or> a = percpu_addr demo_layout 3 + 0x5000 then 3 else 0)"

theorem this_cpu_region_witness: "this_cpu_id demo_layout demo_ld32 = 3"
proof -
  have "demo_ld32 (this_cpu_data + x) = demo_ld32 (percpu_addr demo_layout 3 + x)"
    if "unat x < unat (sizeof_per_cpu demo_layout)" for x
  proof -
    have "unat x < 0x6000"
      using that by (simp add: demo_layout_def spy_layout_def)
    moreover have "x = percpu_addr demo_layout 3 + 0x5000 - this_cpu_data" if "this_cpu_data + x = percpu_addr demo_layout 3 + 0x5000"
      using that by (metis add_diff_cancel_left')
    moreover have "x = this_cpu_data + 0x5000 - percpu_addr demo_layout 3" if "percpu_addr demo_layout 3 + x = this_cpu_data + 0x5000"
      using that by (metis add_diff_cancel_left')
    moreover have "0x6000 \<le> unat (percpu_addr demo_layout 3 + 0x5000 - this_cpu_data)"
      "0x6000 \<le> unat (this_cpu_data + 0x5000 - percpu_addr demo_layout 3)"
      by (simp_all add: demo_layout_def spy_layout_def percpu_addr_def this_cpu_data_def LOCAL_CPU_BASE_def)
    ultimately have "this_cpu_data + x \<noteq> percpu_addr demo_layout 3 + 0x5000" "percpu_addr demo_layout 3 + x \<noteq> this_cpu_data + 0x5000"
      by (metis not_le)+
    then show ?thesis
      by (simp add: demo_ld32_def)
  qed
  moreover have "demo_ld32 (public_per_cpu demo_layout 3 + PAGE_SIZE) = 3"
    by (simp add: demo_ld32_def public_per_cpu_def demo_layout_def spy_layout_def)
  ultimately show ?thesis
    using this_cpu_region [of "0xfffffff0f0100000" demo_ld32 3 0, folded demo_layout_def]
    by (simp add: demo_layout_def spy_layout_def)
qed

end
