(* ===== verification/Spy_Vmx_Ops.thy ===== *)
theory Spy_Vmx_Ops
  imports Spy_Vmcs Spy_Percpu
begin

text \<open>
  The VMX instructions behind \<open>vmxon\<close>, \<open>vmcs_clear\<close> and \<open>vmcs_load\<close> of \<open>vmx.c\<close>, on a processor as the
  architecture describes it: the VMXON pointer, the current VMCS and the control registers. \<open>Spy_Vmcs\<close>
  takes as a parameter whether these functions succeed; here the parameter is what the processor answers
  to the addresses and revision words that the code gives it.
\<close>

subsection \<open>The processor\<close>

text \<open>\<open>None\<close> for the VMXON pointer: not in VMX operation.\<close>

record vmx_chip =
  chip_vmxon :: "u64 option"
  chip_vmcs :: "u64 option"
  chip_cr0 :: u64
  chip_cr4 :: u64
  chip_feature_control :: u64

text \<open>\<open>phys_bits\<close> is the width of a physical address, \<open>first_word\<close> the first word of the region at an address.\<close>

definition region_address_ok :: "nat \<Rightarrow> u64 \<Rightarrow> bool" where
  "region_address_ok phys_bits a \<longleftrightarrow> a AND PAGE_OFFS_MASK = 0 \<and> unat a < 2 ^ phys_bits"

definition fixed_bits_ok :: "u64 \<Rightarrow> u64 \<Rightarrow> u64 \<Rightarrow> bool" where
  "fixed_bits_ok fixed0 fixed1 v \<longleftrightarrow> fixed0 AND NOT v = 0 \<and> v AND NOT fixed1 = 0"

definition revision_id :: "vmx_env \<Rightarrow> u32" where
  "revision_id env = take_bit 31 (ucast (rdmsr env MSR_IA32_VMX_BASIC))"

text \<open>
  The instructions; \<open>None\<close> is an exception (invalid opcode or general protection), the boolean whether
  neither the carry nor the zero flag is set, which is what \<open>seta\<close> reads.
\<close>

definition insn_vmxon :: "vmx_env \<Rightarrow> nat \<Rightarrow> (u64 \<Rightarrow> u32) \<Rightarrow> u64 \<Rightarrow> vmx_chip \<Rightarrow> (bool \<times> vmx_chip) option" where
  "insn_vmxon env phys_bits first_word a chip =
     (if chip_cr4 chip AND X86_CR4_VMXE = 0 \<or> chip_cr0 chip AND X86_CR0_PE = 0 then None
      else if chip_vmxon chip \<noteq> None then Some (False, chip)
      else if \<not> fixed_bits_ok (rdmsr env MSR_IA32_VMX_CR0_FIXED0) (rdmsr env MSR_IA32_VMX_CR0_FIXED1) (chip_cr0 chip) \<or>
              \<not> fixed_bits_ok (rdmsr env MSR_IA32_VMX_CR4_FIXED0) (rdmsr env MSR_IA32_VMX_CR4_FIXED1) (chip_cr4 chip) \<or>
              \<not> bit (chip_feature_control chip) 0 \<or> \<not> bit (chip_feature_control chip) 2 then None
      else if \<not> region_address_ok phys_bits a \<or> first_word a \<noteq> revision_id env then Some (False, chip)
      else Some (True, chip\<lparr>chip_vmxon := Some a, chip_vmcs := None\<rparr>))"

definition insn_vmclear :: "nat \<Rightarrow> u64 \<Rightarrow> vmx_chip \<Rightarrow> (bool \<times> vmx_chip) option" where
  "insn_vmclear phys_bits a chip =
     (if chip_vmxon chip = None then None
      else if \<not> region_address_ok phys_bits a \<or> chip_vmxon chip = Some a then Some (False, chip)
      else Some (True, if chip_vmcs chip = Some a then chip\<lparr>chip_vmcs := None\<rparr> else chip))"

definition insn_vmptrld :: "vmx_env \<Rightarrow> nat \<Rightarrow> (u64 \<Rightarrow> u32) \<Rightarrow> u64 \<Rightarrow> vmx_chip \<Rightarrow> (bool \<times> vmx_chip) option" where
  "insn_vmptrld env phys_bits first_word a chip =
     (if chip_vmxon chip = None then None
      else if \<not> region_address_ok phys_bits a \<or> chip_vmxon chip = Some a \<or> first_word a \<noteq> revision_id env then Some (False, chip)
      else Some (True, chip\<lparr>chip_vmcs := Some a\<rparr>))"

definition insn_vmxoff :: "vmx_chip \<Rightarrow> vmx_chip option" where
  "insn_vmxoff chip =
     (if chip_vmxon chip = None then None else Some (chip\<lparr>chip_vmxon := None, chip_vmcs := None\<rparr>))"

subsection \<open>The functions\<close>

text \<open>Where the regions of a CPU are, and what the functions are given.\<close>

record vmx_place =
  vp_layout :: percpu_layout
  vp_page_offset :: u64
  vp_cpu_id :: u32
  vp_phys_bits :: nat

definition vmxon_addr :: "vmx_place \<Rightarrow> u64" where
  "vmxon_addr pl = paging_hvirt2phys (vp_page_offset pl)
     (percpu_addr (vp_layout pl) (vp_cpu_id pl) + vmxon_region_offset (vp_layout pl))"

definition vmcs_addr :: "vmx_place \<Rightarrow> u64" where
  "vmcs_addr pl = paging_hvirt2phys (vp_page_offset pl)
     (percpu_addr (vp_layout pl) (vp_cpu_id pl) + vmcs_offset (vp_layout pl))"

definition vmxon :: "vmx_env \<Rightarrow> vmx_place \<Rightarrow> (u64 \<Rightarrow> u32) \<Rightarrow> vmx_chip \<Rightarrow> (bool \<times> vmx_chip) option" where
  "vmxon env pl first_word chip = insn_vmxon env (vp_phys_bits pl) first_word (vmxon_addr pl) chip"

definition vmcs_clear :: "vmx_place \<Rightarrow> vmx_chip \<Rightarrow> (bool \<times> vmx_chip) option" where
  "vmcs_clear pl chip = insn_vmclear (vp_phys_bits pl) (vmcs_addr pl) chip"

definition vmcs_load :: "vmx_env \<Rightarrow> vmx_place \<Rightarrow> (u64 \<Rightarrow> u32) \<Rightarrow> vmx_chip \<Rightarrow> (bool \<times> vmx_chip) option" where
  "vmcs_load env pl first_word chip = insn_vmptrld env (vp_phys_bits pl) first_word (vmcs_addr pl) chip"

text \<open>
  The writes of \<open>revision_id\<close>, 31 bits, and \<open>shadow_indicator\<close>, 1 bit, of the two regions: bit fields of
  the first word.
\<close>

definition set_revision :: "vmx_env \<Rightarrow> vmx_place \<Rightarrow> (u64 \<Rightarrow> u32) \<Rightarrow> u64 \<Rightarrow> u32" where
  "set_revision env pl first_word =
     (let id = ucast (rdmsr env MSR_IA32_VMX_BASIC) :: u32;
          put = (\<lambda>a mm. mm(a := take_bit 31 (mm a AND NOT (mask 31) OR take_bit 31 id)))
      in put (vmcs_addr pl) (put (vmxon_addr pl) first_word))"

text \<open>
  The processor's part of \<open>vcpu_init\<close> from the load of the control registers on, up to \<open>vmcs_setup\<close>: what the
  three functions return, \<open>False\<close> for one that is not called, and the processor afterwards.
\<close>

definition vcpu_init_chip ::
  "vmx_env \<Rightarrow> vmx_place \<Rightarrow> (u64 \<Rightarrow> u32) \<Rightarrow> u64 \<Rightarrow> vmx_chip \<Rightarrow> (vmx_ops \<times> vmx_chip) option" where
  "vcpu_init_chip env pl first_word linux_cr4_val chip =
     (let chip = chip\<lparr>chip_cr0 := X86_CR0_HOST_STATE,
                      chip_cr4 := X86_CR4_PAE OR X86_CR4_VMXE OR
                        (if bit (cpuid_ecx env 1 0) 26 then X86_CR4_OSXSAVE else 0)\<rparr> in
      case vmxon env pl first_word chip of
        None \<Rightarrow> None
      | Some (False, chip) \<Rightarrow>
          Some (\<lparr>vmxon_ok = False, vmclear_ok = False, vmptrld_ok = False\<rparr>, chip\<lparr>chip_cr4 := linux_cr4_val\<rparr>)
      | Some (True, chip) \<Rightarrow>
     (case vmcs_clear pl chip of
        None \<Rightarrow> None
      | Some (False, chip) \<Rightarrow> Some (\<lparr>vmxon_ok = True, vmclear_ok = False, vmptrld_ok = False\<rparr>, chip)
      | Some (True, chip) \<Rightarrow>
     (case vmcs_load env pl first_word chip of
        None \<Rightarrow> None
      | Some (ok, chip) \<Rightarrow> Some (\<lparr>vmxon_ok = True, vmclear_ok = True, vmptrld_ok = ok\<rparr>, chip))))"

text \<open>The processor's part of \<open>vcpu_exit\<close>, which ignores the result of \<open>vmcs_clear\<close>.\<close>

definition vcpu_exit_chip :: "vmx_place \<Rightarrow> vmx_chip \<Rightarrow> vmx_chip option" where
  "vcpu_exit_chip pl chip =
     (case vmcs_clear pl chip of None \<Rightarrow> None | Some (_, chip) \<Rightarrow> insn_vmxoff chip)"

subsection \<open>Relation to the state of \<open>Spy_Vmcs\<close>\<close>

definition chip_rel :: "vmx_place \<Rightarrow> vmx_chip \<Rightarrow> vmx_hw \<Rightarrow> bool" where
  "chip_rel pl chip hw \<longleftrightarrow>
     vmx_on hw = (chip_vmxon chip \<noteq> None) \<and> vmcs_current hw = (chip_vmcs chip = Some (vmcs_addr pl)) \<and>
     (chip_vmxon chip = None \<longrightarrow> chip_vmcs chip = None) \<and>
     hw_cr0 hw = chip_cr0 chip \<and> hw_cr4 hw = chip_cr4 chip \<and> hw_feature_control hw = chip_feature_control chip"

text \<open>The addresses that the layout gives: page-aligned, different, and within the processor's physical memory.\<close>

definition place_ok :: "vmx_place \<Rightarrow> bool" where
  "place_ok pl \<longleftrightarrow> (\<exists>pool. vp_layout pl = spy_layout pool \<and> pool AND PAGE_OFFS_MASK = 0) \<and>
     vp_page_offset pl AND PAGE_OFFS_MASK = 0 \<and>
     unat (vmxon_addr pl) < 2 ^ vp_phys_bits pl \<and> unat (vmcs_addr pl) < 2 ^ vp_phys_bits pl"

lemma page_aligned_iff: "a AND PAGE_OFFS_MASK = 0 \<longleftrightarrow> 4096 dvd unat a"
proof -
  have "unat (a AND PAGE_OFFS_MASK) = unat a mod 2 ^ 12"
    by (simp only: and_PAGE_OFFS_MASK unsigned_take_bit_eq) (simp add: take_bit_eq_mod)
  then show ?thesis
    by (simp add: word_unat_eq_iff dvd_eq_mod_eq_0)
qed

lemma page_aligned_sum:
  assumes "a AND PAGE_OFFS_MASK = 0" "b AND PAGE_OFFS_MASK = 0"
  shows "(a + b) AND PAGE_OFFS_MASK = 0" "(a - b) AND PAGE_OFFS_MASK = 0" "(c * b) AND PAGE_OFFS_MASK = 0"
proof -
  have d: "(4096 :: nat) dvd 2 ^ 64"
    by simp
  have add: "(x + y) AND PAGE_OFFS_MASK = 0" if "x AND PAGE_OFFS_MASK = 0" "y AND PAGE_OFFS_MASK = 0" for x y :: u64
    using that dvd_mod [OF _ d, of "unat x + unat y"] unfolding page_aligned_iff by (simp add: unat_word_ariths)
  have mult: "(x * b) AND PAGE_OFFS_MASK = 0" for x
    using assms(2) dvd_mod [OF _ d, of "unat x * unat b"] unfolding page_aligned_iff by (simp add: unat_word_ariths)
  show "(a + b) AND PAGE_OFFS_MASK = 0" "(c * b) AND PAGE_OFFS_MASK = 0"
    using assms add mult by blast+
  show "(a - b) AND PAGE_OFFS_MASK = 0"
    using add [OF assms(1) mult [of "- 1"]] by simp
qed

lemma region_addresses:
  assumes "place_ok pl"
  shows "region_address_ok (vp_phys_bits pl) (vmxon_addr pl)" "region_address_ok (vp_phys_bits pl) (vmcs_addr pl)"
    "vmxon_addr pl \<noteq> vmcs_addr pl"
proof -
  obtain pool where pl: "vp_layout pl = spy_layout pool" "pool AND PAGE_OFFS_MASK = 0" "vp_page_offset pl AND PAGE_OFFS_MASK = 0"
    using assms by (auto simp: place_ok_def)
  have "(ucast (vp_cpu_id pl) * 0x6000 :: u64) AND PAGE_OFFS_MASK = 0"
    by (rule page_aligned_sum(3) [of 0]) (simp_all add: page_aligned_iff)
  then have p: "percpu_addr (spy_layout pool) (vp_cpu_id pl) AND PAGE_OFFS_MASK = 0"
    using page_aligned_sum(1) [OF pl(2)] by (simp add: percpu_addr_def spy_layout_def)
  have "(0x2000 :: u64) AND PAGE_OFFS_MASK = 0" "(0x3000 :: u64) AND PAGE_OFFS_MASK = 0"
    by (simp_all add: page_aligned_iff)
  then have "vmxon_addr pl AND PAGE_OFFS_MASK = 0" "vmcs_addr pl AND PAGE_OFFS_MASK = 0"
    using page_aligned_sum(2) [OF page_aligned_sum(1) [OF p] pl(3)]
    by (simp_all add: vmxon_addr_def vmcs_addr_def paging_hvirt2phys_def pl(1) spy_layout_def)
  then show "region_address_ok (vp_phys_bits pl) (vmxon_addr pl)" "region_address_ok (vp_phys_bits pl) (vmcs_addr pl)"
    using assms by (simp_all add: region_address_ok_def place_ok_def)
  show "vmxon_addr pl \<noteq> vmcs_addr pl"
    by (simp add: vmxon_addr_def vmcs_addr_def paging_hvirt2phys_def pl(1) spy_layout_def)
qed

lemma set_revision:
  "set_revision env pl first_word (vmxon_addr pl) = revision_id env" "set_revision env pl first_word (vmcs_addr pl) = revision_id env"
proof -
  have "take_bit 31 (w AND NOT (mask 31) OR take_bit 31 id) = take_bit 31 id" for w id :: u32
    by (rule bit_word_eqI) (auto simp: bit_simps)
  then show "set_revision env pl first_word (vmxon_addr pl) = revision_id env"
    "set_revision env pl first_word (vmcs_addr pl) = revision_id env"
    by (simp_all add: set_revision_def revision_id_def Let_def)
qed

text \<open>What the functions change.\<close>

lemma vmxon_cases:
  assumes "vmxon env pl first_word c = Some (ok, c')"
  shows "ok \<and> chip_vmxon c = None \<and> c' = c\<lparr>chip_vmxon := Some (vmxon_addr pl), chip_vmcs := None\<rparr> \<or> \<not> ok \<and> c' = c"
  using assms by (auto simp: vmxon_def insn_vmxon_def split: if_splits)

lemma vmcs_clear_cases:
  assumes "vmcs_clear pl c = Some (ok, c')"
  shows "chip_vmxon c \<noteq> None \<and> chip_vmxon c' = chip_vmxon c \<and> chip_vmcs c' \<in> {None, chip_vmcs c} \<and>
    chip_cr0 c' = chip_cr0 c \<and> chip_cr4 c' = chip_cr4 c \<and> chip_feature_control c' = chip_feature_control c"
  using assms by (auto simp: vmcs_clear_def insn_vmclear_def split: if_splits)

lemma vmcs_load_cases:
  assumes "vmcs_load env pl first_word c = Some (ok, c')"
  shows "c' = (if ok then c\<lparr>chip_vmcs := Some (vmcs_addr pl)\<rparr> else c)"
  using assms by (auto simp: vmcs_load_def insn_vmptrld_def split: if_splits)

text \<open>The runs of \<open>vcpu_init_chip\<close>: \<open>vmxon\<close> refuses, \<open>vmcs_clear\<close> refuses, or the third function is called.\<close>

lemma vcpu_init_chip_cases:
  assumes "vcpu_init_chip env pl first_word cr4 chip = Some (ops, chip')"
  defines "c \<equiv> chip\<lparr>chip_cr0 := X86_CR0_HOST_STATE, chip_cr4 := X86_CR4_PAE OR X86_CR4_VMXE OR
    (if bit (cpuid_ecx env 1 0) 26 then X86_CR4_OSXSAVE else 0)\<rparr>"
  obtains (refused) "\<not> vmxon_ok ops" "chip' = c\<lparr>chip_cr4 := cr4\<rparr>"
    | (entered) "chip_vmxon chip = None" "vmxon_ok ops" "\<not> (vmclear_ok ops \<and> vmptrld_ok ops)" "chip_vmxon chip' \<noteq> None" "chip_vmcs chip' = None"
      "chip_cr0 chip' = chip_cr0 c" "chip_cr4 chip' = chip_cr4 c" "chip_feature_control chip' = chip_feature_control c"
    | (loaded) "chip_vmxon chip = None" "vmxon_ok ops" "vmclear_ok ops" "vmptrld_ok ops" "chip_vmxon chip' \<noteq> None" "chip_vmcs chip' = Some (vmcs_addr pl)"
      "chip_cr0 chip' = chip_cr0 c" "chip_cr4 chip' = chip_cr4 c" "chip_feature_control chip' = chip_feature_control c"
proof -
  obtain ok1 c1 where on: "vmxon env pl first_word c = Some (ok1, c1)"
    using assms(1) by (cases "vmxon env pl first_word c") (auto simp: vcpu_init_chip_def c_def Let_def)
  show thesis
  proof (cases ok1)
    case False
    then show thesis
      using assms(1) on vmxon_cases [OF on] by (intro refused) (auto simp: vcpu_init_chip_def c_def [symmetric] Let_def)
  next
    case True
    then have c1: "chip_vmxon c1 \<noteq> None" "chip_vmcs c1 = None" "chip_cr0 c1 = chip_cr0 c" "chip_cr4 c1 = chip_cr4 c"
      "chip_feature_control c1 = chip_feature_control c"
      using vmxon_cases [OF on] by auto
    have off: "chip_vmxon chip = None"
      using vmxon_cases [OF on] True by (auto simp: c_def)
    have run: "(case vmcs_clear pl c1 of None \<Rightarrow> None
       | Some (False, chip) \<Rightarrow> Some (\<lparr>vmxon_ok = True, vmclear_ok = False, vmptrld_ok = False\<rparr>, chip)
       | Some (True, chip) \<Rightarrow> (case vmcs_load env pl first_word chip of None \<Rightarrow> None
          | Some (ok, chip) \<Rightarrow> Some (\<lparr>vmxon_ok = True, vmclear_ok = True, vmptrld_ok = ok\<rparr>, chip))) = Some (ops, chip')"
      using assms(1) on True by (simp add: vcpu_init_chip_def c_def [symmetric] Let_def)
    then obtain ok2 c2 where cl: "vmcs_clear pl c1 = Some (ok2, c2)"
      by (cases "vmcs_clear pl c1") auto
    have c2: "chip_vmxon c2 \<noteq> None" "chip_vmcs c2 = None" "chip_cr0 c2 = chip_cr0 c" "chip_cr4 c2 = chip_cr4 c"
      "chip_feature_control c2 = chip_feature_control c"
      using vmcs_clear_cases [OF cl] c1 by auto
    show thesis
    proof (cases ok2)
      case False
      then show thesis
        using run cl c2 off by (intro entered) auto
    next
      case True
      then obtain ok3 c3 where ld: "vmcs_load env pl first_word c2 = Some (ok3, c3)"
        using run cl by (cases "vmcs_load env pl first_word c2") auto
      have out: "ops = \<lparr>vmxon_ok = True, vmclear_ok = True, vmptrld_ok = ok3\<rparr>" "chip' = c3"
        using run cl ld True by auto
      show thesis
      proof (cases ok3)
        case True
        then have "c3 = c2\<lparr>chip_vmcs := Some (vmcs_addr pl)\<rparr>"
          using vmcs_load_cases [OF ld] by simp
        then show thesis
          using out c2 True off by (intro loaded) simp_all
      next
        case False
        then have "c3 = c2"
          using vmcs_load_cases [OF ld] by simp
        then show thesis
          using out c2 False off by (intro entered) simp_all
      qed
    qed
  qed
qed

lemma vcpu_exit_chip_rel:
  assumes "chip_rel pl chip hw"
  shows "case vcpu_exit_chip pl chip of
      None \<Rightarrow> chip_vmxon chip = None
    | Some chip' \<Rightarrow> chip_rel pl chip' (snd (vcpu_exit_leave cpu hw))"
proof (cases "vmcs_clear pl chip")
  case None
  then show ?thesis
    by (auto simp: vcpu_exit_chip_def vmcs_clear_def insn_vmclear_def split: if_splits)
next
  case (Some r)
  obtain ok c where r: "r = (ok, c)"
    by fastforce
  have c: "chip_vmxon c \<noteq> None" "chip_cr0 c = chip_cr0 chip" "chip_cr4 c = chip_cr4 chip"
    "chip_feature_control c = chip_feature_control chip"
    using vmcs_clear_cases [OF Some [unfolded r]] by auto
  then show ?thesis
    using Some assms by (auto simp: r vcpu_exit_chip_def insn_vmxoff_def chip_rel_def vcpu_exit_leave_def)
qed

subsection \<open>Properties\<close>

text \<open>C13. What the processor does refines the abstract view of VMX operation on which the other results
  rest: from related states, the instructions that \<open>vcpu_init\<close> executes end in a state related to what
  \<open>vcpu_init_vmx\<close> gives when it is told the results of the instructions, on every one of its error paths;
  and leaving VMX operation is related to \<open>vcpu_exit_leave\<close>.\<close>

theorem vmx_chip_refines:
  assumes "chip_rel pl chip hw"
  shows "case vcpu_init_chip env pl first_word (linux_cr4 cpu) chip of
      None \<Rightarrow> True
    | Some (ops, chip') \<Rightarrow>
       (case vcpu_init_vmx env ops lim cpu hw of (r, cpu', hw') \<Rightarrow>
          chip_rel pl chip' hw' \<and> (vmcs_current hw' \<longleftrightarrow> chip_vmcs chip' = Some (vmcs_addr pl)) \<and>
          (case vcpu_exit_chip pl chip' of
             None \<Rightarrow> chip_vmxon chip' = None
           | Some chip'' \<Rightarrow> chip_rel pl chip'' (snd (vcpu_exit_leave cpu' hw'))))"
proof (cases "vcpu_init_chip env pl first_word (linux_cr4 cpu) chip")
  case (Some r)
  obtain ops chip' where r: "r = (ops, chip')"
    by fastforce
  obtain res cpu' hw' where v: "vcpu_init_vmx env ops lim cpu hw = (res, cpu', hw')"
    by (metis prod_cases3)
  from Some have "chip_rel pl chip' hw'"
    unfolding r
  proof (cases rule: vcpu_init_chip_cases)
    case refused
    then show ?thesis
      using assms v by (auto simp: vcpu_init_vmx_def chip_rel_def Let_def)
  next
    case entered
    then show ?thesis
      using assms v by (auto simp: vcpu_init_vmx_def chip_rel_def Let_def split: if_splits)
  next
    case loaded
    then show ?thesis
      using assms v by (auto simp: vcpu_init_vmx_def chip_rel_def Let_def split: prod.splits bool.splits)
  qed
  then show ?thesis
    using Some r v vcpu_exit_chip_rel [of pl chip' hw' cpu'] by (simp add: chip_rel_def)
qed simp

text \<open>C14. With the revision words that \<open>vcpu_init\<close> writes, and the feature control register as it leaves it,
  no VMX instruction fails on a CPU whose regions are laid out as \<open>struct per_cpu\<close>: \<open>vmxon\<close>, \<open>vmcs_clear\<close>
  and \<open>vmcs_load\<close> all report success, the VMCS of this CPU becomes current, and \<open>vcpu_exit\<close> leaves VMX
  operation without a fault. Only control registers outside the processor's fixed bits are refused - with an
  exception, not with the error return for which the code has a branch.\<close>

theorem vmx_instructions_succeed:
  fixes env :: vmx_env and pl :: vmx_place and chip :: vmx_chip
  defines "cr4 \<equiv> X86_CR4_PAE OR X86_CR4_VMXE OR (if bit (cpuid_ecx env 1 0) 26 then X86_CR4_OSXSAVE else 0)"
  defines "fixed \<equiv>
    fixed_bits_ok (rdmsr env MSR_IA32_VMX_CR0_FIXED0) (rdmsr env MSR_IA32_VMX_CR0_FIXED1) X86_CR0_HOST_STATE \<and>
    fixed_bits_ok (rdmsr env MSR_IA32_VMX_CR4_FIXED0) (rdmsr env MSR_IA32_VMX_CR4_FIXED1) cr4"
  assumes "place_ok pl" "chip_vmxon chip = None" "chip_feature_control chip AND 0x5 = 0x5"
  shows "case vcpu_init_chip env pl (set_revision env pl first_word) linux_cr4_val chip of
      None \<Rightarrow> \<not> fixed
    | Some (ops, chip') \<Rightarrow> fixed \<and> ops = \<lparr>vmxon_ok = True, vmclear_ok = True, vmptrld_ok = True\<rparr> \<and>
        chip_vmcs chip' = Some (vmcs_addr pl) \<and>
        (\<exists>chip''. vcpu_exit_chip pl chip' = Some chip'' \<and> chip_vmxon chip'' = None \<and> chip_vmcs chip'' = None)"
proof -
  let ?c = "chip\<lparr>chip_cr0 := X86_CR0_HOST_STATE, chip_cr4 := cr4\<rparr>" and ?w = "set_revision env pl first_word"
  note a = region_addresses [OF assms(3)]
  have "bit (chip_feature_control chip AND 0x5) 0" "bit (chip_feature_control chip AND 0x5) 2"
    unfolding assms(5) by simp_all
  then have fc: "bit (chip_feature_control chip) 0" "bit (chip_feature_control chip) 2"
    unfolding bit_and_iff by simp_all
  have cr: "cr4 AND X86_CR4_VMXE \<noteq> 0" "X86_CR0_HOST_STATE AND X86_CR0_PE \<noteq> 0"
    by (simp_all add: cr4_def X86_CR0_HOST_STATE_def)
  have run: "vcpu_init_chip env pl ?w linux_cr4_val chip =
    (case vmxon env pl ?w ?c of None \<Rightarrow> None
     | Some (False, chip) \<Rightarrow> Some (\<lparr>vmxon_ok = False, vmclear_ok = False, vmptrld_ok = False\<rparr>, chip\<lparr>chip_cr4 := linux_cr4_val\<rparr>)
     | Some (True, chip) \<Rightarrow> (case vmcs_clear pl chip of None \<Rightarrow> None
        | Some (False, chip) \<Rightarrow> Some (\<lparr>vmxon_ok = True, vmclear_ok = False, vmptrld_ok = False\<rparr>, chip)
        | Some (True, chip) \<Rightarrow> (case vmcs_load env pl ?w chip of None \<Rightarrow> None
           | Some (ok, chip) \<Rightarrow> Some (\<lparr>vmxon_ok = True, vmclear_ok = True, vmptrld_ok = ok\<rparr>, chip))))"
    by (simp only: vcpu_init_chip_def cr4_def Let_def)
  have on: "vmxon env pl ?w ?c =
      (if fixed then Some (True, ?c\<lparr>chip_vmxon := Some (vmxon_addr pl), chip_vmcs := None\<rparr>) else None)"
    using a(1) fc cr assms(4) by (simp add: vmxon_def insn_vmxon_def set_revision fixed_def)
  show ?thesis
    unfolding run on using a(2,3)
    by (cases fixed) (simp_all add: vmcs_clear_def insn_vmclear_def vmcs_load_def insn_vmptrld_def set_revision
        vcpu_exit_chip_def insn_vmxoff_def)
qed

subsection \<open>Examples\<close>

definition demo_vmx_env :: vmx_env where
  "demo_vmx_env = demo_env\<lparr>rdmsr := \<lambda>r.
     if r = MSR_IA32_VMX_BASIC then 0x00d8100080000012
     else if r = MSR_IA32_VMX_CR0_FIXED0 then 0x80000021 else if r = MSR_IA32_VMX_CR0_FIXED1 then 0xffffffff
     else if r = MSR_IA32_VMX_CR4_FIXED0 then 0x2000 else if r = MSR_IA32_VMX_CR4_FIXED1 then 0x3727ff else 0\<rparr>"

definition demo_place :: vmx_place where
  "demo_place = \<lparr>vp_layout = spy_layout 0xfffffff0f0100000, vp_page_offset = 0xfffffff0b0000000, vp_cpu_id = 3,
     vp_phys_bits = 36\<rparr>"

definition demo_chip :: vmx_chip where
  "demo_chip = \<lparr>chip_vmxon = None, chip_vmcs = None, chip_cr0 = 0x80050033, chip_cr4 = 0x6f0, chip_feature_control = 5\<rparr>"

lemma demo_place_ok: "place_ok demo_place"
proof -
  have "(0xfffffff0f0100000 :: u64) AND PAGE_OFFS_MASK = 0" "(0xfffffff0b0000000 :: u64) AND PAGE_OFFS_MASK = 0"
    by (simp_all add: PAGE_OFFS_MASK_def)
  then show ?thesis
    by (auto simp: place_ok_def demo_place_def vmxon_addr_def vmcs_addr_def paging_hvirt2phys_def percpu_addr_def spy_layout_def)
qed

lemma demo_fixed:
  "fixed_bits_ok (rdmsr demo_vmx_env MSR_IA32_VMX_CR0_FIXED0) (rdmsr demo_vmx_env MSR_IA32_VMX_CR0_FIXED1) X86_CR0_HOST_STATE"
  "fixed_bits_ok (rdmsr demo_vmx_env MSR_IA32_VMX_CR4_FIXED0) (rdmsr demo_vmx_env MSR_IA32_VMX_CR4_FIXED1)
     (X86_CR4_PAE OR X86_CR4_VMXE OR (if bit (cpuid_ecx demo_vmx_env 1 0) 26 then X86_CR4_OSXSAVE else 0))"
  by code_simp+

theorem vmx_instructions_succeed_witness:
  "\<exists>ops chip'. vcpu_init_chip demo_vmx_env demo_place (set_revision demo_vmx_env demo_place (\<lambda>_. 0xffffffff)) 0x6f0 demo_chip =
       Some (ops, chip') \<and> vmptrld_ok ops \<and> chip_vmcs chip' = Some 0x40115000"
proof -
  have "vmcs_addr demo_place = 0x40115000"
    by (simp add: vmcs_addr_def demo_place_def paging_hvirt2phys_def percpu_addr_def spy_layout_def)
  then show ?thesis
    using demo_fixed vmx_instructions_succeed [OF demo_place_ok, of demo_chip demo_vmx_env "\<lambda>_. 0xffffffff" "0x6f0"]
    by (auto simp: demo_chip_def split: option.splits prod.splits)
qed

definition demo_hw :: vmx_hw where
  "demo_hw = \<lparr>vmx_on = False, vmcs_current = False, hw_cr0 = 0x80050033, hw_cr4 = 0x6f0,
     hw_feature_control = 5, hw_perf_global_ctrl = 0\<rparr>"

text \<open>A CPU whose regions hold no revision words: \<open>vmxon\<close> refuses.\<close>

theorem vmx_chip_refines_witness:
  "\<exists>ops chip'. vcpu_init_chip demo_vmx_env demo_place (\<lambda>_. 0) (linux_cr4 demo_cpu) demo_chip = Some (ops, chip') \<and>
     \<not> vmxon_ok ops \<and>
     (case vcpu_init_vmx demo_vmx_env ops demo_limits demo_cpu demo_hw of (r, cpu', hw') \<Rightarrow> chip_rel demo_place chip' hw')"
proof -
  have rel: "chip_rel demo_place demo_chip demo_hw"
    by (simp add: chip_rel_def demo_chip_def demo_hw_def)
  have "case vcpu_init_chip demo_vmx_env demo_place (\<lambda>_. 0) (linux_cr4 demo_cpu) demo_chip of
      Some (ops, chip') \<Rightarrow> \<not> vmxon_ok ops | None \<Rightarrow> False"
  proof -
    have "revision_id demo_vmx_env \<noteq> 0"
      by code_simp
    then show ?thesis
      using demo_fixed by (simp add: vcpu_init_chip_def vmxon_def insn_vmxon_def demo_chip_def X86_CR0_HOST_STATE_def Let_def)
  qed
  then obtain ops chip' where run: "vcpu_init_chip demo_vmx_env demo_place (\<lambda>_. 0) (linux_cr4 demo_cpu) demo_chip = Some (ops, chip')"
    "\<not> vmxon_ok ops"
    by (auto split: option.splits)
  obtain r cpu' hw' where "vcpu_init_vmx demo_vmx_env ops demo_limits demo_cpu demo_hw = (r, cpu', hw')"
    by (metis prod_cases3)
  then show ?thesis
    using vmx_chip_refines [where env = demo_vmx_env and first_word = "\<lambda>_. 0" and cpu = demo_cpu and lim = demo_limits, OF rel] run by simp
qed

end
