(* ===== verification/Spy_Switch.thy ===== *)
theory Spy_Switch
  imports Spy_Setup Spy_Percpu
begin

text \<open>
  Switching between Linux, the hypervisor and its guests: \<open>arch_entry\<close> and the exception and interrupt entries
  of \<open>entry.S\<close>, \<open>vmx-vmexit.S\<close>, and the assembly in \<open>vcpu_activate_vmm\<close> and at the end of \<open>vcpu_deactivate_vmm\<close>.

  The assembly is a list of instructions over a small machine: the general registers, numbered as
  in \<open>union registers\<close>, the stack pointer and memory as a map from addresses to the quadwords there. All
  addresses of one stack are multiples of 8 apart, so its quadwords do not overlap. Functions called from
  the assembly are parameters.
\<close>

subsection \<open>The machine\<close>

abbreviation (input) R15 :: nat where "R15 \<equiv> 0"
abbreviation (input) R14 :: nat where "R14 \<equiv> 1"
abbreviation (input) R13 :: nat where "R13 \<equiv> 2"
abbreviation (input) R12 :: nat where "R12 \<equiv> 3"
abbreviation (input) R11 :: nat where "R11 \<equiv> 4"
abbreviation (input) R10 :: nat where "R10 \<equiv> 5"
abbreviation (input) R9 :: nat where "R9 \<equiv> 6"
abbreviation (input) R8 :: nat where "R8 \<equiv> 7"
abbreviation (input) RBP :: nat where "RBP \<equiv> 10"

record machine =
  gprs :: "nat \<Rightarrow> u64"
  rsp :: u64
  mem :: "u64 \<Rightarrow> u64"

text \<open>
  The instructions that occur. \<open>Load d b o\<close> is \<open>mov o(b),d\<close>; \<open>Store_Rsp b o\<close>, \<open>Load_Rsp b o\<close> and
  \<open>Lea_Rsp b o\<close> move the stack pointer to memory, from memory, and to an address.
\<close>

datatype insn =
    Push nat | Pushq u64 | Pop nat | Add_Rsp u64 | Sub_Rsp u64
  | Mov nat nat | Load nat nat u64 | Imul nat u64 | Lea nat u64 | Add nat nat | Mov_From_Rsp nat
  | Store_Rsp nat u64 | Load_Rsp nat u64 | Lea_Rsp nat u64 | Mov_Rsp nat | Clear nat

fun exec1 :: "insn \<Rightarrow> machine \<Rightarrow> machine" where
  "exec1 (Push r) m = m\<lparr>rsp := rsp m - 8, mem := (mem m)(rsp m - 8 := gprs m r)\<rparr>"
| "exec1 (Pushq x) m = m\<lparr>rsp := rsp m - 8, mem := (mem m)(rsp m - 8 := x)\<rparr>"
| "exec1 (Pop r) m = m\<lparr>rsp := rsp m + 8, gprs := (gprs m)(r := mem m (rsp m))\<rparr>"
| "exec1 (Add_Rsp n) m = m\<lparr>rsp := rsp m + n\<rparr>"
| "exec1 (Sub_Rsp n) m = m\<lparr>rsp := rsp m - n\<rparr>"
| "exec1 (Mov d s) m = m\<lparr>gprs := (gprs m)(d := gprs m s)\<rparr>"
| "exec1 (Load d b ofs) m = m\<lparr>gprs := (gprs m)(d := mem m (gprs m b + ofs))\<rparr>"
| "exec1 (Imul d n) m = m\<lparr>gprs := (gprs m)(d := gprs m d * n)\<rparr>"
| "exec1 (Lea d a) m = m\<lparr>gprs := (gprs m)(d := a)\<rparr>"
| "exec1 (Add d s) m = m\<lparr>gprs := (gprs m)(d := gprs m d + gprs m s)\<rparr>"
| "exec1 (Mov_From_Rsp d) m = m\<lparr>gprs := (gprs m)(d := rsp m)\<rparr>"
| "exec1 (Store_Rsp b ofs) m = m\<lparr>mem := (mem m)(gprs m b + ofs := rsp m)\<rparr>"
| "exec1 (Load_Rsp b ofs) m = m\<lparr>rsp := mem m (gprs m b + ofs)\<rparr>"
| "exec1 (Lea_Rsp b ofs) m = m\<lparr>rsp := gprs m b + ofs\<rparr>"
| "exec1 (Mov_Rsp s) m = m\<lparr>rsp := gprs m s\<rparr>"
| "exec1 (Clear d) m = m\<lparr>gprs := (gprs m)(d := 0)\<rparr>"

primrec exec :: "insn list \<Rightarrow> machine \<Rightarrow> machine" where
  "exec [] m = m"
| "exec (i # is) m = exec is (exec1 i m)"

text \<open>\<open>ret\<close>: where execution continues, and the machine there.\<close>

definition ret_insn :: "machine \<Rightarrow> u64 \<times> machine" where
  "ret_insn m = (mem m (rsp m), m\<lparr>rsp := rsp m + 8\<rparr>)"

subsection \<open>The code\<close>

definition arch_entry_save :: "insn list" where
  "arch_entry_save = [Push RBP, Push RBX, Push R12, Push R13, Push R14, Push R15]"

text \<open>
  Up to the call of \<open>entry\<close>: the per-CPU region of the CPU number in \<open>rdi\<close> is located, the Linux stack
  pointer stored there, and its stack used from then on.
\<close>

definition arch_entry_switch :: "percpu_layout \<Rightarrow> insn list" where
  "arch_entry_switch l =
     [Mov RSI RDI, Imul RSI (sizeof_per_cpu l), Lea RAX (page_pool l), Add RSI RAX,
      Store_Rsp RSI (PERCPU_LINUX_SP l), Lea_Rsp RSI (PERCPU_STACK_END - 8), Push RSI]"

text \<open>After \<open>entry\<close> has returned, which it does in case of an error only.\<close>

definition arch_entry_return :: "percpu_layout \<Rightarrow> insn list" where
  "arch_entry_return l =
     [Pop RSI, Load_Rsp RSI (PERCPU_LINUX_SP l),
      Pop R15, Pop R14, Pop R13, Pop R12, Pop RBX, Pop RBP]"

definition arch_entry :: "percpu_layout \<Rightarrow> (machine \<Rightarrow> machine) \<Rightarrow> machine \<Rightarrow> u64 \<times> machine" where
  "arch_entry l entry m =
     ret_insn (exec (arch_entry_return l) (entry (exec (arch_entry_save @ arch_entry_switch l) m)))"

definition vmexit_save :: "insn list" where
  "vmexit_save =
     [Push RAX, Push RCX, Push RDX, Push RBX, Sub_Rsp 8, Push RBP, Push RSI, Push RDI,
      Push R8, Push R9, Push R10, Push R11, Push R12, Push R13, Push R14, Push R15, Lea RDI LOCAL_CPU_BASE]"

definition vmexit_restore :: "insn list" where
  "vmexit_restore =
     [Pop R15, Pop R14, Pop R13, Pop R12, Pop R11, Pop R10, Pop R9, Pop R8, Pop RDI, Pop RSI, Pop RBP,
      Add_Rsp 8, Pop RBX, Pop RDX, Pop RCX, Pop RAX]"

text \<open>An exit from the first instruction of the hypervisor to the one that resumes the guest.\<close>

definition vmx_vmexit :: "(machine \<Rightarrow> machine) \<Rightarrow> machine \<Rightarrow> machine" where
  "vmx_vmexit handler m = exec vmexit_restore (handler (exec vmexit_save m))"

text \<open>
  \<open>vcpu_activate_vmm\<close> up to \<open>vmlaunch\<close>, entered with 0 in \<open>rax\<close> and the address of \<open>linux_reg\<close> in \<open>rdi\<close>.
\<close>

definition activate_loads :: "insn list" where
  "activate_loads =
     [Load R15 RDI 0, Load R14 RDI 0x8, Load R13 RDI 0x10, Load R12 RDI 0x18, Load RBX RDI 0x20,
      Load RBP RDI 0x28]"

text \<open>
  The guest that \<open>vmlaunch\<close> starts: the general registers as they are, stack pointer and instruction
  pointer from the VMCS.
\<close>

definition vcpu_activate_vmm :: "u64 \<Rightarrow> (u64 \<Rightarrow> u64) \<Rightarrow> machine \<Rightarrow> u64 \<times> machine" where
  "vcpu_activate_vmm linux_reg_addr vm m =
     (let m = exec activate_loads (m\<lparr>gprs := (gprs m)(RAX := 0, RDI := linux_reg_addr)\<rparr>)
      in (vm GUEST_RIP, m\<lparr>rsp := vm GUEST_RSP\<rparr>))"

text \<open>
  \<open>arch_cpu_activate_vmm\<close>: the stack pointer moves to the private mapping of the per-CPU region,
  \<open>paging_map_all_per_cpu\<close> takes the mapping of the regions of all CPUs away, and the registers are loaded
  through \<open>this_cpu_data()\<close>.
\<close>

definition linux_reg_offset :: u64 where
  "linux_reg_offset = STACK_SIZE + 56"

definition arch_cpu_activate_vmm ::
  "percpu_layout \<Rightarrow> u32 \<Rightarrow> (machine \<Rightarrow> machine) \<Rightarrow> (u64 \<Rightarrow> u64) \<Rightarrow> machine \<Rightarrow> u64 \<times> machine" where
  "arch_cpu_activate_vmm l cpu paging_map_all_per_cpu vm m =
     vcpu_activate_vmm (this_cpu_data + linux_reg_offset) vm
       (paging_map_all_per_cpu (m\<lparr>rsp := to_private_stack l cpu (rsp m)\<rparr>))"

text \<open>
  \<open>set_cs\<close> of \<open>setup.c\<close>: a far return to the next instruction, at \<open>next\<close>. The push reads eight bytes from
  the address of the 16-bit argument, \<open>cs_quad\<close>; the return loads the low ones into the segment register.
\<close>

definition lretq :: "machine \<Rightarrow> u64 \<times> u16 \<times> machine" where
  "lretq m = (mem m (rsp m), ucast (mem m (rsp m + 8)), m\<lparr>rsp := rsp m + 16\<rparr>)"

definition set_cs :: "u64 \<Rightarrow> u64 \<Rightarrow> machine \<Rightarrow> u64 \<times> u16 \<times> machine" where
  "set_cs cs_quad next m = lretq (exec [Lea RAX next, Pushq cs_quad, Push RAX] m)"

text \<open>
  The end of \<open>vcpu_deactivate_vmm\<close>: the Linux instruction pointer is pushed on the Linux stack, at \<open>stack\<close>
  (the address that the first part of the function results in); the assembly is entered with that in \<open>rax\<close>
  and the address of the guest's registers in \<open>rbx\<close>.
\<close>

definition deactivate_pops :: "insn list" where
  "deactivate_pops =
     [Mov_Rsp RBX, Pop R15, Pop R14, Pop R13, Pop R12, Pop R11, Pop R10, Pop R9, Pop R8, Pop RDI, Pop RSI,
      Pop RBP, Add_Rsp 8, Pop RBX, Pop RDX, Pop RCX, Mov_Rsp RAX, Clear RAX]"

definition deactivate_return :: "u64 \<Rightarrow> u64 \<Rightarrow> u64 \<Rightarrow> machine \<Rightarrow> u64 \<times> machine" where
  "deactivate_return stack linux_ip_word regs_addr m =
     ret_insn (exec deactivate_pops
       (m\<lparr>mem := (mem m)(stack := linux_ip_word), gprs := (gprs m)(RAX := stack, RBX := regs_addr)\<rparr>))"

text \<open>
  The stubs of \<open>exception_entries\<close>, 16 bytes each: whether the processor pushes an error code for the
  exception, and its vector.
\<close>

datatype exception_entry = No_Error_Entry nat | Error_Entry nat

definition exception_stubs :: "exception_entry list" where
  "exception_stubs =
     [No_Error_Entry 0, No_Error_Entry 1] @ map No_Error_Entry [3..<8] @ [Error_Entry 8, No_Error_Entry 9] @
     map Error_Entry [10..<15] @ [No_Error_Entry 16, Error_Entry 17, No_Error_Entry 18, No_Error_Entry 19]"

abbreviation (input) EXCEPTION_NO_ERROR :: u64 where "EXCEPTION_NO_ERROR \<equiv> 0xffffffffffffffff"

definition common_exception_entry :: "nat \<Rightarrow> insn list" where
  "common_exception_entry vector = [Pushq (of_nat vector), Mov_From_Rsp RDI]"

fun exception_entry_code :: "exception_entry \<Rightarrow> insn list" where
  "exception_entry_code (No_Error_Entry vector) = Pushq EXCEPTION_NO_ERROR # common_exception_entry vector"
| "exception_entry_code (Error_Entry vector) = common_exception_entry vector"

definition interrupt_save :: "insn list" where
  "interrupt_save = [Push RAX, Push RCX, Push RDX, Push RSI, Push RDI, Push R8, Push R9, Push R10, Push R11]"

definition interrupt_restore :: "insn list" where
  "interrupt_restore = [Pop R11, Pop R10, Pop R9, Pop R8, Pop RDI, Pop RSI, Pop RDX, Pop RCX, Pop RAX]"

text \<open>
  What the processor does when it delivers an exception or interrupt and on \<open>iretq\<close>. The second component
  of a state are instruction pointer, code segment, flags and stack segment.
\<close>

record control_regs =
  c_rip :: u64
  c_cs :: u64
  c_rflags :: u64
  c_ss :: u64

fun error_code_pushed :: "nat \<Rightarrow> bool" where
  "error_code_pushed v \<longleftrightarrow> v \<in> {8, 10, 11, 12, 13, 14, 17}"

definition deliver :: "u64 option \<Rightarrow> machine \<Rightarrow> control_regs \<Rightarrow> machine" where
  "deliver err m c =
     exec ([Pushq (c_ss c), Pushq (rsp m), Pushq (c_rflags c), Pushq (c_cs c), Pushq (c_rip c)] @
           (case err of None \<Rightarrow> [] | Some e \<Rightarrow> [Pushq e]))
       (m\<lparr>rsp := rsp m AND NOT 15\<rparr>)"

definition iretq :: "machine \<Rightarrow> machine \<times> control_regs" where
  "iretq m =
     (m\<lparr>rsp := mem m (rsp m + 24)\<rparr>,
      \<lparr>c_rip = mem m (rsp m), c_cs = mem m (rsp m + 8), c_rflags = mem m (rsp m + 16), c_ss = mem m (rsp m + 32)\<rparr>)"

definition interrupt_entry :: "(machine \<Rightarrow> machine) \<Rightarrow> machine \<Rightarrow> machine \<times> control_regs" where
  "interrupt_entry func m = iretq (exec interrupt_restore (func (exec interrupt_save m)))"

subsection \<open>Registers in memory\<close>

definition quads :: "(u64 \<Rightarrow> u64) \<Rightarrow> u64 \<Rightarrow> nat \<Rightarrow> u64 list" where
  "quads mm a n = map (\<lambda>i. mm (a + 8 * of_nat i)) [0..<n]"

lemma exec_append [simp]: "exec (is @ js) m = exec js (exec is m)"
  by (induction "is" arbitrary: m) simp_all

lemma length_quads [simp]: "length (quads mm a n) = n"
  by (simp add: quads_def)

lemma nth_quads: "i < n \<Longrightarrow> quads mm a n ! i = mm (a + 8 * of_nat i)"
  by (simp add: quads_def)


lemma quads_unroll:
  "quads mm a 6 = [mm a, mm (a + 8), mm (a + 16), mm (a + 24), mm (a + 32), mm (a + 40)]"
  "quads mm a 7 = [mm a, mm (a + 8), mm (a + 16), mm (a + 24), mm (a + 32), mm (a + 40), mm (a + 48)]"
  "quads mm a 16 = [mm a, mm (a + 8), mm (a + 16), mm (a + 24), mm (a + 32), mm (a + 40), mm (a + 48), mm (a + 56),
     mm (a + 64), mm (a + 72), mm (a + 80), mm (a + 88), mm (a + 96), mm (a + 104), mm (a + 112), mm (a + 120)]"
  by (simp_all add: quads_def upt_rec)

text \<open>The registers other than the stack pointer, in the order of \<open>union registers\<close>.\<close>

definition gpr_list :: "machine \<Rightarrow> u64 list" where
  "gpr_list m = map (gprs m) ([0..<11] @ [12..<16])"

lemma gpr_list_unroll:
  "gpr_list m = [gprs m 0, gprs m 1, gprs m 2, gprs m 3, gprs m 4, gprs m 5, gprs m 6, gprs m 7, gprs m 8, gprs m 9,
     gprs m 10, gprs m 12, gprs m 13, gprs m 14, gprs m 15]"
  by (simp add: gpr_list_def upt_rec numeral_nat)

text \<open>The sixteen quadwords of the structure, without the one that is not used.\<close>

definition used_quads :: "(u64 \<Rightarrow> u64) \<Rightarrow> u64 \<Rightarrow> u64 list" where
  "used_quads mm a = take 11 (quads mm a 16) @ drop 12 (quads mm a 16)"

lemma used_quads_unroll:
  "used_quads mm a = [mm a, mm (a + 8), mm (a + 16), mm (a + 24), mm (a + 32), mm (a + 40), mm (a + 48), mm (a + 56),
     mm (a + 64), mm (a + 72), mm (a + 80), mm (a + 96), mm (a + 104), mm (a + 112), mm (a + 120)]"
  by (simp add: used_quads_def quads_unroll)

text \<open>The sixteen pushes write the registers in the order of the structure; the pops read them back.\<close>

lemma vmexit_save_effect:
  assumes "rsp m = b + 128"
  shows "rsp (exec vmexit_save m) = b" "gprs (exec vmexit_save m) = (gprs m)(RDI := LOCAL_CPU_BASE)"
    "used_quads (mem (exec vmexit_save m)) b = gpr_list m"
  using assms by (simp_all add: vmexit_save_def used_quads_unroll gpr_list_unroll)

lemma vmexit_save_elsewhere:
  assumes "rsp m = b + 128" "a \<notin> {b, b + 8, b + 16, b + 24, b + 32, b + 40, b + 48, b + 56, b + 64, b + 72, b + 80,
    b + 96, b + 104, b + 112, b + 120}"
  shows "mem (exec vmexit_save m) a = mem m a"
  using assms by (simp add: vmexit_save_def ac_simps)

lemma vmexit_restore_effect:
  "rsp (exec vmexit_restore m) = rsp m + 128" "mem (exec vmexit_restore m) = mem m"
  "gpr_list (exec vmexit_restore m) = used_quads (mem m) (rsp m)"
  by (simp_all add: vmexit_restore_def used_quads_unroll gpr_list_unroll ac_simps)

text \<open>A function called from the assembly, by the C calling convention, with \<open>n\<close> quadwords of its caller's
  stack in use.\<close>

definition c_call :: "nat \<Rightarrow> (machine \<Rightarrow> machine) \<Rightarrow> machine \<Rightarrow> bool" where
  "c_call n f m \<longleftrightarrow> rsp (f m) = rsp m \<and> quads (mem (f m)) (rsp m) n = quads (mem m) (rsp m) n \<and>
     list_all (\<lambda>r. gprs (f m) r = gprs m r) [R15, R14, R13, R12, RBX, RBP]"

subsection \<open>Exceptions and interrupts\<close>

lemma exception_stubs_vectors:
  "length exception_stubs = 18"
  "k < 18 \<Longrightarrow> exception_stubs ! k =
     (if error_code_pushed (exception_stub_vectors ! k) then Error_Entry (exception_stub_vectors ! k)
      else No_Error_Entry (exception_stub_vectors ! k))"
proof -
  show "length exception_stubs = 18"
    by (simp add: exception_stubs_def)
  have "exception_stubs = map (\<lambda>v. if error_code_pushed v then Error_Entry v else No_Error_Entry v) exception_stub_vectors"
    by code_simp
  then have nth: "exception_stubs ! k = map (\<lambda>v. if error_code_pushed v then Error_Entry v else No_Error_Entry v) exception_stub_vectors ! k"
    by simp
  have "length exception_stub_vectors = 18"
    by (simp add: stub_vectors)
  then show "exception_stubs ! k =
     (if error_code_pushed (exception_stub_vectors ! k) then Error_Entry (exception_stub_vectors ! k)
      else No_Error_Entry (exception_stub_vectors ! k))" if "k < 18"
    unfolding nth using that by (simp del: error_code_pushed.simps)
qed

lemma exception_stub_frame:
  fixes m :: machine
  defines "a \<equiv> (rsp m AND NOT 15) - 56"
  shows "let m' = exec (exception_entry_code (No_Error_Entry v)) (deliver None m c) in
      gprs m' RDI = a \<and> rsp m' = a \<and>
      quads (mem m') a 7 = [of_nat v, EXCEPTION_NO_ERROR, c_rip c, c_cs c, c_rflags c, rsp m, c_ss c]"
    "let m' = exec (exception_entry_code (Error_Entry v)) (deliver (Some e) m c) in
      gprs m' RDI = a \<and> rsp m' = a \<and>
      quads (mem m') a 7 = [of_nat v, e, c_rip c, c_cs c, c_rflags c, rsp m, c_ss c]"
proof -
  have "rsp m AND NOT 15 = a + 56"
    by (simp add: a_def)
  then show "let m' = exec (exception_entry_code (No_Error_Entry v)) (deliver None m c) in
      gprs m' RDI = a \<and> rsp m' = a \<and>
      quads (mem m') a 7 = [of_nat v, EXCEPTION_NO_ERROR, c_rip c, c_cs c, c_rflags c, rsp m, c_ss c]"
    "let m' = exec (exception_entry_code (Error_Entry v)) (deliver (Some e) m c) in
      gprs m' RDI = a \<and> rsp m' = a \<and>
      quads (mem m') a 7 = [of_nat v, e, c_rip c, c_cs c, c_rflags c, rsp m, c_ss c]"
    by (simp_all add: deliver_def common_exception_entry_def quads_unroll Let_def)
qed

text \<open>C18. The exception handler finds the same frame for every exception: the gate that the set-up loop
  puts at a vector leads to a stub which, on top of what the processor pushes for that vector, completes a
  frame of vector, error code (-1 where the processor has none), interrupted instruction pointer, code
  segment, flags, stack pointer and stack segment; its address is passed in \<open>rdi\<close>.\<close>

theorem exception_gates_lead_to_frame:
  assumes "idt_ok t0" "k < 18"
  shows "\<exists>t. set_exception_gates [0..<NUM_EXCP_DESC] base t0 = Some t \<and>
    (let v = exception_stub_vectors ! k;
         err = (if error_code_pushed v then Some e else None);
         m' = exec (exception_entry_code (exception_stubs ! k)) (deliver err m c)
     in idt_gate t v = Some (8, 0x8e00, base + 16 * of_nat k) \<and>
        gprs m' RDI = rsp m' \<and>
        quads (mem m') (rsp m') 7 =
          [of_nat v, if error_code_pushed v then e else - 1, c_rip c, c_cs c, c_rflags c, rsp m, c_ss c])"
proof -
  let ?ee = "undefined\<lparr>exception_entries := base\<rparr> :: early_env"
  let ?gates = "zip exception_stub_vectors (map (\<lambda>k. base + 16 * of_nat k) [0..<18])"
  have len: "length exception_stub_vectors = 18"
    by (simp add: stub_vectors)
  have keys: "map fst ?gates = exception_stub_vectors"
    by (simp add: len)
  have ok: "list_all (\<lambda>(v, e). v < 256) ?gates" "distinct (map fst ?gates)"
    unfolding keys by (simp_all add: stub_vectors upt_rec)
  obtain t where t: "put_all set_idt_int_gate ?gates t0 = Some t"
    using idt_gates.put_all_ok [OF assms(1) ok(1)] by blast
  have "?gates ! k \<in> set ?gates"
    using assms(2) len by (intro nth_mem) simp
  then have "(exception_stub_vectors ! k, base + 16 * of_nat k) \<in> set ?gates"
    using assms(2) len by simp
  then have gate: "idt_gate t (exception_stub_vectors ! k) = Some (8, 0x8e00, base + 16 * of_nat k)"
    using idt_gates.put_all_distinct [OF assms(1) ok t] by blast
  have "set_exception_gates [0..<NUM_EXCP_DESC] base t0 = Some t"
    unfolding set_exception_gates_put_all using t by simp
  moreover have "exception_stubs ! k =
     (if error_code_pushed (exception_stub_vectors ! k) then Error_Entry (exception_stub_vectors ! k)
      else No_Error_Entry (exception_stub_vectors ! k))"
    using exception_stubs_vectors(2) [OF assms(2)] .
  ultimately show ?thesis
    using gate exception_stub_frame [where m = m and c = c and v = "exception_stub_vectors ! k"]
    by (cases "error_code_pushed (exception_stub_vectors ! k)")
      (simp_all add: Let_def del: error_code_pushed.simps)
qed

text \<open>The stack of an interrupt handler: five quadwords of the processor, nine registers.\<close>

lemma quads_unroll_interrupt:
  "quads mm a 5 = [mm a, mm (a + 8), mm (a + 16), mm (a + 24), mm (a + 32)]"
  "quads mm a 14 = [mm a, mm (a + 8), mm (a + 16), mm (a + 24), mm (a + 32), mm (a + 40), mm (a + 48), mm (a + 56),
     mm (a + 64), mm (a + 72), mm (a + 80), mm (a + 88), mm (a + 96), mm (a + 104)]"
  by (simp_all add: quads_def upt_rec)

lemma deliver_effect:
  assumes "rsp m AND NOT 15 = a + 40"
  shows "rsp (deliver None m c) = a" "gprs (deliver None m c) = gprs m"
    "quads (mem (deliver None m c)) a 5 = [c_rip c, c_cs c, c_rflags c, rsp m, c_ss c]"
  using assms by (simp_all add: deliver_def quads_unroll_interrupt)

lemma interrupt_save_effect:
  assumes "rsp m = b + 72"
  shows "rsp (exec interrupt_save m) = b" "gprs (exec interrupt_save m) = gprs m"
    "quads (mem (exec interrupt_save m)) b 14 =
      map (gprs m) [R11, R10, R9, R8, RDI, RSI, RDX, RCX, RAX] @ quads (mem m) (b + 72) 5"
  using assms by (simp_all add: interrupt_save_def quads_unroll_interrupt add.assoc)

lemma interrupt_restore_effect:
  assumes "rsp m = b"
  shows "rsp (exec interrupt_restore m) = b + 72" "mem (exec interrupt_restore m) = mem m"
    "gprs (exec interrupt_restore m) =
      (gprs m)(R11 := mem m b, R10 := mem m (b + 8), R9 := mem m (b + 16), R8 := mem m (b + 24), RDI := mem m (b + 32),
        RSI := mem m (b + 40), RDX := mem m (b + 48), RCX := mem m (b + 56), RAX := mem m (b + 64))"
  using assms by (simp_all add: interrupt_restore_def ac_simps)

lemma interrupt_entry_regs:
  fixes m :: machine
  assumes "c_call 14 func (exec interrupt_save (deliver None m c))"
  shows "case interrupt_entry func (deliver None m c) of
    (m', c') \<Rightarrow> gpr_list m' = gpr_list m \<and> rsp m' = rsp m \<and> c' = c"
proof -
  define b where "b = (rsp m AND NOT 15) - 112"
  let ?d = "deliver None m c" and ?s = "exec interrupt_save (deliver None m c)"
  have "rsp m AND NOT 15 = (b + 72) + 40"
    by (simp add: b_def)
  note d = deliver_effect [OF this, of c]
  note s = interrupt_save_effect [OF d(1)]
  have regs: "list_all (\<lambda>r. gprs (func ?s) r = gprs m r) [R15, R14, R13, R12, RBX, RBP]" "rsp (func ?s) = b"
    and "quads (mem (func ?s)) b 14 =
      map (gprs m) [R11, R10, R9, R8, RDI, RSI, RDX, RCX, RAX] @ [c_rip c, c_cs c, c_rflags c, rsp m, c_ss c]"
    using assms unfolding c_call_def s d(2,3) by simp_all
  note f = this(3) [unfolded quads_unroll_interrupt list.map append.simps list.inject]
  have f1: "rsp (func ?s) = b" "mem (func ?s) b = gprs m R11" "mem (func ?s) (b + 8) = gprs m R10"
    "mem (func ?s) (b + 16) = gprs m R9" "mem (func ?s) (b + 24) = gprs m R8" "mem (func ?s) (b + 32) = gprs m RDI"
    "mem (func ?s) (b + 40) = gprs m RSI" "mem (func ?s) (b + 48) = gprs m RDX" "mem (func ?s) (b + 56) = gprs m RCX"
    "mem (func ?s) (b + 64) = gprs m RAX" "mem (func ?s) (b + 72) = c_rip c" "mem (func ?s) (b + 80) = c_cs c"
    "mem (func ?s) (b + 88) = c_rflags c" "mem (func ?s) (b + 96) = rsp m" "mem (func ?s) (b + 104) = c_ss c"
    "gprs (func ?s) R15 = gprs m R15" "gprs (func ?s) R14 = gprs m R14" "gprs (func ?s) R13 = gprs m R13"
    "gprs (func ?s) R12 = gprs m R12" "gprs (func ?s) RBX = gprs m RBX" "gprs (func ?s) RBP = gprs m RBP"
    using f regs by simp_all
  show ?thesis
    by (simp add: interrupt_entry_def iretq_def interrupt_restore_effect [OF f1(1)] f1 [unfolded One_nat_def] gpr_list_unroll add.assoc)
qed

text \<open>C19. An interrupt or NMI is transparent to the code it interrupts: with a handler that follows the
  calling convention, all general registers, the stack pointer - aligned or not -, instruction pointer,
  flags and segments are after \<open>iretq\<close> what they were.\<close>

theorem interrupt_entry_transparent:
  fixes m :: machine
  assumes "c_call 14 func (exec interrupt_save (deliver None m c))"
  shows "case interrupt_entry func (deliver None m c) of
    (m', c') \<Rightarrow> gpr_list m' = gpr_list m \<and> rsp m' = rsp m \<and> c' = c"
  using assms by (rule interrupt_entry_regs)


subsection \<open>VM exits\<close>

text \<open>An exit handler that works on \<open>guest_regs\<close>, as the function \<open>f\<close> on the record does, when it is
  called with the registers at the stack pointer.\<close>

definition handles_guest_regs :: "(machine \<Rightarrow> machine) \<Rightarrow> (per_cpu \<Rightarrow> per_cpu) \<Rightarrow> per_cpu \<Rightarrow> machine \<Rightarrow> bool" where
  "handles_guest_regs handler f cpu m \<longleftrightarrow> rsp (handler m) = rsp m \<and>
     quads (mem (handler m)) (rsp m) 16 = guest_regs (f (cpu\<lparr>guest_regs := quads (mem m) (rsp m) 16\<rparr>))"

text \<open>The guest's registers as an exit leaves them in \<open>guest_regs\<close>: the field \<open>unused\<close> is old stack.\<close>

definition exit_regs :: "machine \<Rightarrow> u64 list" where
  "exit_regs m = map (gprs m) [0..<11] @ [mem m (rsp m - 40)] @ map (gprs m) [12..<16]"

lemma exit_regs_unroll:
  "exit_regs m = [gprs m 0, gprs m 1, gprs m 2, gprs m 3, gprs m 4, gprs m 5, gprs m 6, gprs m 7, gprs m 8, gprs m 9,
     gprs m 10, mem m (rsp m - 40), gprs m 12, gprs m 13, gprs m 14, gprs m 15]"
  by (simp add: exit_regs_def upt_rec numeral_nat)

lemma vmexit_save_quads:
  assumes "rsp m = b + 128"
  shows "quads (mem (exec vmexit_save m)) b 16 = exit_regs m"
  using assms by (simp add: vmexit_save_def quads_unroll exit_regs_unroll) (simp add: add.commute)

lemma vmx_vmexit_regs:
  assumes "handles_guest_regs handler f cpu (exec vmexit_save m)"
  defines "regs \<equiv> guest_regs (f (cpu\<lparr>guest_regs := exit_regs m\<rparr>))"
  shows "gpr_list (vmx_vmexit handler m) = take 11 regs @ drop 12 regs" "rsp (vmx_vmexit handler m) = rsp m"
proof -
  define b where "b = rsp m - 128"
  have "rsp m = b + 128"
    by (simp add: b_def)
  note s = vmexit_save_quads [OF this] vmexit_save_effect(1) [OF this]
  have h: "rsp (handler (exec vmexit_save m)) = b" "quads (mem (handler (exec vmexit_save m))) b 16 = regs"
    using assms(1) unfolding handles_guest_regs_def s regs_def by simp_all
  show "gpr_list (vmx_vmexit handler m) = take 11 regs @ drop 12 regs"
    unfolding vmx_vmexit_def vmexit_restore_effect h used_quads_def ..
  show "rsp (vmx_vmexit handler m) = rsp m"
    unfolding vmx_vmexit_def vmexit_restore_effect h by (simp add: b_def)
qed

lemma take_drop_update:
  "take 11 (xs[15 := v]) @ drop 12 (xs[15 := v]) = (take 11 xs @ drop 12 xs)[14 := v]" if "length xs = 16"
  using that by (simp add: take_update_swap drop_update_swap list_update_append list_update_beyond)

lemma exit_regs_used: "take 11 (exit_regs m) @ drop 12 (exit_regs m) = gpr_list m"
  by (simp add: exit_regs_unroll gpr_list_unroll)

lemma exit_regs_reads:
  "length (exit_regs m) = 16" "exit_regs m ! RAX = gprs m RAX" "exit_regs m ! RDI = gprs m RDI"
  "exit_regs m ! RSI = gprs m RSI"
  by (simp_all add: exit_regs_unroll)

lemma exit_regs_update:
  "take 11 ((exit_regs m)[RAX := v]) @ drop 12 ((exit_regs m)[RAX := v]) = (gpr_list m)[14 := v]"
  using take_drop_update [OF exit_regs_reads(1)] exit_regs_used by simp

lemma exit_regs_of:
  "guest_regs (cpu\<lparr>guest_regs := exit_regs m\<rparr>) = exit_regs m" "reg_of (cpu\<lparr>guest_regs := exit_regs m\<rparr>) RAX = gprs m RAX"
  "reg_of (cpu\<lparr>guest_regs := exit_regs m\<rparr>) RDI = gprs m RDI" "reg_of (cpu\<lparr>guest_regs := exit_regs m\<rparr>) RSI = gprs m RSI"
  by (simp_all add: reg_of_def exit_regs_reads)

lemma hypercall_reads_vmcs:
  "hypercall_denied (cpu\<lparr>guest_regs := regs\<rparr>) = hypercall_denied cpu"
  "vcpu_long_mode (cpu\<lparr>guest_regs := regs\<rparr>) = vcpu_long_mode cpu"
  by (simp_all add: hypercall_denied_def vcpu_long_mode_def vcpu_vendor_get_efer_def vcpu_vendor_get_cs_attr_def
      vcpu_vendor_get_rflags_def)

lemma vcpu_handle_hypercall_regs:
  assumes "\<And>code a b c. guest_regs (snd (ext_hypercall ext code a b c)) = guest_regs c"
  defines "msk \<equiv> (\<lambda>cpu. if vcpu_long_mode cpu then - 1 else 0xffffffff :: u64)"
  shows "guest_regs (snd (vcpu_handle_hypercall env ext cpu)) = (guest_regs cpu)[RAX :=
    if hypercall_denied cpu then - 1
    else fst (ext_hypercall ext (reg_of cpu RAX) (reg_of cpu RDI AND msk cpu) (reg_of cpu RSI AND msk cpu)
           (vcpu_skip_emulated_instruction env X86_INST_LEN_HYPERCALL cpu))]"
proof -
  have skip: "reg_of (vcpu_skip_emulated_instruction env n cpu) r = reg_of cpu r"
    "guest_regs (vcpu_skip_emulated_instruction env n cpu) = guest_regs cpu" for n r
    by (simp_all add: vcpu_skip_emulated_instruction_def reg_of_def)
  have upd: "guest_regs (c\<lparr>guest_regs := x\<rparr>) = x" for c :: per_cpu and x
    by simp
  show ?thesis
    unfolding vcpu_handle_hypercall_def Let_def msk_def
    by (cases "hypercall_denied cpu") (simp_all only: if_True if_False case_prod_unfold snd_conv fst_conv set_reg_def
      upd assms(1) skip simp_thms)
qed

lemma vcpu_handle_hypercall_vmcs:
  assumes "\<And>code a b c. vmcs (snd (ext_hypercall ext code a b c)) = vmcs c"
  shows "vmcs (snd (vcpu_handle_hypercall env ext cpu)) = vmcs (vcpu_skip_emulated_instruction env X86_INST_LEN_HYPERCALL cpu)"
proof -
  have upd: "vmcs (c\<lparr>guest_regs := x\<rparr>) = vmcs c" for c :: per_cpu and x
    by simp
  show ?thesis
    unfolding vcpu_handle_hypercall_def Let_def
    by (cases "hypercall_denied cpu") (simp_all only: if_True if_False case_prod_unfold snd_conv set_reg_def upd assms)
qed

text \<open>C12. A hypercall from the guest's point of view, from the \<open>vmcall\<close> through \<open>vmx_vmexit\<close> and
  \<open>vcpu_handle_hypercall\<close> to \<open>vmresume\<close>: the code runs with the caller's \<open>rax\<close>, \<open>rdi\<close> and \<open>rsi\<close>, cut to
  32 bits outside long mode; \<open>rax\<close> receives its result, or -EPERM if the caller may not use it, and all
  other registers are as they were. The registers were saved where \<open>this_cpu_data()->guest_regs\<close> is, and
  the handler is called with that structure's address.\<close>

theorem guest_hypercall_registers:
  assumes "handles_guest_regs handler (\<lambda>c. snd (vcpu_handle_hypercall env ext c)) cpu (exec vmexit_save m)"
    and "\<And>code a b c. guest_regs (snd (ext_hypercall ext code a b c)) = guest_regs c"
    and "rsp m = this_cpu_data + STACK_SIZE"
  shows "let msk = (if vcpu_long_mode cpu then - 1 else 0xffffffff);
      res = fst (ext_hypercall ext (gprs m RAX) (gprs m RDI AND msk) (gprs m RSI AND msk)
        (vcpu_skip_emulated_instruction env X86_INST_LEN_HYPERCALL (cpu\<lparr>guest_regs := exit_regs m\<rparr>)))
    in gpr_list (vmx_vmexit handler m) = (gpr_list m)[14 := if hypercall_denied cpu then - 1 else res] \<and>
      rsp (vmx_vmexit handler m) = rsp m \<and>
      used_quads (mem (exec vmexit_save m)) (this_cpu_data + guest_regs_offset) = gpr_list m \<and>
      gprs (exec vmexit_save m) RDI = this_cpu_data"
proof -
  have "rsp m = (this_cpu_data + guest_regs_offset) + 128"
    using assms(3) by (simp add: guest_regs_offset_def)
  note save = vmexit_save_effect [OF this]
  note regs = vmx_vmexit_regs [OF assms(1), unfolded vcpu_handle_hypercall_regs [OF assms(2)] hypercall_reads_vmcs]
  show ?thesis
    using save(2,3) unfolding Let_def regs exit_regs_of exit_regs_update by (simp add: this_cpu_data_def)
qed

subsection \<open>Back to Linux\<close>

lemma deactivate_return_effect:
  "fst (deactivate_return sp ip a m) = ip" "rsp (snd (deactivate_return sp ip a m)) = sp + 8"
  "gpr_list (snd (deactivate_return sp ip a m)) = (used_quads ((mem m)(sp := ip)) a)[14 := 0]"
  by (simp_all add: deactivate_return_def ret_insn_def deactivate_pops_def used_quads_unroll gpr_list_unroll ac_simps)

lemma quads_cong:
  "(\<And>i. i < n \<Longrightarrow> mm (a + 8 * of_nat i) = mm' (a + 8 * of_nat i)) \<Longrightarrow> quads mm a n = quads mm' a n"
  by (simp add: quads_def)

text \<open>C10. The hypercall that disables the hypervisor is, for Linux, a call that returns 0: it continues
  behind the \<open>vmcall\<close> with its stack pointer and all registers but \<open>rax\<close> as they were. The registers are
  saved through the private mapping of the per-CPU stack by \<open>vmx_vmexit\<close>, and popped through the common one
  at the end of \<open>vcpu_deactivate_vmm\<close>; the word it pushes on the Linux stack must only not be among them.\<close>

theorem disable_hypercall_returns_to_linux:
  assumes "vcpu_handle_hypercall env ext (cpu\<lparr>guest_regs := exit_regs m\<rparr>) = (True, cpu1)"
    and "vcpu_deactivate_vmm cpu1 = (cpu2, msrs, sp, ip)"
    and "quads (mem k) (percpu_addr l cpu_id + guest_regs_offset) 16 = guest_regs cpu1"
    and "\<And>i. i < 16 \<Longrightarrow> sp \<noteq> percpu_addr l cpu_id + guest_regs_offset + 8 * of_nat i"
    and "\<And>f. vmwrite_ok env f"
    and "\<And>code a b c. guest_regs (snd (ext_hypercall ext code a b c)) = guest_regs c \<and>
           vmcs (snd (ext_hypercall ext code a b c)) = vmcs c"
  shows "case deactivate_return sp ip (percpu_addr l cpu_id + guest_regs_offset) k of
    (rip, m') \<Rightarrow> rip = vmcs cpu GUEST_RIP + 3 \<and> rsp m' = vmcs cpu GUEST_RSP \<and> gpr_list m' = (gpr_list m)[14 := 0]"
proof -
  let ?a = "percpu_addr l cpu_id + guest_regs_offset" and ?c = "cpu\<lparr>guest_regs := exit_regs m\<rparr>"
  have ext: "guest_regs (snd (ext_hypercall ext code a b c)) = guest_regs c"
    "vmcs (snd (ext_hypercall ext code a b c)) = vmcs c" for code a b c
    using assms(6) by blast+
  have cpu1: "cpu1 = snd (vcpu_handle_hypercall env ext ?c)"
    using assms(1) by simp
  obtain v where v: "guest_regs cpu1 = (exit_regs m)[RAX := v]"
    unfolding cpu1 vcpu_handle_hypercall_regs [OF ext(1)] by simp
  have "vmcs cpu1 = vmcs (vcpu_skip_emulated_instruction env X86_INST_LEN_HYPERCALL ?c)"
    unfolding cpu1 by (rule vcpu_handle_hypercall_vmcs) (rule ext)
  also have "\<dots> = (vmcs cpu)(GUEST_RIP := vmcs cpu GUEST_RIP + 3)"
    using assms(5) by (simp add: vcpu_skip_emulated_instruction_def vmcs_write64_def)
  finally have "sp = vmcs cpu GUEST_RSP - 8" "ip = vmcs cpu GUEST_RIP + 3"
    using assms(2) by (auto simp: vcpu_deactivate_vmm_def Let_def)
  moreover have "quads ((mem k)(sp := ip)) ?a 16 = (exit_regs m)[RAX := v]"
    unfolding v [symmetric] assms(3) [symmetric] using assms(4) by (intro quads_cong) auto
  then have "used_quads ((mem k)(sp := ip)) ?a = (gpr_list m)[14 := v]"
    unfolding used_quads_def by (simp only: exit_regs_update)
  ultimately show ?thesis
    by (simp add: case_prod_unfold deactivate_return_effect)
qed

subsection \<open>The two ways back from \<open>arch_entry\<close>\<close>

text \<open>What \<open>entry\<close> is called with: the CPU number and the per-CPU region; its stack is that of the region;
  \<open>linux_sp\<close> is stored there and points to the six saved registers, with the return address behind.\<close>

definition entry_call :: "percpu_layout \<Rightarrow> machine \<Rightarrow> machine" where
  "entry_call l m = exec (arch_entry_save @ arch_entry_switch l) m"

text \<open>The words of the Linux stack that are read again must not be those that are written in the region.\<close>

definition linux_stack_apart :: "percpu_layout \<Rightarrow> u64 \<Rightarrow> u64 \<Rightarrow> bool" where
  "linux_stack_apart l p s \<longleftrightarrow> PERCPU_LINUX_SP l \<noteq> STACK_SIZE - 16 \<and>
     list_all (\<lambda>n. s + n \<noteq> p + PERCPU_LINUX_SP l \<and> s + n \<noteq> p + (STACK_SIZE - 16)) [0, 8, 16, 24, 32, 40, 48]"

lemma entry_call_effect:
  assumes "percpu_addr l cpu = p" "gprs m RDI = ucast cpu" "rsp m = s + 48" "linux_stack_apart l p s"
  shows "gprs (entry_call l m) RDI = ucast cpu" "gprs (entry_call l m) RSI = p"
    "rsp (entry_call l m) = p + (STACK_SIZE - 16)" "mem (entry_call l m) (p + (STACK_SIZE - 16)) = p"
    "mem (entry_call l m) (p + PERCPU_LINUX_SP l) = s"
    "quads (mem (entry_call l m)) s 7 = map (gprs m) [R15, R14, R13, R12, RBX, RBP] @ [mem m (s + 48)]"
proof -
  have p: "ucast cpu * sizeof_per_cpu l + page_pool l = p"
    using assms(1) by (simp add: percpu_addr_def add.commute)
  note defs = entry_call_def arch_entry_save_def arch_entry_switch_def PERCPU_STACK_END_def
  show "gprs (entry_call l m) RDI = ucast cpu" "gprs (entry_call l m) RSI = p"
    "rsp (entry_call l m) = p + (STACK_SIZE - 16)" "mem (entry_call l m) (p + (STACK_SIZE - 16)) = p"
    "mem (entry_call l m) (p + PERCPU_LINUX_SP l) = s"
    using assms(2-4) p by (simp_all add: defs linux_stack_apart_def)
  show "quads (mem (entry_call l m)) s 7 = map (gprs m) [R15, R14, R13, R12, RBX, RBP] @ [mem m (s + 48)]"
    using assms(2-4) p by (simp add: defs linux_stack_apart_def quads_unroll) (auto simp: add.commute)
qed

text \<open>The error path, for a function \<open>entry\<close> that returns with its caller's stack and the saved words intact.\<close>

lemma arch_entry_error:
  assumes "percpu_addr l cpu = p" "gprs m RDI = ucast cpu" "rsp m = s + 48" "linux_stack_apart l p s"
    and "rsp (entry (entry_call l m)) = rsp (entry_call l m)"
    and "\<And>a. a \<in> {p + (STACK_SIZE - 16), p + PERCPU_LINUX_SP l} \<Longrightarrow> mem (entry (entry_call l m)) a = mem (entry_call l m) a"
    and "quads (mem (entry (entry_call l m))) s 7 = quads (mem (entry_call l m)) s 7"
  shows "fst (arch_entry l entry m) = mem m (s + 48)" "rsp (snd (arch_entry l entry m)) = s + 56"
    "gprs (snd (arch_entry l entry m)) RAX = gprs (entry (entry_call l m)) RAX"
    "list_all (\<lambda>r. gprs (snd (arch_entry l entry m)) r = gprs m r) [R15, R14, R13, R12, RBX, RBP]"
proof -
  let ?e = "entry (entry_call l m)"
  note call = entry_call_effect [OF assms(1-4)]
  have e: "rsp ?e = p + (STACK_SIZE - 16)" "mem ?e (p + (STACK_SIZE - 16)) = p" "mem ?e (p + PERCPU_LINUX_SP l) = s"
    using assms(5,6) call(3-5) by auto
  have "quads (mem ?e) s 7 = map (gprs m) [R15, R14, R13, R12, RBX, RBP] @ [mem m (s + 48)]"
    using assms(7) call(6) by simp
  note q = this [unfolded quads_unroll list.map append.simps list.inject, unfolded One_nat_def]
  have "arch_entry l entry m = ret_insn (exec (arch_entry_return l) ?e)"
    by (simp add: arch_entry_def entry_call_def)
  then show "fst (arch_entry l entry m) = mem m (s + 48)" "rsp (snd (arch_entry l entry m)) = s + 56"
    "gprs (snd (arch_entry l entry m)) RAX = gprs ?e RAX"
    "list_all (\<lambda>r. gprs (snd (arch_entry l entry m)) r = gprs m r) [R15, R14, R13, R12, RBX, RBP]"
    using e q by (simp_all add: ret_insn_def arch_entry_return_def add.commute)
qed

text \<open>The success path: what \<open>arch_cpu_init\<close> saves is what the guest is started with.\<close>

lemma vmcs_setup_start:
  assumes "\<And>f. vmwrite_ok env f" "vmcs_setup env lim cpu = (True, cpu')"
  shows "vmcs cpu' GUEST_RIP = linux_ip cpu" "vmcs cpu' GUEST_RSP = linux_sp cpu + 56"
proof -
  let ?m = "fold (\<lambda>(f, v) m. m(f := v)) (host_writes env @ guest_writes env lim cpu @ control_writes env lim) (vmcs cpu)"
  have "vmcs cpu' = ?m"
    using assms(2) by (auto simp: vmcs_setup_def vmcs_writes_all_ok [OF assms(1)])
  moreover have "?m GUEST_RIP = linux_ip cpu" "?m GUEST_RSP = linux_sp cpu + 56"
    unfolding fold_writes_lookup write_lists Let_def by (simp_all add: seg_offsets)
  ultimately show "vmcs cpu' GUEST_RIP = linux_ip cpu" "vmcs cpu' GUEST_RSP = linux_sp cpu + 56"
    by simp_all
qed

lemma arch_cpu_init_start:
  assumes "arch_cpu_init se lim gdt cd h = Some (None, lim', gdt', cd', h')" "gdt_ok gdt" "\<And>f. vmwrite_ok (se_vmx se) f"
  shows "vmcs (cd_cpu cd') GUEST_RIP = linux_mem se (linux_sp (cd_cpu cd) + 48)"
    "vmcs (cd_cpu cd') GUEST_RSP = linux_sp (cd_cpu cd) + 56"
    "linux_reg cd' = quads (linux_mem se) (linux_sp (cd_cpu cd)) 6"
proof -
  let ?T = "taken_over se h (cd_cpu cd)"
  have "unat (st_tr h) div 8 < 16"
    using assms(1) by (auto simp: arch_cpu_init_def Let_def read_descriptor_def split: if_splits)
  then obtain k hw hw' where "vcpu_init (host_vmx_env (se_vmx se) k) (se_ops se) lim ?T hw = (None, lim', cd_cpu cd', hw')"
    using arch_cpu_init_result [OF assms(2), of h se lim cd] assms(1) by auto
  from vcpu_init_success(2) [OF this] obtain m where
    "vmcs_setup (host_vmx_env (se_vmx se) k) lim' (?T\<lparr>vmx_state := VMCS_READY\<rparr>) = (True, cd_cpu cd')"
    by auto
  from vmcs_setup_start [OF _ this] show "vmcs (cd_cpu cd') GUEST_RIP = linux_mem se (linux_sp (cd_cpu cd) + 48)"
    "vmcs (cd_cpu cd') GUEST_RSP = linux_sp (cd_cpu cd) + 56"
    using assms(3) by (simp_all add: host_vmx_env_def)
  show "linux_reg cd' = quads (linux_mem se) (linux_sp (cd_cpu cd)) 6"
    using assms(1) by (auto simp: arch_cpu_init_def quads_def Let_def save_control_def save_segments_def
        split: if_splits option.splits prod.splits)
qed

lemma activate_effect:
  "fst (vcpu_activate_vmm a v m) = v GUEST_RIP" "rsp (snd (vcpu_activate_vmm a v m)) = v GUEST_RSP"
  "gprs (snd (vcpu_activate_vmm a v m)) RAX = 0"
  "map (gprs (snd (vcpu_activate_vmm a v m))) [R15, R14, R13, R12, RBX, RBP] = quads (mem m) a 6"
  by (simp_all add: vcpu_activate_vmm_def activate_loads_def quads_unroll Let_def)

text \<open>The offset is that of the structure, and the stack stays in the region of the CPU.\<close>

lemma linux_reg_offset:
  "vmcb_ok v \<Longrightarrow> offsetof (per_cpu_t v) [''linux_reg''] = Some (unat linux_reg_offset, CArray u64_t 6)"
  by (simp add: per_cpu_tail per_cpu_head map_add_def linux_reg_offset_def)

lemma arch_cpu_activate_stack:
  "arch_cpu_activate_vmm l cpu g v (m\<lparr>rsp := percpu_addr l cpu + x\<rparr>) =
     vcpu_activate_vmm (this_cpu_data + linux_reg_offset) v (g (m\<lparr>rsp := this_cpu_data + x\<rparr>))"
  by (simp add: arch_cpu_activate_vmm_def private_stack)

text \<open>\<open>set_cs\<close> changes the segment and \<open>rax\<close>, and writes nothing but the two quadwords below the stack.\<close>

lemma set_cs_effect:
  "\<exists>k. set_cs cs_quad next m =
     (next, ucast cs_quad, m\<lparr>gprs := (gprs m)(RAX := next), mem := k\<rparr>) \<and>
     (\<forall>a. a \<noteq> rsp m - 8 \<longrightarrow> a \<noteq> rsp m - 16 \<longrightarrow> k a = mem m a)"
  by (rule exI [of _ "(mem m)(rsp m - 8 := cs_quad, rsp m - 16 := next)"]) (simp add: set_cs_def lretq_def)

text \<open>C8. The caller of \<open>arch_entry\<close> cannot tell, but by \<open>rax\<close>, whether the hypervisor is on. If \<open>entry\<close>
  returns with an error, the assembly goes back to it; if not, \<open>arch_cpu_init\<close> reads the saved words of the
  Linux stack through \<open>linux_sp\<close>, \<open>vmcs_setup\<close> writes them into the VMCS, \<open>arch_cpu_activate_vmm\<close> moves
  the stack to the private mapping and loads the registers through it, and Linux runs as a guest. Both ways execution continues at the return address, with the
  stack pointer behind it and the callee-saved registers as at the call; \<open>rax\<close> is 0 in the guest and the
  result of \<open>entry\<close> in the other case.\<close>

theorem arch_entry_paths_agree:
  assumes "gprs m RDI = ucast cpu" "rsp m = s + 48" "linux_stack_apart l (percpu_addr l cpu) s"
    and "arch_cpu_init se lim gdt cd h = Some (None, lim', gdt', cd', h')" "gdt_ok gdt" "\<And>f. vmwrite_ok (se_vmx se) f"
    and "linux_sp (cd_cpu cd) = mem (entry_call l m) (percpu_addr l cpu + PERCPU_LINUX_SP l)"
    and "quads (linux_mem se) s 7 = quads (mem (entry_call l m)) s 7"
    and "quads (mem (map_all (k\<lparr>rsp := to_private_stack l cpu (rsp k)\<rparr>))) (this_cpu_data + linux_reg_offset) 6 = linux_reg cd'"
    and "rsp (entry (entry_call l m)) = rsp (entry_call l m)"
    and "\<And>a. a \<in> {percpu_addr l cpu + (STACK_SIZE - 16), percpu_addr l cpu + PERCPU_LINUX_SP l} \<Longrightarrow>
      mem (entry (entry_call l m)) a = mem (entry_call l m) a"
    and "quads (mem (entry (entry_call l m))) s 7 = quads (mem (entry_call l m)) s 7"
  shows "case (arch_cpu_activate_vmm l cpu map_all (vmcs (cd_cpu cd')) k, arch_entry l entry m) of ((rip, g), (rip', e)) \<Rightarrow>
    rip = mem m (s + 48) \<and> rip' = rip \<and> rsp g = s + 56 \<and> rsp e = rsp g \<and>
    list_all (\<lambda>r. gprs g r = gprs m r \<and> gprs e r = gprs m r) [R15, R14, R13, R12, RBX, RBP] \<and>
    gprs g RAX = 0 \<and> gprs e RAX = gprs (entry (entry_call l m)) RAX"
proof -
  note call = entry_call_effect [OF refl assms(1-3)]
  note err = arch_entry_error [of l cpu _ m s entry, OF refl assms(1-3,10-12)]
  note start = arch_cpu_init_start [OF assms(4-6)]
  note q = trans [OF assms(8) call(6), unfolded quads_unroll list.map append.simps list.inject]
  have "linux_sp (cd_cpu cd) = s"
    using assms(7) call(5) by simp
  moreover let ?k = "map_all (k\<lparr>rsp := to_private_stack l cpu (rsp k)\<rparr>)"
  have "quads (mem ?k) (this_cpu_data + linux_reg_offset) 6 = map (gprs m) [R15, R14, R13, R12, RBX, RBP]"
    using assms(9) start(3) q calculation by (simp add: quads_unroll)
  ultimately show ?thesis
    using err start(1,2) q activate_effect [of "this_cpu_data + linux_reg_offset" "vmcs (cd_cpu cd')" ?k]
    by (simp add: case_prod_unfold arch_cpu_activate_vmm_def)
qed

subsection \<open>Examples\<close>

definition demo_machine :: machine where
  "demo_machine = \<lparr>gprs = \<lambda>r. of_nat (1000 + r), rsp = 0x7ffd, mem = \<lambda>_. 0\<rparr>"

definition demo_control :: control_regs where
  "demo_control = \<lparr>c_rip = 0x401000, c_cs = 0x10, c_rflags = 0x202, c_ss = 0x18\<rparr>"

theorem exception_gates_lead_to_frame_witness:
  "\<exists>t. set_exception_gates [0..<NUM_EXCP_DESC] 0xfffffff0f0001000 (replicate 1024 0) = Some t \<and>
     idt_gate t 14 = Some (8, 0x8e00, 0xfffffff0f00010d0) \<and>
     (let m' = exec (exception_entry_code (Error_Entry 14)) (deliver (Some 2) demo_machine demo_control)
      in quads (mem m') (rsp m') 7 = [14, 2, 0x401000, 0x10, 0x202, 0x7ffd, 0x18])"
proof -
  have "exception_stub_vectors ! 13 = 14" "exception_stubs ! 13 = Error_Entry 14"
    by (simp_all add: stub_vectors exception_stubs_def)
  then show ?thesis
    using exception_gates_lead_to_frame [of "replicate 1024 0" 13 "0xfffffff0f0001000" 2 demo_machine demo_control]
    by (auto simp: idt_ok_def demo_control_def demo_machine_def Let_def)
qed

text \<open>A handler that overwrites what the calling convention lets it overwrite.\<close>

definition demo_func :: "machine \<Rightarrow> machine" where
  "demo_func m = m\<lparr>gprs := (gprs m)(RAX := 7, RDI := 8, R11 := 9), mem := (mem m)(rsp m - 8 := 5)\<rparr>"

theorem interrupt_entry_transparent_witness:
  "case interrupt_entry demo_func (deliver None demo_machine demo_control) of
    (m', c') \<Rightarrow> gpr_list m' = gpr_list demo_machine \<and> rsp m' = 0x7ffd \<and> c' = demo_control"
proof -
  have "c_call 14 demo_func (exec interrupt_save (deliver None demo_machine demo_control))"
    by code_simp
  from interrupt_entry_transparent [OF this] show ?thesis
    by (simp add: demo_machine_def case_prod_unfold)
qed

text \<open>A guest that makes hypercall 1, with a handler that is given by what it does to the registers.\<close>

definition demo_ext_1 :: vcpu_ext where
  "demo_ext_1 = undefined\<lparr>ext_hypercall := \<lambda>code a b c. (code + a + b, c)\<rparr>"

definition demo_caller :: machine where
  "demo_caller = \<lparr>gprs = (\<lambda>r. of_nat (1000 + r))(RAX := 1, RDI := 20, RSI := 300),
     rsp = this_cpu_data + STACK_SIZE, mem = \<lambda>_. 0\<rparr>"

definition put_quads :: "u64 \<Rightarrow> u64 list \<Rightarrow> (u64 \<Rightarrow> u64) \<Rightarrow> u64 \<Rightarrow> u64" where
  "put_quads a xs mm = (\<lambda>x. if unat (x - a) div 8 < length xs \<and> unat (x - a) mod 8 = 0
     then xs ! (unat (x - a) div 8) else mm x)"

lemma put_quads: "length xs = 16 \<Longrightarrow> quads (put_quads a xs mm) a 16 = xs"
  by (rule nth_equalityI) (simp_all add: quads_def put_quads_def unat_word_ariths unsigned_of_nat take_bit_eq_mod)

definition demo_handler :: "machine \<Rightarrow> machine" where
  "demo_handler m = m\<lparr>mem := put_quads (rsp m)
     (guest_regs (snd (vcpu_handle_hypercall demo_env demo_ext_1 (demo_cpu\<lparr>guest_regs := quads (mem m) (rsp m) 16\<rparr>))))
     (mem m)\<rparr>"

theorem guest_hypercall_registers_witness:
  "gpr_list (vmx_vmexit demo_handler demo_caller) = (gpr_list demo_caller)[14 := 321]"
proof -
  have ext: "guest_regs (snd (ext_hypercall demo_ext_1 code a b c)) = guest_regs c" for code a b c
    by (simp add: demo_ext_1_def)
  have "handles_guest_regs demo_handler (\<lambda>c. snd (vcpu_handle_hypercall demo_env demo_ext_1 c)) demo_cpu (exec vmexit_save demo_caller)"
    unfolding handles_guest_regs_def demo_handler_def
    by (simp add: put_quads vcpu_handle_hypercall_regs [OF ext])
  note call = guest_hypercall_registers [OF this ext, unfolded Let_def, THEN conjunct1]
  have "\<not> hypercall_denied demo_cpu" "\<not> vcpu_long_mode demo_cpu"
    by code_simp+
  then show ?thesis
    using call by (simp add: demo_caller_def demo_ext_1_def)
qed

text \<open>CPU 3 leaves the hypervisor.\<close>

definition demo_leaving :: per_cpu where
  "demo_leaving = demo_cpu\<lparr>vmcs := (\<lambda>_. 0)(GUEST_RIP := 0x401000, GUEST_RSP := 0x7fff0000),
     guest_regs := exit_regs (demo_caller\<lparr>gprs := (gprs demo_caller)(RAX := SPY_HC_DISABLE)\<rparr>)\<rparr>"

definition demo_ext_disable :: vcpu_ext where
  "demo_ext_disable = demo_ext_1\<lparr>ext_hypercall := \<lambda>code a b c. (0, c)\<rparr>"

definition demo_common_regs :: u64 where
  "demo_common_regs = percpu_addr demo_layout 3 + guest_regs_offset"

definition demo_left :: machine where
  "demo_left = demo_machine\<lparr>mem := put_quads demo_common_regs
     (guest_regs (snd (vcpu_handle_hypercall demo_env demo_ext_disable demo_leaving))) (\<lambda>_. 0)\<rparr>"

theorem disable_hypercall_returns_to_linux_witness:
  "case deactivate_return (0x7fff0000 - 8) 0x401003 demo_common_regs demo_left of
    (rip, m') \<Rightarrow> rip = 0x401003 \<and> rsp m' = 0x7fff0000 \<and> gpr_list m' = (gpr_list demo_caller)[14 := 0]"
proof -
  let ?m = "demo_caller\<lparr>gprs := (gprs demo_caller)(RAX := SPY_HC_DISABLE)\<rparr>"
  let ?c = "demo_cpu\<lparr>vmcs := (\<lambda>_. 0)(GUEST_RIP := 0x401000, GUEST_RSP := 0x7fff0000)\<rparr>"
  have c: "demo_leaving = ?c\<lparr>guest_regs := exit_regs ?m\<rparr>"
    by (simp add: demo_leaving_def)
  have ext: "guest_regs (snd (ext_hypercall demo_ext_disable code a b c)) = guest_regs c \<and>
      vmcs (snd (ext_hypercall demo_ext_disable code a b c)) = vmcs c" for code a b c
    by (simp add: demo_ext_disable_def)
  note ext' = ext [THEN conjunct1] ext [THEN conjunct2]
  have "\<not> hypercall_denied demo_leaving" "reg_of demo_leaving RAX = 0"
    by code_simp+
  then have "fst (vcpu_handle_hypercall demo_env demo_ext_disable demo_leaving)"
    by (simp add: vcpu_handle_hypercall_def demo_ext_disable_def Let_def)
  then obtain cpu1 where h: "vcpu_handle_hypercall demo_env demo_ext_disable demo_leaving = (True, cpu1)"
    by (metis prod.collapse)
  obtain cpu2 msrs where d: "vcpu_deactivate_vmm cpu1 = (cpu2, msrs, 0x7fff0000 - 8, 0x401003)"
    using vcpu_handle_hypercall_vmcs [of demo_ext_disable demo_env demo_leaving, OF ext'(2)] h
    by (simp add: vcpu_deactivate_vmm_def Let_def c vcpu_skip_emulated_instruction_def vmcs_write64_def demo_env_def)
  have len: "length (guest_regs cpu1) = 16"
    using vcpu_handle_hypercall_regs [of demo_ext_disable demo_env demo_leaving, OF ext'(1)] h
    by (simp add: c exit_regs_reads)
  have q: "quads (mem demo_left) (percpu_addr demo_layout 3 + guest_regs_offset) 16 = guest_regs cpu1"
    using put_quads [OF len] h by (simp add: demo_left_def demo_common_regs_def)
  have apart: "0x7fff0000 - 8 \<noteq> percpu_addr demo_layout 3 + guest_regs_offset + 8 * of_nat i" if "i < 16" for i
  proof
    assume "0x7fff0000 - 8 = percpu_addr demo_layout 3 + guest_regs_offset + 8 * of_nat i"
    then have "8 * of_nat i = 0x7fff0000 - 8 - (percpu_addr demo_layout 3 + guest_regs_offset)"
      by (simp add: algebra_simps)
    then have "unat (of_nat (8 * i) :: u64) = unat (0x7fff0000 - 8 - (percpu_addr demo_layout 3 + guest_regs_offset))"
      by simp
    then show False
      using that by (simp add: unsigned_of_nat take_bit_nat_eq_self percpu_addr_def demo_layout_def spy_layout_def guest_regs_offset_def del: of_nat_mult)
  qed
  have ok: "vmwrite_ok demo_env f" for f
    by (simp add: demo_env_def)
  show ?thesis
    using disable_hypercall_returns_to_linux [OF h [unfolded c] d q apart ok ext]
    by (simp add: gpr_list_unroll demo_common_regs_def case_prod_unfold)
qed

text \<open>CPU 3 calls \<open>arch_entry\<close>; its Linux stack holds the return address 0x9000.\<close>

definition demo_entry_machine :: machine where
  "demo_entry_machine = \<lparr>gprs = (\<lambda>r. of_nat (1000 + r))(RDI := 3), rsp = 0x8030,
     mem = (\<lambda>_. 0)(0x8030 := 0x9000)\<rparr>"

definition demo_entry_env :: setup_env where
  "demo_entry_env = demo_setup_env\<lparr>linux_mem := (linux_mem demo_setup_env)(0x8000 := 1000, 0x8008 := 1001, 0x8010 := 1002,
     0x8018 := 1003, 0x8020 := 1012, 0x8028 := 1010)\<rparr>"

text \<open>An \<open>entry\<close> that fails: -22 in \<open>rax\<close>, and other registers overwritten.\<close>

definition demo_entry_fails :: "machine \<Rightarrow> machine" where
  "demo_entry_fails m = m\<lparr>gprs := (\<lambda>_. 0)(RAX := - 22)\<rparr>"

lemma demo_entry_init:
  "case arch_cpu_init demo_entry_env demo_boot_limits initial_gdt demo_cd demo_host of
     Some (None, lim, gdt, cd, h) \<Rightarrow> linux_reg cd = [1000, 1001, 1002, 1003, 1012, 1010] | _ \<Rightarrow> False"
  by code_simp

theorem arch_entry_paths_agree_witness:
  "\<exists>lim' gdt' cd' h'. arch_cpu_init demo_entry_env demo_boot_limits initial_gdt demo_cd demo_host = Some (None, lim', gdt', cd', h') \<and>
     (case (arch_cpu_activate_vmm demo_layout 3 id (vmcs (cd_cpu cd')) (demo_machine\<lparr>mem := (\<lambda>_. 0)(0x8000011038 := 1000, 0x8000011040 := 1001,
         0x8000011048 := 1002, 0x8000011050 := 1003, 0x8000011058 := 1012, 0x8000011060 := 1010)\<rparr>),
       arch_entry demo_layout demo_entry_fails demo_entry_machine) of ((rip, g), (rip', e)) \<Rightarrow>
     rip = 0x9000 \<and> rip' = 0x9000 \<and> gprs g R12 = 1003 \<and> gprs e R12 = 1003 \<and> gprs e RAX = - 22)"
proof -
  let ?k = "demo_machine\<lparr>mem := (\<lambda>_. 0)(0x8000011038 := 1000, 0x8000011040 := 1001, 0x8000011048 := 1002, 0x8000011050 := 1003,
    0x8000011058 := 1012, 0x8000011060 := 1010)\<rparr>"
  obtain lim' gdt' cd' h' where
    init: "arch_cpu_init demo_entry_env demo_boot_limits initial_gdt demo_cd demo_host = Some (None, lim', gdt', cd', h')"
    and regs: "linux_reg cd' = [1000, 1001, 1002, 1003, 1012, 1010]"
    using demo_entry_init by (auto split: option.splits prod.splits)
  have apart: "linux_stack_apart demo_layout (percpu_addr demo_layout 3) 0x8000"
    by code_simp
  have m: "gprs demo_entry_machine RDI = ucast (3 :: u32)" "rsp demo_entry_machine = 0x8000 + 48"
    by (simp_all add: demo_entry_machine_def)
  note call = entry_call_effect [OF refl m apart]
  have ok: "vmwrite_ok (se_vmx demo_entry_env) f" for f
    by (simp add: demo_entry_env_def demo_setup_env_def demo_env_def)
  have sp: "linux_sp (cd_cpu demo_cd) = mem (entry_call demo_layout demo_entry_machine) (percpu_addr demo_layout 3 + PERCPU_LINUX_SP demo_layout)"
    using call(5) by (simp add: demo_cd_def demo_cpu_def)
  have q: "quads (linux_mem demo_entry_env) 0x8000 7 = quads (mem (entry_call demo_layout demo_entry_machine)) 0x8000 7"
    unfolding call(6) by (simp add: quads_unroll demo_entry_env_def demo_setup_env_def demo_entry_machine_def)
  have k: "quads (mem (id (?k\<lparr>rsp := to_private_stack demo_layout 3 (rsp ?k)\<rparr>))) (this_cpu_data + linux_reg_offset) 6 = linux_reg cd'"
    by (simp add: regs quads_unroll linux_reg_offset_def this_cpu_data_def LOCAL_CPU_BASE_def)
  have e: "rsp (demo_entry_fails m) = rsp m" "mem (demo_entry_fails m) = mem m" "gprs (demo_entry_fails m) RAX = - 22" for m
    by (simp_all add: demo_entry_fails_def)
  show ?thesis
    using arch_entry_paths_agree [where entry = demo_entry_fails and map_all = id and k = ?k, OF m apart init initial_gdt_ok ok sp q k e(1), unfolded e(2)] init
    by (auto simp: demo_entry_machine_def e(3))
qed

end
