(* ===== verification/Spy_Restore_Lock.thy ===== *)
theory Spy_Restore_Lock
  imports Spy_Setup Spy_Spinlock
begin

text \<open>
  Several CPUs in \<open>arch_cpu_restore\<close>: the critical section under \<open>tss_lock\<close>, whose three accesses to the
  shared descriptor table interleave with those of the other CPUs and with the ticket lock of
  \<open>Spy_Spinlock\<close>. A general part treats a critical section under any exclusive lock.
\<close>

subsection \<open>Critical sections\<close>

text \<open>
  A CPU is outside with its local data, inside after a number of accesses, done, or has faulted. An
  access works on the local data and the shared data.
\<close>

datatype 'p section_pos = Outside 'p | Inside nat 'p | Done 'p | Fault 'p

type_synonym ('p, 'g) access = "'p \<times> 'g \<Rightarrow> ('p \<times> 'g) option"

fun run_accesses :: "('p, 'g) access list \<Rightarrow> 'p \<times> 'g \<Rightarrow> ('p \<times> 'g) option" where
  "run_accesses [] pg = Some pg"
| "run_accesses (f # fs) pg = (case f pg of None \<Rightarrow> None | Some pg \<Rightarrow> run_accesses fs pg)"

inductive section_step ::
  "('c \<Rightarrow> 'l \<Rightarrow> 'l \<Rightarrow> bool) \<Rightarrow> ('c \<Rightarrow> 'l \<Rightarrow> 'l \<Rightarrow> bool) \<Rightarrow> ('l \<Rightarrow> 'c \<Rightarrow> bool) \<Rightarrow> ('p, 'g) access list \<Rightarrow>
     'l \<times> 'g \<times> ('c \<Rightarrow> 'p section_pos) \<Rightarrow> 'l \<times> 'g \<times> ('c \<Rightarrow> 'p section_pos) \<Rightarrow> bool"
  for acquire release holds body where
  acquire: "pos c = Outside p \<Longrightarrow> acquire c l l' \<Longrightarrow>
    section_step acquire release holds body (l, g, pos)
      (l', g, if holds l' c then pos(c := Inside 0 p) else pos)"
| access: "pos c = Inside n p \<Longrightarrow> n < length body \<Longrightarrow> (body ! n) (p, g) = Some (p', g') \<Longrightarrow>
    section_step acquire release holds body (l, g, pos) (l, g', pos(c := Inside (Suc n) p'))"
| fault: "pos c = Inside n p \<Longrightarrow> n < length body \<Longrightarrow> (body ! n) (p, g) = None \<Longrightarrow>
    section_step acquire release holds body (l, g, pos) (l, g, pos(c := Fault p))"
| release: "pos c = Inside (length body) p \<Longrightarrow> release c l l' \<Longrightarrow>
    section_step acquire release holds body (l, g, pos) (l', g, pos(c := Done p))"

lemma run_accesses_append:
  "run_accesses (fs @ gs) pg = (case run_accesses fs pg of None \<Rightarrow> None | Some pg \<Rightarrow> run_accesses gs pg)"
  by (induction fs arbitrary: pg) (auto split: option.splits)

lemma run_accesses_Suc:
  assumes "n < length fs" "run_accesses (take n fs) pg = Some x"
  shows "run_accesses (take (Suc n) fs) pg = (fs ! n) x"
  using assms by (simp add: take_Suc_conv_app_nth run_accesses_append split: option.splits)

text \<open>A CPU in the section gets through it, when the others leave it alone.\<close>

lemma section_prefix_steps:
  assumes "run_accesses (take n body) (p, g) = Some (p', g')" "n \<le> length body" "pos c = Inside 0 p"
  shows "(section_step acquire release holds body)\<^sup>*\<^sup>* (l, g, pos) (l, g', pos(c := Inside n p'))"
  using assms
proof (induction n arbitrary: p' g')
  case 0
  then have "pos(c := Inside 0 p') = pos"
    by auto
  then show ?case
    using 0 by simp
next
  case (Suc n)
  obtain q h where q: "run_accesses (take n body) (p, g) = Some (q, h)" "(body ! n) (q, h) = Some (p', g')"
    using Suc.prems by (auto simp: take_Suc_conv_app_nth run_accesses_append split: option.splits)
  have "section_step acquire release holds body (l, h, pos(c := Inside n q))
      (l, g', (pos(c := Inside n q))(c := Inside (Suc n) p'))"
    using q(2) Suc.prems(2) by (intro section_step.access) simp_all
  then have "section_step acquire release holds body (l, h, pos(c := Inside n q)) (l, g', pos(c := Inside (Suc n) p'))"
    by (simp only: fun_upd_upd)
  moreover have "(section_step acquire release holds body)\<^sup>*\<^sup>* (l, g, pos) (l, h, pos(c := Inside n q))"
    using Suc.prems(2,3) by (intro Suc.IH [OF q(1)]) simp_all
  ultimately show ?case
    by (rule rtranclp.rtrancl_into_rtrancl [rotated])
qed

lemma section_completes:
  assumes "run_accesses body (p, g) = Some (p', g')" "pos c = Inside 0 p" "release c l l'"
  shows "(section_step acquire release holds body)\<^sup>*\<^sup>* (l, g, pos) (l', g', pos(c := Done p'))"
proof -
  have "(section_step acquire release holds body)\<^sup>*\<^sup>* (l, g, pos) (l, g', pos(c := Inside (length body) p'))"
    using assms(1,2) by (intro section_prefix_steps) simp_all
  moreover have "section_step acquire release holds body (l, g', pos(c := Inside (length body) p'))
      (l', g', (pos(c := Inside (length body) p'))(c := Done p'))"
    using assms(3) by (intro section_step.release) simp_all
  ultimately show ?thesis
    unfolding fun_upd_upd by (rule rtranclp.rtrancl_into_rtrancl)
qed

text \<open>
  What a lock promises: \<open>acquire\<close> (one step towards the lock) gives it at most to the CPU that takes the step
  and takes it from nobody, \<open>release\<close> gives up the CPU's own, and only one CPU holds it.
\<close>

locale exclusive_lock =
  fixes lock_start :: "'l \<Rightarrow> bool"
    and acquire :: "'c \<Rightarrow> 'l \<Rightarrow> 'l \<Rightarrow> bool"
    and release :: "'c \<Rightarrow> 'l \<Rightarrow> 'l \<Rightarrow> bool"
    and holds :: "'l \<Rightarrow> 'c \<Rightarrow> bool"
    and inv :: "'l \<Rightarrow> bool"
  assumes start_inv: "lock_start l \<Longrightarrow> inv l \<and> \<not> holds l c"
    and acquire_inv: "inv l \<Longrightarrow> acquire c l l' \<Longrightarrow> inv l' \<and> \<not> holds l c \<and> (\<forall>d. d \<noteq> c \<longrightarrow> holds l' d = holds l d)"
    and release_inv: "inv l \<Longrightarrow> release c l l' \<Longrightarrow> inv l' \<and> (\<forall>d. holds l' d \<longleftrightarrow> d \<noteq> c \<and> holds l d)"
    and exclusive: "inv l \<Longrightarrow> holds l c \<Longrightarrow> holds l d \<Longrightarrow> c = d"

text \<open>A body that, run alone, ends well from any acceptable shared data and leaves it acceptable.\<close>

locale critical_section = exclusive_lock lock_start acquire release holds inv
  for lock_start :: "'l \<Rightarrow> bool" and acquire :: "'c \<Rightarrow> 'l \<Rightarrow> 'l \<Rightarrow> bool" and release holds inv +
  fixes body :: "('p, 'g) access list"
    and pre :: "'p \<Rightarrow> bool"
    and post :: "'p \<Rightarrow> 'p \<Rightarrow> bool"
    and shared_ok :: "'g \<Rightarrow> bool"
  assumes body_ok: "pre p \<Longrightarrow> shared_ok g \<Longrightarrow>
    \<exists>p' g'. run_accesses body (p, g) = Some (p', g') \<and> post p p' \<and> shared_ok g'"
begin

text \<open>A CPU inside has run a part of the body on acceptable data, as if it were alone.\<close>

definition pos_inv :: "'l \<Rightarrow> 'g \<Rightarrow> 'c \<Rightarrow> 'p \<Rightarrow> 'p section_pos \<Rightarrow> bool" where
  "pos_inv l g c p0 ps \<longleftrightarrow>
     (case ps of
        Outside p \<Rightarrow> p = p0 \<and> \<not> holds l c
      | Inside n p \<Rightarrow> holds l c \<and> n \<le> length body \<and>
          (\<exists>g0. shared_ok g0 \<and> run_accesses (take n body) (p0, g0) = Some (p, g))
      | Done p \<Rightarrow> post p0 p \<and> \<not> holds l c
      | Fault p \<Rightarrow> False)"

definition section_inv :: "('c \<Rightarrow> 'p) \<Rightarrow> 'l \<times> 'g \<times> ('c \<Rightarrow> 'p section_pos) \<Rightarrow> bool" where
  "section_inv p0 s \<longleftrightarrow> (case s of (l, g, pos) \<Rightarrow>
     inv l \<and> (\<forall>c. pos_inv l g c (p0 c) (pos c)) \<and> ((\<forall>c. \<not> holds l c) \<longrightarrow> shared_ok g))"

lemma pos_inv_other:
  assumes "pos_inv l g c p ps" "holds l' c = holds l c" "holds l c \<Longrightarrow> g' = g"
  shows "pos_inv l' g' c p ps"
  using assms by (cases ps) (auto simp: pos_inv_def)

lemma body_prefix_runs:
  assumes "pre p" "shared_ok g0" "run_accesses (take n body) (p, g0) = Some x" "n < length body"
  shows "(body ! n) x \<noteq> None"
proof
  assume "(body ! n) x = None"
  then have "run_accesses (take (Suc n) body) (p, g0) = None"
    using run_accesses_Suc [OF assms(4,3)] by simp
  then have "run_accesses (take (Suc n) body @ drop (Suc n) body) (p, g0) = None"
    unfolding run_accesses_append by simp
  then show False
    using body_ok [OF assms(1,2)] by simp
qed

lemma section_inv_step:
  assumes pre: "\<And>c. pre (p0 c)" and inv: "section_inv p0 s" and step: "section_step acquire release holds body s s'"
  shows "section_inv p0 s'"
  using step
proof (cases rule: section_step.cases)
  case (acquire pos c p l l' g)
  have l: "inv l" "pos_inv l g d (p0 d) (pos d)" "(\<forall>c. \<not> holds l c) \<longrightarrow> shared_ok g" for d
    using inv by (auto simp: section_inv_def acquire(1))
  note a = acquire_inv [OF l(1) acquire(4)]
  have p: "p = p0 c"
    using l(2) [of c] by (simp add: pos_inv_def acquire(3))
  have free: "\<not> holds l d" if "holds l' c" for d
    using a exclusive [of l' c d] that by (cases "d = c") auto
  have others: "pos_inv l' g d (p0 d) (pos d)" if "d \<noteq> c" for d
    by (rule pos_inv_other [OF l(2)]) (use a that in simp_all)
  have s': "s' = (l', g, if holds l' c then pos(c := Inside 0 (p0 c)) else pos)"
    using acquire(2) p by simp
  show ?thesis
  proof (cases "holds l' c")
    case True
    then have "shared_ok g"
      using free l(3) by blast
    then have "pos_inv l' g c (p0 c) (Inside 0 (p0 c))"
      using True by (auto simp: pos_inv_def)
    then show ?thesis
      using a others True unfolding s' section_inv_def by auto
  next
    case False
    then have "holds l' d = holds l d" for d
      using a by (cases "d = c") auto
    then show ?thesis
      using a l False pos_inv_other [OF l(2), of l'] unfolding s' section_inv_def by auto
  qed
next
  case (access pos c n p g p' g' l)
  have l: "inv l" "pos_inv l g d (p0 d) (pos d)" for d
    using inv by (auto simp: section_inv_def access(1))
  obtain g0 where c: "holds l c" "shared_ok g0" "run_accesses (take n body) (p0 c, g0) = Some (p, g)"
    using l(2) [of c] by (auto simp: pos_inv_def access(3))
  have "run_accesses (take (Suc n) body) (p0 c, g0) = Some (p', g')"
    using run_accesses_Suc [OF access(4) c(3)] access(5) by simp
  then have "pos_inv l g' c (p0 c) (Inside (Suc n) p')"
    using c access(4) by (auto simp: pos_inv_def)
  moreover have "pos_inv l g' d (p0 d) (pos d)" if "d \<noteq> c" for d
    using exclusive [OF l(1) c(1), of d] that by (intro pos_inv_other [OF l(2)]) auto
  ultimately show ?thesis
    using l(1) c(1) by (auto simp: section_inv_def access(2))
next
  case (fault pos c n p g l)
  have "pos_inv l g c (p0 c) (pos c)"
    using inv by (auto simp: section_inv_def fault(1))
  then obtain g0 where "shared_ok g0" "run_accesses (take n body) (p0 c, g0) = Some (p, g)"
    by (auto simp: pos_inv_def fault(3))
  then show ?thesis
    using body_prefix_runs [OF pre _ _ fault(4)] fault(5) by blast
next
  case (release pos c p l l' g)
  have l: "inv l" "pos_inv l g d (p0 d) (pos d)" for d
    using inv by (auto simp: section_inv_def release(1))
  note r = release_inv [OF l(1) release(4)]
  obtain g0 where c: "holds l c" "shared_ok g0" "run_accesses body (p0 c, g0) = Some (p, g)"
    using l(2) [of c] by (auto simp: pos_inv_def release(3))
  then have ok: "post (p0 c) p" "shared_ok g"
    using body_ok [OF pre c(2), of c] by auto
  then have "pos_inv l' g c (p0 c) (Done p)"
    using r by (simp add: pos_inv_def)
  moreover have "pos_inv l' g d (p0 d) (pos d)" if "d \<noteq> c" for d
    by (rule pos_inv_other [OF l(2)]) (use r that in simp_all)
  ultimately show ?thesis
    using r ok by (auto simp: section_inv_def release(2))
qed

theorem sections_serialised:
  assumes "\<And>c. pre (p0 c)" "lock_start l" "shared_ok g"
    and "(section_step acquire release holds body)\<^sup>*\<^sup>* (l, g, \<lambda>c. Outside (p0 c)) s"
  shows "section_inv p0 s"
  using assms(4)
proof (induction rule: rtranclp_induct)
  case base
  show ?case
    using assms(2,3) start_inv by (auto simp: section_inv_def pos_inv_def)
qed (rule section_inv_step [OF assms(1)])

corollary sections_done:
  assumes "\<And>c. pre (p0 c)" "lock_start l" "shared_ok g"
    and "(section_step acquire release holds body)\<^sup>*\<^sup>* (l, g, \<lambda>c. Outside (p0 c)) (l', g', pos)"
  shows "pos c \<noteq> Fault p" "pos c = Done p \<Longrightarrow> post (p0 c) p" "(\<And>d. \<not> holds l' d) \<Longrightarrow> shared_ok g'"
    "pos c = Inside n p \<Longrightarrow> pos d = Inside k q \<Longrightarrow> c = d"
proof -
  have inv: "inv l'" "pos_inv l' g' d (p0 d) (pos d)" "(\<forall>c. \<not> holds l' c) \<longrightarrow> shared_ok g'" for d
    using sections_serialised [OF assms] by (auto simp: section_inv_def)
  show "pos c \<noteq> Fault p" "pos c = Done p \<Longrightarrow> post (p0 c) p" "(\<And>d. \<not> holds l' d) \<Longrightarrow> shared_ok g'"
    using inv(2) [of c] inv(3) by (auto simp: pos_inv_def)
  show "pos c = Inside n p \<Longrightarrow> pos d = Inside k q \<Longrightarrow> c = d"
    using inv(2) [of c] inv(2) [of d] exclusive [OF inv(1), of c d] by (auto simp: pos_inv_def)
qed

end

subsection \<open>The ticket lock as an exclusive lock\<close>

text \<open>The state is the set of CPUs and the lock; a step of \<open>spin_lock\<close> draws a ticket or polls.\<close>

definition ticket_acquire :: "nat \<Rightarrow> nat set \<times> lock_sys \<Rightarrow> nat set \<times> lock_sys \<Rightarrow> bool" where
  "ticket_acquire c l l' \<longleftrightarrow> fst l' = fst l \<and>
     (case cpu_st (snd l) c of
        Idle \<Rightarrow> c \<in> fst l \<and> snd l' = spin_lock_start c (snd l)
      | Waiting t \<Rightarrow> snd l' = spin_lock_poll c t (snd l)
      | Holding t \<Rightarrow> False)"

definition ticket_holds :: "nat set \<times> lock_sys \<Rightarrow> nat \<Rightarrow> bool" where
  "ticket_holds l c \<longleftrightarrow> (case cpu_st (snd l) c of Holding t \<Rightarrow> True | _ \<Rightarrow> False)"

definition ticket_release :: "nat \<Rightarrow> nat set \<times> lock_sys \<Rightarrow> nat set \<times> lock_sys \<Rightarrow> bool" where
  "ticket_release c l l' \<longleftrightarrow> fst l' = fst l \<and> ticket_holds l c \<and> snd l' = spin_unlock c (snd l)"

lemma ticket_holds_iff: "ticket_holds l c \<longleftrightarrow> (\<exists>t. cpu_st (snd l) c = Holding t)"
  by (simp add: ticket_holds_def split: cpu_lock.split)

lemma ticket_acquire_step:
  assumes "ticket_acquire c l l'"
  shows "lock_sys_step l l'" "\<not> ticket_holds l c" "d \<noteq> c \<Longrightarrow> ticket_holds l' d = ticket_holds l d"
proof -
  show "lock_sys_step l l'"
    using assms lock_step.start [of c "fst l" "snd l"] lock_step.poll [of "snd l" c]
    by (auto simp: ticket_acquire_def lock_sys_step_def split: cpu_lock.splits)
  show "\<not> ticket_holds l c"
    using assms by (auto simp: ticket_acquire_def ticket_holds_iff)
  show "d \<noteq> c \<Longrightarrow> ticket_holds l' d = ticket_holds l d"
    using assms by (auto simp: ticket_acquire_def ticket_holds_def spin_lock_start_def spin_lock_xadd_def
        spin_lock_poll_def split: cpu_lock.splits)
qed

lemma ticket_release_step:
  assumes "ticket_release c l l'"
  shows "lock_sys_step l l'" "ticket_holds l' d \<longleftrightarrow> d \<noteq> c \<and> ticket_holds l d"
proof -
  show "lock_sys_step l l'"
    using assms lock_step.unlock [of "snd l" c]
    by (auto simp: ticket_release_def lock_sys_step_def ticket_holds_iff)
  show "ticket_holds l' d \<longleftrightarrow> d \<noteq> c \<and> ticket_holds l d"
    using assms by (auto simp: ticket_release_def ticket_holds_iff spin_unlock_def)
qed

interpretation tss_lock: exclusive_lock lock_sys_start ticket_acquire ticket_release ticket_holds lock_sys_inv
proof
  fix l l' :: "nat set \<times> lock_sys" and c d
  show "lock_sys_inv l \<and> \<not> ticket_holds l c" if "lock_sys_start l"
    using that ticket_lock.start_inv [OF that] by (auto simp: lock_sys_start_def lock_init_def ticket_holds_iff)
  show "lock_sys_inv l' \<and> \<not> ticket_holds l c \<and> (\<forall>d. d \<noteq> c \<longrightarrow> ticket_holds l' d = ticket_holds l d)"
    if "lock_sys_inv l" "ticket_acquire c l l'"
    using that ticket_acquire_step [OF that(2)] ticket_lock.step_inv by blast
  show "lock_sys_inv l' \<and> (\<forall>d. ticket_holds l' d \<longleftrightarrow> d \<noteq> c \<and> ticket_holds l d)"
    if "lock_sys_inv l" "ticket_release c l l'"
    using that ticket_release_step [OF that(2)] ticket_lock.step_inv by blast
  show "c = d" if "lock_sys_inv l" "ticket_holds l c" "ticket_holds l d"
    using that lock_inv_holder_unique [of "fst l" "snd l" c _ d] by (auto simp: ticket_holds_iff lock_sys_inv_def)
qed

subsection \<open>The critical section of \<open>arch_cpu_restore\<close>\<close>

text \<open>
  The local data are the environment, the CPU's saved Linux state and its processor; the shared data is
  the descriptor table. Two stores, then \<open>ltr\<close>.
\<close>

type_synonym restore_local = "setup_env \<times> per_cpu \<times> cpu_state"

definition tss_idx :: "per_cpu \<Rightarrow> nat" where
  "tss_idx cpu = unat (seg_selector (linux_tss cpu)) div 8"

definition linux_gdt :: "setup_env \<Rightarrow> per_cpu \<Rightarrow> nat \<Rightarrow> u64" where
  "linux_gdt se cpu i = linux_mem se (dtr_base (linux_gdtr cpu) + 8 * of_nat i)"

fun copy_tss_low :: "(restore_local, u64 list) access" where
  "copy_tss_low ((se, cpu, h), gdt) =
     map_option (\<lambda>gdt. ((se, cpu, h), gdt))
       (array_set gdt (tss_idx cpu) (linux_gdt se cpu (tss_idx cpu) AND NOT DESC_TSS_BUSY))"

fun copy_tss_high :: "(restore_local, u64 list) access" where
  "copy_tss_high ((se, cpu, h), gdt) =
     map_option (\<lambda>gdt. ((se, cpu, h), gdt))
       (array_set gdt (tss_idx cpu + 1) (linux_gdt se cpu (tss_idx cpu + 1)))"

fun load_linux_tr :: "(restore_local, u64 list) access" where
  "load_linux_tr ((se, cpu, h), gdt) =
     map_option (\<lambda>(gdt, h). ((se, cpu, h), gdt)) (ltr (gdt_addr se) (seg_selector (linux_tss cpu)) gdt h)"

definition tss_section :: "(restore_local, u64 list) access list" where
  "tss_section = [copy_tss_low, copy_tss_high, load_linux_tr]"

text \<open>Run in one go it is the middle of \<open>arch_cpu_restore\<close>.\<close>

lemma arch_cpu_restore_section:
  assumes "initialized cd" "vcpu_exit (cd_cpu cd) (st_vmx h) = (cpu, hw)"
  shows "arch_cpu_restore se gdt cd h =
    map_option (\<lambda>((se, cpu, h), gdt). (gdt, cd\<lparr>cd_cpu := cpu\<rparr>, restore_segments se cpu h))
      (run_accesses tss_section ((se, cpu, restore_control cpu (h\<lparr>st_vmx := hw\<rparr>)), gdt))"
  using assms
  by (simp add: arch_cpu_restore_def tss_section_def tss_idx_def linux_gdt_def Let_def split: option.split)

text \<open>A CPU before the section, and what it has afterwards.\<close>

definition restore_pre :: "restore_local \<Rightarrow> bool" where
  "restore_pre p \<longleftrightarrow> (case p of (se, cpu, h) \<Rightarrow>
     linux_tr_ok se (linux_gdtr cpu) (seg_selector (linux_tss cpu)) \<and>
     st_gdtr h = \<lparr>dtr_limit = 127, dtr_base = gdt_addr se\<rparr>)"

definition restore_post :: "restore_local \<Rightarrow> restore_local \<Rightarrow> bool" where
  "restore_post p p' \<longleftrightarrow> (case (p, p') of ((se, cpu, h), (se', cpu', h')) \<Rightarrow>
     se' = se \<and> cpu' = cpu \<and>
     h' = h\<lparr>st_tr := seg_selector (linux_tss cpu),
            st_tr_base := case_prod tss_base (linux_tss_at se (linux_gdtr cpu) (seg_selector (linux_tss cpu)))\<rparr>)"

lemma tss_section_ok:
  assumes "restore_pre p" "gdt_ok gdt"
  shows "\<exists>p' gdt'. run_accesses tss_section (p, gdt) = Some (p', gdt') \<and> restore_post p p' \<and> gdt_ok gdt'"
proof -
  obtain se cpu h where p: "p = (se, cpu, h)"
    by (cases p) auto
  let ?sel = "seg_selector (linux_tss cpu)"
  obtain d0 d1 where d: "linux_tss_at se (linux_gdtr cpu) ?sel = (d0, d1)" by fastforce
  then have "linux_gdt se cpu (tss_idx cpu) = d0" "linux_gdt se cpu (tss_idx cpu + 1) = d1"
    by (auto simp: linux_tss_at_def linux_gdt_def tss_idx_def Let_def)
  moreover have tr: "linux_tr_ok se (linux_gdtr cpu) ?sel" "st_gdtr h = \<lparr>dtr_limit = 127, dtr_base = gdt_addr se\<rparr>"
    using assms(1) by (auto simp: restore_pre_def p)
  moreover from this have "tss_idx cpu < 15"
    by (simp add: linux_tr_ok_def tss_idx_def)
  ultimately show ?thesis
    using restore_gdt [OF assms(2) tr d] gdt_okD(1) [OF assms(2)] d
    by (simp add: tss_section_def p restore_post_def tss_idx_def)
qed

interpretation tss: critical_section lock_sys_start ticket_acquire ticket_release ticket_holds lock_sys_inv
  tss_section restore_pre restore_post gdt_ok
  by unfold_locales (rule tss_section_ok)

text \<open>A CPU that restores Linux: its data and processor when \<open>arch_cpu_restore\<close> is called, and as it arrives
  at the lock.\<close>

record restoring =
  r_env :: setup_env
  r_cd :: cpu_data
  r_host :: cpu_state

definition at_tss_lock :: "restoring \<Rightarrow> restore_local" where
  "at_tss_lock r =
     (let (cpu, hw) = vcpu_exit (cd_cpu (r_cd r)) (st_vmx (r_host r))
      in (r_env r, cpu, restore_control cpu ((r_host r)\<lparr>st_vmx := hw\<rparr>)))"

abbreviation tss_step :: "(nat set \<times> lock_sys) \<times> u64 list \<times> (nat \<Rightarrow> restore_local section_pos) \<Rightarrow>
    (nat set \<times> lock_sys) \<times> u64 list \<times> (nat \<Rightarrow> restore_local section_pos) \<Rightarrow> bool" where
  "tss_step \<equiv> section_step ticket_acquire ticket_release ticket_holds tss_section"

lemma restore_pre_at_lock:
  assumes "st_gdtr (r_host r) = \<lparr>dtr_limit = 127, dtr_base = gdt_addr (r_env r)\<rparr>"
    and "linux_tr_ok (r_env r) (linux_gdtr (cd_cpu (r_cd r))) (seg_selector (linux_tss (cd_cpu (r_cd r))))"
  shows "restore_pre (at_tss_lock r)"
  using assms vcpu_exit_keeps_tables [of "cd_cpu (r_cd r)" "st_vmx (r_host r)"]
  by (simp add: restore_pre_def at_tss_lock_def restore_control_def write_msr_def write_cr0_def write_cr4_def Let_def
      case_prod_unfold)

text \<open>C9. CPUs that leave the hypervisor at the same time do not disturb each other: however the
  accesses of up to \<open>2 ^ 16\<close> CPUs to the ticket lock and to the shared descriptor table interleave, no CPU
  faults on its \<open>ltr\<close> or leaves the table's bounds, at most one is in the critical section, and each that
  has passed it ends \<open>arch_cpu_restore\<close> with exactly its own Linux state, its own task segment included;
  when the lock is free the table is usable for the next CPU.\<close>

theorem concurrent_restore_isolated:
  assumes "finite cpus" "card cpus \<le> 65536" "lock_init l" "gdt_ok gdt"
    and "\<And>c. st_gdtr (r_host (r c)) = \<lparr>dtr_limit = 127, dtr_base = gdt_addr (r_env (r c))\<rparr>"
    and "\<And>c. linux_tr_ok (r_env (r c)) (linux_gdtr (cd_cpu (r_cd (r c)))) (seg_selector (linux_tss (cd_cpu (r_cd (r c)))))"
    and "tss_step\<^sup>*\<^sup>* ((cpus, l), gdt, \<lambda>c. Outside (at_tss_lock (r c))) (l', gdt', pos)"
  shows "(\<forall>c p. pos c \<noteq> Fault p) \<and>
    (\<forall>c d n k p q. pos c = Inside n p \<and> pos d = Inside k q \<longrightarrow> c = d) \<and>
    (\<forall>c se cpu h. pos c = Done (se, cpu, h) \<longrightarrow>
       cpu = fst (vcpu_exit (cd_cpu (r_cd (r c))) (st_vmx (r_host (r c)))) \<and>
       linux_view (restore_segments se cpu h) = saved_view (r_env (r c)) cpu) \<and>
    ((\<forall>c. \<not> ticket_holds l' c) \<longrightarrow> gdt_ok gdt')"
proof -
  have start: "lock_sys_start (cpus, l)"
    using assms(1-3) by (simp add: lock_sys_start_def)
  note fin = tss.sections_done [OF restore_pre_at_lock [OF assms(5,6)] start assms(4,7)]
  have "cpu = fst (vcpu_exit (cd_cpu (r_cd (r c))) (st_vmx (r_host (r c)))) \<and>
      linux_view (restore_segments se cpu h) = saved_view (r_env (r c)) cpu" if "pos c = Done (se, cpu, h)" for c se cpu h
  proof -
    obtain d0 d1 where d: "linux_tss_at se (linux_gdtr cpu) (seg_selector (linux_tss cpu)) = (d0, d1)" by fastforce
    show ?thesis
      using fin(2) [OF that] linux_view_restored [OF d] d
      by (auto simp: restore_post_def at_tss_lock_def case_prod_unfold Let_def)
  qed
  then show ?thesis
    using fin(1,3,4) by blast
qed

text \<open>Two CPUs, whose task segments have the same selector; CPU 0 goes first, CPU 1 waits.\<close>

definition demo_restoring :: restoring where
  "demo_restoring = \<lparr>r_env = demo_setup_env,
     r_cd = demo_cd\<lparr>cd_cpu := demo_cpu\<lparr>linux_tss := demo_segment\<lparr>seg_selector := 0x40\<rparr>\<rparr>, initialized := True\<rparr>,
     r_host = demo_host\<lparr>st_gdtr := \<lparr>dtr_limit = 127, dtr_base = 0xfffffff0f0010000\<rparr>\<rparr>\<rparr>"

definition demo_lock :: lock_sys where
  "demo_lock = \<lparr>lock_word = 0xFFFFFFFF, cpu_st = \<lambda>_. Idle\<rparr>"

theorem concurrent_restore_isolated_witness:
  "\<exists>l' gdt' pos se cpu h. tss_step\<^sup>*\<^sup>* (({0, 1}, demo_lock), initial_gdt, \<lambda>c. Outside (at_tss_lock demo_restoring)) (l', gdt', pos) \<and>
     pos 0 = Done (se, cpu, h) \<and> linux_view (restore_segments se cpu h) = saved_view demo_setup_env cpu"
proof -
  let ?p = "at_tss_lock demo_restoring" and ?r = "\<lambda>c :: nat. demo_restoring" and ?out = "\<lambda>c :: nat. Outside (at_tss_lock demo_restoring)"
  let ?l1 = "spin_lock_start 0 demo_lock" and ?l2 = "spin_lock_start 1 (spin_lock_start 0 demo_lock)"
  have gdtr: "st_gdtr (r_host demo_restoring) = \<lparr>dtr_limit = 127, dtr_base = gdt_addr (r_env demo_restoring)\<rparr>"
    by (simp add: demo_restoring_def demo_setup_env_def)
  have tr: "linux_tr_ok (r_env demo_restoring) (linux_gdtr (cd_cpu (r_cd demo_restoring)))
      (seg_selector (linux_tss (cd_cpu (r_cd demo_restoring))))"
    by code_simp
  have halves: "lock_owner 0xFFFFFFFF = 0xFFFF" "lock_next 0xFFFFFFFF = 0xFFFF"
    by (simp_all add: lock_owner_def lock_next_def)
  have st: "cpu_st ?l1 0 = Holding 0xFFFF" "cpu_st ?l1 1 = Idle" "cpu_st ?l2 0 = Holding 0xFFFF" "cpu_st ?l2 1 = Waiting 0"
    by (simp_all add: spin_lock_start_def spin_lock_xadd_def demo_lock_def halves)
      (simp_all add: lock_owner_def lock_next_def)
  have s1: "tss_step (({0, 1}, demo_lock), initial_gdt, ?out) (({0, 1}, ?l1), initial_gdt, ?out(0 := Inside 0 ?p))"
    using section_step.acquire [of ?out 0 ?p ticket_acquire "({0, 1}, demo_lock)" "({0, 1}, ?l1)" ticket_release ticket_holds
        tss_section initial_gdt] st(1)
    by (simp add: ticket_acquire_def ticket_holds_def demo_lock_def)
  have s2: "tss_step (({0, 1}, ?l1), initial_gdt, ?out(0 := Inside 0 ?p)) (({0, 1}, ?l2), initial_gdt, ?out(0 := Inside 0 ?p))"
    using section_step.acquire [of "?out(0 := Inside 0 ?p)" 1 ?p ticket_acquire "({0, 1}, ?l1)" "({0, 1}, ?l2)" ticket_release
        ticket_holds tss_section initial_gdt] st(2,4)
    by (simp add: ticket_acquire_def ticket_holds_def)
  obtain p' gdt' where run: "run_accesses tss_section (?p, initial_gdt) = Some (p', gdt')"
    using tss_section_ok [OF restore_pre_at_lock [OF gdtr tr] initial_gdt_ok] by blast
  have "ticket_release 0 ({0, 1}, ?l2) ({0, 1}, spin_unlock 0 ?l2)"
    using st(3) by (simp add: ticket_release_def ticket_holds_def)
  from section_completes [where release = ticket_release, OF run, of "?out(0 := Inside 0 ?p)" 0, OF _ this]
  have s3: "tss_step\<^sup>*\<^sup>* (({0, 1}, ?l2), initial_gdt, ?out(0 := Inside 0 ?p))
      (({0, 1}, spin_unlock 0 ?l2), gdt', ?out(0 := Done p'))"
    by simp
  have steps: "tss_step\<^sup>*\<^sup>* (({0, 1}, demo_lock), initial_gdt, \<lambda>c. Outside (at_tss_lock (?r c)))
      (({0, 1}, spin_unlock 0 ?l2), gdt', ?out(0 := Done p'))"
    using converse_rtranclp_into_rtranclp [of tss_step, OF s1 converse_rtranclp_into_rtranclp [of tss_step, OF s2 s3]] by simp
  obtain se cpu h where p': "p' = (se, cpu, h)"
    by (cases p') auto
  have init: "lock_init demo_lock"
    by (simp add: lock_init_def demo_lock_def halves)
  have "linux_view (restore_segments se cpu h) = saved_view (r_env demo_restoring) cpu"
    using concurrent_restore_isolated [OF _ _ init initial_gdt_ok gdtr tr steps] p' by simp
  then show ?thesis
    using steps p' by (force simp: demo_restoring_def)
qed

text \<open>Without the lock, with the same selector on two CPUs: the second marks the segment available again
  before the first loads it, and then finds it busy.\<close>

lemma unserialised_restore_faults:
  "run_accesses [copy_tss_low, copy_tss_low, copy_tss_high, load_linux_tr, copy_tss_high, load_linux_tr]
     (at_tss_lock demo_restoring, initial_gdt) = None"
  by code_simp

end
