(* ===== verification/Spy_Park.thy ===== *)
theory Spy_Park
  imports Spy_Setup
begin

text \<open>
  Parked CPUs. \<open>vcpu_park\<close> lets a CPU that must not run run the page \<open>parking_code\<close>, which
  \<open>vcpu_early_init\<close> maps as the only page of the second-level table \<open>parking_pt\<close>. Here are that page, the
  walk of the processor through the table entries, and the three instructions of the page; the result is
  that a parked CPU never leaves them.
\<close>

subsection \<open>The parking page\<close>

definition parking_code :: "u8 list" where
  "parking_code = [0xfa, 0xf4, 0xeb, 0xfc] @ replicate (4096 - 4) 0"

text \<open>
  The walk of the processor through the second-level tables, from the pointer in the VMCS: the rights that
  all the entries grant, and the address. \<open>ld\<close> reads a table entry in physical memory; an entry without any
  right is not present, and bit 7 makes an entry of the middle levels a page.
\<close>

fun ept_walk :: "(u64 \<Rightarrow> u64) \<Rightarrow> nat list \<Rightarrow> u64 \<Rightarrow> u64 \<Rightarrow> (u64 \<times> u64) option" where
  "ept_walk ld [] t ga = None"
| "ept_walk ld (sh # shs) t ga =
     (let e = ld ((t AND BIT_MASK 51 12) + 8 * (drop_bit sh ga AND 0x1ff)) in
      if e AND 7 = 0 then None
      else if shs = [] \<or> (bit e 7 \<and> sh \<le> 30)
      then Some (e AND 7, (e AND BIT_MASK 51 sh) OR take_bit sh ga)
      else map_option (\<lambda>(r, a). (e AND r, a)) (ept_walk ld shs e ga))"

text \<open>
  Reading an instruction byte of a guest that runs without paging of its own: \<open>pm\<close> is physical memory.
\<close>

definition fetch :: "(u64 \<Rightarrow> u64) \<Rightarrow> (u64 \<Rightarrow> u8) \<Rightarrow> (u64 \<Rightarrow> u64) \<Rightarrow> u64 \<Rightarrow> u8 option" where
  "fetch ld pm m a =
     (if bit (m GUEST_CR0) 31 then None
      else (case ept_walk ld [39, 30, 21, 12] (m EPT_POINTER) a of
              None \<Rightarrow> None
            | Some (r, p) \<Rightarrow> if bit r 2 then Some (pm p) else None))"

subsection \<open>The instructions of the page\<close>

record park_cpu =
  pk_cs_base :: u64
  pk_ip :: u64
  pk_if :: bool
  pk_halted :: bool

abbreviation (input) GUEST_ACTIVITY_HLT :: u64 where "GUEST_ACTIVITY_HLT \<equiv> 1"

definition guest_entry :: "(u64 \<Rightarrow> u64) \<Rightarrow> park_cpu" where
  "guest_entry m =
     \<lparr>pk_cs_base = m GUEST_CS_BASE, pk_ip = m GUEST_RIP, pk_if = bit (m GUEST_RFLAGS) 9,
      pk_halted = (m GUEST_ACTIVITY_STATE = GUEST_ACTIVITY_HLT)\<rparr>"

text \<open>
  What can happen to the CPU: an instruction, an external interrupt, or the end of a halt for any other
  reason, such as an NMI that the hypervisor handled. \<open>None\<close> is a CPU that leaves the page: a byte that
  cannot be fetched, another instruction, or an interrupt that is taken.
\<close>

datatype park_event = Run | Interrupt | Wake

definition park_insn :: "(u64 \<Rightarrow> u8 option) \<Rightarrow> park_cpu \<Rightarrow> park_cpu option" where
  "park_insn byte_at s =
     (let pc = pk_cs_base s + pk_ip s in
      case byte_at pc of
        None \<Rightarrow> None
      | Some op \<Rightarrow>
          if op = 0xfa then Some (s\<lparr>pk_if := False, pk_ip := pk_ip s + 1\<rparr>)
          else if op = 0xf4 then Some (s\<lparr>pk_halted := True, pk_ip := pk_ip s + 1\<rparr>)
          else if op = 0xeb then
            (case byte_at (pc + 1) of
               None \<Rightarrow> None
             | Some rel \<Rightarrow> Some (s\<lparr>pk_ip := pk_ip s + 2 + scast rel\<rparr>))
          else None)"

fun park_step :: "(u64 \<Rightarrow> u8 option) \<Rightarrow> park_event \<Rightarrow> park_cpu \<Rightarrow> park_cpu option" where
  "park_step byte_at Run s = (if pk_halted s then Some s else park_insn byte_at s)"
| "park_step byte_at Interrupt s = (if pk_if s then None else Some s)"
| "park_step byte_at Wake s = Some (s\<lparr>pk_halted := False\<rparr>)"

primrec park_run :: "(u64 \<Rightarrow> u8 option) \<Rightarrow> park_event list \<Rightarrow> park_cpu \<Rightarrow> park_cpu option" where
  "park_run byte_at [] s = Some s"
| "park_run byte_at (e # es) s =
     (case park_step byte_at e s of None \<Rightarrow> None | Some s \<Rightarrow> park_run byte_at es s)"

subsection \<open>The parking table\<close>

text \<open>
  What \<open>paging_create\<close> leaves in the tables for the request of \<open>vcpu_early_init\<close>: three links, and the entry
  of the page with the flags of the request, each written by the functions of its level.
\<close>

definition parking_mapped :: "(u64 \<Rightarrow> u64) \<Rightarrow> u64 \<Rightarrow> u64 list \<Rightarrow> u64 \<Rightarrow> bool" where
  "parking_mapped ld root tables code_phys \<longleftrightarrow>
     length tables = 3 \<and>
     (\<forall>a \<in> set (root # tables). a AND BIT_MASK 51 12 = a) \<and>
     ld root = ept_set_next_pt (tables ! 0) \<and>
     ld (tables ! 0) = ept_set_next_pt (tables ! 1) \<and>
     ld (tables ! 1) = ept_set_next_pt (tables ! 2) \<and>
     ld (tables ! 2) = x86_64_set_terminal_l1 code_phys (PAGE_READONLY_FLAGS OR PAGE_FLAG_US) \<and>
     code_phys AND BIT_MASK 51 12 = code_phys"

lemma bit_seven: "bit (7 :: u64) n \<longleftrightarrow> n < 3"
proof -
  have "(7 :: u64) = mask 3"
    by (simp add: mask_eq_exp_minus_1)
  then show ?thesis
    by (simp only: bit_mask_iff) auto
qed

lemma frame_mask: "BIT_MASK 51 12 = (0xffffffffff000 :: u64)"
  by (simp add: BIT_MASK_def mask_eq_exp_minus_1 push_bit_eq_mult)

lemma link:
  "ept_set_next_pt t AND BIT_MASK 51 12 = t AND BIT_MASK 51 12" "ept_set_next_pt t AND 7 = 7"
  "\<not> bit (ept_set_next_pt t) 7"
  by ((rule bit_word_eqI; auto simp: bit_and_iff ept_link.bit_link_of bit_seven masks simp del: bit_numeral_word_iff)+)
    (simp add: ept_link.bit_link_of masks)

lemma link_and: "ept_set_next_pt t AND (x AND 7) = x AND 7"
  by (rule bit_word_eqI) (auto simp: bit_and_iff ept_link.bit_link_of bit_seven masks simp del: bit_numeral_word_iff)

lemma leaf:
  "x86_64_set_terminal_l1 p (PAGE_READONLY_FLAGS OR PAGE_FLAG_US) AND BIT_MASK 51 12 = p AND BIT_MASK 51 12"
  "x86_64_set_terminal_l1 p (PAGE_READONLY_FLAGS OR PAGE_FLAG_US) AND 7 = 5"
proof -
  have five: "bit (5 :: u64) n \<longleftrightarrow> n = 0 \<or> n = 2" for n
  proof -
    have "(5 :: u64) = push_bit 0 1 OR push_bit 2 1"
      by simp
    then show ?thesis
      by (simp only: bit_or_iff bit_push_bit_iff bit_1_iff) (auto simp: numeral_2_eq_2)
  qed
  show "x86_64_set_terminal_l1 p (PAGE_READONLY_FLAGS OR PAGE_FLAG_US) AND BIT_MASK 51 12 = p AND BIT_MASK 51 12"
    "x86_64_set_terminal_l1 p (PAGE_READONLY_FLAGS OR PAGE_FLAG_US) AND 7 = 5"
    by (rule bit_word_eqI; auto simp: x86_64_set_terminal_l1_def PAGE_READONLY_FLAGS_def bit_and_iff bit_or_iff bit_seven five masks simp del: bit_numeral_word_iff)+
qed

lemma walk_link:
  assumes "ld (t AND BIT_MASK 51 12) = ept_set_next_pt n" "drop_bit sh ga AND 0x1ff = 0"
    and "ept_walk ld (sh' # shs) (ept_set_next_pt n) ga = Some (5, p)"
  shows "ept_walk ld (sh # sh' # shs) t ga = Some (5, p)"
proof -
  have "ept_set_next_pt n AND 5 = 5"
    using link_and [of n 5] by simp
  then show ?thesis
    unfolding ept_walk.simps(2) [of ld sh] assms(2) using assms(1,3) by (simp add: link del: ept_walk.simps)
qed

text \<open>The page is readable and executable for the guest, and not writable: bits 0 and 2, not bit 1.\<close>

lemma parking_walk:
  assumes "parking_mapped ld root tables code_phys" "ptr AND BIT_MASK 51 12 = root" "a < 4096"
  shows "ept_walk ld [39, 30, 21, 12] ptr a = Some (5, code_phys + a)"
proof -
  have idx: "drop_bit sh a AND 0x1ff = 0" if "12 \<le> sh" for sh
  proof -
    have "unat a < 2 ^ sh"
      using assms(3) power_increasing [of 12 sh "2 :: nat"] that by (simp add: word_less_nat_alt)
    then have "drop_bit sh a = 0"
      unfolding word_unat_eq_iff unat_drop_bit_eq by (simp add: drop_bit_eq_div)
    then show ?thesis
      by simp
  qed
  have low: "take_bit 12 a = a"
    using assms(3) unfolding word_unat_eq_iff unsigned_take_bit_eq
    by (intro take_bit_nat_eq_self) (simp add: word_less_nat_alt)
  have frames: "root AND BIT_MASK 51 12 = root" "t \<in> set tables \<Longrightarrow> t AND BIT_MASK 51 12 = t"
    "code_phys AND BIT_MASK 51 12 = code_phys" "length tables = 3" for t
    using assms(1) by (auto simp: parking_mapped_def)
  note tabs = frames(2) [OF nth_mem, unfolded frames(4)]
  have sum: "code_phys OR a = code_phys + a"
  proof -
    have "(code_phys AND BIT_MASK 51 12) AND take_bit 12 a = 0"
      by (rule bit_word_eqI) (auto simp: bit_simps masks)
    then have "code_phys AND a = 0"
      by (simp only: frames(3) low)
    then show ?thesis
      using word_plus_and_or [of code_phys a] by simp
  qed
  have ld: "ld root = ept_set_next_pt (tables ! 0)" "ld (tables ! 0) = ept_set_next_pt (tables ! 1)"
    "ld (tables ! Suc 0) = ept_set_next_pt (tables ! 2)"
    "ld (tables ! 2) = x86_64_set_terminal_l1 code_phys (PAGE_READONLY_FLAGS OR PAGE_FLAG_US)"
    using assms(1) by (auto simp: parking_mapped_def)
  have "ept_walk ld [12] (ept_set_next_pt (tables ! 2)) a = Some (5, code_phys + a)"
    using sum by (simp add: idx link tabs ld leaf frames low)
  then have "ept_walk ld [21, 12] (ept_set_next_pt (tables ! 1)) a = Some (5, code_phys + a)"
    by (rule walk_link [where n = "tables ! 2", rotated 2]) (simp_all add: link tabs ld idx del: ept_walk.simps)
  then have "ept_walk ld [30, 21, 12] (ept_set_next_pt (tables ! 0)) a = Some (5, code_phys + a)"
    by (rule walk_link [where n = "tables ! 1", rotated 2]) (simp_all add: link tabs ld idx del: ept_walk.simps)
  then show ?thesis
    by (rule walk_link [where n = "tables ! 0", rotated 2]) (simp_all add: assms(2) ld idx del: ept_walk.simps)
qed

lemma parking_fetch:
  assumes "parking_mapped ld root tables code_phys" "m EPT_POINTER AND BIT_MASK 51 12 = root" "a < 4096"
    and "\<not> bit (m GUEST_CR0) 31" "pm (code_phys + a) = parking_code ! unat a"
  shows "fetch ld pm m a = Some (parking_code ! unat a)"
proof -
  have "bit (5 :: u64) 2"
    by simp
  then show ?thesis
    using assms(4,5) parking_walk [OF assms(1-3)] by (simp add: fetch_def del: ept_walk.simps)
qed

subsection \<open>A parked CPU\<close>

lemma vcpu_park_entry:
  assumes "\<And>f. vmwrite_ok env f" "bsp_sipi \<noteq> 0" "\<not> bit (cr_required1 lim ! CR0_IDX) 31"
  shows "\<exists>m. vcpu_park env lim bsp_sipi reset_address parking_root cpu = Some (cpu\<lparr>vmcs := m\<rparr>) \<and>
    guest_entry m = \<lparr>pk_cs_base = 0, pk_ip = 0, pk_if = False, pk_halted = False\<rparr> \<and>
    m EPT_POINTER = parking_root OR EPT_TYPE_WRITEBACK OR EPT_PAGE_WALK_LEN \<and> \<not> bit (m GUEST_CR0) 31"
proof -
  let ?ws = "guest_cr_writes lim CR0_IDX (X86_CR0_NW OR X86_CR0_CD OR X86_CR0_ET) @
          guest_cr_writes lim CR4_IDX 0 @
          [(GUEST_CR3, 0), (GUEST_RFLAGS, 0x02), (GUEST_RSP, 0)] @
          reset_entry_writes bsp_sipi reset_address 0 @ reset_segment_writes"
  let ?m1 = "fold (\<lambda>(f, v) m. m(f := v)) ?ws (vmcs cpu)"
  let ?ws2 = "(VM_ENTRY_CONTROLS, w32 (w32 (?m1 VM_ENTRY_CONTROLS) AND NOT VM_ENTRY_IA32E_MODE)) #
     target_config_writes env"
  let ?ws3 = "[(GUEST_IA32_DEBUGCTL, 0), (EPT_POINTER, parking_root OR EPT_TYPE_WRITEBACK OR EPT_PAGE_WALK_LEN)]"
  let ?m2 = "fold (\<lambda>(f, v) m. m(f := v)) ?ws2 ?m1"
  let ?m = "fold (\<lambda>(f, v) m. m(f := v)) ?ws3 ?m2"
  have park: "vcpu_park env lim bsp_sipi reset_address parking_root cpu = Some (cpu\<lparr>vmcs := ?m\<rparr>)"
  proof -
    have "vcpu_vendor_reset env lim bsp_sipi reset_address 0 cpu = Some (cpu\<lparr>vmcs := ?m2\<rparr>)"
      by (simp only: vcpu_vendor_reset_def vmcs_writes_all_ok [OF assms(1)] prod.case simp_thms if_True)
    moreover have "vcpu_park env lim bsp_sipi reset_address parking_root cpu =
        Some (cpu\<lparr>vmcs := fold (\<lambda>(f, v) m. m(f := v)) ?ws3 x\<rparr>)"
      if "vcpu_vendor_reset env lim bsp_sipi reset_address 0 cpu = Some (cpu\<lparr>vmcs := x\<rparr>)" for x
      using that by (simp add: vcpu_park_def vmcs_writes_all_ok [OF assms(1)] del: vmcs_writes.simps)
    ultimately show ?thesis
      by blast
  qed
  have m: "?m f = ?m1 f" if "f \<notin> {VM_ENTRY_CONTROLS, IO_BITMAP_A, IO_BITMAP_B, EPT_POINTER, GUEST_IA32_DEBUGCTL}" for f
    using that unfolding fold_writes_lookup [of ?ws2] target_config_writes_def by simp
  have look1: "?m1 GUEST_RFLAGS = 2" "?m1 GUEST_RIP = 0" "?m1 GUEST_CS_BASE = 0" "?m1 GUEST_ACTIVITY_STATE = 0"
    "?m1 GUEST_CR0 = ((X86_CR0_NW OR X86_CR0_CD OR X86_CR0_ET) AND cr_maybe1 lim ! CR0_IDX) OR cr_required1 lim ! CR0_IDX"
    unfolding fold_writes_lookup write_lists Let_def using assms(2) by simp_all
  have at: "?m GUEST_RFLAGS = 2" "?m GUEST_RIP = 0" "?m GUEST_CS_BASE = 0" "?m GUEST_ACTIVITY_STATE = 0"
    "?m GUEST_CR0 = ((X86_CR0_NW OR X86_CR0_CD OR X86_CR0_ET) AND cr_maybe1 lim ! CR0_IDX) OR cr_required1 lim ! CR0_IDX"
    by (rule trans [OF m look1(1)] trans [OF m look1(2)] trans [OF m look1(3)] trans [OF m look1(4)]
        trans [OF m look1(5)], simp)+
  have entry: "guest_entry ?m = \<lparr>pk_cs_base = 0, pk_ip = 0, pk_if = False, pk_halted = False\<rparr>"
    unfolding guest_entry_def at by simp
  have paging: "\<not> bit (?m GUEST_CR0) 31"
    unfolding at(5) using assms(3) by (simp add: bit_or_iff bit_and_iff)
  have ptr: "?m EPT_POINTER = parking_root OR EPT_TYPE_WRITEBACK OR EPT_PAGE_WALK_LEN"
    by simp
  show ?thesis
    by (rule exI [of _ ?m]) (intro conjI; fact park entry ptr paging)
qed

text \<open>The CPU stays on the four bytes, with interrupts off; a halted one waits in front of the jump.\<close>

definition parked :: "park_cpu \<Rightarrow> bool" where
  "parked s \<longleftrightarrow> pk_cs_base s = 0 \<and> pk_ip s \<in> {0, 1, 2} \<and> \<not> pk_if s \<and> (pk_halted s \<longrightarrow> pk_ip s = 2)"

lemma parking_code_bytes:
  "parking_code ! 0 = 0xfa" "parking_code ! Suc 0 = 0xf4" "parking_code ! 2 = 0xeb" "parking_code ! 3 = 0xfc"
  by (simp_all add: parking_code_def nth_append numeral_2_eq_2 numeral_3_eq_3)

text \<open>One instruction of the page, from each of the three places.\<close>

definition park_next :: "park_cpu \<Rightarrow> park_cpu" where
  "park_next s =
     (if pk_ip s = 0 then s\<lparr>pk_if := False, pk_ip := 1\<rparr>
      else if pk_ip s = 1 then s\<lparr>pk_halted := True, pk_ip := 2\<rparr> else s\<lparr>pk_ip := 0\<rparr>)"

lemma park_insn_page:
  assumes "\<And>a. a < 4096 \<Longrightarrow> byte_at a = Some (parking_code ! unat a)" "parked s" "\<not> pk_halted s"
  shows "park_insn byte_at s = Some (park_next s)" "parked (park_next s)"
proof -
  have b: "byte_at 0 = Some 0xfa" "byte_at 1 = Some 0xf4" "byte_at 2 = Some 0xeb" "byte_at 3 = Some 0xfc"
    using assms(1) [of 0] assms(1) [of 1] assms(1) [of 2] assms(1) [of 3] by (simp_all add: parking_code_bytes)
  consider "pk_ip s = 0" | "pk_ip s = 1" | "pk_ip s = 2"
    using assms(2) by (auto simp: parked_def)
  then show "park_insn byte_at s = Some (park_next s)"
    using assms(2) by cases (simp_all add: park_insn_def park_next_def parked_def b)
  show "parked (park_next s)"
    using assms(2,3) by (auto simp: park_next_def parked_def)
qed

lemma park_run_parked:
  assumes "\<And>a. a < 4096 \<Longrightarrow> byte_at a = Some (parking_code ! unat a)" "parked s"
  shows "\<exists>s'. park_run byte_at es s = Some s' \<and> parked s'"
  using assms(2)
proof (induction es arbitrary: s)
  case (Cons e es)
  obtain s' where "park_step byte_at e s = Some s'" "parked s'"
  proof (cases e)
    case Run
    then show ?thesis
      using that park_insn_page [OF assms(1) Cons.prems] Cons.prems by (cases "pk_halted s") auto
  next
    case Interrupt
    then show ?thesis
      using that Cons.prems by (auto simp: parked_def)
  next
    case Wake
    then show ?thesis
      using that [of "s\<lparr>pk_halted := False\<rparr>"] Cons.prems by (auto simp: parked_def)
  qed
  then show ?case
    using Cons.IH by simp
qed simp

lemma parked_halts:
  assumes "\<And>a. a < 4096 \<Longrightarrow> byte_at a = Some (parking_code ! unat a)" "parked s"
  shows "\<exists>s'. park_run byte_at [Run, Run, Run] s = Some s' \<and> pk_halted s'"
proof (cases "pk_halted s")
  case False
  note step = park_insn_page [OF assms(1)]
  consider "pk_ip s = 0" | "pk_ip s = 1" | "pk_ip s = 2"
    using assms(2) by (auto simp: parked_def)
  then show ?thesis
    using False assms(2) step
    by cases (auto simp: parked_def park_next_def)
qed simp

text \<open>C15. A parked CPU is out of the way for good: once \<open>vcpu_park\<close> returned, whatever sequence of
  instructions, external interrupts and wake-ups follows, the CPU executes one of the three instructions
  of the parking page, with interrupts off, can write nothing through its second-level table, and halts
  again after at most three instructions.\<close>

theorem vcpu_park_stays:
  assumes "\<And>f. vmwrite_ok env f" "bsp_sipi \<noteq> 0" "\<not> bit (cr_required1 lim ! CR0_IDX) 31"
    and "parking_mapped ld parking_root tables code_phys"
    and "\<And>a. a < 4096 \<Longrightarrow> pm (code_phys + a) = parking_code ! unat a"
  shows "\<exists>m. vcpu_park env lim bsp_sipi reset_address parking_root cpu = Some (cpu\<lparr>vmcs := m\<rparr>) \<and>
    (\<forall>a < 4096. ept_walk ld [39, 30, 21, 12] (m EPT_POINTER) a = Some (5, code_phys + a)) \<and>
    (\<exists>s. park_run (fetch ld pm m) events (guest_entry m) = Some s \<and> \<not> pk_if s \<and>
       pk_cs_base s + pk_ip s \<in> {0, 1, 2} \<and>
       (\<exists>s'. park_run (fetch ld pm m) [Run, Run, Run] s = Some s' \<and> pk_halted s'))"
proof -
  obtain m where m: "vcpu_park env lim bsp_sipi reset_address parking_root cpu = Some (cpu\<lparr>vmcs := m\<rparr>)"
    "guest_entry m = \<lparr>pk_cs_base = 0, pk_ip = 0, pk_if = False, pk_halted = False\<rparr>"
    "m EPT_POINTER = parking_root OR EPT_TYPE_WRITEBACK OR EPT_PAGE_WALK_LEN" "\<not> bit (m GUEST_CR0) 31"
    using vcpu_park_entry [OF assms(1-3)] by blast
  have "(r OR EPT_TYPE_WRITEBACK OR EPT_PAGE_WALK_LEN) AND BIT_MASK 51 12 = r AND BIT_MASK 51 12" for r
    by (simp add: bit.conj_disj_distrib2 frame_mask)
  then have ptr: "m EPT_POINTER AND BIT_MASK 51 12 = parking_root"
    using assms(4) m(3) by (simp add: parking_mapped_def)
  have page: "fetch ld pm m a = Some (parking_code ! unat a)" if "a < 4096" for a
    using parking_fetch [where m = m, OF assms(4) ptr that m(4)] assms(5) [OF that] by blast
  have "parked (guest_entry m)"
    by (simp add: m(2) parked_def)
  then obtain s where s: "park_run (fetch ld pm m) events (guest_entry m) = Some s" "parked s"
    using park_run_parked [OF page] by blast
  have walk: "\<forall>a < 4096. ept_walk ld [39, 30, 21, 12] (m EPT_POINTER) a = Some (5, code_phys + a)"
    using parking_walk [OF assms(4) ptr] by blast
  have "\<not> pk_if s" "pk_cs_base s + pk_ip s \<in> {0, 1, 2}"
    using s(2) by (auto simp: parked_def)
  then show ?thesis
    using m(1) walk s(1) parked_halts [OF page s(2)] by blast
qed

definition demo_tables :: "u64 \<Rightarrow> u64" where
  "demo_tables a =
     (if a = 0x10000 then ept_set_next_pt 0x11000 else if a = 0x11000 then ept_set_next_pt 0x12000
      else if a = 0x12000 then ept_set_next_pt 0x13000
      else if a = 0x13000 then x86_64_set_terminal_l1 0x20000 (PAGE_READONLY_FLAGS OR PAGE_FLAG_US) else 0)"

lemma demo_tables: "parking_mapped demo_tables 0x10000 [0x11000, 0x12000, 0x13000] 0x20000"
  by (simp add: parking_mapped_def demo_tables_def frame_mask)

theorem vcpu_park_stays_witness:
  "\<exists>m. vcpu_park demo_env demo_limits 0x100 0 0x10000 demo_cpu = Some (demo_cpu\<lparr>vmcs := m\<rparr>) \<and>
     (\<exists>s. park_run (fetch demo_tables (\<lambda>a. parking_code ! unat (a - 0x20000)) m)
        [Run, Run, Interrupt, Wake, Run] (guest_entry m) = Some s \<and> \<not> pk_if s)"
proof -
  have "\<And>f. vmwrite_ok demo_env f" "\<not> bit (cr_required1 demo_limits ! CR0_IDX) 31"
    by (simp_all add: demo_env_def demo_limits_def)
  from vcpu_park_stays [of demo_env "0x100" demo_limits demo_tables "0x10000" "[0x11000, 0x12000, 0x13000]" "0x20000"
      "\<lambda>a. parking_code ! unat (a - 0x20000)", OF this(1) _ this(2) demo_tables,
      where reset_address = 0 and cpu = demo_cpu and events = "[Run, Run, Interrupt, Wake, Run]"]
  show ?thesis
    by (auto simp del: park_run.simps)
qed

end
