(* ===== verification/Spy_Irq_Isolation.thy ===== *)
theory Spy_Irq_Isolation
  imports Spy_Vtd_Init
begin

text \<open>
  The interrupt remapping table of \<open>vtd.c\<close> as the whole system uses it: devices and targets come and go,
  targets map interrupts, and Linux keeps writing its own remapping tables and the registers of the
  emulated units, in any order. Each operation runs under the locks of its callers, so a step is one
  call; what the unit may read between two stores of a call is part of the property. Beside the state of the
  code runs a record of what was last asked of each entry, which is computed from the requests alone.
\<close>

subsection \<open>What was asked\<close>

text \<open>
  For each entry the target, device and message of the last request that was granted, \<open>None\<close> if the entry is to
  be off. A request for vector \<open>vector\<close> of a device is for the entry that many places behind the first one of the device, as
  long as that is its own too.
\<close>

type_synonym requests = "nat \<Rightarrow> (apic_if \<times> u16 \<times> apic_irq_message) option"

definition irq_base :: "'h vtd_sys \<Rightarrow> u16 \<Rightarrow> nat option" where
  "irq_base v d = (case filter (\<lambda>i. irte_owned (irt v ! i) d) [0..<irt_limit v] of [] \<Rightarrow> None | i # _ \<Rightarrow> Some i)"

definition irq_slot :: "'h vtd_sys \<Rightarrow> u16 \<Rightarrow> nat \<Rightarrow> nat option" where
  "irq_slot v d vector =
     (case irq_base v d of
        None \<Rightarrow> None
      | Some b \<Rightarrow> if b + vector < irt_limit v \<and> irte_owned (irt v ! (b + vector)) d then Some (b + vector) else None)"

text \<open>
  A message is granted when it is a fixed or lowest-priority interrupt that the filter of the target lets through.
  A valid message that is not granted leaves the entry with what was asked before; an invalid one turns it off. Taking
  a device away turns its entries off.
\<close>

definition granted :: "apic_if \<Rightarrow> apic_irq_message \<Rightarrow> bool" where
  "granted ap msg \<longleftrightarrow> (msg_delivery_mode msg = dlvr_fixed ap \<or> msg_delivery_mode msg = dlvr_lowpri ap) \<and>
     apic_filter_irq_dest ap msg \<noteq> None"

definition note_request ::
  "apic_if \<Rightarrow> u16 \<Rightarrow> nat \<Rightarrow> apic_irq_message \<Rightarrow> 'h vtd_sys \<Rightarrow> requests \<Rightarrow> requests" where
  "note_request ap d vector msg v w =
     (case irq_slot v d vector of
        None \<Rightarrow> w
      | Some i \<Rightarrow> (if \<not> valid msg then w(i := None) else if granted ap msg then w(i \<mapsto> (ap, d, msg)) else w))"

definition revoke :: "'h vtd_sys \<Rightarrow> pci_device_info \<Rightarrow> requests \<Rightarrow> requests" where
  "revoke v dev w =
     (case irq_base v (dev_bdf dev) of
        None \<Rightarrow> w
      | Some b \<Rightarrow> (\<lambda>i. if b \<le> i \<and> i < b + max (num_msi_vectors dev) (num_msix_vectors dev) then None else w i))"

text \<open>
  What Linux asks for with entry \<open>k\<close> of its own table, for device \<open>d\<close>: the 16 bytes at its place, in the format of the
  VT-d specification. Nothing, if the page can not be read or the entry is off or another device's.
\<close>

definition linux_request :: "'h emu_ext \<Rightarrow> bool \<Rightarrow> (u64 \<Rightarrow> u32) \<Rightarrow> vtd_emulation \<Rightarrow> u16 \<Rightarrow> nat \<Rightarrow> apic_irq_message" where
  "linux_request ext x2apic mem u d k =
     (let a = push_bit 12 (drop_bit 12 (em_irta u)) + 16 * of_nat k; lo = load64 mem a; hi = load64 mem (a + 8)
      in if \<not> guest_page ext a False then invalid_irq_msg
         else \<lparr>valid = (bit lo 0 \<and> ucast hi = d), msg_vector = take_bit 8 (drop_bit 16 lo),
           msg_delivery_mode = take_bit 3 (drop_bit 5 lo), msg_dest_logical = take_bit 1 (drop_bit 2 lo),
           msg_level_triggered = take_bit 1 (drop_bit 4 lo), msg_redir_hint = take_bit 1 (drop_bit 3 lo),
           msg_destination = drop_bit (if x2apic then 32 else 40) lo\<rparr>)"

subsection \<open>The steps of the system\<close>

text \<open>
  \<open>may ap d\<close> says that the target with the interrupt filter \<open>ap\<close> programs the interrupts of device \<open>d\<close>;
  \<open>root\<close> is the filter of the root target. \<open>irq_call\<close> are the calls that the APIC and PCI
  code makes: remembering which entry of Linux's own table an interrupt uses, and mapping an interrupt.
\<close>

inductive irq_call ::
  "'h dmar_ops \<Rightarrow> 'h emu_ext \<Rightarrow> apic_if \<Rightarrow> (apic_if \<Rightarrow> u16 \<Rightarrow> bool) \<Rightarrow> 'h emu_sys \<times> requests \<Rightarrow> 'h emu_sys \<times> requests \<Rightarrow> bool"
  for ops ext root may where
  remap: "unit_no < length (em_units s) \<Longrightarrow> may root d \<Longrightarrow>
    iommu_get_remapped_root_int (guest_page ext) (guest_mem s) (apic_x2apic root) d vector i (em_units s ! unit_no) = (msg, u) \<Longrightarrow>
    irq_call ops ext root may (s, w) (s\<lparr>em_units := (em_units s)[unit_no := u]\<rparr>, w)"
| map: "may ap d \<Longrightarrow> iommu_map_interrupt ops ap d vector msg (em_vtd s) = Some (r, v) \<Longrightarrow>
    irq_call ops ext root may (s, w) (s\<lparr>em_vtd := v\<rparr>, note_request ap d vector msg (em_vtd s) w)"

text \<open>
  What Linux causes: calls for its own devices, stores to its memory, the head and fault registers of an emulated unit, and
  the invalidation of an entry it uses, which asks for what its table holds there.
\<close>

inductive linux_step ::
  "'h dmar_ops \<Rightarrow> 'h emu_ext \<Rightarrow> apic_if \<Rightarrow> (apic_if \<Rightarrow> u16 \<Rightarrow> bool) \<Rightarrow> 'h emu_sys \<times> requests \<Rightarrow> 'h emu_sys \<times> requests \<Rightarrow> bool"
  for ops ext root may where
  call: "irq_call ops ext root (\<lambda>ap d. ap = root \<and> may root d) sw sw' \<Longrightarrow> linux_step ops ext root may sw sw'"
| store: "linux_step ops ext root may (s, w) (s\<lparr>guest_mem := m\<rparr>, w)"
| registers: "n < length (em_units s) \<Longrightarrow>
    linux_step ops ext root may (s, w)
      (s\<lparr>em_units := (em_units s)[n := (em_units s ! n)\<lparr>em_iqh := h, fault_event_regs := f\<rparr>]\<rparr>, w)"
| invalidate: "n < length (em_units s) \<Longrightarrow> u = em_units s ! n \<Longrightarrow> k < irt_entries u \<Longrightarrow>
    use_used (irte_map u ! k) \<Longrightarrow> d = use_device_id (irte_map u ! k) \<Longrightarrow> \<not> is_ivshmem ext d \<Longrightarrow>
    vtd_emulate_inv_int ops root ext n k s = Some (r, s') \<Longrightarrow>
    linux_step ops ext root may (s, w)
      (s', note_request root d (use_vector (irte_map u ! k))
             (linux_request ext (apic_x2apic root) (guest_mem s) u d k) (em_vtd s) w)"

inductive irq_step ::
  "'h dmar_ops \<Rightarrow> 'h emu_ext \<Rightarrow> apic_if \<Rightarrow> (apic_if \<Rightarrow> u16 \<Rightarrow> bool) \<Rightarrow> pci_bdf \<Rightarrow>
     ('h emu_sys \<times> requests) \<times> ctx_sys \<Rightarrow> ('h emu_sys \<times> requests) \<times> ctx_sys \<Rightarrow> bool"
  for ops ext root may pc where
  call: "irq_call ops ext root may sw sw' \<Longrightarrow> irq_step ops ext root may pc (sw, c) (sw', c)"
| linux: "linux_step ops ext root may sw sw' \<Longrightarrow> irq_step ops ext root may pc (sw, c) (sw', c)"
| add_device: "iommu_add_pci_device ops pc page e dev (em_vtd s) c = Some (err, v, c') \<Longrightarrow>
    irq_step ops ext root may pc ((s, w), c) ((s\<lparr>em_vtd := v\<rparr>, if err = None then w else revoke (em_vtd s) dev w), c')"
| remove_device: "iommu_remove_pci_device ops pc dev (em_vtd s) c = Some (v, c') \<Longrightarrow>
    irq_step ops ext root may pc ((s, w), c) ((s\<lparr>em_vtd := v\<rparr>, revoke (em_vtd s) dev w), c')"
| target_init: "vtd_target_init num_did target_id root_page chips used (em_vtd s) = (err, used', v) \<Longrightarrow>
    irq_step ops ext root may pc ((s, w), c) ((s\<lparr>em_vtd := v\<rparr>, w), c)"

text \<open>The update of an ivshmem vector changes the state only through the two calls, on its own device and for Linux.\<close>

definition ivshmem_calls :: "'h dmar_ops \<Rightarrow> 'h emu_ext \<Rightarrow> apic_if \<Rightarrow> (apic_if \<Rightarrow> u16 \<Rightarrow> bool) \<Rightarrow> bool" where
  "ivshmem_calls ops ext root may \<longleftrightarrow>
     (\<forall>d v s w. may root d \<longrightarrow>
        (\<exists>w'. (irq_call ops ext root (\<lambda>ap d'. ap = root \<and> d' = d))\<^sup>*\<^sup>* (s, w) (snd (ivshmem_update_msix_vector ext d v s), w')))"

subsection \<open>Entries that serve the request\<close>

text \<open>
  \<open>carries\<close>: all fields of the entry are those of the message, and the unit verifies the full source id. An entry of which
  nothing is asked is not present; otherwise it is present, assigned to the device of the request, and carries the
  message as the filter of the target left it; and the target programs this device.
\<close>

definition carries :: "apic_if \<Rightarrow> apic_irq_message \<Rightarrow> vtd_irte \<Rightarrow> bool" where
  "carries ap m e \<longleftrightarrow>
     irte_vector e = take_bit 8 (msg_vector m) \<and> irte_delivery_mode e = take_bit 3 (msg_delivery_mode m) \<and>
     irte_dest_logical e = take_bit 1 (msg_dest_logical m) \<and> irte_redir_hint e = take_bit 1 (msg_redir_hint m) \<and>
     irte_level_triggered e = take_bit 1 (msg_level_triggered m) \<and>
     irte_destination e = take_bit 32 (if apic_x2apic ap then msg_destination m else push_bit 8 (msg_destination m)) \<and>
     irte_sq e = 0 \<and> irte_svt e = 1"

definition serves :: "(apic_if \<Rightarrow> u16 \<Rightarrow> bool) \<Rightarrow> (apic_if \<times> u16 \<times> apic_irq_message) option \<Rightarrow> vtd_irte \<Rightarrow> bool" where
  "serves may r e \<longleftrightarrow>
     (case r of
        None \<Rightarrow> \<not> irte_p e
      | Some (ap, d, msg) \<Rightarrow> may ap d \<and> irte_p e \<and> irte_assigned e \<and> irte_sid e = d \<and>
          (\<exists>m. apic_filter_irq_dest ap msg = Some m \<and> carries ap m e))"

definition table_serves :: "(apic_if \<Rightarrow> u16 \<Rightarrow> bool) \<Rightarrow> requests \<Rightarrow> vtd_irte list \<Rightarrow> bool" where
  "table_serves may w t \<longleftrightarrow> (\<forall>i < length t. serves may (w i) (t ! i))"

text \<open>What the unit may read while an entry changes: nothing, the old entry or the new one.\<close>

definition untorn :: "vtd_irte \<Rightarrow> vtd_irte \<Rightarrow> bool" where
  "untorn old new \<longleftrightarrow> (\<forall>e \<in> set (irte_stores old new). \<not> irte_p e \<or> e = old \<or> e = new)"

definition usages_sound :: "(u16 \<Rightarrow> bool) \<Rightarrow> vtd_emulation \<Rightarrow> bool" where
  "usages_sound mine u \<longleftrightarrow> irt_entries u \<le> length (irte_map u) \<and>
     (\<forall>e \<in> set (irte_map u). use_used e \<longrightarrow> mine (use_device_id e))"

definition vtd_inv :: "'h dmar_ops \<Rightarrow> (apic_if \<Rightarrow> u16 \<Rightarrow> bool) \<Rightarrow> 'h vtd_sys \<Rightarrow> requests \<Rightarrow> bool" where
  "vtd_inv ops may v w \<longleftrightarrow> vtd_sys_ok ops v \<and> table_serves may w (irt v)"

fun irq_inv :: "'h dmar_ops \<Rightarrow> apic_if \<Rightarrow> (apic_if \<Rightarrow> u16 \<Rightarrow> bool) \<Rightarrow> 'h emu_sys \<times> requests \<Rightarrow> bool" where
  "irq_inv ops root may (s, w) \<longleftrightarrow> vtd_inv ops may (em_vtd s) w \<and> (\<forall>u \<in> set (em_units s). usages_sound (may root) u)"

text \<open>No entry of the table becomes present or changes while present.\<close>

definition quiet :: "vtd_irte list \<Rightarrow> vtd_irte list \<Rightarrow> bool" where
  "quiet t t' \<longleftrightarrow> length t' = length t \<and> (\<forall>i < length t. t' ! i = t ! i \<or> \<not> irte_p (t' ! i))"

lemma quiet_refl [simp]: "quiet t t"
  by (simp add: quiet_def)

lemma quiet_trans: "quiet t t' \<Longrightarrow> quiet t' t'' \<Longrightarrow> quiet t t''"
  by (auto simp: quiet_def) metis

lemma untorn_same [simp]: "untorn e e"
  by (auto simp: untorn_def irte_stores_def)

lemma untorn_absent: "\<not> irte_p old \<or> \<not> irte_p new \<Longrightarrow> untorn old new"
  by (auto simp: untorn_def irte_stores_def irte_p_def)

lemma quiet_untorn: "quiet t t' \<Longrightarrow> i < length t \<Longrightarrow> untorn (t ! i) (t' ! i)"
  using untorn_absent by (fastforce simp: quiet_def)

lemma serves_p: "serves may r e \<Longrightarrow> irte_p e \<longleftrightarrow> r \<noteq> None"
  by (auto simp: serves_def split: option.splits)

lemma serves_absent: "serves may None e \<longleftrightarrow> \<not> irte_p e"
  by (simp add: serves_def)

lemma table_serves_nth: "table_serves may w t \<Longrightarrow> i < length t \<Longrightarrow> serves may (w i) (t ! i)"
  by (simp add: table_serves_def)

lemma table_serves_update: "table_serves may w t \<Longrightarrow> serves may r e \<Longrightarrow> table_serves may (w(i := r)) (t[i := e])"
  by (auto simp: table_serves_def nth_list_update)

text \<open>The first entry of a device is the one the code finds.\<close>

lemma irq_base_find:
  "vtd_find_int_remap_region (irt v) (irt_limit v) d = (case irq_base v d of None \<Rightarrow> Inl ENOENT | Some b \<Rightarrow> Inr b)"
proof -
  have "find_region t d n k = (case filter (\<lambda>i. irte_owned (t ! i) d) [n..<n + k] of [] \<Rightarrow> Inl ENOENT | i # _ \<Rightarrow> Inr i)"
    for t n k
  proof (induction k arbitrary: n)
    case (Suc k)
    have "[n..<n + Suc k] = n # [n + 1..<(n + 1) + k]"
      by (simp add: upt_conv_Cons del: upt_Suc)
    then show ?case
      using Suc [of "n + 1"] by (simp add: irte_owned_def del: upt_Suc)
  qed simp
  from this [of "irt v" 0 "irt_limit v"] show ?thesis
    by (simp add: vtd_find_int_remap_region_def irq_base_def split: list.splits)
qed

subsection \<open>Each operation keeps the table\<close>

lemma irq_base_Some:
  "irq_base v d = Some b \<longleftrightarrow>
     b < irt_limit v \<and> irte_owned (irt v ! b) d \<and> (\<forall>i < b. \<not> irte_owned (irt v ! i) d)"
  using irq_base_find [of v d] find_region_Inr [of "irt v" d 0 "irt_limit v" b]
  by (auto simp: vtd_find_int_remap_region_def split: option.splits)

lemma irq_base_None: "irq_base v d = None \<Longrightarrow> i < irt_limit v \<Longrightarrow> \<not> irte_owned (irt v ! i) d"
  using irq_base_find [of v d] find_region_Inl [of "irt v" d 0 "irt_limit v" ENOENT]
  by (auto simp: vtd_find_int_remap_region_def)

text \<open>Nothing was asked of the entries that a device gets.\<close>

lemma reserve_serves:
  assumes "vtd_inv ops may v w" "vtd_reserve_int_remap_region (irt v) (irt_limit v) d len = (r, t)"
  shows "vtd_inv ops may (v\<lparr>irt := t\<rparr>) w" "quiet (irt v) t"
    "irq_base v d = None \<Longrightarrow> irq_base (v\<lparr>irt := t\<rparr>) d = Some b \<Longrightarrow> b \<le> i \<Longrightarrow> i < b + len \<Longrightarrow> w i = None"
proof -
  have "vtd_inv ops may (v\<lparr>irt := t\<rparr>) w \<and> quiet (irt v) t \<and>
    (irq_base v d = None \<longrightarrow> (\<forall>b i. irq_base (v\<lparr>irt := t\<rparr>) d = Some b \<and> b \<le> i \<and> i < b + len \<longrightarrow> w i = None))"
  proof (cases "len = 0 \<or> \<not> isl (vtd_find_int_remap_region (irt v) (irt_limit v) d) \<or>
      reserve_scan (irt v) len None 0 (irt_limit v) = None")
    case True
    then have "t = irt v"
      using assms(2) by (auto simp: vtd_reserve_int_remap_region_def split: if_splits option.splits)
    moreover have "len = 0 \<or> irq_base v d \<noteq> None \<or> irq_base (v\<lparr>irt := t\<rparr>) d = irq_base v d"
      using \<open>t = irt v\<close> by simp
    ultimately show ?thesis using assms(1) by auto
  next
    case False
    then obtain b where b: "reserve_scan (irt v) len None 0 (irt_limit v) = Some b"
      and t: "t = assign_region (irt v) d b len"
      using assms(2) by (auto simp: vtd_reserve_int_remap_region_def)
    have limit: "irt_limit v \<le> length (irt v)"
      using assms(1) by (simp add: vtd_inv_def vtd_sys_ok_def)
    have run: "b + len \<le> length (irt v)" "free_run (irt v) b len"
      using reserve_scan_result [where len = len and t = "irt v" and limit = "irt_limit v"] False b limit by auto
    have nth: "t ! i = (if b \<le> i \<and> i < b + len then irte_assign d (irt v ! i) else irt v ! i)" for i
      unfolding t by (rule assign_region_nth [OF run(1)])
    have len: "length t = length (irt v)"
      by (simp add: t)
    have ne: "w i = None \<and> \<not> irte_p (irt v ! i)" if "b \<le> i \<and> i < b + len" for i
    proof -
      have "\<not> irte_assigned (irt v ! i)" "serves may (w i) (irt v ! i)"
        using run that assms(1) by (auto simp: free_run_def vtd_inv_def table_serves_def)
      then show ?thesis
        by (auto simp: serves_def split: option.splits)
    qed
    have "table_serves may w t"
      unfolding table_serves_def
    proof (intro allI impI)
      fix i assume i: "i < length t"
      then have "serves may (w i) (irt v ! i)"
        using assms(1) by (simp add: len vtd_inv_def table_serves_def)
      then show "serves may (w i) (t ! i)"
        using ne [of i] by (auto simp: nth serves_absent)
    qed
    moreover have "quiet (irt v) t"
      unfolding quiet_def using ne nth by (auto simp: len)
    moreover have "w i = None"
      if none: "irq_base v d = None" and some: "irq_base (v\<lparr>irt := t\<rparr>) d = Some b'" and i: "b' \<le> i" "i < b' + len" for b' i
    proof -
      have b': "b' < irt_limit v" "irte_owned (t ! b') d" "\<forall>i < b'. \<not> irte_owned (t ! i) d"
        using some by (simp_all add: irq_base_Some)
      have "b \<le> b'"
        using b'(1,2) irq_base_None [OF none b'(1)] by (auto simp: nth split: if_splits)
      moreover have "irte_owned (t ! b) d"
        using False by (simp add: nth)
      ultimately have "b' = b"
        using b'(3) by (metis le_neq_implies_less)
      then show ?thesis
        using ne i by simp
    qed
    ultimately show ?thesis
      using assms(1) limit by (auto simp: vtd_inv_def vtd_sys_ok_def t)
  qed
  then show "vtd_inv ops may (v\<lparr>irt := t\<rparr>) w" "quiet (irt v) t"
    "irq_base v d = None \<Longrightarrow> irq_base (v\<lparr>irt := t\<rparr>) d = Some b \<Longrightarrow> b \<le> i \<Longrightarrow> i < b + len \<Longrightarrow> w i = None"
    by blast+
qed

lemma vtd_update_irte_index:
  "vtd_update_irte ops i content v = Some v' \<Longrightarrow> i < length (irt v)"
  by (auto simp: vtd_update_irte_def array_get_def split: option.splits if_splits)

lemma free_region_serves:
  "vtd_inv ops may v w \<Longrightarrow> free_region ops pos len v = Some v' \<Longrightarrow>
   vtd_inv ops may v' (\<lambda>i. if pos \<le> i \<and> i < pos + len then None else w i) \<and> quiet (irt v) (irt v')"
proof (induction len arbitrary: pos v w)
  case 0
  have "(\<lambda>i. if pos \<le> i \<and> i < pos + 0 then None else w i) = w"
    by (rule ext) auto
  with 0 show ?case by simp
next
  case (Suc len)
  then obtain v1 where v1: "vtd_update_irte ops pos free_irte v = Some v1" "free_region ops (pos + 1) len v1 = Some v'"
    by (auto split: option.splits)
  have "vtd_sys_ok ops v"
    using Suc.prems(1) by (simp add: vtd_inv_def)
  from vtd_update_irte_Some [OF this vtd_update_irte_index [OF v1(1)], of free_irte] v1(1)
  have upd: "vtd_sys_ok ops v1" "irt v1 = (irt v)[pos := last (irte_stores (irt v ! pos) free_irte)]"
    by auto
  have p: "\<not> irte_p (last (irte_stores (irt v ! pos) free_irte))"
    by (rule free_irte_stores(3))
  have "vtd_inv ops may v1 (w(pos := None))"
    using Suc.prems(1) upd p by (auto simp: vtd_inv_def serves_absent intro!: table_serves_update)
  note IH = Suc.IH [OF this v1(2)]
  have "(\<lambda>i. if pos + 1 \<le> i \<and> i < pos + 1 + len then None else (w(pos := None)) i) =
      (\<lambda>i. if pos \<le> i \<and> i < pos + Suc len then None else w i)"
    by (rule ext) auto
  moreover have "quiet (irt v) (irt v1)"
    unfolding quiet_def upd(2) using p by (metis length_list_update nth_list_update_eq nth_list_update_neq)
  ultimately show ?case
    using IH quiet_trans by auto
qed

lemma free_serves:
  assumes "vtd_inv ops may v w" "vtd_free_int_remap_region ops d len v = Some v'"
  shows "vtd_inv ops may v' (case irq_base v d of None \<Rightarrow> w | Some b \<Rightarrow> (\<lambda>i. if b \<le> i \<and> i < b + len then None else w i))"
    "quiet (irt v) (irt v')"
  using assms(2) free_region_serves [OF assms(1)]
  by (cases "irq_base v d"; use assms(1) in \<open>fastforce simp: vtd_free_int_remap_region_def irq_base_find\<close>)+

lemma carries_irte_of_msg: "carries ap m (irte_of_msg ap m e)"
proof -
  have "irte_dest_logical (irte_of_msg ap m e) = take_bit 1 (msg_dest_logical m)"
    "irte_redir_hint (irte_of_msg ap m e) = take_bit 1 (msg_redir_hint m)"
    "irte_level_triggered (irte_of_msg ap m e) = take_bit 1 (msg_level_triggered m)"
    by (simp_all add: irte_of_msg_def Let_def irte_set_defs irte_dest_logical_def irte_redir_hint_def
        irte_level_triggered_def bf_get_set_same bf_get_set_other)
  then show ?thesis
    by (simp add: carries_def irte_of_msg_fields)
qed

lemma mapped_irte_serves:
  assumes "mapped_irte ap msg old e" "irte_owned old d" "may ap d"
  shows "serves may (if valid msg then Some (ap, d, msg) else None) e"
proof -
  have "irte_assigned e" "irte_sid e = d" "irte_p e = valid msg"
    using mapped_irte_owned [OF assms(1), of d] mapped_irte_present(1) [OF assms(1)] assms(2) by (simp_all add: irte_owned_def)
  then show ?thesis
    using assms(1,3) carries_irte_of_msg by (auto simp: serves_def mapped_irte_def)
qed

text \<open>When a request is refused, and where it goes otherwise.\<close>

lemma map_refused:
  assumes "vtd_sys_ok ops v" "iommu_map_interrupt ops ap d vector msg v = Some (r, v')"
  shows "isl r \<longleftrightarrow> irq_slot v d vector = None \<or> valid msg \<and> \<not> granted ap msg"
proof (cases "irq_base v d")
  case None
  then show ?thesis
    using assms(2) by (auto simp: iommu_map_interrupt_def irq_base_find irq_slot_def)
next
  case (Some b)
  then have find: "vtd_find_int_remap_region (irt v) (irt_limit v) d = Inr b"
    by (simp add: irq_base_find)
  show ?thesis
  proof (cases "b + vector < irt_limit v")
    case False
    then have "vector \<ge> irt_limit v \<or> b \<ge> irt_limit v - vector"
      by linarith
    then show ?thesis
      using assms(2) Some find False by (auto simp: iommu_map_interrupt_def irq_slot_def)
  next
    case True
    then have range: "\<not> (vector \<ge> irt_limit v \<or> b \<ge> irt_limit v - vector)" "b + vector < length (irt v)"
      using assms(1) by (auto simp: vtd_sys_ok_def)
    show ?thesis
      using assms(2) Some find range True irte_present_bit(1) [of "valid msg" "irt v ! (b + vector)"]
      by (auto simp: iommu_map_interrupt_def irq_slot_def irte_owned_def granted_def Let_def split: if_splits option.splits)
  qed
qed

lemma map_result:
  assumes "vtd_sys_ok ops v" "iommu_map_interrupt ops ap d vector msg v = Some (r, v')"
  shows "vtd_sys_ok ops v' \<and>
    (v' = v \<and> (irq_slot v d vector = None \<or> valid msg \<and> \<not> granted ap msg) \<or>
     (\<exists>i e. irq_slot v d vector = Some i \<and> (valid msg \<longrightarrow> granted ap msg) \<and> i < length (irt v) \<and> irte_owned (irt v ! i) d \<and>
        irt v' = (irt v)[i := e] \<and> mapped_irte ap msg (irt v ! i) e))"
proof -
  from iommu_map_interrupt_result [OF assms(1), of ap d vector msg] assms(2)
  have res: "vtd_sys_ok ops v'" "case r of Inl e \<Rightarrow> v' = v
      | Inr i \<Rightarrow> i < irt_limit v \<and> irte_owned (irt v ! i) d \<and>
          vtd_find_int_remap_region (irt v) (irt_limit v) d = Inr (i - vector) \<and> vector \<le> i \<and>
          (\<exists>e. irt v' = (irt v)[i := e] \<and> mapped_irte ap msg (irt v ! i) e)"
    by auto
  note refused = map_refused [OF assms]
  show ?thesis
  proof (cases r)
    case (Inl e)
    then show ?thesis using res refused by simp
  next
    case (Inr i)
    then have i: "i < irt_limit v" "irte_owned (irt v ! i) d" "vector \<le> i" "irq_base v d = Some (i - vector)"
      using res(2) by (auto simp: irq_base_find split: option.splits)
    then have "irq_slot v d vector = Some i"
      by (simp add: irq_slot_def)
    moreover have "i < length (irt v)"
      using i(1) assms(1) by (simp add: vtd_sys_ok_def)
    ultimately show ?thesis
      using Inr res refused i(2) by auto
  qed
qed

lemma bf_set_get: "lo + len \<le> 64 \<Longrightarrow> bf_set lo len (bf_get lo len w) w = w"
  by (rule bit_word_eqI) (auto simp: bit_bf_set bit_bf_get)

text \<open>The upper half of a present entry never changes: what the comment in \<open>vtd_update_irte\<close> relies on.\<close>

lemma raw1_same_entry:
  assumes "irte_sq e = 0" "irte_svt e = 1"
  shows "raw1 (irte_of_msg ap m e) = raw1 e"
  using bf_set_get [of 16 2 "raw1 e"] bf_set_get [of 18 2 "raw1 e"] assms
  by (simp add: irte_of_msg_def Let_def irte_set_defs irte_sq_def irte_svt_def)

lemma mapped_irte_untorn:
  assumes "mapped_irte ap msg old e" "serves may r old"
  shows "untorn old e"
proof (cases "irte_p old \<and> valid msg")
  case True
  then obtain m where e: "e = irte_of_msg ap m (irte_set0 0 1 1 old)"
    using assms(1) by (auto simp: mapped_irte_def)
  have "irte_sq (irte_set0 0 1 1 old) = 0" "irte_svt (irte_set0 0 1 1 old) = 1"
    using assms(2) True
    by (auto simp: serves_def carries_def irte_sq_def irte_svt_def irte_set_defs split: option.splits)
  then have "raw1 e = raw1 old"
    unfolding e by (simp add: raw1_same_entry) (simp add: irte_set_defs)
  then show ?thesis
    by (auto simp: untorn_def irte_stores_def)
next
  case False
  then show ?thesis
    using mapped_irte_present(1) [OF assms(1)] by (intro untorn_absent) auto
qed

lemma map_serves:
  assumes "vtd_inv ops may v w" "may ap d" "iommu_map_interrupt ops ap d vector msg v = Some (r, v')"
  shows "vtd_inv ops may v' (note_request ap d vector msg v w)"
    "length (irt v') = length (irt v)" "i < length (irt v) \<Longrightarrow> untorn (irt v ! i) (irt v' ! i)"
proof -
  have ok: "vtd_sys_ok ops v" and table: "table_serves may w (irt v)"
    using assms(1) by (simp_all add: vtd_inv_def)
  from map_result [OF ok assms(3)] have ok': "vtd_sys_ok ops v'"
    and cases: "v' = v \<and> (irq_slot v d vector = None \<or> valid msg \<and> \<not> granted ap msg) \<or>
     (\<exists>i e. irq_slot v d vector = Some i \<and> (valid msg \<longrightarrow> granted ap msg) \<and> i < length (irt v) \<and> irte_owned (irt v ! i) d \<and>
        irt v' = (irt v)[i := e] \<and> mapped_irte ap msg (irt v ! i) e)"
    by blast+
  from cases have "vtd_inv ops may v' (note_request ap d vector msg v w) \<and> length (irt v') = length (irt v) \<and>
      (\<forall>i < length (irt v). untorn (irt v ! i) (irt v' ! i))"
  proof (elim disjE exE conjE)
    fix k e
    assume k: "irq_slot v d vector = Some k" "valid msg \<longrightarrow> granted ap msg" "k < length (irt v)" "irte_owned (irt v ! k) d"
      "irt v' = (irt v)[k := e]" "mapped_irte ap msg (irt v ! k) e"
    have "note_request ap d vector msg v w = w(k := if valid msg then Some (ap, d, msg) else None)"
      using k(1,2) by (simp add: note_request_def)
    moreover have "serves may (if valid msg then Some (ap, d, msg) else None) e"
      by (rule mapped_irte_serves [where may = may, OF k(6,4) assms(2)])
    ultimately have "table_serves may (note_request ap d vector msg v w) (irt v')"
      unfolding k(5) using table_serves_update [OF table] by simp
    moreover have "untorn (irt v ! i) (irt v' ! i)" for i
      using mapped_irte_untorn [OF k(6) table_serves_nth [OF table k(3)]] k(3,5) by (cases "i = k") simp_all
    ultimately show ?thesis
      using ok' k(5) by (simp add: vtd_inv_def)
  qed (use assms(1) in \<open>auto simp: note_request_def split: option.splits\<close>)
  then show "vtd_inv ops may v' (note_request ap d vector msg v w)"
    "length (irt v') = length (irt v)" "i < length (irt v) \<Longrightarrow> untorn (irt v ! i) (irt v' ! i)"
    by auto
qed


lemma add_device_serves:
  assumes "vtd_inv ops may v w" "iommu_add_pci_device ops pc page e dev v c = Some (err, v', c')"
  shows "vtd_inv ops may v' (if err = None then w else revoke v dev w)" "quiet (irt v) (irt v')"
proof -
  let ?len = "max (num_msi_vectors dev) (num_msix_vectors dev)"
  obtain r t where r: "vtd_reserve_int_remap_region (irt v) (irt_limit v) (dev_bdf dev) ?len = (r, t)"
    by fastforce
  note rs = reserve_serves [OF assms(1) r]
  have "vtd_inv ops may v' (if err = None then w else revoke v dev w) \<and> quiet (irt v) (irt v')"
  proof (cases r)
    case (Inl x)
    then have "irq_base v (dev_bdf dev) = None" "v' = v"
      using assms(2) r
      by (auto simp: iommu_add_pci_device_def Let_def vtd_reserve_int_remap_region_def irq_base_find split: if_splits option.splits)
    then show ?thesis
      using assms(1) by (simp add: revoke_def)
  next
    case (Inr b)
    show ?thesis
    proof (cases "err = None")
      case True
      then have "v' = v\<lparr>irt := t\<rparr>"
        using assms(2) r Inr
        by (auto simp: iommu_add_pci_device_def Let_def split: option.splits sum.splits)
      then show ?thesis
        using rs True by simp
    next
      case False
      then have free: "vtd_free_int_remap_region ops (dev_bdf dev) ?len (v\<lparr>irt := t\<rparr>) = Some v'"
        using assms(2) r Inr
        by (auto simp: iommu_add_pci_device_def Let_def split: option.splits sum.splits)
      note fs = free_serves [OF rs(1) free]
      show ?thesis
      proof (cases "irq_base v (dev_bdf dev)")
        case (Some b)
        then have "t = irt v"
          using r by (auto simp: vtd_reserve_int_remap_region_def irq_base_find)
        then show ?thesis
          using fs False Some by (auto simp: revoke_def)
      next
        case None
        have "(case irq_base (v\<lparr>irt := t\<rparr>) (dev_bdf dev) of None \<Rightarrow> w
            | Some b \<Rightarrow> (\<lambda>i. if b \<le> i \<and> i < b + ?len then None else w i)) = w"
          using rs(3) [OF None] by (auto simp: fun_eq_iff split: option.splits)
        then show ?thesis
          using fs None False rs(2) quiet_trans by (simp add: revoke_def)
      qed
    qed
  qed
  then show "vtd_inv ops may v' (if err = None then w else revoke v dev w)" "quiet (irt v) (irt v')"
    by simp_all
qed

lemma remove_device_serves:
  assumes "vtd_inv ops may v w" "iommu_remove_pci_device ops pc dev v c = Some (v', c')"
  shows "vtd_inv ops may v' (revoke v dev w)" "quiet (irt v) (irt v')"
proof -
  have "vtd_free_int_remap_region ops (dev_bdf dev) (max (num_msi_vectors dev) (num_msix_vectors dev)) v = Some v'"
    using assms(2) by (auto simp: iommu_remove_pci_device_def hbind_def split: option.splits)
  from free_serves [OF assms(1) this] show "vtd_inv ops may v' (revoke v dev w)" "quiet (irt v) (irt v')"
    by (simp_all add: revoke_def)
qed

lemma reserve_irqchips_serves:
  "vtd_inv ops may v w \<Longrightarrow> reserve_irqchips chips v = (err, v') \<Longrightarrow> vtd_inv ops may v' w \<and> quiet (irt v) (irt v')"
proof (induction chips v arbitrary: err v' rule: reserve_irqchips.induct)
  case (3 chip_id pins chips s)
  obtain r t where r: "vtd_reserve_int_remap_region (irt s) (irt_limit s) chip_id pins = (r, t)"
    by fastforce
  note rs = reserve_serves [OF 3(2) r]
  show ?case
  proof (cases r)
    case (Inl e)
    then show ?thesis
      using 3(3) r rs by auto
  next
    case (Inr b)
    then show ?thesis
      using 3(1) [OF r [symmetric] Inr rs(1)] 3(3) r rs(2) quiet_trans by fastforce
  qed
qed auto

lemma target_init_serves:
  "vtd_inv ops may v w \<Longrightarrow> vtd_target_init n i page chips used v = (err, used', v') \<Longrightarrow>
   vtd_inv ops may v' w \<and> quiet (irt v) (irt v')"
  by (auto simp: vtd_target_init_def Let_def dest: reserve_irqchips_serves split: if_splits option.splits prod.splits)


subsection \<open>The emulated units keep it\<close>

lemma set_usage_sound:
  assumes "usages_sound mine u" "i < irt_entries u"
    and "use_used (f (irte_map u ! i)) \<Longrightarrow> mine (use_device_id (f (irte_map u ! i)))"
  shows "usages_sound mine (set_usage i f u)"
  using assms by (auto simp: usages_sound_def set_usage_def dest!: set_update_subset_insert [THEN subsetD])

lemma set_usage_simps [simp]:
  "irt_entries (set_usage i f u) = irt_entries u" "em_irta (set_usage i f u) = em_irta u"
  by (simp_all add: set_usage_def)

lemma remap_sound:
  assumes "usages_sound mine u" "mine d"
    and "iommu_get_remapped_root_int page mem x2apic d vector i u = (msg, u')"
  shows "usages_sound mine u'"
proof (cases "irt_entries u \<le> i")
  case True
  then show ?thesis using assms by (simp add: iommu_get_remapped_root_int_def)
next
  case False
  let ?u = "set_usage i (\<lambda>e. e\<lparr>use_used := False\<rparr>) u"
  have off: "usages_sound mine ?u"
    using assms(1) False by (intro set_usage_sound) auto
  then have "usages_sound mine (set_usage i (\<lambda>e. e\<lparr>use_device_id := d, use_vector := vector mod 1024, use_used := True\<rparr>) ?u)"
    using assms(2) False by - (rule set_usage_sound, auto)
  moreover have "u' = ?u \<or> u' = set_usage i (\<lambda>e. e\<lparr>use_device_id := d, use_vector := vector mod 1024, use_used := True\<rparr>) ?u"
    using assms(3) False by (auto simp: iommu_get_remapped_root_int_def Let_def split: if_splits)
  ultimately show ?thesis
    using off by auto
qed

text \<open>The code reads out of Linux's table what Linux asks for.\<close>

lemma linux_request_read:
  assumes "k < irt_entries u"
    and "iommu_get_remapped_root_int (guest_page ext) mem x2apic d vector k u = (msg, u')"
  shows "msg = linux_request ext x2apic mem u d k"
proof -
  have a: "em_irta u AND VTD_IRTA_ADDR_MASK = push_bit 12 (drop_bit 12 (em_irta u))"
    by (rule bit_word_eqI) (auto simp: bit_simps masks)
  have dest: "drop_bit 8 (take_bit 32 (drop_bit 32 (lo :: u64))) = drop_bit 40 lo"
    "take_bit 32 (drop_bit 32 (lo :: u64)) = drop_bit 32 lo" for lo
    by (rule bit_word_eqI; auto simp: bit_simps dest: bit_imp_le_length)+
  show ?thesis
    using assms
    by (auto simp: iommu_get_remapped_root_int_def linux_request_def irq_msg_of_irte_def irte_get_defs bf_get_def Let_def
        a dest mult.commute split: if_splits)
qed

lemma emulate_inv_int_run:
  assumes "u = em_units s ! n" "k < irt_entries u" "use_used (irte_map u ! k)" "d = use_device_id (irte_map u ! k)"
    and "\<not> is_ivshmem ext d" "vtd_emulate_inv_int ops root ext n k s = Some (r, s')"
  shows "\<exists>u' r' v. iommu_get_remapped_root_int (guest_page ext) (guest_mem s) (apic_x2apic root) d
        (use_vector (irte_map u ! k)) k u = (linux_request ext (apic_x2apic root) (guest_mem s) u d k, u') \<and>
    iommu_map_interrupt ops root d (use_vector (irte_map u ! k))
      (linux_request ext (apic_x2apic root) (guest_mem s) u d k) (em_vtd s) = Some (r', v) \<and>
    s' = s\<lparr>em_units := (em_units s)[n := u'], em_vtd := v\<rparr>"
proof -
  obtain msg u' where get: "iommu_get_remapped_root_int (guest_page ext) (guest_mem s) (apic_x2apic root) d
      (use_vector (irte_map u ! k)) k u = (msg, u')"
    by fastforce
  have "msg = linux_request ext (apic_x2apic root) (guest_mem s) u d k"
    by (rule linux_request_read [OF assms(2) get])
  then show ?thesis
    using assms get by (auto simp: vtd_emulate_inv_int_def Let_def split: option.splits sum.splits)
qed

lemma unit_update_sound:
  assumes "irq_inv ops root may (s, w)" "usages_sound (may root) u"
  shows "irq_inv ops root may (s\<lparr>em_units := (em_units s)[n := u]\<rparr>, w)"
  using assms by (auto dest!: set_update_subset_insert [THEN subsetD])

lemma vtd_update_sound:
  "irq_inv ops root may (s, w) \<Longrightarrow> vtd_inv ops may v w' \<Longrightarrow> irq_inv ops root may (s\<lparr>em_vtd := v\<rparr>, w')"
  by simp

lemma irq_inv_unit: "irq_inv ops root may (s, w) \<Longrightarrow> n < length (em_units s) \<Longrightarrow> usages_sound (may root) (em_units s ! n)"
  by simp

text \<open>What a step keeps: the invariant and the sizes; and it tears no entry.\<close>

definition steady :: "'h emu_sys \<Rightarrow> 'h emu_sys \<Rightarrow> bool" where
  "steady s s' \<longleftrightarrow> length (em_units s') = length (em_units s) \<and> length (irt (em_vtd s')) = length (irt (em_vtd s)) \<and>
     (\<forall>i < length (irt (em_vtd s)). untorn (irt (em_vtd s) ! i) (irt (em_vtd s') ! i))"

lemma steady_same: "em_vtd s' = em_vtd s \<Longrightarrow> length (em_units s') = length (em_units s) \<Longrightarrow> steady s s'"
  by (simp add: steady_def)

lemma steady_quiet: "quiet (irt (em_vtd s)) (irt v) \<Longrightarrow> steady s (s\<lparr>em_vtd := v\<rparr>)"
  using quiet_untorn by (auto simp: steady_def quiet_def)

lemma irq_call_sound:
  assumes "irq_call ops ext root may sw sw'" "irq_inv ops root may sw"
  shows "irq_inv ops root may sw' \<and> steady (fst sw) (fst sw')"
  using assms
proof (induction rule: irq_call.induct)
  case (remap unit_no s d vector i msg u w)
  show ?case
    using unit_update_sound [OF remap.prems remap_sound [OF irq_inv_unit [OF remap.prems remap(1)] remap(2,3)]]
    by (simp add: steady_same)
next
  case (map ap d vector msg s r v w)
  have "vtd_inv ops may (em_vtd s) w"
    using map.prems by simp
  note ms = map_serves [OF this map(1,2)]
  show ?case
    using vtd_update_sound [OF map.prems ms(1)] ms(2,3) by (simp add: steady_def)
qed

lemma irq_call_mono:
  "irq_call ops ext root may' sw sw' \<Longrightarrow> (\<And>ap d. may' ap d \<Longrightarrow> may ap d) \<Longrightarrow> irq_call ops ext root may sw sw'"
  by (induction rule: irq_call.induct) (auto intro: irq_call.intros)

lemma linux_step_sound:
  assumes "linux_step ops ext root may sw sw'" "irq_inv ops root may sw"
  shows "irq_inv ops root may sw' \<and> steady (fst sw) (fst sw')"
  using assms
proof (induction rule: linux_step.induct)
  case (call sw sw')
  have "irq_call ops ext root may sw sw'"
    by (rule irq_call_mono [OF call(1)]) auto
  then show ?case
    using irq_call_sound call.prems by blast
next
  case (store s w m)
  then show ?case
    by (simp add: steady_same)
next
  case (registers n s w f h)
  have "usages_sound (may root) ((em_units s ! n)\<lparr>em_iqh := h, fault_event_regs := f\<rparr>)"
    using irq_inv_unit [OF registers.prems registers(1)] by (simp add: usages_sound_def)
  from unit_update_sound [OF registers.prems this] show ?case
    by (simp add: steady_same)
next
  case (invalidate n s u k d r s' w)
  note sound = irq_inv_unit [OF invalidate.prems invalidate(1), folded invalidate(2)]
  then have mine: "may root d"
    using invalidate(3-5) by (auto simp: usages_sound_def)
  obtain u' r' v where get: "iommu_get_remapped_root_int (guest_page ext) (guest_mem s) (apic_x2apic root) d
        (use_vector (irte_map u ! k)) k u = (linux_request ext (apic_x2apic root) (guest_mem s) u d k, u')"
    and map: "iommu_map_interrupt ops root d (use_vector (irte_map u ! k))
      (linux_request ext (apic_x2apic root) (guest_mem s) u d k) (em_vtd s) = Some (r', v)"
    and s': "s' = s\<lparr>em_units := (em_units s)[n := u'], em_vtd := v\<rparr>"
    using emulate_inv_int_run [OF invalidate(2-7)] by blast
  have "vtd_inv ops may (em_vtd s) w"
    using invalidate.prems by simp
  note ms = map_serves [OF this mine map]
  have "irq_inv ops root may (s\<lparr>em_units := (em_units s)[n := u']\<rparr>, w)"
    by (rule unit_update_sound [OF invalidate.prems remap_sound [OF sound mine get]])
  from vtd_update_sound [OF this ms(1)] ms(2,3) show ?case
    by (simp add: s' steady_def)
qed

lemma linux_steps_sound:
  assumes "(linux_step ops ext root may)\<^sup>*\<^sup>* sw sw'" "irq_inv ops root may sw"
  shows "irq_inv ops root may sw' \<and> length (em_units (fst sw')) = length (em_units (fst sw))"
  using assms by (induction rule: rtranclp_induct) (auto dest: linux_step_sound simp: steady_def)

text \<open>An access to an emulated unit is a sequence of these steps.\<close>

definition linux_run ::
  "'h dmar_ops \<Rightarrow> 'h emu_ext \<Rightarrow> apic_if \<Rightarrow> (apic_if \<Rightarrow> u16 \<Rightarrow> bool) \<Rightarrow> nat \<Rightarrow> 'h emu_sys \<times> requests \<Rightarrow> 'h emu_sys \<Rightarrow> bool" where
  "linux_run ops ext root may n sw s \<longleftrightarrow> n < length (em_units s) \<and>
     (\<exists>w. (linux_step ops ext root may)\<^sup>*\<^sup>* sw (s, w) \<and> irq_inv ops root may (s, w))"

lemma linux_run_step:
  assumes "linux_run ops ext root may n sw s" "\<And>w. \<exists>w'. linux_step ops ext root may (s, w) (s', w')"
  shows "linux_run ops ext root may n sw s'"
proof -
  obtain w where w: "(linux_step ops ext root may)\<^sup>*\<^sup>* sw (s, w)" "irq_inv ops root may (s, w)" "n < length (em_units s)"
    using assms(1) by (auto simp: linux_run_def)
  obtain w' where step: "linux_step ops ext root may (s, w) (s', w')"
    using assms(2) by blast
  show ?thesis
    unfolding linux_run_def
    using linux_step_sound [OF step w(2)] w(3) rtranclp.rtrancl_into_rtrancl [OF w(1) step]
    by (auto simp: steady_def)
qed

lemma emulate_inv_int_steps:
  assumes "ivshmem_calls ops ext root may" "linux_run ops ext root may n sw s"
    and "vtd_emulate_inv_int ops root ext n k s = Some (r, s')"
  shows "linux_run ops ext root may n sw s'"
proof -
  let ?u = "em_units s ! n"
  let ?d = "use_device_id (irte_map ?u ! k)" and ?v = "use_vector (irte_map ?u ! k)"
  obtain w where w: "(linux_step ops ext root may)\<^sup>*\<^sup>* sw (s, w)" "irq_inv ops root may (s, w)" "n < length (em_units s)"
    using assms(2) by (auto simp: linux_run_def)
  consider (none) "irt_entries ?u \<le> k \<or> \<not> use_used (irte_map ?u ! k)"
    | (ivshmem) "k < irt_entries ?u" "use_used (irte_map ?u ! k)" "is_ivshmem ext ?d"
    | (device) "k < irt_entries ?u" "use_used (irte_map ?u ! k)" "\<not> is_ivshmem ext ?d"
    by linarith
  then show ?thesis
  proof cases
    case none
    then have "s' = s"
      using assms(3) unfolding vtd_emulate_inv_int_def Let_def by (simp split: if_splits)
    then show ?thesis using assms(2) by simp
  next
    case ivshmem
    have mine: "may root ?d"
      using irq_inv_unit [OF w(2,3)] ivshmem(1,2) by (auto simp: usages_sound_def)
    have "s' = snd (ivshmem_update_msix_vector ext ?d ?v s)"
      using assms(3) ivshmem by (simp add: vtd_emulate_inv_int_def Let_def)
    then obtain w' where calls: "(irq_call ops ext root (\<lambda>ap d'. ap = root \<and> d' = ?d))\<^sup>*\<^sup>* (s, w) (s', w')"
      using assms(1) mine unfolding ivshmem_calls_def by blast
    have "linux_step ops ext root may x y" if "irq_call ops ext root (\<lambda>ap d'. ap = root \<and> d' = ?d) x y" for x y
      by (rule linux_step.call, rule irq_call_mono [OF that]) (use mine in auto)
    then have steps: "(linux_step ops ext root may)\<^sup>*\<^sup>* (s, w) (s', w')"
      using calls by (metis (no_types, lifting) predicate2I mono_rtranclp rtranclp_mono rev_predicate2D)
    from linux_steps_sound [OF this w(2)] show ?thesis
      unfolding linux_run_def using w(3) rtranclp_trans [OF w(1) steps] by auto
  next
    case device
    show ?thesis
      by (rule linux_run_step [OF assms(2)], rule exI, rule linux_step.invalidate [OF w(3) refl device(1,2) refl device(3) assms(3)])
  qed
qed

lemma emulate_inv_ints_steps:
  assumes "ivshmem_calls ops ext root may"
  shows "linux_run ops ext root may n sw s \<Longrightarrow> emulate_inv_ints ops root ext n i k s = Some (r, s') \<Longrightarrow>
    linux_run ops ext root may n sw s'"
proof (induction k arbitrary: i s)
  case 0
  then show ?case by simp
next
  case (Suc k)
  obtain err s1 where s1: "vtd_emulate_inv_int ops root ext n i s = Some (err, s1)"
    using Suc.prems(2) by (auto split: option.splits)
  from emulate_inv_int_steps [OF assms Suc.prems(1) s1] Suc s1 show ?case
    by (cases err) auto
qed

lemma qi_request_steps:
  assumes "ivshmem_calls ops ext root may" "linux_run ops ext root may n sw s"
    and "vtd_emulate_qi_request ops root ext n d s = Some (r, s')"
  shows "linux_run ops ext root may n sw s'"
proof -
  have "linux_run ops ext root may n sw (s\<lparr>guest_mem := m\<rparr>)" for m
    using linux_run_step [OF assms(2)] linux_step.store by fast
  then show ?thesis
    using assms(2,3) emulate_inv_ints_steps [OF assms(1,2)]
    by (auto simp: vtd_emulate_qi_request_def Let_def split: if_splits)
qed

lemma iq_entry_steps:
  assumes "ivshmem_calls ops ext root may" "linux_run ops ext root may n sw s"
    and "iq_entry ops root ext n h s = Some (r, s')"
  shows "linux_run ops ext root may n sw s'"
  using assms by (auto simp: iq_entry_def Let_def intro: qi_request_steps split: if_splits)


text \<open>What the body of the queue loop keeps, the loop keeps.\<close>

lemma iq_loop_keeps:
  assumes "iq_loop body tail h s = Some x" "P s" "\<And>h s ok s'. P s \<Longrightarrow> body h s = Some (ok, s') \<Longrightarrow> P s'"
  shows "P (snd (snd x))"
proof -
  let ?Q = "\<lambda>body tail (h :: u16) s x. (\<forall>h s ok s'. P s \<longrightarrow> body h s = Some (ok, s') \<longrightarrow> P s') \<longrightarrow> P s \<longrightarrow> P (snd (snd x))"
  from assms(1) have "?Q body tail h s x"
  proof (rule iq_loop.raw_induct [where P = ?Q, rotated])
    fix loop body tail h s x
    assume IH: "\<And>body tail h s x. loop body tail h s = Some x \<Longrightarrow> ?Q body tail h s x"
      and run: "(if ucast h = tail then Some (True, h, s)
        else case body h s of None \<Rightarrow> None
          | Some (ok, s) \<Rightarrow> if ok then loop body tail (h + 16 AND 4095) s else Some (False, h, s)) = Some x"
    show "?Q body tail h s x"
    proof (intro impI)
      assume keep: "\<forall>h s ok s'. P s \<longrightarrow> body h s = Some (ok, s') \<longrightarrow> P s'" and "P s"
      show "P (snd (snd x))"
      proof (cases "ucast h = tail")
        case True
        then show ?thesis using run \<open>P s\<close> by auto
      next
        case False
        then obtain ok s' where body: "body h s = Some (ok, s')"
          using run by (auto split: option.splits)
        then have "P s'"
          using keep \<open>P s\<close> by blast
        show ?thesis
        proof (cases ok)
          case True
          then have "loop body tail (h + 16 AND 4095) s' = Some x"
            using run False body by simp
          from IH [OF this] show ?thesis
            using keep \<open>P s'\<close> by blast
        next
          case not_ok: False
          then show ?thesis
            using run False body \<open>P s'\<close> by auto
        qed
      qed
    qed
  qed
  then show ?thesis
    using assms(2,3) by blast
qed

lemma access_steps:
  assumes "ivshmem_calls ops ext root may" "linux_run ops ext root may n sw s"
    and "vtd_unit_access_handler ops root ext n mmio s = Some (r, val, s')"
  shows "linux_run ops ext root may n sw s'"
proof -
  let ?set = "\<lambda>s h f. s\<lparr>em_units := (em_units s)[n := (em_units s ! n)\<lparr>em_iqh := h, fault_event_regs := f\<rparr>]\<rparr>"
  have regs: "linux_run ops ext root may n sw (?set s h f)" if "linux_run ops ext root may n sw s" for s h f
    by (rule linux_run_step [OF that], rule exI, rule linux_step.registers) (use that in \<open>simp add: linux_run_def\<close>)
  have fault: "linux_run ops ext root may n sw
      (s\<lparr>em_units := (em_units s)[n := (em_units s ! n)\<lparr>fault_event_regs := f\<rparr>]\<rparr>)" for f
    using regs [OF assms(2), of f "em_iqh (em_units s ! n)"] by simp
  have loop: "linux_run ops ext root may n sw (s2\<lparr>em_units := (em_units s2)[n := (em_units s2 ! n)\<lparr>em_iqh := h\<rparr>]\<rparr>)"
    if "iq_loop (iq_entry ops root ext n) tail h0 s = Some (ok, h, s2)" for tail h0 ok h s2
  proof -
    have "linux_run ops ext root may n sw s2"
      using iq_loop_keeps [where P = "linux_run ops ext root may n sw", OF that assms(2) iq_entry_steps [OF assms(1)]] by simp
    from regs [OF this, of "fault_event_regs (em_units s2 ! n)" h] show ?thesis
      by simp
  qed
  show ?thesis
    using assms(2,3) fault loop by (auto simp: vtd_unit_access_handler_def Let_def split: if_splits)
qed

subsection \<open>The reachable states\<close>

lemma irq_step_sound:
  assumes "irq_step ops ext root may pc sc sc'" "irq_inv ops root may (fst sc)"
  shows "irq_inv ops root may (fst sc') \<and> steady (fst (fst sc)) (fst (fst sc'))"
  using assms
proof (induction rule: irq_step.induct)
  case (add_device page e dev s c err v c' w)
  have "vtd_inv ops may (em_vtd s) w"
    using add_device.prems by simp
  from add_device_serves [OF this add_device(1)] show ?case
    using vtd_update_sound [of ops root may s w] add_device.prems by (simp add: steady_quiet)
next
  case (remove_device dev s c v c' w)
  have "vtd_inv ops may (em_vtd s) w"
    using remove_device.prems by simp
  from remove_device_serves [OF this remove_device(1)] show ?case
    using vtd_update_sound [of ops root may s w] remove_device.prems by (simp add: steady_quiet)
next
  case (target_init num_did target_id root_page chips used s err used' v w c)
  have "vtd_inv ops may (em_vtd s) w"
    using target_init.prems by simp
  from target_init_serves [OF this target_init(1)] show ?case
    using vtd_update_sound [of ops root may s w] target_init.prems by (simp add: steady_quiet)
qed (auto dest: irq_call_sound linux_step_sound)

text \<open>The state after \<open>vtd_init\<close>, in which nothing was asked: \<open>m\<close> is the memory of Linux.\<close>

abbreviation (input) booted_emu :: "vtd_boot \<Rightarrow> 'h vtd_sys \<Rightarrow> (u64 \<Rightarrow> u32) \<Rightarrow> 'h emu_sys" where
  "booted_emu st v m \<equiv> \<lparr>em_units = boot_units st, em_vtd = v, guest_mem = m\<rparr>"

lemma vtd_init_irq_inv:
  assumes "vtd_init ops env get_phys_invalid root_id page chips (boot_start units) h = Some (None, st, n, Some (ps, v))"
    and "env_pages_ok env" "length (iommu_units env) \<le> length units" "\<forall>u \<in> set units. usages_unused u"
    and "iq_answers ops" "iq_tail_in_queue ops"
  shows "irq_inv ops root may (booted_emu st v m, \<lambda>_. None)"
proof -
  have units: "\<forall>u \<in> set (boot_units st). usages_unused u"
    using vtd_init_result [OF assms(1-3)] assms(4) by blast
  obtain v0 where v0: "reserve_irqchips chips v0 = (None, v)" "\<forall>e \<in> set (irt v0). \<not> irte_p e"
    "irt_limit v0 \<le> length (irt v0)" "queues_ok (dmar_units v0) (unit_inv_queue v0)"
    using vtd_init_result [OF assms(1-3)] by blast
  then have "vtd_inv ops may v0 (\<lambda>_. None)"
    using assms(5,6) by (simp add: vtd_inv_def vtd_sys_ok_def table_serves_def serves_absent)
  from reserve_irqchips_serves [OF this v0(1)] units show ?thesis
    by (auto simp: usages_sound_def usages_unused_def)
qed

interpretation irq_system: transition_system
  "\<lambda>sc. irq_inv ops root may (fst sc)" "irq_step ops ext root may pc"
  "\<lambda>sc. irq_inv ops root may (fst sc)" for ops ext root may pc
  by unfold_locales (auto dest: irq_step_sound)

subsection \<open>Properties\<close>

text \<open>C3. Interrupt isolation of the whole system. Start VT-d with \<open>vtd_init\<close> on zeroed pages and units that execute
  their queues; then let devices and targets come and go, targets map interrupts for the devices they
  program, and Linux write its own tables and the registers of the emulated units, in any order. In every
  state reached, each entry serves what was last asked of it, and granted, since its device was added: if that is nothing, the entry is
  not present; otherwise it is present, assigned to the device of this request, whose target
  programs the device, makes the unit verify the full source id, and carries this very message, as the target's
  filter let it through, in all of its fields: vector, delivery mode, destination and its mode, redirection hint and
  trigger mode. What Linux asks for by invalidating an entry of its own table is what the table holds there. No
  step from such a state, whatever it does, lets the unit read a mixture: each entry it stores on the way is not
  present, or the old, or the new one. And an access of Linux to an emulated unit is a sequence of these steps,
  with the invalidations one by one.\<close>

theorem interrupt_table_isolated:
  assumes "vtd_init ops env get_phys_invalid root_id page chips (boot_start units) h = Some (None, st, n, Some (ps, v0))"
    and "env_pages_ok env" "length (iommu_units env) \<le> length units" "\<forall>u \<in> set units. usages_unused u"
    and "iq_answers ops" "iq_tail_in_queue ops" "ivshmem_calls ops ext root may"
    and "(irq_step ops ext root may pc)\<^sup>*\<^sup>* ((booted_emu st v0 m, \<lambda>_. None), c) ((s, w), c')"
  shows "(\<forall>i < length (irt (em_vtd s)). serves may (w i) (irt (em_vtd s) ! i)) \<and>
    (\<forall>s' w' c'' i. irq_step ops ext root may pc ((s, w), c') ((s', w'), c'') \<and> i < length (irt (em_vtd s)) \<longrightarrow>
       untorn (irt (em_vtd s) ! i) (irt (em_vtd s') ! i)) \<and>
    (\<forall>unit_no mmio r val s'. unit_no < length (em_units s) \<and>
       vtd_unit_access_handler ops root ext unit_no mmio s = Some (r, val, s') \<longrightarrow>
       (\<exists>w'. (linux_step ops ext root may)\<^sup>*\<^sup>* (s, w) (s', w')))"
proof -
  have inv: "irq_inv ops root may (s, w)"
    using irq_system.reachable_inv [OF _ assms(8)] vtd_init_irq_inv [OF assms(1-6)] by simp
  then have "\<forall>i < length (irt (em_vtd s)). serves may (w i) (irt (em_vtd s) ! i)"
    by (simp add: vtd_inv_def table_serves_def)
  moreover have "untorn (irt (em_vtd s) ! i) (irt (em_vtd s') ! i)"
    if "irq_step ops ext root may pc ((s, w), c') ((s', w'), c'')" "i < length (irt (em_vtd s))" for s' w' c'' i
    using irq_step_sound [OF that(1)] inv that(2) by (simp add: steady_def)
  moreover have "\<exists>w'. (linux_step ops ext root may)\<^sup>*\<^sup>* (s, w) (s', w')"
    if "unit_no < length (em_units s)" "vtd_unit_access_handler ops root ext unit_no mmio s = Some (r, val, s')"
    for unit_no mmio r val s'
  proof -
    have "linux_run ops ext root may unit_no (s, w) s"
      using that(1) inv unfolding linux_run_def by blast
    from access_steps [OF assms(7) this that(2)] show ?thesis
      by (auto simp: linux_run_def)
  qed
  ultimately show ?thesis
    by blast
qed

subsection \<open>A device that moves to another target\<close>

text \<open>A target whose interrupts may only go to CPU \<open>n\<close>.\<close>

definition cpu_filter :: "u64 \<Rightarrow> apic_if" where
  "cpu_filter n = \<lparr>apic_filter_irq_dest = (\<lambda>m. if msg_destination m = n then Some m else None), dlvr_fixed = 0,
     dlvr_lowpri = 1, apic_x2apic = False\<rparr>"

definition cpu_msg :: "u64 \<Rightarrow> apic_irq_message" where
  "cpu_msg n = demo_msg\<lparr>msg_destination := n\<rparr>"

lemma cpu_msg_simps [simp]: "valid (cpu_msg n)" "msg_delivery_mode (cpu_msg n) = 0" "msg_destination (cpu_msg n) = n"
  by (simp_all add: cpu_msg_def demo_msg_def)

text \<open>No ivshmem devices.\<close>

definition quiet_ext :: "'h emu_ext" where
  "quiet_ext = \<lparr>guest_page = \<lambda>_ _. True, is_ivshmem = \<lambda>_. False, ivshmem_update_msix_vector = \<lambda>_ _ s. (None, s)\<rparr>"

lemma quiet_ext_calls: "ivshmem_calls ops quiet_ext root may"
  by (auto simp: ivshmem_calls_def quiet_ext_def)

text \<open>Linux's remapping table at \<open>0x3000\<close> routes vector \<open>0x66\<close> of device 7 to CPU 1.\<close>

definition handover_emu :: "ideal_hw emu_sys" where
  "handover_emu = \<lparr>em_units = [\<lparr>em_irta = 0x3000, irt_entries = 2,
       irte_map = replicate 2 \<lparr>use_device_id = 0, use_vector = 0, use_used = False\<rparr>, em_iqa = 0x1000, em_iqh = 0,
       fault_event_regs = [0, 0, 0, 0]\<rparr>],
     em_vtd = demo_sys (replicate 8 free_irte),
     guest_mem = (\<lambda>_. 0)(0x3000 := 0x660001, 0x3004 := 0x100, 0x3008 := 7)\<rparr>"

abbreviation (input) device7 :: pci_device_info where
  "device7 \<equiv> \<lparr>dev_bdf = 7, num_msi_vectors = 1, num_msix_vectors = 0\<rparr>"

abbreviation (input) table7 :: "vtd_irte list" where
  "table7 \<equiv> (replicate 8 free_irte)[0 := irte_assign 7 free_irte]"

lemma find7: "vtd_find_int_remap_region table7 8 7 = Inr 0"
  by code_simp

text \<open>Mapping vector 0 of the device, whose entry may be mapped already.\<close>

lemma map7:
  assumes "vtd_sys_ok ops v" "irt_limit v = 8" "irte_owned (irt v ! 0) 7"
    and "valid msg" "msg_delivery_mode msg = 0" "msg_destination msg = n"
  shows "\<exists>v' e. iommu_map_interrupt ops (cpu_filter n) 7 0 msg v = Some (Inr 0, v') \<and> vtd_sys_ok ops v' \<and>
    irt_limit v' = 8 \<and> irt v' = (irt v)[0 := e] \<and> mapped_irte (cpu_filter n) msg (irt v ! 0) e"
proof -
  have find: "vtd_find_int_remap_region (irt v) (irt_limit v) 7 = Inr 0"
    using assms(3) unfolding assms(2) vtd_find_int_remap_region_def find_region_Inr by simp
  have "8 \<le> length (irt v)"
    using assms(1,2) by (simp add: vtd_sys_ok_def)
  then have entry: "array_get (irt v) 0 = Some (irt v ! 0)" "irte_assigned (irt v ! 0)" "irte_sid (irt v ! 0) = 7"
    using assms(3) by (auto simp: irte_owned_def array_get_def)
  obtain r v' where run: "iommu_map_interrupt ops (cpu_filter n) 7 0 msg v = Some (r, v')"
    and ok: "vtd_sys_ok ops v'" "irt_limit v' = irt_limit v"
    and res: "case r of Inl e \<Rightarrow> v' = v
      | Inr i \<Rightarrow> i < irt_limit v \<and> irte_owned (irt v ! i) 7 \<and>
          vtd_find_int_remap_region (irt v) (irt_limit v) 7 = Inr (i - 0) \<and> 0 \<le> i \<and>
          (\<exists>e. irt v' = (irt v)[i := e] \<and> mapped_irte (cpu_filter n) msg (irt v ! i) e)"
    using iommu_map_interrupt_result [OF assms(1)] by blast
  have "\<not> isl r"
    using run entry
    by (auto simp: find [unfolded assms(2)] assms(2) iommu_map_interrupt_def Let_def cpu_filter_def assms(4-6) split: if_splits)
  then obtain e where "r = Inr 0" "irt v' = (irt v)[0 := e]" "mapped_irte (cpu_filter n) msg (irt v ! 0) e"
    using res find by (cases r) auto
  then show ?thesis
    using run ok assms(2) by auto
qed

lemma map7_entry:
  assumes "mapped_irte (cpu_filter n) msg e e'" "irte_owned e 7" "valid msg" "msg_destination msg = n"
  shows "irte_p e'" "irte_svt e' = 1" "irte_owned e' 7" "irte_destination e' = take_bit 32 (push_bit 8 n)"
  using mapped_irte_owned [OF assms(1)] mapped_irte_present [OF assms(1)] assms(2-4)
  by (auto simp: cpu_filter_def split: if_splits)

text \<open>A second device on the bus keeps the context table allocated.\<close>

lemma device8_added:
  "\<exists>c. iommu_add_pci_device ops pci_std (Some (0x5000, replicate 256 \<lparr>lo_word = 0, hi_word = 0\<rparr>))
     (vtd_context_entry 4 0x6000 0) \<lparr>dev_bdf = 8, num_msi_vectors = 0, num_msix_vectors = 0\<rparr> v empty_ctx_sys = Some (None, v, c) \<and>
     ctx_wf c \<and> ctx_lookup pci_std c 8 \<noteq> None"
proof -
  have "ctx_present (vtd_context_entry 4 0x6000 0)"
    "ctx_page_ok empty_ctx_sys (Some (0x5000, replicate 256 \<lparr>lo_word = 0, hi_word = 0\<rparr>))"
    by (simp_all add: ctx_page_ok_def empty_ctx_sys_def PAGE_MASK_def ctx_present_def vtd_context_entry_def)
  from ctx_add_refines [OF pci_std_ok empty_ctx_sys_wf this(2,1), of 8] obtain c where
    "ctx_add pci_std (Some (0x5000, replicate 256 \<lparr>lo_word = 0, hi_word = 0\<rparr>)) (vtd_context_entry 4 0x6000 0) 8 empty_ctx_sys =
      Some (Inr c)" "ctx_wf c" "ctx_lookup pci_std c = (ctx_lookup pci_std empty_ctx_sys)(8 \<mapsto> vtd_context_entry 4 0x6000 0)"
    by (auto simp: ctx_add_def Let_def split: if_splits option.splits)
  then show ?thesis
    by (simp add: iommu_add_pci_device_def vtd_reserve_int_remap_region_def)
qed

lemma context_entry_present: "ctx_present (vtd_context_entry levels p target_id)"
proof -
  have "(1 OR p) AND 1 = (1 :: u64)"
    by (rule bit_word_eqI) (auto simp: bit_simps bit_1_iff)
  then show ?thesis
    by (simp add: ctx_present_def vtd_context_entry_def)
qed

text \<open>With the root entry in place no page is needed, so adding cannot run out of memory.\<close>

lemma ctx_add_present:
  assumes "ctx_wf c" "ctx_lookup pci_std c 8 \<noteq> None" "ctx_present e"
  shows "\<exists>c'. ctx_add pci_std None e 7 c = Some (Inr c') \<and> ctx_wf c' \<and> ctx_lookup pci_std c' = (ctx_lookup pci_std c)(7 \<mapsto> e)"
proof -
  have "root_present c 0"
    using assms(2) by (simp add: ctx_lookup_def pci_std_def split: if_splits)
  then have "ctx_add pci_std None e 7 c \<noteq> Some (Inl ENOMEM)"
    by (auto simp: ctx_add_def root_present_def Let_def pci_std_def split: option.splits)
  then show ?thesis
    using ctx_add_refines [OF pci_std_ok assms(1) _ assms(3), of None 7] by (auto simp: ctx_page_ok_def)
qed

lemma device7_added:
  assumes "ctx_wf c" "ctx_lookup pci_std c 8 \<noteq> None" "irt_limit v = 8"
    and "irt v = (replicate 8 free_irte)[0 := f]" "\<not> irte_assigned f"
  shows "\<exists>c'. iommu_add_pci_device ops pci_std None (vtd_context_entry 4 p target_id) device7 v c =
      Some (None, v\<lparr>irt := table7[0 := irte_assign 7 f]\<rparr>, c') \<and>
    ctx_wf c' \<and> ctx_lookup pci_std c' = (ctx_lookup pci_std c)(7 \<mapsto> vtd_context_entry 4 p target_id)"
proof -
  let ?t = "(replicate 8 free_irte)[0 := f]"
  have free: "\<not> irte_assigned (?t ! i)" if "i < 8" for i
    using assms(5) that by (cases "i = 0") (simp_all add: irte_assigned_def free_irte_def)
  then have "vtd_find_int_remap_region ?t 8 7 = Inl ENOENT"
    by (simp add: vtd_find_int_remap_region_def find_region_Inl irte_owned_def)
  moreover have "reserve_scan ?t 1 None 0 (Suc 7) = Some 0"
    using free [of 0] by (simp only: reserve_scan.simps) simp
  moreover have "assign_region ?t 7 0 (Suc 0) = table7[0 := irte_assign 7 f]"
    by simp
  ultimately have reserve: "vtd_reserve_int_remap_region ?t 8 7 1 = (Inr 0, table7[0 := irte_assign 7 f])"
    by (simp add: vtd_reserve_int_remap_region_def del: reserve_scan.simps assign_region.simps)
  obtain c' where "ctx_add pci_std None (vtd_context_entry 4 p target_id) 7 c = Some (Inr c')" "ctx_wf c'"
    "ctx_lookup pci_std c' = (ctx_lookup pci_std c)(7 \<mapsto> vtd_context_entry 4 p target_id)"
    using ctx_add_present [OF assms(1,2) context_entry_present] by blast
  then show ?thesis
    using reserve by (simp add: iommu_add_pci_device_def assms(3,4))
qed

lemma demo_sys_update [simp]: "(demo_sys t)\<lparr>irt := t'\<rparr> = demo_sys t'"
  by (simp add: demo_sys_def)

lemma device7_added_first:
  assumes "ctx_wf c" "ctx_lookup pci_std c 8 \<noteq> None"
  shows "\<exists>c'. iommu_add_pci_device ops pci_std None (vtd_context_entry 4 p target_id) device7 (demo_sys (replicate 8 free_irte)) c =
      Some (None, demo_sys table7, c') \<and>
    ctx_wf c' \<and> ctx_lookup pci_std c' = (ctx_lookup pci_std c)(7 \<mapsto> vtd_context_entry 4 p target_id)"
proof -
  have "replicate 8 free_irte = (replicate 8 free_irte)[0 := free_irte]"
    by (rule nth_equalityI) (auto simp: nth_list_update)
  moreover have "\<not> irte_assigned free_irte"
    by (simp add: irte_assigned_def free_irte_def)
  ultimately show ?thesis
    using device7_added [OF assms, where v = "demo_sys (replicate 8 free_irte)" and f = free_irte] by simp
qed

lemma irq_map:
  "iommu_map_interrupt ops ap d vector msg (em_vtd s) = Some (r, v) \<Longrightarrow> may ap d \<Longrightarrow> s' = s\<lparr>em_vtd := v\<rparr> \<Longrightarrow>
   irq_step ops ext root may pc ((s, w), c) ((s', note_request ap d vector msg (em_vtd s) w), c)"
  using irq_step.call irq_call.map by fast

lemma demo_boot_iq: "iq_answers demo_boot_ops" "iq_tail_in_queue demo_boot_ops"
  by (simp_all add: iq_answers_def answers_def iq_tail_in_queue_def iq_tail_def demo_boot_ops_def)

lemma demo_boot_irt:
  "case vtd_init demo_boot_ops demo_boot_env (\<lambda>_ _. 0) 0 (Some 0x9000) [(7, Inr 2)] (boot_start [demo_boot_unit]) () of
     Some (None, st, n, Some (ps, v)) \<Rightarrow> irt_limit v = 8 \<and> irte_owned (irt v ! 0) 7
   | _ \<Rightarrow> False"
  by code_simp

theorem interrupt_table_isolated_witness:
  "\<exists>st n ps v r v'. vtd_init demo_boot_ops demo_boot_env (\<lambda>_ _. 0) 0 (Some 0x9000) [(7, Inr 2)] (boot_start [demo_boot_unit]) () =
       Some (None, st, n, Some (ps, v)) \<and>
     iommu_map_interrupt demo_boot_ops (cpu_filter 1) 7 0 (cpu_msg 1) v = Some (r, v') \<and>
     irte_p (irt v' ! 0) \<and> irte_sid (irt v' ! 0) = 7 \<and> irte_svt (irt v' ! 0) = 1 \<and>
     irte_vector (irt v' ! 0) = take_bit 8 (msg_vector demo_msg) \<and> irte_destination (irt v' ! 0) = 0x100"
proof -
  let ?may = "\<lambda>ap d. ap = cpu_filter 1 \<and> d = (7 :: u16)"
  obtain st n ps v where
    run: "vtd_init demo_boot_ops demo_boot_env (\<lambda>_ _. 0) 0 (Some 0x9000) [(7, Inr 2)] (boot_start [demo_boot_unit]) () =
      Some (None, st, n, Some (ps, v))"
    and v: "irt_limit v = 8" "irte_owned (irt v ! 0) 7"
    using demo_boot_irt by (auto split: option.splits prod.splits)
  have len: "length (iommu_units demo_boot_env) \<le> length [demo_boot_unit]" "\<forall>u \<in> set [demo_boot_unit]. usages_unused u"
    by (simp_all add: demo_boot_env_def demo_boot_unit_def usages_unused_def)
  have "irq_inv demo_boot_ops (cpu_filter 1) ?may (booted_emu st v (\<lambda>_. 0), \<lambda>_. None)"
    by (rule vtd_init_irq_inv [OF run demo_boot_pages len demo_boot_iq])
  then have ok: "vtd_sys_ok demo_boot_ops v" "0 < length (irt v)"
    using v(1) by (auto simp: vtd_inv_def vtd_sys_ok_def)
  obtain v' e where map: "iommu_map_interrupt demo_boot_ops (cpu_filter 1) 7 0 (cpu_msg 1) v = Some (Inr 0, v')"
    "irt v' = (irt v)[0 := e]"
    using map7 [OF ok(1) v, where n = 1 and msg = "cpu_msg 1"] by auto
  have slot: "irq_slot v 7 0 = Some 0"
  proof -
    have "irq_base v 7 = Some 0"
      using v by (simp add: irq_base_Some)
    then show ?thesis
      using v by (simp add: irq_slot_def)
  qed
  have asked: "note_request (cpu_filter 1) 7 0 (cpu_msg 1) v w = w(0 \<mapsto> (cpu_filter 1, 7, cpu_msg 1))" for w
    by (simp add: note_request_def slot granted_def cpu_filter_def)
  have "irq_step demo_boot_ops quiet_ext (cpu_filter 1) ?may pci_std
      ((booted_emu st v (\<lambda>_. 0), \<lambda>_. None), empty_ctx_sys)
      ((booted_emu st v' (\<lambda>_. 0), note_request (cpu_filter 1) 7 0 (cpu_msg 1) (em_vtd (booted_emu st v (\<lambda>_. 0))) (\<lambda>_. None)),
       empty_ctx_sys)"
    by (rule irq_map) (use map(1) in simp_all)
  then have steps: "(irq_step demo_boot_ops quiet_ext (cpu_filter 1) ?may pci_std)\<^sup>*\<^sup>*
      ((booted_emu st v (\<lambda>_. 0), \<lambda>_. None), empty_ctx_sys)
      ((booted_emu st v' (\<lambda>_. 0), [0 \<mapsto> (cpu_filter 1, 7, cpu_msg 1)]), empty_ctx_sys)"
    by (simp add: asked)
  from conjunct1 [OF interrupt_table_isolated [OF run demo_boot_pages len demo_boot_iq quiet_ext_calls steps]]
  have "serves ?may (Some (cpu_filter 1, 7, cpu_msg 1)) (irt v' ! 0)"
    using ok(2) map(2) by (auto dest!: spec [of _ 0])
  then have "irte_p (irt v' ! 0)" "irte_sid (irt v' ! 0) = 7" "carries (cpu_filter 1) (cpu_msg 1) (irt v' ! 0)"
    by (auto simp: serves_def cpu_filter_def)
  moreover from this(3) have "irte_svt (irt v' ! 0) = 1" "irte_vector (irt v' ! 0) = take_bit 8 (msg_vector demo_msg)"
    "irte_destination (irt v' ! 0) = 0x100"
    by (simp_all add: carries_def cpu_filter_def cpu_msg_def)
  ultimately show ?thesis
    using run map(1) by blast
qed

text \<open>
  A device that Linux used is handed to a second target, whose interrupts may only go to CPU 2, and the target
  maps vector 0 of it. The usage record that the hypervisor made for Linux outlives the removal: when Linux
  then invalidates its own entry 0, the hypervisor writes what Linux's table holds into the entry
  of the device, checked against Linux's CPUs only. The interrupt goes to CPU 1, although the device's
  context belongs to domain 2.
\<close>

lemma device7_removed:
  assumes "vtd_sys_ok ops v" "irt_limit v = 8" "irt v = table7" "ctx_wf c" "ctx_lookup pci_std c 7 \<noteq> None"
  shows "\<exists>v' c' f. iommu_remove_pci_device ops pci_std device7 v c = Some (v', c') \<and> vtd_sys_ok ops v' \<and>
    irt_limit v' = 8 \<and> irt v' = (replicate 8 free_irte)[0 := f] \<and> \<not> irte_assigned f \<and>
    ctx_wf c' \<and> ctx_lookup pci_std c' = (ctx_lookup pci_std c)(7 := None)"
proof -
  obtain c' where c': "ctx_remove pci_std 7 c = Some c'" "ctx_wf c'" "ctx_lookup pci_std c' = (ctx_lookup pci_std c)(7 := None)"
    using ctx_remove_refines [OF pci_std_ok assms(4,5)] by blast
  obtain v' where v': "vtd_update_irte ops 0 free_irte v = Some v'" "vtd_sys_ok ops v'" "irt_limit v' = 8"
    "irt v' = table7[0 := last (irte_stores (irte_assign 7 free_irte) free_irte)]"
    using vtd_update_irte_Some [OF assms(1), of 0 free_irte] assms(2,3) by auto
  have "iommu_remove_pci_device ops pci_std device7 v c = Some (v', c')"
    using v'(1) c'(1) find7 by (simp add: iommu_remove_pci_device_def hbind_def vtd_free_int_remap_region_def assms(2,3))
  then show ?thesis
    using v' c' free_irte_stores(2) by auto
qed

text \<open>The record for entry 0, and the message Linux's entry 0 holds.\<close>

definition used7 :: vtd_emulation where
  "used7 = set_usage 0 (\<lambda>_. \<lparr>use_device_id = 7, use_vector = 0, use_used = True\<rparr>) (em_units handover_emu ! 0)"

abbreviation (input) linux_msg :: apic_irq_message where
  "linux_msg \<equiv> \<lparr>valid = True, msg_vector = 0x66, msg_delivery_mode = 0, msg_dest_logical = 0,
     msg_level_triggered = 0, msg_redir_hint = 0, msg_destination = 1\<rparr>"

lemma handover_msg:
  "iommu_get_remapped_root_int (guest_page quiet_ext) (guest_mem handover_emu) False 7 0 0 (em_units handover_emu ! 0) =
     (linux_msg, used7)"
  "iommu_get_remapped_root_int (guest_page quiet_ext) (guest_mem handover_emu) False 7 0 0 used7 = (linux_msg, used7)"
  by (simp_all add: iommu_get_remapped_root_int_def handover_emu_def set_usage_def Let_def quiet_ext_def used7_def
      irq_msg_of_irte_def load64_def irte_get_defs bf_get_def BIT_MASK_def mask_eq_exp_minus_1)

lemma used7_simps [simp]: "irt_entries used7 = 2" "irte_map used7 ! 0 = \<lparr>use_device_id = 7, use_vector = 0, use_used = True\<rparr>"
  by (simp_all add: used7_def set_usage_def handover_emu_def)

lemma stale_usage_redirects:
  defines "ops \<equiv> ideal_ops 0" and "root \<equiv> cpu_filter 1" and "other \<equiv> cpu_filter 2" and "s0 \<equiv> handover_emu"
  shows "\<exists>c v0 c0 v1 c1 v2 c2 v3 s.
    iommu_add_pci_device ops pci_std None (vtd_context_entry 4 0x6000 0) device7 (em_vtd s0) c = Some (None, v0, c0) \<and>
    iommu_get_remapped_root_int (guest_page quiet_ext) (guest_mem s0) False 7 0 0 (em_units s0 ! 0) = (linux_msg, used7) \<and>
    iommu_remove_pci_device ops pci_std device7 v0 c0 = Some (v1, c1) \<and>
    iommu_add_pci_device ops pci_std None (vtd_context_entry 4 0x7000 2) device7 v1 c1 = Some (None, v2, c2) \<and>
    iommu_map_interrupt ops other 7 0 (cpu_msg 2) v2 = Some (Inr 0, v3) \<and> irte_destination (irt v3 ! 0) = 0x200 \<and>
    vtd_emulate_inv_int ops root quiet_ext 0 0 (s0\<lparr>em_units := [used7], em_vtd := v3\<rparr>) = Some (None, s) \<and>
    ctx_lookup pci_std c2 7 = Some (vtd_context_entry 4 0x7000 2) \<and>
    irte_p (irt (em_vtd s) ! 0) \<and> irte_owned (irt (em_vtd s) ! 0) 7 \<and> irte_destination (irt (em_vtd s) ! 0) = 0x100"
proof -
  let ?v = "demo_sys (replicate 8 free_irte)"
  have s0: "em_vtd s0 = ?v"
    by (simp add: s0_def handover_emu_def)
  obtain c where c: "ctx_wf c" "ctx_lookup pci_std c 8 \<noteq> None"
    using device8_added by blast
  obtain c0 where a0: "iommu_add_pci_device ops pci_std None (vtd_context_entry 4 0x6000 0) device7 ?v c = Some (None, demo_sys table7, c0)"
    "ctx_wf c0" "ctx_lookup pci_std c0 = (ctx_lookup pci_std c)(7 \<mapsto> vtd_context_entry 4 0x6000 0)"
    using device7_added_first [OF c] by blast
  have ok0: "vtd_sys_ok ops (demo_sys table7)"
    unfolding ops_def by (rule demo_sys_ok) simp
  obtain v1 c1 f where r1: "iommu_remove_pci_device ops pci_std device7 (demo_sys table7) c0 = Some (v1, c1)"
    "vtd_sys_ok ops v1" "irt_limit v1 = 8" "irt v1 = (replicate 8 free_irte)[0 := f]" "\<not> irte_assigned f"
    "ctx_wf c1" "ctx_lookup pci_std c1 = (ctx_lookup pci_std c0)(7 := None)"
    using device7_removed [OF ok0 _ _ a0(2)] a0(3) by auto
  have "ctx_lookup pci_std c1 8 \<noteq> None"
    using c(2) r1(7) a0(3) by simp
  from device7_added [OF r1(6) this r1(3-5)] obtain c2 where
    a2: "iommu_add_pci_device ops pci_std None (vtd_context_entry 4 0x7000 2) device7 v1 c1 =
      Some (None, v1\<lparr>irt := table7[0 := irte_assign 7 f]\<rparr>, c2)" "ctx_lookup pci_std c2 7 = Some (vtd_context_entry 4 0x7000 2)"
    by fastforce
  let ?v2 = "v1\<lparr>irt := table7[0 := irte_assign 7 f]\<rparr>"
  have ok2: "vtd_sys_ok ops ?v2" "irt_limit ?v2 = 8"
    using r1(2-4) by (simp_all add: vtd_sys_ok_def)
  obtain v3 e3 where m3: "iommu_map_interrupt ops other 7 0 (cpu_msg 2) ?v2 = Some (Inr 0, v3)" "vtd_sys_ok ops v3"
    "irt_limit v3 = 8" "irt v3 = table7[0 := e3]" "mapped_irte other (cpu_msg 2) (irte_assign 7 f) e3"
    using map7 [OF ok2, where n = 2 and msg = "cpu_msg 2"] unfolding other_def by auto
  have e3: "irte_owned e3 7" "irte_destination e3 = 0x200"
    using map7_entry [OF m3(5) [unfolded other_def]] by simp_all
  obtain v4 e4 where m4: "iommu_map_interrupt ops root 7 0 linux_msg v3 = Some (Inr 0, v4)"
    "irt v4 = table7[0 := e4]" "mapped_irte root linux_msg e3 e4"
    using map7 [OF m3(2,3), where n = 1 and msg = linux_msg] m3(4) e3(1) unfolding root_def by auto
  have e4: "irte_p e4" "irte_owned e4 7" "irte_destination e4 = 0x100"
    using map7_entry [OF m4(3) [unfolded root_def] e3(1)] by simp_all
  have "vtd_emulate_inv_int ops root quiet_ext 0 0 (s0\<lparr>em_units := [used7], em_vtd := v3\<rparr>) =
      Some (None, s0\<lparr>em_units := [used7], em_vtd := v4\<rparr>)"
    using m4(1) handover_msg(2) unfolding s0_def
    by (simp add: vtd_emulate_inv_int_def Let_def root_def cpu_filter_def quiet_ext_def)
  note emulated = this
  show ?thesis
    by (rule exI [of _ c], rule exI [of _ "demo_sys table7"], rule exI [of _ c0], rule exI [of _ v1],
        rule exI [of _ c1], rule exI [of _ ?v2], rule exI [of _ c2], rule exI [of _ v3],
        rule exI [of _ "s0\<lparr>em_units := [used7], em_vtd := v4\<rparr>"], intro conjI)
      (use a0(1) r1(1) a2 m3(1,4) e3(2) e4 m4(2) emulated handover_msg(1) s0 in \<open>simp_all add: s0_def\<close>)
qed

end
