(* ===== verification/Spy_Nmi.thy ===== *)
theory Spy_Nmi
  imports Spy_Switch
begin

text \<open>
  NMIs between the instructions of \<open>vmx-vmexit.S\<close>. Interrupts are off there, but an NMI can come before any
  instruction; \<open>nmi_entry\<close> then runs on the same stack. A static check of the code finds out which words
  of the stack it relies on, as a liveness analysis does; code that passes it runs with NMIs as without.
\<close>

subsection \<open>Execution with NMIs\<close>

text \<open>An NMI whose handler leaves the nine saved registers, the frame and the \<open>n\<close> words of the interrupted
  code alone. The frame is aligned to 16 bytes, so that up to one word lies between.\<close>

definition nmi_at :: "nat \<Rightarrow> machine \<Rightarrow> machine \<Rightarrow> bool" where
  "nmi_at n m m' \<longleftrightarrow> (\<exists>func c. c_call (15 + n) func (exec interrupt_save (deliver None m c)) \<and>
     m' = fst (interrupt_entry func (deliver None m c)))"

text \<open>The words the code has on the stack after an instruction.\<close>

fun depth :: "insn \<Rightarrow> nat \<Rightarrow> nat" where
  "depth (Push r) n = n + 1"
| "depth (Pushq x) n = n + 1"
| "depth (Pop r) n = n - 1"
| "depth (Sub_Rsp x) n = n + unat (x div 8)"
| "depth (Add_Rsp x) n = n - unat (x div 8)"
| "depth i n = n"

inductive exec_nmi :: "nat \<Rightarrow> insn list \<Rightarrow> machine \<Rightarrow> machine \<Rightarrow> bool" where
  finished: "exec_nmi n [] m m"
| insn: "exec_nmi (depth i n) is (exec1 i m) m' \<Longrightarrow> exec_nmi n (i # is) m m'"
| nmi: "nmi_at n m m1 \<Longrightarrow> exec_nmi n is m1 m' \<Longrightarrow> exec_nmi n is m m'"

lemma exec_nmi_without: "exec_nmi n is m (exec is m)"
  by (induction "is" arbitrary: n m) (auto intro: exec_nmi.intros)

subsection \<open>Which words the code relies on\<close>

definition is_gpr :: "nat \<Rightarrow> bool" where
  "is_gpr r \<longleftrightarrow> r < 16 \<and> r \<noteq> 11"

text \<open>The flags say, from the stack pointer up, which of its words the code wrote; others may not be read.\<close>

fun known :: "insn \<Rightarrow> bool list \<Rightarrow> bool list option" where
  "known (Push r) ks = (if is_gpr r then Some (True # ks) else None)"
| "known (Pushq x) ks = Some (True # ks)"
| "known (Pop r) ks = (case ks of k # ks \<Rightarrow> if k \<and> is_gpr r then Some ks else None | [] \<Rightarrow> None)"
| "known (Sub_Rsp x) ks = (if x = 8 then Some (False # ks) else None)"
| "known (Add_Rsp x) ks = (if x = 8 \<and> ks \<noteq> [] then Some (tl ks) else None)"
| "known (Mov d s) ks = (if is_gpr d \<and> is_gpr s then Some ks else None)"
| "known (Imul d n) ks = (if is_gpr d then Some ks else None)"
| "known (Lea d a) ks = (if is_gpr d then Some ks else None)"
| "known (Add d s) ks = (if is_gpr d \<and> is_gpr s then Some ks else None)"
| "known (Mov_From_Rsp d) ks = (if is_gpr d then Some ks else None)"
| "known (Clear d) ks = (if is_gpr d then Some ks else None)"
| "known i ks = None"

fun known_all :: "insn list \<Rightarrow> bool list \<Rightarrow> bool list option" where
  "known_all [] ks = (if length ks < 64 then Some ks else None)"
| "known_all (i # is) ks = (if length ks < 64 then Option.bind (known i ks) (known_all is) else None)"

lemma known_depth: "known i ks = Some ks' \<Longrightarrow> length ks' = depth i (length ks)"
  by (cases i) (auto split: if_splits list.splits)

text \<open>Two machines that differ at most in words the code does not rely on.\<close>

definition agree :: "bool list \<Rightarrow> machine \<Rightarrow> machine \<Rightarrow> bool" where
  "agree ks m k \<longleftrightarrow> (\<forall>r. is_gpr r \<longrightarrow> gprs m r = gprs k r) \<and> rsp m = rsp k \<and> rsp k AND 7 = 0 \<and>
     (\<forall>i < length ks. ks ! i \<longrightarrow> mem m (rsp k + 8 * of_nat i) = mem k (rsp k + 8 * of_nat i))"

lemma unat_quads: "n < 2 ^ 33 \<Longrightarrow> c < 2 ^ 33 \<Longrightarrow> unat (of_nat c + 8 * of_nat n :: u64) = c + 8 * n"
proof -
  assume "n < 2 ^ 33" "c < 2 ^ 33"
  then have "unat (of_nat (c + 8 * n) :: u64) = c + 8 * n"
    by (simp add: unsigned_of_nat take_bit_nat_eq_self del: of_nat_add of_nat_mult)
  then show ?thesis
    by simp
qed

lemma below_stack:
  assumes "n < 64"
  shows "a + 8 * of_nat n \<noteq> (a - 8 :: u64)"
proof
  assume "a + 8 * of_nat n = a - 8"
  then have "(a + 8 * of_nat n) - (a - 8) = 0"
    by simp
  then have "of_nat 8 + 8 * of_nat n = (0 :: u64)"
    by (simp add: add.commute)
  then show False
    using unat_quads [of n 8] assms by simp
qed

lemma aligned_step:
  fixes a :: u64
  assumes "a AND 7 = 0"
  shows "(a - 8) AND 7 = 0" "(a + 8) AND 7 = 0"
proof -
  have m: "x AND 7 = 0 \<longleftrightarrow> uint x mod 8 = 0" for x :: u64
  proof -
    have "uint (x AND 7) = uint x mod 8"
      using take_bit_eq_mask [of 3 "uint x"] unsigned_and_eq [of x 7, where 'a = int]
      by (simp add: mask_eq_exp_minus_1 take_bit_eq_mod)
    then show ?thesis
      by (metis uint_0_iff)
  qed
  have "(v mod 2 ^ 64) mod 8 = v mod (8 :: int)" for v
    by (rule mod_mod_cancel) simp
  then show "(a - 8) AND 7 = 0" "(a + 8) AND 7 = 0"
    using assms unfolding m by (simp_all add: uint_word_ariths)
qed

lemma agree_push:
  assumes "agree ks m k" "length ks < 64"
  shows "agree (True # ks) (m\<lparr>rsp := rsp m - 8, mem := (mem m)(rsp m - 8 := x)\<rparr>)
    (k\<lparr>rsp := rsp k - 8, mem := (mem k)(rsp k - 8 := x)\<rparr>)"
proof -
  have "mem m (rsp k + 8 * of_nat j) = mem k (rsp k + 8 * of_nat j) \<and> rsp k + 8 * of_nat j \<noteq> rsp k - 8"
    if "j < length ks" "ks ! j" for j
    using assms below_stack [of j "rsp k"] that by (simp add: agree_def)
  then have "\<forall>i < Suc (length ks). (True # ks) ! i \<longrightarrow>
      ((mem m)(rsp k - 8 := x)) (rsp k - 8 + 8 * of_nat i) = ((mem k)(rsp k - 8 := x)) (rsp k - 8 + 8 * of_nat i)"
    by (auto simp: less_Suc_eq_0_disj)
  then show ?thesis
    using assms(1) aligned_step(1) [of "rsp k"] by (simp add: agree_def)
qed

lemma agree_skip:
  assumes "agree ks m k" "length ks < 64"
  shows "agree (False # ks) (m\<lparr>rsp := rsp m - 8\<rparr>) (k\<lparr>rsp := rsp k - 8\<rparr>)"
  using assms aligned_step(1) [of "rsp k"] by (auto simp: agree_def less_Suc_eq_0_disj)

lemma agree_tl:
  assumes "agree (b # ks) m k"
  shows "agree ks (m\<lparr>rsp := rsp m + 8\<rparr>) (k\<lparr>rsp := rsp k + 8\<rparr>)"
proof -
  have "mem m (rsp k + 8 + 8 * of_nat i) = mem k (rsp k + 8 + 8 * of_nat i)" if "i < length ks" "ks ! i" for i
    using assms that unfolding agree_def by (auto dest!: spec [of _ "Suc i"] simp: ac_simps)
  then show ?thesis
    using assms aligned_step(2) [of "rsp k"] by (simp add: agree_def)
qed

lemma agree_top: "agree (True # ks) m k \<Longrightarrow> mem m (rsp m) = mem k (rsp k)"
  unfolding agree_def by (auto dest!: spec [of _ 0])

lemma agree_gprs:
  "agree ks m k \<Longrightarrow> (\<And>r. is_gpr r \<Longrightarrow> g r = h r) \<Longrightarrow> agree ks (m\<lparr>gprs := g\<rparr>) (k\<lparr>gprs := h\<rparr>)"
  by (simp add: agree_def)

lemma agreeD: "agree ks m k \<Longrightarrow> is_gpr r \<Longrightarrow> gprs m r = gprs k r" "agree ks m k \<Longrightarrow> rsp m = rsp k"
  by (simp_all add: agree_def)

text \<open>The simulation: an instruction that passes the check does the same on both machines.\<close>

lemma known_step:
  assumes "agree ks m k" "known i ks = Some ks'" "length ks < 64"
  shows "agree ks' (exec1 i m) (exec1 i k)"
proof (cases i)
  case (Push r)
  then show ?thesis
    using assms agree_push [OF assms(1,3)] agreeD(1) [OF assms(1), of r] by (auto split: if_splits)
next
  case (Pop r)
  then obtain ks1 where ks: "ks = True # ks1" "ks' = ks1"
    using assms(2) by (auto split: list.splits if_splits)
  then show ?thesis
    using agree_gprs [OF agree_tl [OF assms(1) [unfolded ks]],
        of "(gprs m)(r := mem m (rsp m))" "(gprs k)(r := mem k (rsp k))"]
      agree_top [OF assms(1) [unfolded ks]] agreeD(1) [OF assms(1)] Pop by simp
next
  case (Add_Rsp x)
  then show ?thesis
    using assms agree_tl by (cases ks) (auto split: if_splits)
next
  case (Sub_Rsp x)
  then show ?thesis
    using assms agree_skip by (auto split: if_splits)
qed (use assms agree_push [OF assms(1,3)] agree_gprs [OF assms(1)] agreeD [OF assms(1)] in \<open>auto split: if_splits\<close>)

subsection \<open>NMIs change nothing the code relies on\<close>

lemma gpr_list_eq: "gpr_list m = gpr_list k \<longleftrightarrow> (\<forall>r. is_gpr r \<longrightarrow> gprs m r = gprs k r)"
proof -
  have "is_gpr r \<longleftrightarrow> r \<in> set ([0..<11] @ [12..<16])" for r
    by (auto simp: is_gpr_def)
  then show ?thesis
    unfolding gpr_list_def map_eq_conv by blast
qed

text \<open>The words above the aligned stack pointer are not written when the frame and the registers are pushed.\<close>

lemma interrupt_save_above:
  assumes "rsp m AND NOT 15 = b + 112" "n < 2 ^ 33"
  shows "mem (exec interrupt_save (deliver None m c)) (b + (112 + 8 * of_nat n)) = mem m (b + (112 + 8 * of_nat n))"
proof -
  have nz: "of_nat c + 8 * of_nat n \<noteq> (0 :: u64)" if "0 < c" "c < 2 ^ 33" for c
  proof
    assume "of_nat c + 8 * of_nat n = (0 :: u64)"
    then show False
      using unat_quads [OF assms(2) that(2)] that(1) by simp
  qed
  show ?thesis
    using assms(1) nz [of 8] nz [of 16] nz [of 24] nz [of 32] nz [of 40] nz [of 48] nz [of 56] nz [of 64] nz [of 72]
      nz [of 80] nz [of 88] nz [of 96] nz [of 104] nz [of 112]
    by (simp add: deliver_def interrupt_save_def add.assoc)
qed

lemma aligned_frame:
  assumes "a AND 7 = (0 :: u64)"
  obtains d where "a = (a AND NOT 15) + 8 * of_nat d" "d \<le> 1"
proof -
  have "a AND 15 = (a AND 7) OR (a AND 8)"
    by (simp flip: bit.conj_disj_distrib)
  then have low: "a AND 15 = a AND 8"
    using assms by simp
  have split: "a = (a AND NOT 15) + (a AND 15)"
  proof -
    have "(a AND NOT 15) OR (a AND 15) = a" "(a AND NOT 15) AND (a AND 15) = 0"
      by (rule bit_word_eqI; auto simp: bit_simps)+
    then show ?thesis
      by (metis disjunctive_add_eq_or)
  qed
  have "bit (push_bit 3 (1 :: u64)) n \<longleftrightarrow> n = 3" for n
    unfolding bit_push_bit_iff bit_1_iff by auto
  then have "a AND push_bit 3 1 = 0 \<or> a AND push_bit 3 1 = push_bit 3 1"
    using single_bit_and_zero_iff [of 3 a] word_and_eq_right_iff [of a "push_bit 3 1"] by fastforce
  then have "a AND 8 = 0 \<or> a AND 8 = 8"
    by simp
  then show thesis
    using that [of 0] that [of 1] split low by auto
qed

text \<open>An NMI leaves the registers, the stack pointer and the words of the code on the stack alone.\<close>

lemma c_call_less: "c_call n f m \<Longrightarrow> k \<le> n \<Longrightarrow> c_call k f m"
  by (auto simp: c_call_def quads_def)

lemma c_call_word: "c_call n f m \<Longrightarrow> i < n \<Longrightarrow> mem (f m) (rsp m + 8 * of_nat i) = mem m (rsp m + 8 * of_nat i)"
  by (auto simp: c_call_def quads_def)

lemma nmi_agree:
  assumes "nmi_at (length ks) m m'" "rsp m AND 7 = 0" "length ks < 64"
  shows "agree ks m m'"
proof -
  obtain func c where call: "c_call (15 + length ks) func (exec interrupt_save (deliver None m c))"
    and m': "m' = fst (interrupt_entry func (deliver None m c))"
    using assms(1) by (auto simp: nmi_at_def)
  let ?s = "exec interrupt_save (deliver None m c)"
  have regs: "gpr_list m' = gpr_list m" "rsp m' = rsp m"
    using interrupt_entry_regs [OF c_call_less [OF call]] unfolding m' by (auto simp: case_prod_unfold)
  obtain d where d: "rsp m = (rsp m AND NOT 15) + 8 * of_nat d" "d \<le> 1"
    using aligned_frame [OF assms(2)] .
  define b where "b = (rsp m AND NOT 15) - 112"
  have b: "rsp m AND NOT 15 = b + 112"
    by (simp add: b_def)
  have "rsp m AND NOT 15 = (b + 72) + 40"
    using b by (simp add: add.assoc)
  note s = interrupt_save_effect(1) [OF deliver_effect(1) [OF this]]
  have mem': "mem m' = mem (func ?s)"
    unfolding m' by (simp add: interrupt_entry_def iretq_def interrupt_restore_effect(2) [OF refl])
  have "mem m (rsp m + 8 * of_nat i) = mem m' (rsp m + 8 * of_nat i)" if "i < length ks" for i
  proof -
    have a: "rsp m + 8 * of_nat i = b + (112 + 8 * of_nat (d + i))"
      using d(1) b by (simp add: algebra_simps)
    also have "\<dots> = b + 8 * of_nat (14 + (d + i))"
      by (simp add: algebra_simps)
    finally have q: "rsp m + 8 * of_nat i = b + 8 * of_nat (14 + (d + i))" .
    have "14 + (d + i) < 15 + length ks"
      using that d(2) by simp
    from c_call_word [OF call this] have "mem m' (rsp m + 8 * of_nat i) = mem ?s (b + (112 + 8 * of_nat (d + i)))"
      unfolding mem' s q [symmetric] unfolding a .
    also have "\<dots> = mem m (b + (112 + 8 * of_nat (d + i)))"
      by (rule interrupt_save_above [OF b]) (use that d(2) assms(3) in simp)
    finally show ?thesis
      unfolding a ..
  qed
  then show ?thesis
    using regs assms(2) unfolding agree_def gpr_list_eq by simp
qed

lemma agree_refl: "rsp m AND 7 = 0 \<Longrightarrow> agree ks m m"
  by (simp add: agree_def)

lemma agree_trans: "agree ks m k \<Longrightarrow> agree ks k l \<Longrightarrow> agree ks m l"
  by (simp add: agree_def)

text \<open>Code that passes the check runs with NMIs as without, in all it relies on.\<close>

lemma exec_nmi_agree:
  assumes "exec_nmi n is k k'"
  shows "agree ks m k \<Longrightarrow> n = length ks \<Longrightarrow> known_all is ks = Some ks' \<Longrightarrow>
    agree ks' (exec is m) k'"
  using assms
proof (induction arbitrary: ks m rule: exec_nmi.induct)
  case (finished n k)
  then show ?case by (simp split: if_splits)
next
  case (insn i n "is" k k')
  obtain ks1 where ks1: "known i ks = Some ks1" "known_all is ks1 = Some ks'" "length ks < 64"
    using insn.prems(3) by (auto simp: bind_eq_Some_conv split: if_splits)
  show ?case
    using insn.IH [OF known_step [OF insn.prems(1) ks1(1,3)] _ ks1(2)] known_depth [OF ks1(1)] insn.prems(2) by simp
next
  case (nmi n k k1 "is" k')
  have "length ks < 64"
    using nmi.prems(3) by (cases "is") (auto split: if_splits)
  moreover have "rsp k AND 7 = 0"
    using nmi.prems(1) by (simp add: agree_def)
  ultimately have "agree ks k k1"
    using nmi_agree nmi.hyps(1) nmi.prems(2) by blast
  then show ?case
    using nmi.IH [OF agree_trans [OF nmi.prems(1)]] nmi.prems by blast
qed

subsection \<open>The code of a VM exit\<close>

text \<open>The sixteen words of the registers; the placeholder for the stack pointer is not relied on.\<close>

definition reg_words :: "bool list" where
  "reg_words = replicate 11 True @ [False] @ replicate 4 True"

lemma vmexit_code_known:
  "known_all vmexit_save [] = Some reg_words" "known_all vmexit_restore reg_words = Some []"
  by code_simp+

lemma agree_reg_words:
  assumes "agree reg_words m k"
  shows "used_quads (mem k) (rsp k) = used_quads (mem m) (rsp m)"
proof -
  have "mem m (rsp k + 8 * of_nat i) = mem k (rsp k + 8 * of_nat i)" if "i < 16" "i \<noteq> 11" for i
    using assms that by (simp add: agree_def reg_words_def nth_append)
  note w = this [of 0] this [of 1] this [of 2] this [of 3] this [of 4] this [of 5] this [of 6] this [of 7] this [of 8]
    this [of 9] this [of 10] this [of 12] this [of 13] this [of 14] this [of 15]
  show ?thesis
    using w agreeD(2) [OF assms] by (simp add: used_quads_unroll)
qed

lemma exit_regs_placeholder:
  assumes "used_quads mm a = gpr_list m"
  shows "quads mm a 16 = (exit_regs m)[11 := mm (a + 88)]"
  using assms by (simp add: used_quads_unroll gpr_list_unroll quads_unroll exit_regs_unroll)

text \<open>C17. NMIs cannot disturb a VM exit: let NMIs come, any number of times, before any of the instructions of
  \<open>vmx_vmexit\<close> around the call of the exit handler. The handler is called with the guest's registers in the
  structure, as without them, and the guest is resumed with exactly the registers that the handler left there,
  and with the stack pointer where the exit found it. Only the unused word of the structure is arbitrary.\<close>

theorem vmexit_nmi_safe:
  assumes "rsp m AND 7 = 0" "exec_nmi 0 vmexit_save m m1" "handles_guest_regs handler f cpu m1"
    and "exec_nmi 16 vmexit_restore (handler m1) m2"
  shows "gprs m1 RDI = LOCAL_CPU_BASE \<and> rsp m2 = rsp m \<and>
    (\<exists>w. let regs = guest_regs (f (cpu\<lparr>guest_regs := (exit_regs m)[11 := w]\<rparr>)) in
       gpr_list m2 = take 11 regs @ drop 12 regs)"
proof -
  define b where "b = rsp m - 128"
  have b: "rsp m = b + 128"
    by (simp add: b_def)
  note save = vmexit_save_effect [OF b] vmexit_save_quads [OF b]
  have a1: "agree reg_words (exec vmexit_save m) m1"
    by (rule exec_nmi_agree [OF assms(2) agree_refl [OF assms(1)] _ vmexit_code_known(1)]) simp
  then have m1: "rsp m1 = b" "gprs m1 RDI = LOCAL_CPU_BASE" "rsp m1 AND 7 = 0"
    using agreeD(1) [OF a1, of RDI] save(1,2) by (auto simp: agree_def is_gpr_def)
  have used: "used_quads (mem m1) b = gpr_list m"
    using agree_reg_words [OF a1] save(1,3) m1(1) by simp
  note q1 = exit_regs_placeholder [OF used]
  define regs where "regs = guest_regs (f (cpu\<lparr>guest_regs := (exit_regs m)[11 := mem m1 (b + 88)]\<rparr>))"
  have h: "rsp (handler m1) = b" "quads (mem (handler m1)) b 16 = regs"
    using assms(3) unfolding handles_guest_regs_def m1(1) q1 regs_def by simp_all
  have "agree [] (exec vmexit_restore (handler m1)) m2"
    by (rule exec_nmi_agree [OF assms(4) agree_refl _ vmexit_code_known(2)]) (use h(1) m1 in \<open>simp_all add: reg_words_def\<close>)
  then have "gpr_list m2 = used_quads (mem (handler m1)) b" "rsp m2 = rsp m"
    using vmexit_restore_effect [of "handler m1"] h(1) b unfolding agree_def gpr_list_eq [symmetric] by simp_all
  then show ?thesis
    using m1(2) unfolding used_quads_def h(2) Let_def regs_def by blast
qed

theorem vmexit_nmi_safe_witness:
  "\<exists>m0 m1 m2. nmi_at 0 demo_caller m0 \<and> exec_nmi 0 vmexit_save demo_caller m1 \<and> m1 = exec vmexit_save m0 \<and>
     exec_nmi 16 vmexit_restore m1 m2 \<and> gpr_list m2 = gpr_list demo_caller"
proof -
  define m0 where "m0 = fst (interrupt_entry demo_func (deliver None demo_caller demo_control))"
  have "c_call 15 demo_func (exec interrupt_save (deliver None demo_caller demo_control))"
    by code_simp
  then have nmi: "nmi_at 0 demo_caller m0"
    unfolding nmi_at_def m0_def by auto
  have aligned: "rsp demo_caller AND 7 = 0"
    by code_simp
  have save: "exec_nmi 0 vmexit_save demo_caller (exec vmexit_save m0)"
    by (rule exec_nmi.nmi [OF nmi exec_nmi_without])
  have h: "handles_guest_regs (\<lambda>m. m) (\<lambda>c. c) demo_cpu (exec vmexit_save m0)"
    by (simp add: handles_guest_regs_def)
  obtain w where "gpr_list (exec vmexit_restore (exec vmexit_save m0)) =
      take 11 ((exit_regs demo_caller)[11 := w]) @ drop 12 ((exit_regs demo_caller)[11 := w])"
    using vmexit_nmi_safe [OF aligned save h exec_nmi_without] by (auto simp: Let_def)
  then have "gpr_list (exec vmexit_restore (exec vmexit_save m0)) = gpr_list demo_caller"
    using exit_regs_used [of demo_caller] by simp
  then show ?thesis
    using nmi save exec_nmi_without by blast
qed

end
