(* ===== verification/Spec2Isabelle.thy ===== *)
theory Spec2Isabelle
  imports Spy_Paging Spy_Strhash Spy_Tools Spy_Module Spy_Spinlock Spy_Pio Spy_Dmar Spy_Irte
    Spy_Vmcs Spy_Vcpu Spy_Ept Spy_Exit Spy_Iommu Spy_Vtd_Init Spy_Setup Spy_Comm
    Spy_Layout Spy_Percpu Spy_Vmx_Ops Spy_Switch Spy_Restore_Lock Spy_Park Spy_Irq_Isolation Spy_Nmi
begin

text \<open>
  Spy, a Linux-based partitioning hypervisor for x86: a verification development.

  \<^bold>\<open>The program.\<close> A kernel module (\<open>src/module\<close>) and a command-line tool (\<open>src/tools\<close>) control the
  hypervisor (\<open>src/hypervisor\<close>). The hypervisor takes every CPU over from Linux (\<open>setup.c\<close>), runs Linux as
  the root target inside VMX operation (\<open>vmx.c\<close>), carries out the exits of its guests (\<open>vcpu.c\<close>, \<open>vmx.c\<close>),
  restricts their memory, ports and MSRs, and confines their devices through the VT-d remapping units
  (\<open>vtd.c\<close>). On request it gives everything back. The repository holds the x86 architecture layer; the
  generic core it calls (paging and page allocation, MMIO, PCI, APIC, control, the dispatch
  function \<open>hypercall\<close>) is not part of it.

  \<^bold>\<open>How the model is built.\<close> One theory per component, in the order of dependency:

  \<^item> \<open>Spy_Prelude\<close>: C integer types as words, errno values, checked array accesses, generic word facts, and
    the two general interfaces \<open>transition_system\<close> (invariants of step relations) and
    \<open>operation_refinement\<close> (sequences of fallible operations against an abstract state).
  \<^item> \<open>Spy_Bitops\<close>: masks, fields, page arithmetic and bit arrays (\<open>spy/bitops.h\<close>, \<open>asm/bitops.h\<close>,
    \<open>spy/utils.h\<close>). The interface \<open>bit_array\<close> is interpreted on the 64-bit accesses of the code.
  \<^item> \<open>Spy_Paging\<close>: the entry formats of x86-64, i386 and PAE paging (\<open>paging.c\<close>, \<open>asm/paging.h\<close>,
    \<open>spy/paging.h\<close>) and the cache flush loop. \<open>terminal_level\<close> states what writing and reading a page entry
    have to do with each other and is interpreted on the three page sizes; \<open>table_link\<close> does so for links
    between tables and is interpreted on the x86, the EPT (\<open>Spy_Vmcs\<close>) and the VT-d format (\<open>Spy_Iommu\<close>).
  \<^item> \<open>Spy_Strhash\<close>, \<open>Spy_Tools\<close>, \<open>Spy_Module\<close>: the string hash (\<open>lib/string.c\<close>) on which the tool
    (\<open>tools/spy.c\<close>, \<open>tools/device.c\<close>, \<open>tools/functions\<close>) and the module (\<open>module/device.c\<close>, \<open>module/ioctl.c\<close>,
    \<open>module/patch.c\<close>) dispatch. A run of the tool is its list of events and an outcome; undefined
    behaviour is an outcome of its own. The interface \<open>run_property\<close> carries a property of lists of events
    through all commands.
  \<^item> \<open>Spy_Spinlock\<close>: the ticket lock (\<open>asm/spinlock.h\<close>) under any interleaving of CPUs.
  \<^item> \<open>Spy_Pio\<close>: I/O port permissions (\<open>pio_allow_access\<close>, \<open>vcpu_target_init\<close>, \<open>vcpu_target_exit\<close>).
  \<^item> \<open>Spy_Dmar\<close>, \<open>Spy_Irte\<close>, \<open>Spy_Iommu\<close>, \<open>Spy_Vtd_Init\<close>: \<open>vtd.c\<close>. The registers and the invalidation queue
    of a unit; the interrupt remapping table with its regions per device (interface \<open>slot_allocator\<close>);
    root and context tables, memory regions and the emulated units that Linux keeps programming; the
    start, which probes the units and takes over those that Linux uses, and the shutdown.
  \<^item> \<open>Spy_Irq_Isolation\<close>: the operations of those four theories as one step relation \<open>irq_step\<close>, in which mapping
    requests, devices and targets that come and go, and the programming of the emulated units alternate. Beside the
    state runs the record of what was last asked of each entry (\<open>requests\<close>), computed from the requests alone.
  \<^item> \<open>Spy_Vmcs\<close>, \<open>Spy_Vcpu\<close>, \<open>Spy_Ept\<close>, \<open>Spy_Exit\<close>: \<open>vmx.c\<close>, \<open>vcpu.c\<close> and \<open>asm/vmx.h\<close>. The VMCS as a map from
    field encodings to values, feature checks, set-up, entering and leaving VMX operation, reset; the
    handlers shared by vendors (hypercalls, ports, MMIO, MSRs, CPUID); the extended page table and the MSR
    bitmap; the dispatcher of exits, CR accesses and the deactivation.
  \<^item> \<open>Spy_Setup\<close>: \<open>setup.c\<close>. The interrupt descriptor table (interface \<open>gate_table\<close>), segment descriptors,
    saving and restoring the processor state of Linux, with the global descriptor table that all CPUs share.
  \<^item> \<open>Spy_Comm\<close>: \<open>spy/hypercall.h\<close> and \<open>asm/spy_hypercall.h\<close>. The communication region between the
    hypervisor and a target as a protocol of single stores and polls, and the hypercall functions of a target.

  \<^item> \<open>Spy_Layout\<close>, \<open>Spy_Percpu\<close>: the layouts of the structures shared with the processor, with assembly and
    with Linux (\<open>spy/percpu.h\<close>, \<open>asm/percpu.h\<close>, \<open>target_config.h\<close>, \<open>spy_config.h\<close>, \<open>target_common.h\<close>) under the
    alignment rules of the compiler, and the per-CPU regions with their two mappings.
  \<^item> \<open>Spy_Vmx_Ops\<close>: \<open>vmxon\<close>, \<open>vmcs_clear\<close>, \<open>vmcs_load\<close> and the revision words of \<open>vmx.c\<close>, over the VMX state of the
    processor, of which \<open>Spy_Vmcs\<close> has the abstract view.
  \<^item> \<open>Spy_Switch\<close>: the assembly of \<open>entry.S\<close>, \<open>vmx-vmexit.S\<close> and the functions with inline assembly in \<open>vmx.c\<close>
    and \<open>setup.c\<close>, as sequences of instructions over registers, stack pointer and memory.
  \<^item> \<open>Spy_Nmi\<close>: the code of \<open>Spy_Switch\<close> with NMIs delivered between its instructions, on the same stack.
  \<^item> \<open>Spy_Restore_Lock\<close>: the locked section of \<open>arch_cpu_restore\<close>, access by access, run by many CPUs. Interface
    \<open>critical_section\<close> over \<open>exclusive_lock\<close>, the latter interpreted on the ticket lock.
  \<^item> \<open>Spy_Park\<close>: the page a parked CPU runs (\<open>parking_code\<close> of \<open>vcpu.c\<close>), reached through its own second-level table.

  A C structure is a record with the names of the source, an enumeration a datatype, \<open>u32\<close> and \<open>u64\<close> are
  words that wrap, an error return is \<open>errno option\<close> or a sum with \<open>errno\<close>. The state of a CPU is the record
  \<open>per_cpu\<close>, the processor \<open>vmx_hw\<close> and \<open>cpu_state\<close>, the tables of the remapping units \<open>vtd_sys\<close>, \<open>ctx_sys\<close>
  and \<open>emu_sys\<close>. Access outside an array, a fault and a loop that does not end are \<open>None\<close>; that a result is
  \<open>Some\<close> is therefore part of what is proved.

  \<^bold>\<open>What is shown.\<close> Safety: mutual exclusion of the lock; whatever devices, targets and Linux do, every
  interrupt entry carries in all its fields the message that was last asked of it, as the CPU filter let it through, or is
  off, and no step lets a unit read a mixture of two entries; the NMI handler never touches a VMCS that is not current; the guest's PAT
  stays controlled; unprivileged code issues no hypercall; CPUs that leave the hypervisor at the same time do not fault, and
  interrupts and NMIs change no register of the code they interrupt, NMIs within the exit code included. Refinement and equivalence: context tables
  refine a map; the emulated queue serves exactly the ring between head and tail; the MSR bitmap
  intercepts exactly the listed registers. Function: what mapping rights, port permissions, CR accesses,
  resets, queue submissions, start-up and descriptor decoding do, on every branch. The VMX instructions refine the view of VMX
  operation; tool and module agree on the requests. Round trips: entries,
  devices that come and go, the disabling hypercall, VMCS set-up and deactivation, \<open>arch_cpu_init\<close> and \<open>arch_cpu_restore\<close>. Liveness and
  termination: the lock is fair and never stuck, the message exchange never deadlocks, a parked CPU always
  halts again, poll loops return. Types: the formats shared with
  Linux, the processor and assembly code have their members at the offsets listed. What the two round trips of a CPU do
  not give back to Linux (\<open>ss\<close>, KERNEL_GS_BASE and PERF_GLOBAL_CTRL) is part of their statements.
  The properties of this theory join components: taking a CPU over and deactivating the hypervisor again is
  invisible to Linux, the tool issues what the module serves, and yet none of its requests gets through the
  system call.

  \<^bold>\<open>Loops.\<close> No fuel is used. Loops over lists and index ranges are structural or have a measure
  (\<open>log2_roundup\<close>). Loops that wait for hardware or depend on it (\<open>poll\<close>, \<open>iq_loop\<close>, \<open>restore_head\<close>, \<open>flush_lines\<close>) are
  \<open>partial_function (option)\<close>; that they return is proved from hypotheses on the hardware that name the
  documented behaviour of the unit: \<open>answers\<close>, \<open>iq_answers\<close> and \<open>iq_tail_in_queue\<close> for the queue in use,
  \<open>commands_answer\<close> for the bits of the status register that a command sets or clears, \<open>queue_starts\<close> and \<open>queue_works\<close> for
  the head after the queue was switched on and after a write of the tail. Each is satisfied by a concrete unit in
  the witness of the property; that of \<open>vtd_restore_ir_returns\<close>, \<open>slow_ops\<close>, answers with a delay.

  \<^bold>\<open>Parameters.\<close> Code outside the repository is an argument: register accessors (\<open>dmar_ops\<close>), page allocation and
  mapping (\<open>vtd_env\<close>, \<open>early_env\<close>), handlers of other subsystems (\<open>vcpu_ext\<close>, \<open>emu_ext\<close>), the dispatch of
  hypercalls, PCI addressing (\<open>pci_bdf\<close>), the kernel interfaces of the module (\<open>kernel_env\<close>) and the operating
  system below the tool (\<open>tool_env\<close>). Calls of \<open>paging_create\<close> and \<open>paging_destroy\<close> are modelled as the requests
  made (\<open>paging_request\<close>). CPUID, MSRs and the success of VMX instructions are fields of \<open>vmx_env\<close>, \<open>vmx_ops\<close>.

  \<^bold>\<open>Assembly.\<close> General registers are numbered as \<open>union registers\<close> lays them out; memory is a map from addresses
  to quadwords, since all accesses are aligned pushes, pops and moves. A called C function is an argument; what
  its calling convention promises (\<open>c_call\<close>, \<open>handles_guest_regs\<close>) is a hypothesis that a concrete function satisfies.
  An NMI is a step of \<open>exec_nmi\<close>, in which \<open>nmi_at\<close> runs the entry code on the current stack.

  \<^bold>\<open>Other hypotheses.\<close> \<open>ivshmem_calls\<close>: the update of an ivshmem vector changes the state only by the two calls of \<open>irq_call\<close>, for
  its own device and for Linux; \<open>kernel_ioctl\<close>: what the ioctl system call answers, given the file operations of the device.

  \<^bold>\<open>Not modelled.\<close> Text output and the dumps before a CPU stops. Cache and TLB flushes that change no state of the
  model, apart from the range they cover. The small drivers in \<open>trigger\<close> and \<open>test\<close>, and \<open>main.c\<close>, which is
  empty. Selector loads other than \<open>ltr\<close> and the far return are taken not to fault. The C function \<open>entry\<close> and
  the control code that calls \<open>vcpu_park\<close>, \<open>vcpu_reset\<close> and \<open>arch_cpu_activate_vmm\<close> are not in the repository.
\<close>

text \<open>C7. What Linux finds of a CPU after the hypervisor took it over with \<open>arch_cpu_init\<close>, so that the
  VMCS is set up, and deactivated it again with \<open>vcpu_deactivate_vmm\<close>, which goes through
  \<open>arch_cpu_restore\<close>. The conditions: Linux's task register names an entry from 4 to 14 of its descriptor table that
  is a present task segment, and its CR0 and CR4 (with VMXE) are within what the processor allows in VMX operation.
  Then nothing faults, the CPU is out of VMX operation, execution continues at the return address of \<open>arch_entry\<close>
  with the stack as the call left it, and Linux sees the selectors other than \<open>ss\<close>, task segment, descriptor tables,
  control registers, PAT, EFER, bases of \<open>fs\<close> and \<open>gs\<close> and \<open>sysenter\<close> registers that it had before - whatever the
  processor held in between, and whatever other CPUs did to the shared descriptor table. What is not given back:
  \<open>ss\<close>, which the initialisation clears, PERF_GLOBAL_CTRL, which it clears if there are counters, and
  KERNEL_GS_BASE, which becomes what loading the selector of \<open>gs\<close> makes of it.\<close>

theorem hypervisor_transparent_to_linux:
  assumes "gdt_ok gdt" "linux_tr_ok se (st_gdtr h) (st_tr h)"
    and "st_tr_base h = case_prod tss_base (linux_tss_at se (st_gdtr h) (st_tr h))"
    and "arch_cpu_init se lim gdt cd h = Some (None, lim', gdt', cd', h')"
    and "\<And>f. vmwrite_ok (se_vmx se) f"
    and "hw_cr0 (st_vmx h) AND cr_maybe1 lim' ! 0 = hw_cr0 (st_vmx h)"
    and "hw_cr0 (st_vmx h) OR cr_required1 lim' ! 0 = hw_cr0 (st_vmx h)"
    and "(hw_cr4 (st_vmx h) OR X86_CR4_VMXE) AND cr_maybe1 lim' ! 1 = hw_cr4 (st_vmx h) OR X86_CR4_VMXE"
    and "(hw_cr4 (st_vmx h) OR X86_CR4_VMXE) OR cr_required1 lim' ! 1 = hw_cr4 (st_vmx h) OR X86_CR4_VMXE"
  shows "init_leaves se h h' \<and> (\<exists>cpu'. vcpu_deactivate_vmm (cd_cpu cd') =
      (cpu', sysenter_msrs (st_msr h), linux_sp (cd_cpu cd) + 48, linux_mem se (linux_sp (cd_cpu cd) + 48)) \<and>
    (\<forall>g k. gdt_ok g \<and> st_gdtr k = st_gdtr h' \<longrightarrow>
      (\<exists>g' cd'' k'. arch_cpu_restore se g (cd'\<lparr>cd_cpu := cpu'\<rparr>) k = Some (g', cd'', k') \<and>
         gdt_ok g' \<and> vmx_state (cd_cpu cd'') = VMXOFF \<and> linux_view k' = linux_view h \<and> not_restored se k k')))"
proof -
  let ?T = "taken_over se h (cd_cpu cd)"
  have "unat (st_tr h) div 8 < 16"
    using assms(2) by (simp add: linux_tr_ok_def)
  then obtain k0 hw0 hw1 where i: "initialized cd'" "st_gdtr h' = \<lparr>dtr_limit = 127, dtr_base = gdt_addr se\<rparr>"
    "vcpu_init (host_vmx_env (se_vmx se) k0) (se_ops se) lim ?T hw0 = (None, lim', cd_cpu cd', hw1)"
    "init_leaves se h h'" "st_msr k0 = st_msr h'"
    using arch_cpu_init_result [OF assms(1), of h se lim cd] assms(4) by auto
  have vw: "vmwrite_ok (host_vmx_env (se_vmx se) k0) f" for f
    using assms(5) by (simp add: host_vmx_env_def)
  have "sysenter_msrs (rdmsr (host_vmx_env (se_vmx se) k0)) = sysenter_msrs (st_msr h)"
    using i(4,5) by (simp add: init_leaves_def host_vmx_env_def sysenter_msrs_def)
  with vcpu_init_deactivate [OF i(3) vw, unfolded taken_over_simps, OF assms(6-9)]
  obtain c m where d: "vcpu_deactivate_vmm (cd_cpu cd') =
      (c, sysenter_msrs (st_msr h), linux_sp (cd_cpu cd) + 48, linux_mem se (linux_sp (cd_cpu cd) + 48))"
    "\<And>hw. fst (vcpu_exit c hw) = ?T\<lparr>vmcs := m, vmx_state := VMXOFF\<rparr>"
    by auto
  have keep: "linux_gdtr c = st_gdtr h" "seg_selector (linux_tss c) = st_tr h"
    using vcpu_exit_keeps_tables [of c hw0] unfolding d(2) by simp_all (metis taken_over_simps(3))
  have view: "saved_view se (fst (vcpu_exit c hw)) = linux_view h" for hw
    unfolding d(2) using saved_view_taken_over [OF assms(3), of "cd_cpu cd"] by (simp add: saved_view_def)
  have "\<exists>g' cd'' k'. arch_cpu_restore se g (cd'\<lparr>cd_cpu := c\<rparr>) k = Some (g', cd'', k') \<and>
         gdt_ok g' \<and> vmx_state (cd_cpu cd'') = VMXOFF \<and> linux_view k' = linux_view h \<and> not_restored se k k'"
    if "gdt_ok g" "st_gdtr k = st_gdtr h'" for g k
    using arch_cpu_restore_result [of "cd'\<lparr>cd_cpu := c\<rparr>", OF _ that(1), of k se] that(2) i(1,2) keep assms(2) view d(2)
    by auto
  then show ?thesis
    using d(1) i(4) by blast
qed

theorem hypervisor_transparent_to_linux_witness:
  "\<exists>cd' h' cpu' g' cd'' k'.
     vcpu_deactivate_vmm (cd_cpu cd') = (cpu', sysenter_msrs demo_msr, 0x8030, 0x9000) \<and>
     arch_cpu_restore demo_setup_env initial_gdt (cd'\<lparr>cd_cpu := cpu'\<rparr>) h' = Some (g', cd'', k') \<and>
     linux_view k' = linux_view demo_host \<and> not_restored demo_setup_env h' k' \<and> st_ss k' = 0"
proof -
  obtain lim' gdt' cd' h' where
    init: "arch_cpu_init demo_setup_env demo_boot_limits initial_gdt demo_cd demo_host = Some (None, lim', gdt', cd', h')"
    and lim: "lim' = \<lparr>cr_maybe1 = [0x9fffffff, 0x3727ff], cr_required1 = [0x30, 0x2000], secondary_exec_addon = 0\<rparr>"
    using demo_init_succeeds by (auto split: option.splits prod.splits)
  have ok: "vmwrite_ok (se_vmx demo_setup_env) f" for f
    by (simp add: demo_setup_env_def demo_env_def)
  have "hw_cr0 (st_vmx demo_host) AND cr_maybe1 lim' ! 0 = hw_cr0 (st_vmx demo_host)"
    "hw_cr0 (st_vmx demo_host) OR cr_required1 lim' ! 0 = hw_cr0 (st_vmx demo_host)"
    "(hw_cr4 (st_vmx demo_host) OR X86_CR4_VMXE) AND cr_maybe1 lim' ! 1 = hw_cr4 (st_vmx demo_host) OR X86_CR4_VMXE"
    "(hw_cr4 (st_vmx demo_host) OR X86_CR4_VMXE) OR cr_required1 lim' ! 1 = hw_cr4 (st_vmx demo_host) OR X86_CR4_VMXE"
    by (simp_all add: lim demo_host_def)
  from hypervisor_transparent_to_linux [OF initial_gdt_ok demo_host_tss(1,2) init ok this]
  obtain cpu' where leaves: "init_leaves demo_setup_env demo_host h'" and d: "vcpu_deactivate_vmm (cd_cpu cd') =
      (cpu', sysenter_msrs (st_msr demo_host), linux_sp (cd_cpu demo_cd) + 48, linux_mem demo_setup_env (linux_sp (cd_cpu demo_cd) + 48))"
    "\<forall>g k. gdt_ok g \<and> st_gdtr k = st_gdtr h' \<longrightarrow>
      (\<exists>g' cd'' k'. arch_cpu_restore demo_setup_env g (cd'\<lparr>cd_cpu := cpu'\<rparr>) k = Some (g', cd'', k') \<and>
         gdt_ok g' \<and> vmx_state (cd_cpu cd'') = VMXOFF \<and>
         linux_view k' = linux_view demo_host \<and> not_restored demo_setup_env k k')"
    by blast
  have "linux_sp (cd_cpu demo_cd) + 48 = 0x8030" "linux_mem demo_setup_env 0x8030 = 0x9000"
    "st_msr demo_host = demo_msr"
    by (simp_all add: demo_host_def demo_cd_def demo_cpu_def demo_setup_env_def)
  then have "vcpu_deactivate_vmm (cd_cpu cd') = (cpu', sysenter_msrs demo_msr, 0x8030, 0x9000)"
    using d(1) by simp
  moreover obtain g' cd'' k' where
    "arch_cpu_restore demo_setup_env initial_gdt (cd'\<lparr>cd_cpu := cpu'\<rparr>) h' = Some (g', cd'', k')"
    "linux_view k' = linux_view demo_host" "not_restored demo_setup_env h' k'"
    using d(2) [rule_format, of initial_gdt h'] initial_gdt_ok by blast
  moreover from this(3) leaves have "st_ss k' = 0"
    by (simp add: not_restored_def init_leaves_def)
  ultimately show ?thesis
    by blast
qed

text \<open>C38. Tool and module speak the same language, but for one command: the requests that some run of the tool
  issues, on some system and for some command line, are exactly those that \<open>spy_ioctl\<close> serves, with the
  exception of \<open>load\<close>. The module serves it, but no run of the tool gets as far as to issue it.\<close>

theorem tool_module_commands:
  "(\<exists>env argv arg. Ioctl cmd arg \<in> set (fst (spy_main env argv))) \<longleftrightarrow> spy_ioctl cmd x = 0 \<and> cmd \<noteq> STR_LOAD"
proof
  assume "\<exists>env argv arg. Ioctl cmd arg \<in> set (fst (spy_main env argv))"
  then show "spy_ioctl cmd x = 0 \<and> cmd \<noteq> STR_LOAD"
    using commands.main_events by (fastforce simp: spy_ioctl_def hv_defs)
next
  assume "spy_ioctl cmd x = 0 \<and> cmd \<noteq> STR_LOAD"
  then show "\<exists>env argv arg. Ioctl cmd arg \<in> set (fst (spy_main env argv))"
    by (intro tool_issues) (auto simp: spy_ioctl_def hv_defs split: if_splits)
qed

text \<open>
  What the system call answers for the file operations of a device: \<open>-ENOTTY\<close> without an ioctl operation,
  otherwise the answer of the operation to the command, which the system call takes as 32 bits. The C
  library turns a negative answer into -1.
\<close>

definition kernel_ioctl :: "file_operations \<Rightarrow> tool_env \<Rightarrow> bool" where
  "kernel_ioctl fops env \<longleftrightarrow> (\<forall>cmd arg.
     case fop_unlocked_ioctl fops of
       None \<Rightarrow> env_ioctl env cmd arg = - 1
     | Some f \<Rightarrow> \<exists>p. env_ioctl env cmd arg =
         (let r = f (ucast (ucast cmd :: u32)) p in if r < 0 then - 1 else r))"

lemma kernel_refuses:
  assumes "kernel_ioctl fops env" "fops = spy_fops \<or> fops = spy_fops\<lparr>fop_unlocked_ioctl := Some spy_ioctl\<rparr>"
  shows "env_ioctl env cmd arg = - 1"
  using assms by (auto simp: kernel_ioctl_def spy_fops_def spy_ioctl_32bit Let_def)

text \<open>C37. No command of the tool gets through. The module registers no ioctl operation; and even if it
  registered \<open>spy_ioctl\<close>, the system call would hand it the command cut to 32 bits, which matches none of
  the hashes. So whatever the command line and the rest of the system, a run of the tool that issues a
  request to the device ends with exit status 1.\<close>

theorem tool_requests_refused:
  assumes "kernel_ioctl fops env" "fops = spy_fops \<or> fops = spy_fops\<lparr>fop_unlocked_ioctl := Some spy_ioctl\<rparr>"
    and "Ioctl cmd arg \<in> set (fst (spy_main env argv))"
  shows "snd (spy_main env argv) = Returns 1"
  using main_refused [of env argv] kernel_refuses [OF assms(1,2)] assms(3) by (auto dest: device_free_no_ioctl)

theorem tool_requests_refused_witness:
  "snd (spy_main \<lparr>env_file = \<lambda>_. Open_fails, env_dev_opens = True, env_ioctl = \<lambda>_ _. - 1,
     env_targets_dir = Inr [], env_malloc_ok = True\<rparr> [''spy'', ''disable'']) = Returns 1"
proof -
  let ?env = "\<lparr>env_file = \<lambda>_. Open_fails, env_dev_opens = True, env_ioctl = \<lambda>_ _. - 1,
     env_targets_dir = Inr [], env_malloc_ok = True\<rparr>"
  have "kernel_ioctl spy_fops ?env"
    by (simp add: kernel_ioctl_def spy_fops_def)
  moreover have "Ioctl STR_DISABLE No_arg \<in> set (fst (spy_main ?env [''spy'', ''disable'']))"
    by (simp add: spy_main_def strhash_commands dev_ioctl_def open_dev_def main_tail_def prog_defs Let_def)
  ultimately show ?thesis
    using tool_requests_refused by blast
qed

end
